(* ===== verification/Float64.thy ===== *)
theory Float64
  imports Complex_Main
begin

text \<open>
  Go's \<open>float64\<close>: IEEE 754 binary64 with round-to-nearest, ties-to-even. A value of type
  \<open>f64\<close> is a rational that rounding leaves unchanged, and each arithmetic operation is the
  exact rational operation followed by one rounding, as the hardware does it (amd64: no fused
  multiply-add). Gradual underflow is modelled (the exponent stops at -1074); the range is not
  bounded above, so a result beyond 1.8e308 is a large number here and not an infinity, and
  there is no NaN and no negative zero. The telemetry values of the program stay far inside.

  The lemmas give what the component proofs use of rounding: it is monotone, it keeps every
  representable value (integers up to \<open>2 ^ 53\<close> among them), and it changes a value by at most
  \<open>f64_ulp\<close> relatively (\<open>2 powi - 53\<close>) plus \<open>f64_eta\<close> absolutely.
\<close>

section \<open>Rounding to 53 bits\<close>

function nbits :: "int \<Rightarrow> int" where
  "nbits n = (if n \<le> 0 then 0 else 1 + nbits (n div 2))"
  by pat_completeness auto
termination
  by (relation "measure nat") auto

declare nbits.simps [simp del]

lemma nbits_bounds: "0 < n \<Longrightarrow> 0 < nbits n \<and> 2 ^ nat (nbits n - 1) \<le> n \<and> n < 2 ^ nat (nbits n)"
proof (induction n rule: nbits.induct)
  case (1 n)
  show ?case
  proof (cases "n = 1")
    case True
    then show ?thesis by (simp add: nbits.simps)
  next
    case False
    with "1.prems" have half: "0 < n div 2" by auto
    with "1.IH" "1.prems"
    have ih: "0 < nbits (n div 2)" "2 ^ nat (nbits (n div 2) - 1) \<le> n div 2"
      "n div 2 < 2 ^ nat (nbits (n div 2))" by auto
    define k where "k = nat (nbits (n div 2) - 1)"
    have k: "nat (nbits (n div 2)) = Suc k" using ih(1) by (simp add: k_def)
    have nb: "nbits n = 2 + int k"
      using "1.prems" ih(1) by (simp add: nbits.simps [of n] k_def)
    have "2 ^ k \<le> n div 2" "n div 2 < 2 * 2 ^ k" using ih k by (simp_all add: k_def)
    then have "2 * 2 ^ k \<le> n" "n < 4 * 2 ^ k" by linarith+
    moreover have "nat (1 + int k) = Suc k" "nat (2 + int k) = Suc (Suc k)" by simp_all
    ultimately show ?thesis by (simp add: nb)
  qed
qed

text \<open>The binade of a positive rational: the integer \<open>k\<close> with \<open>2 ^ k \<le> x < 2 ^ (k + 1)\<close>.\<close>

definition binade :: "rat \<Rightarrow> int" where
  "binade x = (case quotient_of x of (p, q) \<Rightarrow>
     let k = nbits p - nbits q in if 2 powi k \<le> x then k else k - 1)"

lemma powi_nat_rat: "0 \<le> k \<Longrightarrow> (2::rat) powi k = 2 ^ nat k"
  by (simp add: power_int_def)

lemma nbits_rat_bounds:
  assumes "0 < n"
  shows "(2::rat) powi (nbits n - 1) \<le> of_int n" and "of_int n < (2::rat) powi (nbits n)"
proof -
  from nbits_bounds [OF assms] have pos: "0 < nbits n"
    and lo: "2 ^ nat (nbits n - 1) \<le> n" and hi: "n < 2 ^ nat (nbits n)" by auto
  from lo have "of_int (2 ^ nat (nbits n - 1)) \<le> (of_int n :: rat)" by (simp only: of_int_le_iff)
  with pos show "(2::rat) powi (nbits n - 1) \<le> of_int n" by (simp add: powi_nat_rat)
  from hi have "(of_int n :: rat) < of_int (2 ^ nat (nbits n))" by (simp only: of_int_less_iff)
  with pos show "of_int n < (2::rat) powi (nbits n)" by (simp add: powi_nat_rat)
qed

lemma binade_bounds:
  assumes "0 < x"
  shows "2 powi (binade x) \<le> x \<and> x < 2 powi (binade x + 1)"
proof -
  obtain p q where pq: "quotient_of x = (p, q)" by force
  have q: "0 < q" using pq by (rule quotient_of_denom_pos)
  have x: "x = of_int p / of_int q" using pq by (rule quotient_of_div)
  have p: "0 < p" using assms q by (simp add: x zero_less_divide_iff)
  note bp = nbits_rat_bounds [OF p] and bq = nbits_rat_bounds [OF q]
  let ?k = "nbits p - nbits q"
  have "(2::rat) powi (nbits p - 1) / 2 powi (nbits q) \<le> of_int p / of_int q"
    using bp bq q p by (intro frac_le) auto
  then have lo: "2 powi (?k - 1) \<le> x" by (simp add: x flip: power_int_diff) (simp add: algebra_simps)
  have "of_int p / of_int q < (2::rat) powi (nbits p) / 2 powi (nbits q - 1)"
    using bp bq q by (intro frac_less) (auto simp: p less_imp_le)
  then have hi: "x < 2 powi (?k + 1)" by (simp add: x flip: power_int_diff) (simp add: algebra_simps)
  show ?thesis using lo hi by (auto simp: binade_def pq Let_def)
qed

lemma powi2_less_imp: "(2::rat) powi i < 2 powi j \<Longrightarrow> i < j"
  by (meson linorder_not_le not_less power_int_increasing one_le_numeral zero_neq_numeral)

lemma powi2_mono: "i \<le> j \<Longrightarrow> (2::rat) powi i \<le> 2 powi j"
  by (simp add: power_int_increasing)

lemma powi2_add: "(2::rat) powi (i + j) = 2 powi i * 2 powi j"
  by (simp add: power_int_add)

definition round_even :: "rat \<Rightarrow> int" where
  "round_even x = (let f = \<lfloor>x\<rfloor>; r = x - of_int f in
     if r < 1 / 2 then f else if r > 1 / 2 then f + 1 else if even f then f else f + 1)"

lemma round_even_of_int [simp]: "round_even (of_int n) = n"
  by (simp add: round_even_def)

lemma round_even_floor: "round_even x = \<lfloor>x\<rfloor> \<or> round_even x = \<lfloor>x\<rfloor> + 1"
  by (auto simp: round_even_def Let_def)

lemma round_even_mono: "x \<le> y \<Longrightarrow> round_even x \<le> round_even y"
proof (cases "\<lfloor>x\<rfloor> = \<lfloor>y\<rfloor>")
  case True
  then show "x \<le> y \<Longrightarrow> round_even x \<le> round_even y" by (auto simp: round_even_def Let_def)
next
  case False
  then show "x \<le> y \<Longrightarrow> round_even x \<le> round_even y"
    using round_even_floor [of x] round_even_floor [of y] floor_mono [of x y] by linarith
qed

lemma round_even_le_int: "x \<le> of_int n \<Longrightarrow> round_even x \<le> n"
  using round_even_mono [of x "of_int n"] by simp

lemma round_even_ge_int: "of_int n \<le> x \<Longrightarrow> n \<le> round_even x"
  using round_even_mono [of "of_int n" x] by simp

lemma round_even_error: "\<bar>of_int (round_even x) - x\<bar> \<le> 1 / 2"
proof -
  have "of_int \<lfloor>x\<rfloor> \<le> x" "x < of_int \<lfloor>x\<rfloor> + 1" by linarith+
  then show ?thesis by (auto simp: round_even_def Let_def)
qed

text \<open>The exponent of the last mantissa bit, and rounding of a positive rational at that bit.\<close>

definition expo :: "rat \<Rightarrow> int" where
  "expo x = max (binade x - 52) (- 1074)"

definition rndp :: "rat \<Rightarrow> rat" where
  "rndp x = (if x \<le> 0 then 0
     else of_int (round_even (x / 2 powi (expo x))) * 2 powi (expo x))"

text \<open>
  The same functions in a form that is fast to evaluate: powers of two by halving, the number of bits in
  steps of 32 and 8, and no arithmetic on rationals with large denominators.
\<close>

function pow2 :: "int \<Rightarrow> int" where
  "pow2 k = (if k \<le> 0 then 1 else let h = pow2 (k div 2) in if k mod 2 = 0 then h * h else 2 * (h * h))"
  by pat_completeness auto
termination
  by (relation "measure nat") auto

declare pow2.simps [simp del]

lemma pow2_eq: "pow2 k = 2 ^ nat k"
proof (induction k rule: pow2.induct)
  case (1 k)
  show ?case
  proof (cases "k \<le> 0")
    case False
    define h where "h = nat (k div 2)"
    have "0 \<le> k div 2" using False by simp
    then have "int (nat k) = int (2 * h + nat (k mod 2))" using False by (simp add: h_def)
    then have "nat k = 2 * h + nat (k mod 2)" by (simp only: of_nat_eq_iff)
    then have "(2::int) ^ nat k = 2 ^ h * 2 ^ h * 2 ^ nat (k mod 2)" by (simp add: power_add mult_2)
    moreover have "pow2 (k div 2) = 2 ^ h" using "1.IH" False by (simp add: h_def)
    moreover have "k mod 2 = 0 \<or> k mod 2 = 1" by linarith
    ultimately show ?thesis using False by (subst pow2.simps) (auto simp: Let_def)
  qed (subst pow2.simps, simp)
qed

lemma nbits_step: "2 ^ k \<le> n \<Longrightarrow> nbits n = int k + nbits (n div 2 ^ k)"
proof (induction k arbitrary: n)
  case (Suc k)
  then have "2 ^ k \<le> n div 2" "0 < n" by (simp_all add: order.strict_trans2 [of 0 "2 * 2 ^ k"])
  moreover have "n div 2 div 2 ^ k = n div 2 ^ Suc k" by (simp add: zdiv_zmult2_eq [symmetric])
  ultimately show ?case using Suc.IH [of "n div 2"] by (subst nbits.simps) simp
qed simp

lemma nbits_code [code]:
  "nbits n = (if n \<ge> 4294967296 then 32 + nbits (n div 4294967296)
     else if n \<ge> 256 then 8 + nbits (n div 256) else if n \<le> 0 then 0 else 1 + nbits (n div 2))"
  using nbits_step [of 32 n] nbits_step [of 8 n] nbits.simps [of n] by simp

lemma powi_pow2: "2 powi k = (if 0 \<le> k then of_int (pow2 k) else 1 / of_int (pow2 (- k)) :: rat)"
  by (simp add: pow2_eq power_int_def inverse_eq_divide power_one_over)

lemma binade_code [code]:
  "binade x = (case quotient_of x of (p, q) \<Rightarrow>
     let k = nbits p - nbits q in
     if (if 0 \<le> k then q * pow2 k \<le> p else q \<le> p * pow2 (- k)) then k else k - 1)"
proof (cases "quotient_of x")
  case (Pair p q)
  then have q: "0 < q" "x = of_int p / of_int q" by (simp_all add: quotient_of_denom_pos quotient_of_div)
  have pos: "0 < pow2 j" for j by (simp add: pow2_eq)
  have "2 powi k \<le> x \<longleftrightarrow> (if 0 \<le> k then q * pow2 k \<le> p else q \<le> p * pow2 (- k))" for k
  proof (cases "0 \<le> k")
    case True
    have "of_int (pow2 k) \<le> (of_int p / of_int q :: rat) \<longleftrightarrow> (of_int (q * pow2 k) :: rat) \<le> of_int p"
      using q(1) by (simp add: field_simps)
    then show ?thesis using True by (simp add: powi_pow2 q(2) del: of_int_mult)
  next
    case False
    have "1 / of_int (pow2 (- k)) \<le> (of_int p / of_int q :: rat) \<longleftrightarrow> (of_int q :: rat) \<le> of_int (p * pow2 (- k))"
      using q(1) pos [of "- k"] by (simp add: field_simps)
    then show ?thesis using False by (simp add: powi_pow2 q(2) del: of_int_mult)
  qed
  then show ?thesis by (simp add: binade_def Pair Let_def)
qed

lemma rndp_code [code]:
  "rndp x = (if x \<le> 0 then 0 else
     let e = expo x in
     if 0 \<le> e then of_int (round_even (x / of_int (pow2 e)) * pow2 e)
     else let d = pow2 (- e) in of_int (round_even (x * of_int d)) / of_int d)"
  by (simp add: rndp_def Let_def powi_pow2)

lemma expo_ge: "- 1074 \<le> expo x"
  by (simp add: expo_def)

lemma rndp_fix_less:
  assumes "0 \<le> m" "m < 2 ^ 53" "- 1074 \<le> k"
  shows "rndp (of_int m * 2 powi k) = of_int m * 2 powi k"
proof (cases "m = 0")
  case False
  with assms have m: "0 < m" by simp
  define x :: rat where "x = of_int m * 2 powi k"
  have x: "0 < x" using m by (simp add: x_def)
  have "of_int m < (of_int (2 ^ 53) :: rat)" using assms(2) by (simp only: of_int_less_iff)
  then have "x < 2 powi 53 * 2 powi k" using x by (simp add: x_def power_int_def)
  then have "2 powi (binade x) < (2::rat) powi (53 + k)"
    using binade_bounds [OF x] by (simp add: power_int_add)
  then have "binade x < 53 + k" by (rule powi2_less_imp)
  with assms(3) have e: "expo x \<le> k" by (simp add: expo_def)
  have "x / 2 powi (expo x) = of_int (m * 2 ^ nat (k - expo x))"
    using e by (simp add: x_def power_int_diff flip: powi_nat_rat)
  then have "rndp x = x / 2 powi (expo x) * 2 powi (expo x)"
    using x by (simp only: rndp_def round_even_of_int) simp
  then show ?thesis by (simp add: x_def)
qed (simp add: rndp_def)

lemma rndp_fix:
  assumes "0 \<le> m" "m \<le> 2 ^ 53" "- 1074 \<le> k"
  shows "rndp (of_int m * 2 powi k) = of_int m * 2 powi k"
proof (cases "m = 2 ^ 53")
  case True
  have "of_int m * (2::rat) powi k = of_int (2 ^ 52) * 2 powi (k + 1)"
    by (simp add: True power_int_add)
  with rndp_fix_less [of "2 ^ 52" "k + 1"] assms(3) show ?thesis by simp
next
  case False
  with assms show ?thesis by (intro rndp_fix_less) auto
qed

lemma rndp_shape: "\<exists>m k. 0 \<le> m \<and> m \<le> 2 ^ 53 \<and> - 1074 \<le> k \<and> rndp x = of_int m * 2 powi k"
proof (cases "x \<le> 0")
  case True
  then show ?thesis by (intro exI [of _ 0]) (simp add: rndp_def)
next
  case False
  then have x: "0 < x" by simp
  let ?m = "round_even (x / 2 powi (expo x))"
  have "binade x + 1 \<le> 53 + expo x" by (simp add: expo_def)
  then have "x < 2 powi (53 + expo x)"
    using binade_bounds [OF x] powi2_mono [of "binade x + 1" "53 + expo x"] by linarith
  then have "x / 2 powi (expo x) < of_int (2 ^ 53)"
    by (simp add: powi2_add field_simps powi_nat_rat)
  then have "?m \<le> 2 ^ 53" by (intro round_even_le_int) simp
  moreover have "0 \<le> ?m" using x by (intro round_even_ge_int) simp
  ultimately show ?thesis using expo_ge [of x] x by (auto simp: rndp_def)
qed

lemma rndp_idem [simp]: "rndp (rndp x) = rndp x"
  using rndp_shape [of x] rndp_fix by auto

lemma rndp_nonneg [simp]: "0 \<le> rndp x"
  using rndp_shape [of x] by auto

lemma binade_mono:
  assumes "0 < x" "x \<le> y"
  shows "binade x \<le> binade y"
proof -
  have "2 powi (binade x) < (2::rat) powi (binade y + 1)"
    using binade_bounds [of x] binade_bounds [of y] assms by linarith
  then show ?thesis using powi2_less_imp by force
qed

lemma rndp_mono:
  assumes "x \<le> y"
  shows "rndp x \<le> rndp y"
proof (cases "x \<le> 0")
  case True
  then show ?thesis by (simp add: rndp_def [of x])
next
  case False
  with assms have x: "0 < x" and y: "0 < y" by auto
  note b = binade_mono [OF x assms]
  show ?thesis
  proof (cases "expo x = expo y")
    case True
    have "x / 2 powi (expo y) \<le> y / 2 powi (expo y)" using assms by (simp add: divide_right_mono)
    then show ?thesis using x y by (simp add: rndp_def True round_even_mono)
  next
    case False
    with b have ey: "expo y = binade y - 52" and ex: "expo x < expo y" and bb: "binade x < binade y"
      by (auto simp: expo_def)
    have "x < 2 powi (binade y)"
      using binade_bounds [OF x] powi2_mono [of "binade x + 1" "binade y"] bb by simp
    then have "x / 2 powi (expo x) \<le> of_int (2 ^ nat (binade y - expo x))"
      using ex ey by (simp add: power_int_diff divide_right_mono less_imp_le flip: powi_nat_rat)
    then have "of_int (round_even (x / 2 powi (expo x))) \<le> (of_int (2 ^ nat (binade y - expo x)) :: rat)"
      using round_even_le_int by (simp only: of_int_le_iff)
    then have "rndp x \<le> of_int (2 ^ nat (binade y - expo x)) * 2 powi (expo x)"
      using x by (simp only: rndp_def) (simp add: mult_right_mono)
    also have "\<dots> = 2 powi (binade y)"
      using ex ey by (simp add: power_int_diff flip: powi_nat_rat)
    also have "\<dots> \<le> rndp y"
    proof -
      have pw: "of_int (2 ^ 52) * (2::rat) powi (expo y) = 2 powi (binade y)"
        using powi2_add [of 52 "expo y"] by (simp add: ey)
      have "of_int (2 ^ 52) \<le> y / 2 powi (expo y)"
        using pw binade_bounds [OF y] by (simp add: pos_le_divide_eq)
      then have "of_int (2 ^ 52) \<le> (of_int (round_even (y / 2 powi (expo y))) :: rat)"
        using round_even_ge_int by (simp only: of_int_le_iff)
      then have "of_int (2 ^ 52) * 2 powi (expo y) \<le> rndp y"
        using y by (simp only: rndp_def) (simp add: mult_right_mono)
      then show ?thesis by (simp only: pw)
    qed
    finally show ?thesis .
  qed
qed

text \<open>The error of any rounding: half a unit of the 53rd bit, or half the smallest subnormal.\<close>

definition f64_ulp :: rat where
  "f64_ulp = 2 powi (- 53)"

definition f64_eta :: rat where
  "f64_eta = 2 powi (- 1075)"

lemma f64_eta_pos: "0 < f64_eta"
  unfolding f64_eta_def by (simp only: zero_less_power_int zero_less_numeral)

lemma f64_ulp_bounds: "0 < f64_ulp" "f64_ulp \<le> 1 / 64" "f64_eta \<le> f64_ulp * f64_ulp"
proof -
  show "0 < f64_ulp" by (simp add: f64_ulp_def)
  have "f64_ulp \<le> 2 powi (- 6)" unfolding f64_ulp_def by (rule powi2_mono) simp
  then show "f64_ulp \<le> 1 / 64" by (simp add: power_int_def power_divide)
  show "f64_eta \<le> f64_ulp * f64_ulp"
    unfolding f64_eta_def f64_ulp_def powi2_add [symmetric] by (rule powi2_mono) simp
qed

lemma rndp_error_any:
  assumes "0 \<le> x"
  shows "\<bar>rndp x - x\<bar> \<le> x * f64_ulp + f64_eta"
proof (cases "x = 0")
  case False
  with assms have x: "0 < x" by simp
  let ?s = "(2::rat) powi (expo x)"
  have "rndp x - x = (of_int (round_even (x / ?s)) - x / ?s) * ?s"
    using x by (simp add: rndp_def left_diff_distrib)
  then have err: "\<bar>rndp x - x\<bar> \<le> 1 / 2 * ?s"
    using round_even_error [of "x / ?s"] by (simp add: abs_mult mult_right_mono)
  have half: "1 / 2 * (2::rat) powi k = 2 powi (k - 1)" for k
    using powi2_add [of "- 1" k] by (simp add: algebra_simps)
  show ?thesis
  proof (cases "binade x - 52 \<ge> - 1074")
    case True
    then have "expo x - 1 = binade x + - 53" by (simp add: expo_def)
    then have "1 / 2 * ?s = 2 powi (binade x) * f64_ulp"
      by (simp only: half powi2_add f64_ulp_def)
    also have "\<dots> \<le> x * f64_ulp"
      using binade_bounds [OF x] f64_ulp_bounds(1) by (intro mult_right_mono) auto
    finally show ?thesis using err f64_eta_pos by linarith
  next
    case False
    then have "1 / 2 * ?s = f64_eta" by (simp only: half) (simp add: expo_def f64_eta_def)
    moreover have "0 \<le> x * f64_ulp" using x f64_ulp_bounds(1) by simp
    ultimately show ?thesis using err by linarith
  qed
qed (simp add: rndp_def less_imp_le [OF f64_eta_pos])

section \<open>The type and its operations\<close>

text \<open>Rounding is symmetric: a negative value rounds as the mirror image of its absolute value.\<close>

definition rnd64 :: "rat \<Rightarrow> rat" where
  "rnd64 x = (if x < 0 then - rndp (- x) else rndp x)"

lemma rndp_neg: "x \<le> 0 \<Longrightarrow> rndp x = 0"
  by (simp add: rndp_def)

lemma rnd64_0 [simp]: "rnd64 0 = 0"
  by (simp add: rnd64_def rndp_def)

lemma rnd64_minus: "rnd64 (- x) = - rnd64 x"
  by (auto simp: rnd64_def rndp_neg)

lemma rnd64_nonneg_eq: "0 \<le> x \<Longrightarrow> rnd64 x = rndp x"
  by (simp add: rnd64_def)

lemma rnd64_idem [simp]: "rnd64 (rnd64 x) = rnd64 x"
proof (cases "x < 0")
  case True
  then have "rnd64 x = - rndp (- x)" by (simp add: rnd64_def)
  then show ?thesis by (simp add: rnd64_minus rnd64_nonneg_eq)
qed (simp add: rnd64_nonneg_eq)

lemma rnd64_mono: "x \<le> y \<Longrightarrow> rnd64 x \<le> rnd64 y"
  by (auto simp: rnd64_def intro: rndp_mono order_trans [OF _ rndp_nonneg])

lemma rnd64_nonneg: "0 \<le> x \<Longrightarrow> 0 \<le> rnd64 x"
  using rnd64_mono [of 0 x] by simp

lemma rnd64_of_int: "\<bar>n\<bar> \<le> 2 ^ 53 \<Longrightarrow> rnd64 (of_int n) = of_int n"
  using rndp_fix [of n 0] rndp_fix [of "- n" 0] by (auto simp: rnd64_def)

lemma rnd64_bounds:
  assumes "0 \<le> x"
  shows "x * (1 - f64_ulp) - f64_eta \<le> rnd64 x" "rnd64 x \<le> x * (1 + f64_ulp) + f64_eta"
  using rndp_error_any [OF assms] assms by (simp_all add: rnd64_nonneg_eq algebra_simps abs_le_iff)

typedef f64 = "{x. rnd64 x = x}" morphisms fval Abs_f64
  by (rule exI [of _ 0]) simp

setup_lifting type_definition_f64

lemma rnd64_fval [simp]: "rnd64 (fval x) = fval x"
  using fval [of x] by simp

lemma fval_inject' [simp]: "fval x = fval y \<longleftrightarrow> x = y"
  by (rule fval_inject)

text \<open>The \<open>float64\<close> nearest to a rational: Go's constants and its integer conversions.\<close>

lift_definition fl :: "rat \<Rightarrow> f64" is rnd64
  by simp

definition of_go_int :: "int \<Rightarrow> f64" where
  "of_go_int n = fl (of_int n)"

instantiation f64 :: "{zero, one, plus, minus, uminus, times, inverse, abs}"
begin

lift_definition zero_f64 :: f64 is 0
  by simp

lift_definition one_f64 :: f64 is 1
  using rnd64_of_int [of 1] by simp

lift_definition plus_f64 :: "f64 \<Rightarrow> f64 \<Rightarrow> f64" is "\<lambda>a b. rnd64 (a + b)"
  by simp

lift_definition minus_f64 :: "f64 \<Rightarrow> f64 \<Rightarrow> f64" is "\<lambda>a b. rnd64 (a - b)"
  by simp

lift_definition uminus_f64 :: "f64 \<Rightarrow> f64" is "uminus"
  by (simp add: rnd64_minus)

lift_definition times_f64 :: "f64 \<Rightarrow> f64 \<Rightarrow> f64" is "\<lambda>a b. rnd64 (a * b)"
  by simp

lift_definition divide_f64 :: "f64 \<Rightarrow> f64 \<Rightarrow> f64" is "\<lambda>a b. rnd64 (a / b)"
  by simp

lift_definition inverse_f64 :: "f64 \<Rightarrow> f64" is "\<lambda>a. rnd64 (1 / a)"
  by simp

lift_definition abs_f64 :: "f64 \<Rightarrow> f64" is "abs"
  by (auto simp: abs_if rnd64_minus)

instance ..

end

instantiation f64 :: linorder
begin

lift_definition less_eq_f64 :: "f64 \<Rightarrow> f64 \<Rightarrow> bool" is "(\<le>)" .

lift_definition less_f64 :: "f64 \<Rightarrow> f64 \<Rightarrow> bool" is "(<)" .

instance
  by standard (transfer; auto)+

end

instantiation f64 :: equal
begin

lift_definition equal_f64 :: "f64 \<Rightarrow> f64 \<Rightarrow> bool" is "(=)" .

instance
  by standard (transfer; auto)

end

lemma fval_simps [simp]:
  "fval 0 = 0" "fval 1 = 1" "fval (fl x) = rnd64 x" "fval (- a) = - fval a" "fval \<bar>a\<bar> = \<bar>fval a\<bar>"
  by (transfer; simp)+

lemma fval_arith:
  "fval (a + b) = rnd64 (fval a + fval b)" "fval (a - b) = rnd64 (fval a - fval b)"
  "fval (a * b) = rnd64 (fval a * fval b)" "fval (a / b) = rnd64 (fval a / fval b)"
  by (transfer; simp)+

lemma f64_le_iff: "a \<le> b \<longleftrightarrow> fval a \<le> fval b"
  by transfer simp

lemma f64_less_iff: "a < b \<longleftrightarrow> fval a < fval b"
  by transfer simp

lemma fl_fval [simp]: "fl (fval x) = x"
  by transfer simp

lemma fl_mono: "x \<le> y \<Longrightarrow> fl x \<le> fl y"
  by (simp add: f64_le_iff rnd64_mono)

lemma fl_le_iff_fval: "x \<le> fval a \<Longrightarrow> fl x \<le> a"
  using fl_mono [of x "fval a"] by simp

lemma fl_ge_iff_fval: "fval a \<le> x \<Longrightarrow> a \<le> fl x"
  using fl_mono [of "fval a" x] by simp

lemma fval_of_go_int: "\<bar>n\<bar> \<le> 2 ^ 53 \<Longrightarrow> fval (of_go_int n) = of_int n"
  by (simp add: of_go_int_def rnd64_of_int)

lemma of_go_int_mono: "m \<le> n \<Longrightarrow> of_go_int m \<le> of_go_int n"
  by (simp add: of_go_int_def fl_mono)

lemma fl_0 [simp]: "fl 0 = 0"
  by (simp flip: fval_inject')

lemma f64_zero_le: "0 \<le> a \<longleftrightarrow> 0 \<le> fval a"
  by (simp add: f64_le_iff)

lemma f64_mult_commute: "a * b = b * a" for a b :: f64
  by (simp flip: fval_inject' add: fval_arith mult.commute)

lemma f64_mult_mono: "a \<le> b \<Longrightarrow> 0 \<le> c \<Longrightarrow> a * c \<le> b * c" for a b c :: f64
  by (simp add: f64_le_iff fval_arith rnd64_mono mult_right_mono)

lemma f64_divide_mono: "a \<le> b \<Longrightarrow> 0 \<le> c \<Longrightarrow> a / c \<le> b / c" for a b c :: f64
  by (simp add: f64_le_iff fval_arith rnd64_mono divide_right_mono)

lemma f64_add_mono: "a \<le> b \<Longrightarrow> c \<le> d \<Longrightarrow> a + c \<le> b + d" for a b c d :: f64
  by (simp add: f64_le_iff fval_arith rnd64_mono add_mono)

lemma f64_nonneg_intros:
  "0 \<le> a \<Longrightarrow> 0 \<le> b \<Longrightarrow> 0 \<le> a + b" "0 \<le> a \<Longrightarrow> 0 \<le> b \<Longrightarrow> 0 \<le> a * b"
  "0 \<le> a \<Longrightarrow> 0 \<le> b \<Longrightarrow> 0 \<le> a / b" "0 \<le> \<bar>a\<bar>" for a b :: f64
  by (simp_all add: f64_le_iff fval_arith rnd64_nonneg)

section \<open>Conversions and the rounding helpers of the code\<close>

text \<open>
  \<open>int(math.Floor(v))\<close>, \<open>int(math.Ceil(v))\<close> and \<open>int(v)\<close> (towards zero); \<open>math.Round\<close>
  rounds half away from zero. The packages spike, stats, analyzer and sampler define the same
  \<open>round2\<close>; agent and proctop define a truncating one.
\<close>

definition go_floor :: "f64 \<Rightarrow> int" where
  "go_floor v = \<lfloor>fval v\<rfloor>"

definition go_ceil :: "f64 \<Rightarrow> int" where
  "go_ceil v = \<lceil>fval v\<rceil>"

definition go_trunc :: "f64 \<Rightarrow> int" where
  "go_trunc v = (if fval v < 0 then \<lceil>fval v\<rceil> else \<lfloor>fval v\<rfloor>)"

definition math_round :: "f64 \<Rightarrow> f64" where
  "math_round v = (if fval v < 0 then - of_go_int \<lfloor>- fval v + 1 / 2\<rfloor>
     else of_go_int \<lfloor>fval v + 1 / 2\<rfloor>)"

definition math_ceil :: "f64 \<Rightarrow> f64" where
  "math_ceil v = of_go_int (go_ceil v)"

definition math_floor :: "f64 \<Rightarrow> f64" where
  "math_floor v = of_go_int (go_floor v)"

definition round2 :: "f64 \<Rightarrow> f64" where
  "round2 v = math_round (v * fl 100) / fl 100"

definition round1 :: "f64 \<Rightarrow> f64" where
  "round1 v = math_round (v * fl 10) / fl 10"

definition round2f :: "f64 \<Rightarrow> f64" where
  "round2f v = of_go_int (go_trunc (v * fl 100)) / fl 100"

lemma f64_uminus_le: "- a \<le> - b \<longleftrightarrow> b \<le> a" for a b :: f64
  by (simp add: f64_le_iff)

lemma of_go_int_nonneg: "0 \<le> n \<Longrightarrow> 0 \<le> of_go_int n"
  using of_go_int_mono [of 0 n] by (simp add: of_go_int_def)

lemma math_round_mono: "a \<le> b \<Longrightarrow> math_round a \<le> math_round b"
proof -
  assume ab: "a \<le> b"
  consider "fval b < 0" | "fval a < 0" "0 \<le> fval b" | "0 \<le> fval a" by linarith
  then show ?thesis
  proof cases
    case 1
    with ab show ?thesis
      by (auto simp: math_round_def f64_le_iff f64_uminus_le intro!: rnd64_mono floor_mono of_go_int_mono)
        (simp add: of_go_int_def rnd64_mono floor_mono)
  next
    case 2
    then have "0 \<le> of_go_int \<lfloor>- fval a + 1 / 2\<rfloor>" "0 \<le> of_go_int \<lfloor>fval b + 1 / 2\<rfloor>"
      by (simp_all add: of_go_int_nonneg)
    with 2 show ?thesis by (simp add: math_round_def f64_le_iff)
  next
    case 3
    with ab show ?thesis
      by (auto simp: math_round_def f64_le_iff of_go_int_def intro!: rnd64_mono floor_mono)
  qed
qed

lemma round2_mono: "a \<le> b \<Longrightarrow> round2 a \<le> round2 b"
  unfolding round2_def
  by (intro f64_divide_mono math_round_mono f64_mult_mono) (simp_all add: f64_zero_le rnd64_nonneg)

lemma round1_mono: "a \<le> b \<Longrightarrow> round1 a \<le> round1 b"
  unfolding round1_def
  by (intro f64_divide_mono math_round_mono f64_mult_mono) (simp_all add: f64_zero_le rnd64_nonneg)

lemma round2_0 [simp]: "round2 0 = 0"
  by code_simp

lemma round2_nonneg: "0 \<le> a \<Longrightarrow> 0 \<le> round2 a"
  using round2_mono [of 0 a] by simp

end
