(* ===== verification/UraPrelude.thy ===== *)
theory UraPrelude
  imports Float64 "HOL-Library.AList" "HOL-Library.List_Lexorder" "HOL-Library.Char_ord"
    "HOL-Library.Sublist" "HOL-Library.Multiset" "HOL-Library.Word" "HOL-Library.Signed_Division"
begin

text \<open>
  What the component theories share: the names of Go's types in the model, the pieces of
  \<open>fmt\<close>, \<open>strings\<close> and \<open>time\<close> of the Go standard library that the code uses, and generic
  lemmas on lists.

  A Go string is its list of bytes. A Go map that the code only looks up is a partial function or
  an association list; a map the code ranges over is an association list with distinct keys, whose
  order stands for the iteration order the runtime happens to choose. Go's \<open>int\<close> and \<open>int64\<close>
  are \<open>int\<close> (no counter of the program comes near \<open>2 ^ 63\<close>), \<open>uint64\<close> is \<open>64 word\<close>.
\<close>

type_synonym u64 = "64 word"
type_synonym ('k, 'v) go_map = "('k \<times> 'v) list"

named_theorems go_defs "definitions of standard-library pieces, for evaluation"

section \<open>Unsigned integers\<close>

definition of_u64 :: "u64 \<Rightarrow> f64" where
  "of_u64 w = of_go_int (uint w)"

lemma of_u64_mono: "a \<le> b \<Longrightarrow> of_u64 a \<le> of_u64 b"
  by (simp add: of_u64_def of_go_int_mono word_le_def)

lemma fval_of_u64: "fval (of_u64 w) = rnd64 (of_int (uint w))"
  by (simp add: of_u64_def of_go_int_def)

lemma of_u64_nonneg: "0 \<le> fval (of_u64 w)"
  unfolding fval_of_u64 by (rule rnd64_nonneg) (simp only: of_int_0_le_iff uint_ge_0)

section \<open>Lists\<close>

lemma sorted_wrt_nth_mono:
  assumes "sorted xs" "i \<le> j" "j < length xs"
  shows "xs ! i \<le> xs ! j"
  using assms by (simp add: sorted_nth_mono)

lemma length_filter_le_one: "length (filter P xs) \<le> length xs"
  by simp

lemma filter_eq_Cons_mem: "filter P xs = y # ys \<Longrightarrow> y \<in> set xs \<and> P y"
  using filter_eq_ConsD [of P xs y ys] by auto

lemma last_take_nth: "0 < n \<Longrightarrow> n \<le> length xs \<Longrightarrow> last (take n xs) = xs ! (n - 1)"
  by (cases n) (simp_all add: take_Suc_conv_app_nth)

lemma set_drop_last: "set (drop n xs) \<subseteq> set xs"
  by (rule set_drop_subset)

text \<open>\<open>for _, x := range xs { if !seen[x] ... }\<close>: keep the first occurrence of each key.\<close>

fun dedup_by :: "('a \<Rightarrow> 'k) \<Rightarrow> 'k list \<Rightarrow> 'a list \<Rightarrow> 'a list" where
  "dedup_by f seen [] = []"
| "dedup_by f seen (x # xs) =
     (if f x \<in> set seen then dedup_by f seen xs else x # dedup_by f (f x # seen) xs)"

lemma dedup_by_subset: "set (dedup_by f seen xs) \<subseteq> set xs"
  by (induction f seen xs rule: dedup_by.induct) auto

lemma dedup_by_distinct:
  "distinct (map f (dedup_by f seen xs)) \<and> f ` set (dedup_by f seen xs) \<inter> set seen = {}"
  by (induction f seen xs rule: dedup_by.induct) auto

lemma dedup_by_keys: "f ` set (dedup_by f seen xs) = f ` set xs - set seen"
  by (induction f seen xs rule: dedup_by.induct) auto

text \<open>Rearranging the outer list of a concatenation, and distinctness of a part of a list.\<close>

lemma mset_concat_map: "mset (concat (map f xs)) = (\<Sum>x\<in>#mset xs. mset (f x))"
  by (induction xs) auto

lemma mset_concat_map_cong: "mset xs = mset ys \<Longrightarrow> mset (concat (map f xs)) = mset (concat (map f ys))"
  by (simp only: mset_concat_map)

lemma distinct_submset:
  assumes "mset xs \<subseteq># mset ys" "distinct ys"
  shows "distinct xs"
proof -
  have "count (mset xs) a = (if a \<in> set xs then 1 else 0)" for a
  proof (cases "a \<in> set xs")
    case True
    then have "0 < count (mset xs) a" by simp
    moreover have "count (mset ys) a \<le> 1"
      using assms(2) by (cases "a \<in> set ys") (simp_all add: distinct_count_atmost_1 count_mset_0_iff)
    moreover have "count (mset xs) a \<le> count (mset ys) a" by (rule mset_subset_eq_count [OF assms(1)])
    ultimately have "count (mset xs) a = 1" by linarith
    with True show ?thesis by simp
  qed (simp add: count_mset_0_iff)
  then show ?thesis by (simp add: distinct_count_atmost_1)
qed

section \<open>Strings\<close>

definition digit_char :: "int \<Rightarrow> char" where
  "digit_char d = char_of (48 + nat d)"

function dec_digits :: "int \<Rightarrow> string" where
  "dec_digits n = (if n < 10 then [digit_char n] else dec_digits (n div 10) @ [digit_char (n mod 10)])"
  by pat_completeness auto
termination
  by (relation "measure nat") auto

declare dec_digits.simps [simp del]

text \<open>\<open>%d\<close>, and \<open>%0kd\<close> of a non-negative number.\<close>

definition fmt_d :: "int \<Rightarrow> string" where
  "fmt_d n = (if n < 0 then CHR ''-'' # dec_digits (- n) else dec_digits n)"

definition pad0 :: "nat \<Rightarrow> string \<Rightarrow> string" where
  "pad0 k s = replicate (k - length s) (CHR ''0'') @ s"

definition fmt_0d :: "nat \<Rightarrow> int \<Rightarrow> string" where
  "fmt_0d k n = pad0 k (fmt_d n)"

text \<open>The value of a decimal numeral: printing is injective.\<close>

definition dec_value :: "string \<Rightarrow> int" where
  "dec_value s = foldl (\<lambda>v c. 10 * v + (int (of_char c :: nat) - 48)) 0 s"

lemma digit_char_value: "0 \<le> d \<Longrightarrow> d < 10 \<Longrightarrow> int (of_char (digit_char d) :: nat) = 48 + d"
  by (simp add: digit_char_def)

lemma dec_value_digits: "0 \<le> n \<Longrightarrow> dec_value (dec_digits n) = n"
proof (induction n rule: dec_digits.induct)
  case (1 n)
  show ?case
  proof (cases "n < 10")
    case True
    then show ?thesis using "1.prems" digit_char_value [of n]
      by (subst dec_digits.simps) (simp add: dec_value_def)
  next
    case False
    have "dec_value (dec_digits (n div 10) @ [digit_char (n mod 10)]) = 10 * (n div 10) + n mod 10"
      using "1.IH" [OF False] "1.prems" digit_char_value [of "n mod 10"]
      by (simp add: dec_value_def)
    then show ?thesis using False by (subst dec_digits.simps) simp
  qed
qed

lemma dec_value_pad0: "dec_value (pad0 k s) = dec_value s"
proof -
  have "foldl (\<lambda>v c. 10 * v + (int (of_char c :: nat) - 48)) 0 (replicate m (CHR ''0'')) = 0" for m
    by (induction m) simp_all
  then show ?thesis by (simp add: dec_value_def pad0_def)
qed

lemma fmt_0d_inj: "0 \<le> m \<Longrightarrow> 0 \<le> n \<Longrightarrow> fmt_0d k m = fmt_0d k n \<Longrightarrow> m = n"
  by (metis dec_value_digits dec_value_pad0 fmt_0d_def fmt_d_def not_less)

text \<open>\<open>%.kf\<close>: the exact binary value rounded to \<open>k\<close> decimals, ties to even.\<close>

definition fmt_f :: "nat \<Rightarrow> f64 \<Rightarrow> string" where
  "fmt_f k v =
     (let m = round_even (\<bar>fval v\<bar> * 10 ^ k); s = pad0 (Suc k) (dec_digits m); n = length s - k in
      (if fval v < 0 then ''-'' else []) @ take n s @ (if k = 0 then [] else ''.'' @ drop n s))"

text \<open>\<open>strings.Split(s, sep)\<close> for a separator of one byte.\<close>

fun split_on :: "char \<Rightarrow> string \<Rightarrow> string list" where
  "split_on c [] = [[]]"
| "split_on c (x # xs) = (if x = c then [] # split_on c xs
     else (case split_on c xs of [] \<Rightarrow> [[x]] | w # ws \<Rightarrow> (x # w) # ws))"

lemma split_on_line: "c \<notin> set l \<Longrightarrow> split_on c (l @ c # s) = l # split_on c s"
  by (induction l) auto

lemma split_on_nonempty [simp]: "split_on c s \<noteq> []"
  by (induction s) (auto split: list.splits)

text \<open>Bytes outside ASCII in the code's messages, in UTF-8.\<close>

definition em_dash :: string where
  "em_dash = [CHR 0xE2, CHR 0x80, CHR 0x94]"

definition en_dash :: string where
  "en_dash = [CHR 0xE2, CHR 0x80, CHR 0x93]"

definition le_sign :: string where
  "le_sign = [CHR 0xE2, CHR 0x89, CHR 0xA4]"

definition approx_sign :: string where
  "approx_sign = [CHR 0xE2, CHR 0x89, CHR 0x88]"

definition times_sign :: string where
  "times_sign = [CHR 0xC3, CHR 0x97]"

section \<open>Time\<close>

text \<open>
  A \<open>time.Time\<close> is its instant, in nanoseconds since 1 January of year 1, 00:00 UTC, so that Go's
  zero time is 0 and \<open>UTC()\<close> is the identity. A \<open>time.Duration\<close> is a number of nanoseconds; \<open>Sub\<close>
  saturates at the range of \<open>int64\<close>.
\<close>

type_synonym time = int
type_synonym duration = int

abbreviation (input) is_zero_time :: "time \<Rightarrow> bool" where
  "is_zero_time t \<equiv> t = 0"

definition seconds :: "int \<Rightarrow> duration" where
  "seconds n = n * 1000000000"

definition minutes :: "int \<Rightarrow> duration" where
  "minutes n = n * 60000000000"

definition hours :: "int \<Rightarrow> duration" where
  "hours n = n * 3600000000000"

definition time_sub :: "time \<Rightarrow> time \<Rightarrow> duration" where
  "time_sub a b = max (- (2 ^ 63)) (min (2 ^ 63 - 1) (a - b))"

lemma time_sub_exact: "\<bar>a - b\<bar> < 2 ^ 63 \<Longrightarrow> time_sub a b = a - b"
  by (simp add: time_sub_def)

lemma time_sub_ge: "d \<le> time_sub a b \<Longrightarrow> - (2 ^ 63) < d \<Longrightarrow> b + d \<le> a"
  by (auto simp: time_sub_def)

lemma time_sub_less: "time_sub a b < d \<Longrightarrow> d < 2 ^ 63 \<Longrightarrow> a < b + d"
  by (auto simp: time_sub_def)

definition dur_in :: "int \<Rightarrow> duration \<Rightarrow> f64" where
  "dur_in u d = of_go_int (d sdiv u) + of_go_int (d smod u) / of_go_int u"

definition dur_seconds :: "duration \<Rightarrow> f64" where
  "dur_seconds d = dur_in (seconds 1) d"

definition dur_minutes :: "duration \<Rightarrow> f64" where
  "dur_minutes d = dur_in (minutes 1) d"

definition dur_hours :: "duration \<Rightarrow> f64" where
  "dur_hours d = dur_in (hours 1) d"

definition truncate_minute :: "time \<Rightarrow> time" where
  "truncate_minute t = t - t mod minutes 1"

definition day_number :: "time \<Rightarrow> int" where
  "day_number t = t div hours 24"

definition hour_of_day :: "time \<Rightarrow> int" where
  "hour_of_day t = (t div hours 1) mod 24"

definition minute_of_hour :: "time \<Rightarrow> int" where
  "minute_of_hour t = (t div minutes 1) mod 60"

text \<open>\<open>Weekday()\<close>: Sunday is 0; 1 January of year 1 was a Monday.\<close>

definition weekday :: "time \<Rightarrow> int" where
  "weekday t = (day_number t + 1) mod 7"

definition leap :: "int \<Rightarrow> bool" where
  "leap y \<longleftrightarrow> y mod 4 = 0 \<and> (y mod 100 \<noteq> 0 \<or> y mod 400 = 0)"

definition month_lengths :: "int \<Rightarrow> int list" where
  "month_lengths y = [31, if leap y then 29 else 28, 31, 30, 31, 30, 31, 31, 30, 31, 30, 31]"

fun month_day :: "int \<Rightarrow> int list \<Rightarrow> int \<Rightarrow> int \<times> int" where
  "month_day m [] d = (m, d + 1)"
| "month_day m (l # ls) d = (if d < l then (m, d + 1) else month_day (m + 1) ls (d - l))"

text \<open>Year, month and day of a day number: 400-, 100-, 4- and 1-year cycles, as package time does.\<close>

definition civil :: "int \<Rightarrow> int \<times> int \<times> int" where
  "civil d =
     (let n400 = d div 146097; d = d mod 146097;
          n100 = min 3 (d div 36524); d = d - 36524 * n100;
          n4 = d div 1461; d = d mod 1461;
          n1 = min 3 (d div 365); d = d - 365 * n1;
          y = 400 * n400 + 100 * n100 + 4 * n4 + n1 + 1;
          (m, dd) = month_day 1 (month_lengths y) d
      in (y, m, dd))"

text \<open>\<open>Format("20060102")\<close>.\<close>

definition fmt_date :: "time \<Rightarrow> string" where
  "fmt_date t = (case civil (day_number t) of (y, m, d) \<Rightarrow> fmt_0d 4 y @ fmt_0d 2 m @ fmt_0d 2 d)"

lemma fmt_date_same_day: "day_number s = day_number t \<Longrightarrow> fmt_date s = fmt_date t"
  by (simp add: fmt_date_def)

end
