(* ===== verification/Records.thy ===== *)
theory Records
  imports UraPrelude
begin

text \<open>
  The versioned record schema of \<open>internal/model/model.go\<close>, shared by the agent, the bundle format
  and the analyzer: one HOL record per Go struct, field names the Go names behind a short prefix.
  The embedded \<open>Meta\<close> is record extension, so \<open>m_TS\<close> reads the timestamp of every kind. An
  optional pointer is an \<open>option\<close>.
\<close>

section \<open>Kinds and meta\<close>

definition SchemaVersion :: string where
  "SchemaVersion = ''1.0.0''"

definition AgentVersion :: string where
  "AgentVersion = ''0.1.0''"

definition KindInventory :: string where "KindInventory = ''inventory''"
definition KindHostMinute :: string where "KindHostMinute = ''host_minute''"
definition KindProcTop :: string where "KindProcTop = ''proc_top''"
definition KindSpike :: string where "KindSpike = ''spike_event''"
definition KindSched :: string where "KindSched = ''sched_snapshot''"
definition KindSQLInventory :: string where "KindSQLInventory = ''sql_inventory''"
definition KindSQLSample :: string where "KindSQLSample = ''sql_sample''"
definition KindSQLSpike :: string where "KindSQLSpike = ''sql_spike_context''"
definition KindHealth :: string where "KindHealth = ''health''"

lemmas kind_defs = KindInventory_def KindHostMinute_def KindProcTop_def KindSpike_def KindSched_def
  KindSQLInventory_def KindSQLSample_def KindSQLSpike_def KindHealth_def

definition AllKinds :: "string list" where
  "AllKinds = [KindInventory, KindHostMinute, KindProcTop, KindSpike, KindSched,
     KindSQLInventory, KindSQLSample, KindSQLSpike, KindHealth]"

record meta =
  m_Kind :: string
  m_Schema :: string
  m_TS :: time

definition NewMeta :: "string \<Rightarrow> time \<Rightarrow> meta" where
  "NewMeta kind ts = \<lparr>m_Kind = kind, m_Schema = SchemaVersion, m_TS = ts\<rparr>"

section \<open>Inventory\<close>

record disk_info =
  di_Device :: string
  di_Model :: string
  di_SizeBytes :: u64

record fs_info =
  fi_Mount :: string
  fi_Device :: string
  fi_FSType :: string
  fi_TotalBytes :: u64
  fi_AvailBytes :: u64

record nic_info =
  ni_Name :: string
  ni_MAC :: string
  ni_SpeedMbps :: int
  ni_Addrs :: "string list"

record inventory = meta +
  inv_HostID :: string
  inv_Hostname :: string
  inv_OS :: string
  inv_OSVersion :: string
  inv_KernelBuild :: string
  inv_BootTime :: time
  inv_UptimeS :: u64
  inv_Timezone :: string
  inv_TZOffsetSec :: int
  inv_Virtualization :: string
  inv_CPUModel :: string
  inv_PhysicalCores :: int
  inv_LogicalCPUs :: int
  inv_AllocatedVCPU :: int
  inv_TotalRAMBytes :: u64
  inv_SwapTotalBytes :: u64
  inv_Disks :: "disk_info list"
  inv_Filesystems :: "fs_info list"
  inv_NICs :: "nic_info list"
  inv_AgentVersion :: string
  inv_ConfigHash :: string
  inv_PrivacyMode :: bool

section \<open>Host minute aggregates\<close>

record cpu_agg =
  ca_AvgPct :: f64
  ca_MaxPct :: f64
  ca_UserPct :: f64
  ca_SystemPct :: f64
  ca_IOWaitPct :: f64
  ca_StealPct :: f64
  ca_PerCoreMax :: "f64 list"
  ca_Load1 :: f64
  ca_Load5 :: f64
  ca_RunQueue :: f64
  ca_CtxSwitchPS :: f64

record mem_agg =
  ma_UsedPctAvg :: f64
  ma_UsedPctMax :: f64
  ma_UsedBytesAvg :: u64
  ma_AvailBytesMin :: u64
  ma_CommittedBytes :: u64
  ma_SwapUsedBytes :: u64
  ma_PageInPS :: f64
  ma_PageOutPS :: f64
  ma_MajorFaultPS :: f64

record disk_agg =
  da_Device :: string
  da_ReadIOPS :: f64
  da_WriteIOPS :: f64
  da_ReadBytesPS :: f64
  da_WriteBytesPS :: f64
  da_ReadLatMS :: f64
  da_WriteLatMS :: f64
  da_QueueDepth :: f64
  da_BusyPct :: f64

record fs_usage =
  fu_Mount :: string
  fu_TotalBytes :: u64
  fu_AvailBytes :: u64

record net_agg =
  na_Name :: string
  na_RxBytesPS :: f64
  na_TxBytesPS :: f64
  na_RxPktsPS :: f64
  na_TxPktsPS :: f64
  na_ErrsPS :: f64
  na_DropsPS :: f64
  na_UtilPct :: f64

record psi_agg =
  psi_CPUSomeAvg :: f64
  psi_MemSomeAvg :: f64
  psi_MemFullAvg :: f64
  psi_IOSomeAvg :: f64
  psi_IOFullAvg :: f64
  psi_MemSomeMax :: f64
  psi_IOSomeMax :: f64

record host_minute = meta +
  hm_Samples :: int
  hm_CPU :: cpu_agg
  hm_Mem :: mem_agg
  hm_Disks :: "disk_agg list"
  hm_FS :: "fs_usage list"
  hm_Net :: "net_agg list"
  hm_PSI :: "psi_agg option"

section \<open>Processes and scheduled work\<close>

record proc_sample =
  ps_PID :: int
  ps_PPID :: int
  ps_Name :: string
  ps_Exe :: string
  ps_ExeSHA256 :: string
  ps_ServiceUnit :: string
  ps_CPUPct :: f64
  ps_CPUTimeS :: f64
  ps_RSSBytes :: u64
  ps_PrivateBytes :: u64
  ps_ReadBytesPS :: f64
  ps_WriteBytesPS :: f64
  ps_StartTime :: time

record proc_top = meta +
  pt_Procs :: "proc_sample list"

record sched_entry =
  se_Source :: string
  se_Name :: string
  se_Schedule :: string
  se_Unit :: string
  se_LastRun :: time
  se_NextRun :: time

record sched_snapshot = meta +
  ss_Entries :: "sched_entry list"

section \<open>Spike events\<close>

record metric_point =
  mp_TS :: time
  mp_Value :: f64

definition ResCPU :: string where "ResCPU = ''cpu''"
definition ResMemory :: string where "ResMemory = ''memory''"
definition ResPaging :: string where "ResPaging = ''paging''"
definition ResDiskLatency :: string where "ResDiskLatency = ''disk_latency''"
definition ResDiskQueue :: string where "ResDiskQueue = ''disk_queue''"
definition ResDiskIO :: string where "ResDiskIO = ''disk_io''"
definition ResNet :: string where "ResNet = ''net''"

definition CorrProcessOnly :: string where "CorrProcessOnly = ''process_only''"
definition CorrAgentJob :: string where "CorrAgentJob = ''agent_job''"
definition CorrActiveRequest :: string where "CorrActiveRequest = ''active_request''"

record spike_event = meta +
  ev_EventID :: string
  ev_Resource :: string
  ev_Device :: string
  ev_StartTS :: time
  ev_EndTS :: time
  ev_DurationS :: f64
  ev_Baseline :: f64
  ev_Peak :: f64
  ev_Threshold :: f64
  ev_Trigger :: string
  ev_PreSamples :: "metric_point list"
  ev_DuringSamples :: "metric_point list"
  ev_PostSamples :: "metric_point list"
  ev_TopProcs :: "proc_sample list"
  ev_CoreSecondsByProc :: "(string, f64) go_map"
  ev_ProbableCause :: string
  ev_CorrelatedProcess :: string
  ev_CorrelatedServiceOrJob :: string
  ev_AttributionConfidence :: f64
  ev_AttributionEvidence :: "string list"
  ev_ValidationRequired :: bool
  ev_SQLCorrelated :: bool
  ev_SQLInstance :: string

section \<open>SQL Server\<close>

definition SQLLevelDeep :: string where "SQLLevelDeep = ''deep''"
definition SQLLevelProcessOnly :: string where "SQLLevelProcessOnly = ''process_only''"

record sql_database =
  sd_Name :: string
  sd_SizeMB :: f64
  sd_LogSizeMB :: f64
  sd_State :: string

record ag_info =
  ag_AGName :: string
  ag_Role :: string
  ag_SyncState :: string
  ag_ReadableSecondary :: string
  ag_PartnerReplicas :: "string list"

record ha_info =
  ha_Mode :: string
  ha_AGs :: "ag_info list"

record sql_inventory = meta +
  si_InstanceKey :: string
  si_MachineName :: string
  si_InstanceName :: string
  si_IsDefault :: bool
  si_Version :: string
  si_Build :: string
  si_ProductLevel :: string
  si_Edition :: string
  si_StartTime :: time
  si_UptimeS :: u64
  si_CPUCountVisible :: int
  si_SchedulerCount :: int
  si_PhysMemVisibleKB :: u64
  si_PID :: int
  si_ServiceAccount :: string
  si_MaxDOP :: int
  si_CostThreshold :: int
  si_MinServerMemoryMB :: u64
  si_MaxServerMemoryMB :: u64
  si_MaxMemoryUnlimitedDefault :: bool
  si_LockPagesInMemory :: string
  si_LinuxMemoryLimitMB :: u64
  si_HA :: ha_info
  si_Databases :: "sql_database list"
  si_CollectionLevel :: string
  si_CollectionNote :: string

record wait_delta =
  wd_WaitMS :: f64
  wd_Count :: f64

record db_file_io =
  io_Database :: string
  io_FileType :: string
  io_ReadLatMS :: f64
  io_WriteLatMS :: f64
  io_ReadPS :: f64
  io_WritePS :: f64

record sql_sample = meta +
  sq_InstanceKey :: string
  sq_PhysicalMemoryInUseKB :: u64
  sq_LockedPageAllocKB :: u64
  sq_LargePageAllocKB :: u64
  sq_MemoryUtilizationPct :: int
  sq_ProcessPhysicalMemoryLow :: bool
  sq_ProcessVirtualMemoryLow :: bool
  sq_TotalServerMemoryKB :: u64
  sq_TargetServerMemoryKB :: u64
  sq_DatabaseCacheKB :: u64
  sq_StolenServerMemoryKB :: u64
  sq_FreeMemoryKB :: u64
  sq_MemoryGrantsPending :: int
  sq_MemoryGrantsActive :: int
  sq_PLESeconds :: int
  sq_MemoryClerksTopKB :: "(string, u64) go_map"
  sq_BatchRequestsPS :: f64
  sq_CompilationsPS :: f64
  sq_RecompilationsPS :: f64
  sq_SQLProcessCPUPct :: f64
  sq_PageReadsPS :: f64
  sq_PageWritesPS :: f64
  sq_LazyWritesPS :: f64
  sq_CheckpointPagesPS :: f64
  sq_WaitDeltas :: "(string, wait_delta) go_map"
  sq_BlockedSessions :: int
  sq_FileIO :: "db_file_io list"
  sq_TempdbUsedMB :: f64
  sq_TempdbTotalMB :: f64

record sql_active_request =
  ar_SessionID :: int
  ar_RequestID :: int
  ar_Database :: string
  ar_Command :: string
  ar_Status :: string
  ar_CPUTimeMS :: int
  ar_ElapsedMS :: int
  ar_LogicalReads :: int
  ar_PhysicalReads :: int
  ar_Writes :: int
  ar_WaitType :: string
  ar_BlockingSession :: int
  ar_ProgramName :: string
  ar_QueryHash :: string
  ar_PlanHash :: string

record sql_agent_job_run =
  aj_JobName :: string
  aj_StartTime :: time
  aj_DurationS :: f64
  aj_Outcome :: string
  aj_Running :: bool

record sql_spike_context = meta +
  sx_EventID :: string
  sx_InstanceKey :: string
  sx_ActiveRequests :: "sql_active_request list"
  sx_AgentJobs :: "sql_agent_job_run list"
  sx_CorrelationLevel :: string

section \<open>Collection health and the bundle manifest\<close>

record collector_error =
  ce_TS :: time
  ce_Collector :: string
  ce_Error :: string

record health = meta +
  he_AgentVersion :: string
  he_AgentUptimeS :: u64
  he_SamplesCollected :: u64
  he_SamplesDropped :: u64
  he_CollectorStatus :: "(string, string) go_map"
  he_PermissionIssues :: "string list"
  he_RecentErrors :: "collector_error list"
  he_SpoolBytes :: u64
  he_SelfRSSBytes :: u64
  he_SelfCPUPct :: f64

record time_range =
  tr_Start :: time
  tr_End :: time

record segment_meta =
  sm_Name :: string
  sm_Kind :: string
  sm_SHA256 :: string
  sm_SizeBytes :: int
  sm_Records :: int
  sm_MinTS :: time
  sm_MaxTS :: time

record health_summary =
  hs_ExpectedMinutes :: int
  hs_CollectedMinutes :: int
  hs_Gaps :: "time_range list"
  hs_PermissionIssues :: "string list"

record manifest =
  mf_SchemaVersion :: string
  mf_AgentVersion :: string
  mf_BundleID :: string
  mf_HostID :: string
  mf_Hostname :: string
  mf_Timezone :: string
  mf_CreatedAt :: time
  mf_PeriodStart :: time
  mf_PeriodEnd :: time
  mf_ConfigHash :: string
  mf_Segments :: "segment_meta list"
  mf_Health :: health_summary

end
