(* ===== verification/AgentConfig.thy ===== *)
theory AgentConfig
  imports Records
begin

text \<open>
  The agent configuration of \<open>internal/config/config.go\<close>: the configuration record, its documented
  defaults (\<open>Default\<close>) and \<open>Validate\<close>. Reading the file, YAML parsing and the SHA-256 of \<open>Hash\<close> are
  library calls and not modelled: \<open>Load\<close> is its two steps after the parse. A \<open>Duration\<close> is its number
  of nanoseconds.
\<close>

record spike_rule =
  sr_Resource :: string
  sr_StaticThreshold :: f64
  sr_Sustained :: duration
  sr_BaselineK :: f64
  sr_BaselineFloor :: f64

record agent_section =
  ag_DataDir :: string
  ag_DurationDays :: int
  ag_Recipient :: string
  ag_PrivacyMode :: bool

record sampling_section =
  sa_HostInterval :: duration
  sa_ProcInterval :: duration
  sa_ProcTopN :: int
  sa_ProcPersistInterval :: duration
  sa_SQLSampleInterval :: duration
  sa_SQLInventoryInterval :: duration
  sa_HealthInterval :: duration
  sa_SchedInterval :: duration

record retention_section =
  re_MaxSpoolMB :: int
  re_MaxAgeDays :: int
  re_KeepAfterExport :: bool

record spikes_section =
  sp_Cooldown :: duration
  sp_PreBuffer :: duration
  sp_PostCapture :: duration
  sp_Rules :: "spike_rule list"

record sql_section =
  sql_Enabled :: bool
  sql_Auth :: string
  sql_Username :: string
  sql_PasswordFile :: string
  sql_ConnectTimeout :: duration
  sql_CollectSQLText :: bool

record export_section =
  ex_AutoDaily :: bool
  ex_ExportDir :: string

record config =
  c_Agent :: agent_section
  c_Sampling :: sampling_section
  c_Retention :: retention_section
  c_Spikes :: spikes_section
  c_SQL :: sql_section
  c_Export :: export_section

text \<open>The operating-system defaults: \<open>config_os.go\<close> and \<open>config_windows.go\<close>.\<close>

datatype platform = Windows | Unix

fun defaultDataDir :: "platform \<Rightarrow> string" where
  "defaultDataDir Windows = ''C:'' @ [CHR 0x5C] @ ''ProgramData'' @ [CHR 0x5C] @ ''ura-agent''"
| "defaultDataDir Unix = ''/var/lib/ura-agent''"

fun defaultSQLAuth :: "platform \<Rightarrow> string" where
  "defaultSQLAuth Windows = ''integrated''"
| "defaultSQLAuth Unix = ''sqllogin''"

definition mk_rule :: "string \<Rightarrow> int \<Rightarrow> duration \<Rightarrow> int \<Rightarrow> int \<Rightarrow> spike_rule" where
  "mk_rule res th sus k fl0 = \<lparr>sr_Resource = res, sr_StaticThreshold = of_go_int th,
     sr_Sustained = sus, sr_BaselineK = of_go_int k, sr_BaselineFloor = of_go_int fl0\<rparr>"

definition default_rules :: "spike_rule list" where
  "default_rules =
    [mk_rule ''cpu'' 85 (minutes 2) 4 40,
     mk_rule ''memory'' 90 (minutes 2) 5 60,
     mk_rule ''paging'' 500 (minutes 1) 6 100,
     mk_rule ''disk_latency'' 50 (minutes 1) 5 10,
     mk_rule ''disk_queue'' 8 (minutes 1) 5 2,
     mk_rule ''disk_io'' 95 (minutes 2) 4 50]"

definition Default :: "platform \<Rightarrow> config" where
  "Default os =
    \<lparr>c_Agent = \<lparr>ag_DataDir = defaultDataDir os, ag_DurationDays = 30, ag_Recipient = [],
       ag_PrivacyMode = False\<rparr>,
     c_Sampling = \<lparr>sa_HostInterval = seconds 15, sa_ProcInterval = seconds 60, sa_ProcTopN = 10,
       sa_ProcPersistInterval = minutes 5, sa_SQLSampleInterval = seconds 60,
       sa_SQLInventoryInterval = hours 6, sa_HealthInterval = minutes 5, sa_SchedInterval = hours 6\<rparr>,
     c_Retention = \<lparr>re_MaxSpoolMB = 2048, re_MaxAgeDays = 100, re_KeepAfterExport = False\<rparr>,
     c_Spikes = \<lparr>sp_Cooldown = minutes 10, sp_PreBuffer = minutes 5, sp_PostCapture = minutes 3,
       sp_Rules = default_rules\<rparr>,
     c_SQL = \<lparr>sql_Enabled = True, sql_Auth = defaultSQLAuth os, sql_Username = [],
       sql_PasswordFile = [], sql_ConnectTimeout = seconds 5, sql_CollectSQLText = False\<rparr>,
     c_Export = \<lparr>ex_AutoDaily = True, ex_ExportDir = []\<rparr>\<rparr>"

datatype config_error =
    DataDirRequired
  | DurationDaysRange
  | RecipientRequired
  | HostIntervalTooSmall
  | ProcTopNRange
  | MaxSpoolTooSmall
  | SQLAuthInvalid
  | UnknownSpikeResource string

definition known_resources :: "string list" where
  "known_resources = [''cpu'', ''memory'', ''paging'', ''disk_latency'', ''disk_queue'', ''disk_io'', ''net'']"

fun check_rules :: "spike_rule list \<Rightarrow> config_error option" where
  "check_rules [] = None"
| "check_rules (r # rs) = (if sr_Resource r \<in> set known_resources then check_rules rs
     else Some (UnknownSpikeResource (sr_Resource r)))"

text \<open>\<open>Validate\<close> also fills in the export directory, before it checks the rules.\<close>

definition Validate :: "config \<Rightarrow> config_error + config" where
  "Validate c =
    (if ag_DataDir (c_Agent c) = [] then Inl DataDirRequired
     else if ag_DurationDays (c_Agent c) < 1 \<or> ag_DurationDays (c_Agent c) > 365 then Inl DurationDaysRange
     else if ag_Recipient (c_Agent c) = [] then Inl RecipientRequired
     else if sa_HostInterval (c_Sampling c) < seconds 1 then Inl HostIntervalTooSmall
     else if sa_ProcTopN (c_Sampling c) < 1 \<or> sa_ProcTopN (c_Sampling c) > 100 then Inl ProcTopNRange
     else if re_MaxSpoolMB (c_Retention c) < 64 then Inl MaxSpoolTooSmall
     else if sql_Auth (c_SQL c) \<noteq> ''integrated'' \<and> sql_Auth (c_SQL c) \<noteq> ''sqllogin'' then Inl SQLAuthInvalid
     else
       let c = (if ex_ExportDir (c_Export c) = []
                then c\<lparr>c_Export := (c_Export c)\<lparr>ex_ExportDir := ag_DataDir (c_Agent c) @ ''/export''\<rparr>\<rparr>
                else c)
       in case check_rules (sp_Rules (c_Spikes c)) of Some e \<Rightarrow> Inl e | None \<Rightarrow> Inr c)"

section \<open>What a validated configuration guarantees\<close>

definition valid_config :: "config \<Rightarrow> bool" where
  "valid_config c \<longleftrightarrow>
     ag_DataDir (c_Agent c) \<noteq> [] \<and> 1 \<le> ag_DurationDays (c_Agent c) \<and> ag_DurationDays (c_Agent c) \<le> 365 \<and>
     ag_Recipient (c_Agent c) \<noteq> [] \<and> seconds 1 \<le> sa_HostInterval (c_Sampling c) \<and>
     1 \<le> sa_ProcTopN (c_Sampling c) \<and> sa_ProcTopN (c_Sampling c) \<le> 100 \<and>
     64 \<le> re_MaxSpoolMB (c_Retention c) \<and> sql_Auth (c_SQL c) \<in> {''integrated'', ''sqllogin''} \<and>
     ex_ExportDir (c_Export c) \<noteq> [] \<and>
     list_all (\<lambda>r. sr_Resource r \<in> set known_resources) (sp_Rules (c_Spikes c))"

lemma check_rules_None [simp]:
  "check_rules rs = None \<longleftrightarrow> list_all (\<lambda>r. sr_Resource r \<in> set known_resources) rs"
  by (induction rs) auto

lemma Validate_valid: "Validate c = Inr c' \<Longrightarrow> valid_config c'"
  by (auto simp: Validate_def valid_config_def Let_def
      split: if_splits option.splits)

lemma Validate_of_valid: "valid_config c \<Longrightarrow> Validate c = Inr c"
  by (auto simp: Validate_def valid_config_def Let_def split: option.splits)

lemma Validate_only_export_dir:
  "Validate c = Inr c' \<Longrightarrow>
   c' = c\<lparr>c_Export := (c_Export c)\<lparr>ex_ExportDir := (if ex_ExportDir (c_Export c) = []
      then ag_DataDir (c_Agent c) @ ''/export'' else ex_ExportDir (c_Export c))\<rparr>\<rparr>"
  by (auto simp: Validate_def Let_def split: if_splits option.splits)

text \<open>\<open>Load\<close>: the file is read and decoded over the defaults, then validated.\<close>

datatype load_error = ReadConfig string | ParseConfig string | InvalidConfig config_error

definition Load :: "platform \<Rightarrow> (string \<Rightarrow> string + string) \<Rightarrow> (string \<Rightarrow> config \<Rightarrow> string + config)
    \<Rightarrow> string \<Rightarrow> load_error + config" where
  "Load os ReadFile Unmarshal path =
     (case ReadFile path of Inl e \<Rightarrow> Inl (ReadConfig e)
      | Inr b \<Rightarrow> (case Unmarshal b (Default os) of Inl e \<Rightarrow> Inl (ParseConfig e)
      | Inr c \<Rightarrow> (case Validate c of Inl e \<Rightarrow> Inl (InvalidConfig e) | Inr c' \<Rightarrow> Inr c')))"

lemma Load_valid: "Load os rf um path = Inr c \<Longrightarrow> valid_config c"
  by (auto simp: Load_def Validate_valid split: sum.splits)

text \<open>
  A configuration that passes validation satisfies every documented bound and has an export
  directory, validating it again returns it unchanged, and validation changed nothing but an empty
  export directory, which became \<open>export\<close> under the data directory.
\<close>

theorem validated_config_is_valid:
  assumes "Validate c = Inr c'"
  shows "valid_config c' \<and> Validate c' = Inr c' \<and>
    c' = c\<lparr>c_Export := (c_Export c)\<lparr>ex_ExportDir := (if ex_ExportDir (c_Export c) = []
      then ag_DataDir (c_Agent c) @ ''/export'' else ex_ExportDir (c_Export c))\<rparr>\<rparr>"
  using Validate_valid [OF assms] Validate_of_valid Validate_only_export_dir [OF assms] by blast

definition with_recipient :: "string \<Rightarrow> config \<Rightarrow> config" where
  "with_recipient r c = c\<lparr>c_Agent := (c_Agent c)\<lparr>ag_Recipient := r\<rparr>\<rparr>"

lemma Validate_Default:
  "Validate (with_recipient r (Default os)) =
     (if r = [] then Inl RecipientRequired
      else Inr ((with_recipient r (Default os))\<lparr>c_Export :=
        \<lparr>ex_AutoDaily = True, ex_ExportDir = defaultDataDir os @ ''/export''\<rparr>\<rparr>))"
  by (cases os) (simp_all add: Validate_def with_recipient_def Default_def default_rules_def mk_rule_def
      known_resources_def seconds_def Let_def)

theorem validated_config_is_valid_witness:
  "valid_config ((with_recipient ''age1k'' (Default Unix))\<lparr>c_Export :=
        \<lparr>ex_AutoDaily = True, ex_ExportDir = ''/var/lib/ura-agent/export''\<rparr>\<rparr>)"
proof -
  have "Validate (with_recipient ''age1k'' (Default Unix)) =
      Inr ((with_recipient ''age1k'' (Default Unix))\<lparr>c_Export :=
        \<lparr>ex_AutoDaily = True, ex_ExportDir = ''/var/lib/ura-agent/export''\<rparr>\<rparr>)"
    by (simp add: Validate_Default)
  from validated_config_is_valid [OF this] show ?thesis by (rule conjunct1)
qed

end
