(* ===== verification/Stats.thy ===== *)
theory Stats
  imports Records
begin

text \<open>
  \<open>internal/analyzer/stats/stats.go\<close>: the summary of a series, interpolated percentiles, the
  longest sustained run above a threshold and the time above it, over \<open>float64\<close> with its rounding.
  The lemmas give the index safety and the range of \<open>Quantile\<close>, its monotonicity in the sample, the
  independence of \<open>Summarize\<close> from the order of the sample, and that the one-pass \<open>Sustained\<close>
  computes the longest run in the declarative sense (\<open>is_run\<close>).
\<close>

section \<open>Quantile and Summarize\<close>

record summary =
  su_P50 :: f64
  su_P95 :: f64
  su_P99 :: f64
  su_Max :: f64
  su_Avg :: f64
  su_Count :: int

definition zero_summary :: summary where
  "zero_summary = \<lparr>su_P50 = 0, su_P95 = 0, su_P99 = 0, su_Max = 0, su_Avg = 0, su_Count = 0\<rparr>"

definition quantile_pos :: "nat \<Rightarrow> f64 \<Rightarrow> f64" where
  "quantile_pos n q = q * of_go_int (int n - 1)"

definition Quantile :: "f64 list \<Rightarrow> f64 \<Rightarrow> f64" where
  "Quantile xs q =
     (if xs = [] then 0
      else let pos = quantile_pos (length xs) q; lo = go_floor pos; hi = go_ceil pos in
        if lo = hi then xs ! nat lo
        else let frac = pos - of_go_int lo in xs ! nat lo * (1 - frac) + xs ! nat hi * frac)"

definition Summarize :: "f64 list \<Rightarrow> summary" where
  "Summarize values =
     (if values = [] then zero_summary
      else let s = sort values; total = foldl (+) 0 s in
        \<lparr>su_P50 = round2 (Quantile s (fl (50 / 100))),
         su_P95 = round2 (Quantile s (fl (95 / 100))),
         su_P99 = round2 (Quantile s (fl (99 / 100))),
         su_Max = round2 (last s),
         su_Avg = round2 (total / of_go_int (int (length s))),
         su_Count = int (length s)\<rparr>)"

definition TimeAbovePct :: "f64 list \<Rightarrow> f64 \<Rightarrow> f64" where
  "TimeAbovePct values threshold =
     (if values = [] then 0
      else of_go_int (int (length (filter (\<lambda>v. v \<ge> threshold) values))) / of_go_int (int (length values)))"

subsection \<open>Indices stay inside the slice\<close>

text \<open>A slice of the address space is shorter than \<open>2 ^ 53\<close> elements, so its length is exact.\<close>

lemma quantile_pos_range:
  assumes "0 < n" "int n \<le> 2 ^ 53" "0 \<le> fval q" "fval q \<le> 1"
  shows "0 \<le> fval (quantile_pos n q)" "fval (quantile_pos n q) \<le> of_int (int n - 1)"
proof -
  have ex: "fval (of_go_int (int n - 1)) = of_int (int n - 1)"
    using assms by (intro fval_of_go_int) auto
  have "fval q * of_int (int n - 1) \<le> of_int (int n - 1)"
    using assms by (intro mult_left_le_one_le) auto
  then have "rnd64 (fval q * of_int (int n - 1)) \<le> rnd64 (of_int (int n - 1))" by (rule rnd64_mono)
  also have "\<dots> = of_int (int n - 1)" using assms by (intro rnd64_of_int) auto
  finally show "fval (quantile_pos n q) \<le> of_int (int n - 1)"
    by (simp add: quantile_pos_def fval_arith ex)
  show "0 \<le> fval (quantile_pos n q)"
    using assms by (simp add: quantile_pos_def fval_arith ex rnd64_nonneg)
qed

lemma quantile_indices:
  assumes "0 < n" "int n \<le> 2 ^ 53" "0 \<le> fval q" "fval q \<le> 1"
  shows "0 \<le> go_floor (quantile_pos n q)"
    and "go_floor (quantile_pos n q) \<le> go_ceil (quantile_pos n q)"
    and "go_ceil (quantile_pos n q) < int n"
proof -
  note r = quantile_pos_range [OF assms]
  show "0 \<le> go_floor (quantile_pos n q)" using r(1) by (simp add: go_floor_def)
  show "go_floor (quantile_pos n q) \<le> go_ceil (quantile_pos n q)"
    unfolding go_floor_def go_ceil_def by linarith
  have "\<lceil>fval (quantile_pos n q)\<rceil> \<le> int n - 1" using r(2) by (simp only: ceiling_le_iff)
  then show "go_ceil (quantile_pos n q) < int n" by (simp add: go_ceil_def)
qed

definition quantile_frac :: "nat \<Rightarrow> f64 \<Rightarrow> f64" where
  "quantile_frac n q = quantile_pos n q - of_go_int (go_floor (quantile_pos n q))"

lemma quantile_frac_range:
  assumes "0 < n" "int n \<le> 2 ^ 53" "0 \<le> fval q" "fval q \<le> 1"
  shows "0 \<le> fval (quantile_frac n q)" "fval (quantile_frac n q) \<le> 1"
proof -
  let ?p = "quantile_pos n q"
  note i = quantile_indices [OF assms]
  have ex: "fval (of_go_int (go_floor ?p)) = of_int (go_floor ?p)"
    using i assms by (intro fval_of_go_int) linarith
  have fr: "fval (quantile_frac n q) = rnd64 (fval ?p - of_int \<lfloor>fval ?p\<rfloor>)"
    by (simp add: quantile_frac_def fval_arith ex) (simp add: go_floor_def)
  have b: "0 \<le> fval ?p - of_int \<lfloor>fval ?p\<rfloor>" "fval ?p - of_int \<lfloor>fval ?p\<rfloor> \<le> 1" by linarith+
  then show "0 \<le> fval (quantile_frac n q)" by (simp add: fr rnd64_nonneg)
  show "fval (quantile_frac n q) \<le> 1"
    using rnd64_mono [OF b(2)] rnd64_of_int [of 1] by (simp add: fr)
qed

text \<open>Both branches of \<open>Quantile\<close> in one equation.\<close>

lemma Quantile_cases:
  assumes "s \<noteq> []"
  shows "Quantile s q =
    (let n = length s; lo = go_floor (quantile_pos n q); hi = go_ceil (quantile_pos n q) in
     if lo = hi then s ! nat lo
     else s ! nat lo * (1 - quantile_frac n q) + s ! nat hi * quantile_frac n q)"
  using assms by (simp add: Quantile_def quantile_frac_def Let_def)

lemma one_minus_frac_nonneg: "fval x \<le> 1 \<Longrightarrow> 0 \<le> 1 - x"
  by (simp add: f64_zero_le fval_arith rnd64_nonneg)

lemma interp_mono: "a \<le> b \<Longrightarrow> c \<le> d \<Longrightarrow> 0 \<le> fval x \<Longrightarrow> fval x \<le> 1 \<Longrightarrow>
   a * (1 - x) + c * x \<le> b * (1 - x) + d * x"
  by (intro f64_add_mono f64_mult_mono one_minus_frac_nonneg) (simp_all add: f64_zero_le)

lemma Quantile_mono:
  assumes len: "length xs = length ys" "int (length xs) \<le> 2 ^ 53" and q: "0 \<le> fval q" "fval q \<le> 1"
    and le: "\<And>i. i < length xs \<Longrightarrow> xs ! i \<le> ys ! i"
  shows "Quantile xs q \<le> Quantile ys q"
proof (cases "xs = []")
  case True
  with len show ?thesis by (simp add: Quantile_def)
next
  case False
  let ?n = "length xs"
  from False have n: "0 < ?n" by simp
  note i = quantile_indices [OF n len(2) q] and f = quantile_frac_range [OF n len(2) q]
  from i n have "nat (go_floor (quantile_pos ?n q)) < ?n" "nat (go_ceil (quantile_pos ?n q)) < ?n" by linarith+
  with le f show ?thesis
    using False len(1) by (subst (1 2) Quantile_cases) (auto simp: Let_def intro!: interp_mono)
qed

lemma Quantile_nonneg:
  assumes "int (length xs) \<le> 2 ^ 53" "0 \<le> fval q" "fval q \<le> 1" "\<And>x. x \<in> set xs \<Longrightarrow> 0 \<le> x"
  shows "0 \<le> Quantile xs q"
proof (cases "xs = []")
  case False
  then have n: "0 < length xs" by simp
  note i = quantile_indices [OF n assms(1-3)] and f = quantile_frac_range [OF n assms(1-3)]
  from i n have "nat (go_floor (quantile_pos (length xs) q)) < length xs"
    "nat (go_ceil (quantile_pos (length xs) q)) < length xs" by linarith+
  with assms(4) f False show ?thesis
    by (auto simp: Quantile_cases Let_def f64_zero_le [symmetric]
        intro!: f64_nonneg_intros one_minus_frac_nonneg)
qed (simp add: Quantile_def)

subsection \<open>A quantile lies in the range of the sample, up to rounding\<close>

lemma f64_mult_bounds:
  assumes "0 \<le> fval a" "0 \<le> fval b"
  shows "fval a * fval b * (1 - f64_ulp) - f64_eta \<le> fval (a * b)"
    and "fval (a * b) \<le> fval a * fval b * (1 + f64_ulp) + f64_eta"
  using rnd64_bounds [of "fval a * fval b"] assms by (simp_all add: fval_arith)

lemma f64_add_bounds:
  assumes "0 \<le> fval a" "0 \<le> fval b"
  shows "(fval a + fval b) * (1 - f64_ulp) - f64_eta \<le> fval (a + b)"
    and "fval (a + b) \<le> (fval a + fval b) * (1 + f64_ulp) + f64_eta"
  using rnd64_bounds [of "fval a + fval b"] assms by (simp_all add: fval_arith)

lemma one_minus_bounds:
  assumes "0 \<le> fval x" "fval x \<le> 1"
  shows "1 - f64_ulp - f64_eta \<le> fval (1 - x) + fval x"
    and "fval (1 - x) + fval x \<le> 1 + f64_ulp + f64_eta"
proof -
  have r: "(1 - fval x) * (1 - f64_ulp) - f64_eta \<le> fval (1 - x)"
    "fval (1 - x) \<le> (1 - fval x) * (1 + f64_ulp) + f64_eta"
    using rnd64_bounds [of "1 - fval x"] assms by (simp_all add: fval_arith)
  have p: "0 \<le> fval x * f64_ulp" using assms(1) f64_ulp_bounds(1) by simp
  show "1 - f64_ulp - f64_eta \<le> fval (1 - x) + fval x"
    using add_mono [OF r(1) p] by (simp add: algebra_simps)
  show "fval (1 - x) + fval x \<le> 1 + f64_ulp + f64_eta"
    using add_mono [OF r(2) p] by (simp add: algebra_simps)
qed

text \<open>The two roundings after the products, as a bound on the constants.\<close>

lemma rounding_constants:
  fixes u e :: rat
  assumes "0 < u" "u \<le> 1 / 64" "0 < e" "e \<le> u * u"
  shows "(1 + u + e) * (1 + u) * (1 + u) \<le> 1 + 4 * u"
    and "1 - 4 * u \<le> (1 - u - e) * (1 - u) * (1 - u)"
    and "2 * e * (1 + u) + e \<le> 4 * e"
proof -
  have uu: "u * u \<le> u / 64" using assms(1,2) mult_left_mono [of u "1 / 64" u] by simp
  have uuu: "u * (u * u) \<le> u * u / 64"
    using mult_right_mono [OF assms(2), of "u * u"] assms(1) by simp
  have uu0: "0 \<le> u * (u * u)" using assms(1) by simp
  have e2: "e * ((1 + u) * (1 + u)) \<le> u * u * ((1 + u) * (1 + u))"
    using assms by (intro mult_right_mono) auto
  have u4: "u * u * (u * u) \<le> u * u / 64"
  proof -
    have "u * u \<le> 1 / 64" using uu assms(2) by linarith
    then have "u * u * (u * u) \<le> u * u * (1 / 64)" using assms(1) by (intro mult_left_mono) auto
    then show ?thesis by simp
  qed
  have ex1: "(1 + u + e) * (1 + u) * (1 + u) = (1 + u) * (1 + u) * (1 + u) + e * ((1 + u) * (1 + u))"
    by (simp add: algebra_simps)
  have ex2: "(1 + u) * (1 + u) * (1 + u) = 1 + 3 * u + 3 * (u * u) + u * (u * u)"
    "u * u * ((1 + u) * (1 + u)) = u * u + 2 * (u * (u * u)) + u * u * (u * u)"
    by (simp_all add: algebra_simps)
  show "(1 + u + e) * (1 + u) * (1 + u) \<le> 1 + 4 * u"
    using e2 uu uuu uu0 u4 assms(1) unfolding ex1 ex2 by linarith
  have e3: "e * ((1 - u) * (1 - u)) \<le> e * 1"
    using assms by (intro mult_left_mono mult_le_one) auto
  have ex3: "(1 - u - e) * (1 - u) * (1 - u) = (1 - u) * (1 - u) * (1 - u) - e * ((1 - u) * (1 - u))"
    "(1 - u) * (1 - u) * (1 - u) = 1 - 3 * u + 3 * (u * u) - u * (u * u)"
    by (simp_all add: algebra_simps)
  show "1 - 4 * u \<le> (1 - u - e) * (1 - u) * (1 - u)"
    using e3 uu uuu uu0 assms unfolding ex3 by linarith
  have "2 * (e * u) \<le> e" using assms mult_left_mono [of u "1 / 64" e] by linarith
  then show "2 * e * (1 + u) + e \<le> 4 * e" by (simp add: algebra_simps)
qed

lemma interp_range:
  assumes ab: "m \<le> fval a" "m \<le> fval b" "fval a \<le> M" "fval b \<le> M" and m: "0 \<le> m"
    and x: "0 \<le> fval x" "fval x \<le> 1"
  shows "m * (1 - 4 * f64_ulp) - 4 * f64_eta \<le> fval (a * (1 - x) + b * x)" (is ?lo)
    and "fval (a * (1 - x) + b * x) \<le> M * (1 + 4 * f64_ulp) + 4 * f64_eta" (is ?hi)
proof -
  let ?u = f64_ulp and ?e = f64_eta
  note k = rounding_constants [OF f64_ulp_bounds(1,2) f64_eta_pos f64_ulp_bounds(3)]
  have pos: "0 < ?u" "?u \<le> 1 / 64" "0 < ?e" "0 \<le> M" "0 \<le> fval a" "0 \<le> fval b"
    using f64_ulp_bounds f64_eta_pos ab m by linarith+
  have y: "0 \<le> fval (1 - x)" using one_minus_frac_nonneg [OF x(2)] by (simp add: f64_zero_le)
  note s = one_minus_bounds [OF x]
  note p = f64_mult_bounds [OF pos(5) y] and q = f64_mult_bounds [OF pos(6) x(1)]
  have pn: "0 \<le> fval (a * (1 - x))" "0 \<le> fval (b * x)"
    using pos y x by (simp_all add: fval_arith [of a] fval_arith [of b] rnd64_nonneg)
  note r = f64_add_bounds [OF pn]
  define t where "t = fval a * fval (1 - x) + fval b * fval x"
  have "t \<le> M * (fval (1 - x) + fval x)"
    unfolding t_def distrib_left using ab y x by (intro add_mono mult_right_mono)
  also have "\<dots> \<le> M * (1 + ?u + ?e)" using s pos by (intro mult_left_mono) auto
  finally have thi: "t \<le> M * (1 + ?u + ?e)" .
  have "m * (1 - ?u - ?e) \<le> m * (fval (1 - x) + fval x)" using s m by (intro mult_left_mono) auto
  also have "\<dots> \<le> t"
    unfolding t_def distrib_left using ab y x by (intro add_mono mult_right_mono)
  finally have tlo: "m * (1 - ?u - ?e) \<le> t" .
  have shi: "fval (a * (1 - x)) + fval (b * x) \<le> t * (1 + ?u) + 2 * ?e"
    and slo: "t * (1 - ?u) - 2 * ?e \<le> fval (a * (1 - x)) + fval (b * x)"
    using p q by (simp_all add: t_def algebra_simps)
  have "fval (a * (1 - x) + b * x) \<le> (t * (1 + ?u) + 2 * ?e) * (1 + ?u) + ?e"
    by (rule order_trans [OF r(2) add_right_mono [OF mult_right_mono [OF shi]]]) (use pos in simp)
  also have "\<dots> \<le> (M * (1 + ?u + ?e) * (1 + ?u) + 2 * ?e) * (1 + ?u) + ?e"
    using thi pos by (intro add_mono mult_right_mono) auto
  also have "\<dots> = M * ((1 + ?u + ?e) * (1 + ?u) * (1 + ?u)) + (2 * ?e * (1 + ?u) + ?e)"
    by (simp add: algebra_simps)
  also have "\<dots> \<le> M * (1 + 4 * ?u) + 4 * ?e"
    using k pos by (intro add_mono mult_left_mono) auto
  finally show ?hi .
  have "m * (1 - 4 * ?u) - 4 * ?e \<le> m * ((1 - ?u - ?e) * (1 - ?u) * (1 - ?u)) - (2 * ?e * (1 - ?u) + ?e)"
  proof (rule diff_mono [OF mult_left_mono [OF k(2) m]])
    have "0 \<le> ?e * ?u" using pos by simp
    then show "2 * ?e * (1 - ?u) + ?e \<le> 4 * ?e" using pos(3) by (simp add: algebra_simps)
  qed
  also have "\<dots> = (m * (1 - ?u - ?e) * (1 - ?u) - 2 * ?e) * (1 - ?u) - ?e"
    by (simp add: algebra_simps)
  also have "\<dots> \<le> (t * (1 - ?u) - 2 * ?e) * (1 - ?u) - ?e"
    using tlo pos by (intro diff_mono mult_right_mono) auto
  also have "\<dots> \<le> fval (a * (1 - x) + b * x)"
    by (rule order_trans [OF diff_right_mono [OF mult_right_mono [OF slo]] r(1)]) (use pos in simp)
  finally show ?lo .
qed

lemma Quantile_between:
  assumes "xs \<noteq> []" "int (length xs) \<le> 2 ^ 53" "0 \<le> fval q" "fval q \<le> 1" "sorted xs" "0 \<le> hd xs"
  shows "fval (hd xs) * (1 - 4 * f64_ulp) - 4 * f64_eta \<le> fval (Quantile xs q) \<and>
     fval (Quantile xs q) \<le> fval (last xs) * (1 + 4 * f64_ulp) + 4 * f64_eta"
proof -
  let ?n = "length xs"
  let ?lo = "nat (go_floor (quantile_pos ?n q))" and ?hi = "nat (go_ceil (quantile_pos ?n q))"
  have n: "0 < ?n" using assms(1) by simp
  note i = quantile_indices [OF n assms(2-4)] and f = quantile_frac_range [OF n assms(2-4)]
  from i n have ix: "?lo < ?n" "?hi < ?n" by linarith+
  have m: "0 \<le> fval (hd xs)" using assms(6) by (simp add: f64_zero_le)
  have rng: "fval (hd xs) \<le> fval (xs ! k)" "fval (xs ! k) \<le> fval (last xs)" if "k < ?n" for k
    using assms(1,5) that sorted_nth_mono [of xs 0 k] sorted_nth_mono [of xs k "?n - 1"]
    by (simp_all add: hd_conv_nth last_conv_nth f64_le_iff)
  show ?thesis
  proof (cases "go_floor (quantile_pos ?n q) = go_ceil (quantile_pos ?n q)")
    case True
    have "0 \<le> fval (last xs)" using m rng [of 0] n by linarith
    then have "fval (hd xs) * (1 - 4 * f64_ulp) - 4 * f64_eta \<le> fval (hd xs)"
      "fval (last xs) \<le> fval (last xs) * (1 + 4 * f64_ulp) + 4 * f64_eta"
      using m f64_ulp_bounds(1) f64_eta_pos by (simp_all add: algebra_simps add_nonneg_nonneg less_imp_le)
    then show ?thesis
      using rng [OF ix(1)] True assms(1) by (auto simp: Quantile_cases Let_def intro: order_trans)
  next
    case False
    then show ?thesis
      using interp_range [OF rng(1) [OF ix(1)] rng(1) [OF ix(2)] rng(2) [OF ix(1)] rng(2) [OF ix(2)] m f]
        assms(1) by (simp add: Quantile_cases Let_def)
  qed
qed

text \<open>
  A percentile of a non-negative sample never leaves the range of the sample by more than the
  rounding of its three operations: four units of the 53rd bit of the extreme value.
\<close>

theorem Quantile_range:
  assumes "xs \<noteq> []" "int (length xs) \<le> 2 ^ 53" "0 \<le> fval q" "fval q \<le> 1" "sorted xs" "0 \<le> hd xs"
  shows "fval (hd xs) * (1 - 4 * f64_ulp) - 4 * f64_eta \<le> fval (Quantile xs q) \<and>
     fval (Quantile xs q) \<le> fval (last xs) * (1 + 4 * f64_ulp) + 4 * f64_eta"
  by (rule Quantile_between [OF assms])

theorem Quantile_range_witness:
  "fval (hd [fl 1, fl 2, fl 4]) * (1 - 4 * f64_ulp) - 4 * f64_eta
     \<le> fval (Quantile [fl 1, fl 2, fl 4] (fl (1 / 4))) \<and>
   fval (Quantile [fl 1, fl 2, fl 4] (fl (1 / 4)))
     \<le> fval (last [fl 1, fl 2, fl 4]) * (1 + 4 * f64_ulp) + 4 * f64_eta"
  by (rule Quantile_range) (simp | code_simp)+

subsection \<open>The summary\<close>

lemma sort_eq_iff_mset: "mset xs = mset ys \<Longrightarrow> sort xs = sort ys" for xs ys :: "'a::linorder list"
  by (metis properties_for_sort mset_sort sorted_sort)

lemma sort_Nil_iff: "sort xs = [] \<longleftrightarrow> xs = []" for xs :: "'a::linorder list"
  by (metis length_0_conv length_sort)

lemma last_sort_Max:
  fixes xs :: "'a::linorder list"
  assumes "xs \<noteq> []"
  shows "last (sort xs) = Max (set xs)"
proof (rule sym, rule Max_eqI)
  have ne: "sort xs \<noteq> []" using assms by (simp add: sort_Nil_iff)
  then show "last (sort xs) \<in> set xs" using last_in_set [of "sort xs"] by simp
  show "y \<le> last (sort xs)" if "y \<in> set xs" for y
  proof -
    from that obtain i where "i < length (sort xs)" "y = sort xs ! i"
      by (metis in_set_conv_nth set_sort)
    then show ?thesis
      using ne sorted_nth_mono [OF sorted_sort, of i "length xs - 1" xs] by (simp add: last_conv_nth)
  qed
qed simp

lemma Summarize_mset_cong: "mset xs = mset ys \<Longrightarrow> Summarize xs = Summarize ys"
  using sort_eq_iff_mset [of xs ys] mset_eq_length [of xs ys] by (auto simp: Summarize_def Let_def)

lemma Summarize_Max: "xs \<noteq> [] \<Longrightarrow> su_Max (Summarize xs) = round2 (Max (set xs))"
  by (simp add: Summarize_def Let_def last_sort_Max)

lemma Summarize_Count: "su_Count (Summarize xs) = int (length xs)"
  by (simp add: Summarize_def Let_def zero_summary_def)

lemma fval_fl_unit: "0 \<le> x \<Longrightarrow> x \<le> 1 \<Longrightarrow> 0 \<le> fval (fl x) \<and> fval (fl x) \<le> 1"
  using rnd64_mono [of x 1] rnd64_of_int [of 1] by (simp add: rnd64_nonneg)

lemma foldl_plus_nonneg: "0 \<le> a \<Longrightarrow> (\<And>x. x \<in> set xs \<Longrightarrow> 0 \<le> x) \<Longrightarrow> 0 \<le> foldl (+) a xs" for a :: f64
  by (induction xs arbitrary: a) (auto intro: f64_nonneg_intros)

text \<open>
  The summary of a sample is a function of the multiset of its values: the order in which the
  minutes of a host are read has no effect. Its count is the sample size, its maximum the rounded
  maximum of the sample, and on a non-negative sample no field is negative.
\<close>

theorem Summarize_spec:
  assumes "int (length xs) \<le> 2 ^ 53"
  shows "(\<forall>ys. mset ys = mset xs \<longrightarrow> Summarize ys = Summarize xs) \<and>
    su_Count (Summarize xs) = int (length xs) \<and>
    (xs \<noteq> [] \<longrightarrow> su_Max (Summarize xs) = round2 (Max (set xs))) \<and>
    ((\<forall>x \<in> set xs. 0 \<le> x) \<longrightarrow> 0 \<le> su_P50 (Summarize xs) \<and> 0 \<le> su_P95 (Summarize xs) \<and>
      0 \<le> su_P99 (Summarize xs) \<and> 0 \<le> su_Max (Summarize xs) \<and> 0 \<le> su_Avg (Summarize xs))"
proof -
  have q: "0 \<le> round2 (Quantile (sort xs) (fl r))" if "0 \<le> r" "r \<le> 1" "\<forall>x \<in> set xs. 0 \<le> x" for r
    using that assms fval_fl_unit [OF that(1,2)] by (intro round2_nonneg Quantile_nonneg) auto
  have "0 \<le> su_P50 (Summarize xs) \<and> 0 \<le> su_P95 (Summarize xs) \<and> 0 \<le> su_P99 (Summarize xs) \<and>
      0 \<le> su_Max (Summarize xs) \<and> 0 \<le> su_Avg (Summarize xs)" if pos: "\<forall>x \<in> set xs. 0 \<le> x"
  proof (cases "xs = []")
    case False
    then have "0 \<le> last (sort xs)"
      using pos last_in_set [of "sort xs"] by (simp add: sort_Nil_iff)
    moreover have "0 \<le> foldl (+) 0 (sort xs) / of_go_int (int (length xs))"
      using pos by (intro f64_nonneg_intros foldl_plus_nonneg of_go_int_nonneg) auto
    ultimately show ?thesis
      using False q pos by (simp add: Summarize_def Let_def round2_nonneg)
  qed (simp add: Summarize_def zero_summary_def)
  then show ?thesis using Summarize_mset_cong Summarize_Count Summarize_Max by blast
qed

theorem Summarize_spec_witness:
  "Summarize [fl 3, fl 1] = Summarize [fl 1, fl 3] \<and> su_Count (Summarize [fl 1, fl 3]) = 2"
proof -
  have len: "int (length [fl 1, fl 3]) \<le> 2 ^ 53" by simp
  note w = Summarize_spec [OF len]
  have "mset [fl 3, fl 1] = mset [fl 1, fl 3]" by (simp add: add_mset_commute)
  with w have "Summarize [fl 3, fl 1] = Summarize [fl 1, fl 3]" by blast
  moreover from w have "su_Count (Summarize [fl 1, fl 3]) = int (length [fl 1, fl 3])" by blast
  ultimately show ?thesis by simp
qed

lemma TimeAbovePct_range: "0 \<le> TimeAbovePct vs th \<and> TimeAbovePct vs th \<le> 1"
proof (cases "vs = []")
  case False
  let ?k = "int (length (filter (\<lambda>v. v \<ge> th) vs))" and ?n = "int (length vs)"
  have le: "of_go_int ?k \<le> of_go_int ?n" by (intro of_go_int_mono) simp
  have n: "0 \<le> of_go_int ?n" and k: "0 \<le> of_go_int ?k" by (simp_all add: of_go_int_nonneg)
  have "fval (of_go_int ?k) / fval (of_go_int ?n) \<le> 1"
    using le n by (cases "fval (of_go_int ?n) = 0") (simp_all add: f64_le_iff divide_le_eq_1 less_le)
  then have "rnd64 (fval (of_go_int ?k) / fval (of_go_int ?n)) \<le> rnd64 1" by (rule rnd64_mono)
  then have "of_go_int ?k / of_go_int ?n \<le> 1"
    using rnd64_of_int [of 1] by (simp add: f64_le_iff fval_arith)
  with False n k show ?thesis by (simp add: TimeAbovePct_def f64_nonneg_intros)
qed (simp add: TimeAbovePct_def f64_le_iff)

section \<open>Sustained\<close>

record timed_value =
  tv_TS :: time
  tv_V :: f64

record sustained_run =
  run_Start :: time
  run_End :: time
  run_Minutes :: int
  run_PeakV :: f64

definition zero_run :: sustained_run where
  "zero_run = \<lparr>run_Start = 0, run_End = 0, run_Minutes = 0, run_PeakV = 0\<rparr>"

text \<open>The loop state: the current run, the last timestamp above, the longest run so far, the total.\<close>

type_synonym sustained_state = "sustained_run option \<times> time \<times> sustained_run \<times> int"

definition keep_longest :: "sustained_run option \<Rightarrow> sustained_run \<Rightarrow> sustained_run" where
  "keep_longest cur longest =
     (case cur of None \<Rightarrow> longest
      | Some r \<Rightarrow> if run_Minutes r > run_Minutes longest then r else longest)"

definition new_run :: "timed_value \<Rightarrow> sustained_run" where
  "new_run tv = \<lparr>run_Start = tv_TS tv, run_End = tv_TS tv, run_Minutes = 1, run_PeakV = tv_V tv\<rparr>"

definition extend_run :: "sustained_run \<Rightarrow> timed_value \<Rightarrow> sustained_run" where
  "extend_run r tv = r\<lparr>run_End := tv_TS tv, run_Minutes := run_Minutes r + 1,
     run_PeakV := (if tv_V tv > run_PeakV r then tv_V tv else run_PeakV r)\<rparr>"

definition sustained_step :: "f64 \<Rightarrow> duration \<Rightarrow> sustained_state \<Rightarrow> timed_value \<Rightarrow> sustained_state" where
  "sustained_step threshold gapTolerance st tv =
     (case st of (cur, lastTS, longest, tot) \<Rightarrow>
      if tv_V tv \<ge> threshold then
        (case cur of
           Some r \<Rightarrow> if time_sub (tv_TS tv) lastTS \<le> gapTolerance
                     then (Some (extend_run r tv), tv_TS tv, longest, tot + 1)
                     else (Some (new_run tv), tv_TS tv, keep_longest cur longest, tot + 1)
         | None \<Rightarrow> (Some (new_run tv), tv_TS tv, longest, tot + 1))
      else (None, lastTS, keep_longest cur longest, tot))"

definition Sustained :: "timed_value list \<Rightarrow> f64 \<Rightarrow> duration \<Rightarrow> sustained_run \<times> int" where
  "Sustained values threshold gapTolerance =
     (case foldl (sustained_step threshold gapTolerance) (None, 0, zero_run, 0) values of
        (cur, lastTS, longest, tot) \<Rightarrow> (keep_longest cur longest, tot))"

subsection \<open>The longest run, declaratively\<close>

text \<open>
  A run is a non-empty block of consecutive observations, all at or above the threshold, with no
  two neighbours further apart than the tolerance; \<open>run_of\<close> is its summary.
\<close>

definition is_run :: "f64 \<Rightarrow> duration \<Rightarrow> timed_value list \<Rightarrow> bool" where
  "is_run th tol r \<longleftrightarrow> r \<noteq> [] \<and> list_all (\<lambda>tv. th \<le> tv_V tv) r \<and>
     successively (\<lambda>a b. time_sub (tv_TS b) (tv_TS a) \<le> tol) r"

definition run_of :: "timed_value list \<Rightarrow> sustained_run" where
  "run_of r = \<lparr>run_Start = tv_TS (hd r), run_End = tv_TS (last r), run_Minutes = int (length r),
     run_PeakV = Max (tv_V ` set r)\<rparr>"

lemma is_run_snoc:
  "is_run th tol (r @ [tv]) \<longleftrightarrow> th \<le> tv_V tv \<and>
     (r = [] \<or> is_run th tol r \<and> time_sub (tv_TS tv) (tv_TS (last r)) \<le> tol)"
  by (auto simp: is_run_def successively_append_iff)

lemma run_of_single: "run_of [tv] = new_run tv"
  by (simp add: run_of_def new_run_def)

lemma run_of_snoc:
  assumes "r \<noteq> []"
  shows "run_of (r @ [tv]) = extend_run (run_of r) tv"
proof -
  have "Max (tv_V ` set (r @ [tv])) = max (tv_V tv) (Max (tv_V ` set r))" using assms by simp
  then have "Max (tv_V ` set (r @ [tv]))
      = (if tv_V tv > Max (tv_V ` set r) then tv_V tv else Max (tv_V ` set r))"
    by (simp only: max_def) (meson antisym_conv3 le_cases not_less)
  with assms show ?thesis by (simp add: run_of_def extend_run_def del: set_append)
qed

lemma run_of_Minutes [simp]: "run_Minutes (run_of r) = int (length r)"
  by (simp add: run_of_def)

lemma zero_run_Minutes [simp]: "run_Minutes zero_run = 0"
  by (simp add: zero_run_def)

text \<open>\<open>s\<close> is the longest run that ends the prefix \<open>p\<close>, empty when the prefix ends below.\<close>

definition tail_run :: "f64 \<Rightarrow> duration \<Rightarrow> timed_value list \<Rightarrow> timed_value list \<Rightarrow> bool" where
  "tail_run th tol p s \<longleftrightarrow> suffix s p \<and> (s = [] \<or> is_run th tol s) \<and>
     (\<forall>r. suffix r p \<and> is_run th tol r \<longrightarrow> length r \<le> length s)"

lemma tail_run_Nil: "tail_run th tol [] []"
  by (simp add: tail_run_def is_run_def)

lemma tail_run_below: "\<not> th \<le> tv_V tv \<Longrightarrow> tail_run th tol (p @ [tv]) []"
  by (auto simp: tail_run_def is_run_snoc is_run_def)

lemma tail_run_extend:
  assumes "tail_run th tol p s" "s \<noteq> []" "th \<le> tv_V tv" "time_sub (tv_TS tv) (tv_TS (last s)) \<le> tol"
  shows "tail_run th tol (p @ [tv]) (s @ [tv])"
  using assms by (auto simp: tail_run_def suffix_snoc is_run_snoc)

lemma suffix_last_eq: "suffix r p \<Longrightarrow> suffix s p \<Longrightarrow> r \<noteq> [] \<Longrightarrow> s \<noteq> [] \<Longrightarrow> last r = last s"
  by (metis last_appendR suffixE)

lemma tail_run_restart:
  assumes "tail_run th tol p s" "th \<le> tv_V tv"
    and "s = [] \<or> \<not> time_sub (tv_TS tv) (tv_TS (last s)) \<le> tol"
  shows "tail_run th tol (p @ [tv]) [tv]"
proof -
  have "r = []" if "suffix r p" "r = [] \<or> is_run th tol r \<and> time_sub (tv_TS tv) (tv_TS (last r)) \<le> tol" for r
  proof (rule ccontr)
    assume "r \<noteq> []"
    with that assms(1) have r: "is_run th tol r" "time_sub (tv_TS tv) (tv_TS (last r)) \<le> tol"
      and "suffix s p" "length r \<le> length s" by (auto simp: tail_run_def)
    with \<open>r \<noteq> []\<close> have "s \<noteq> []" by auto
    with that(1) \<open>suffix s p\<close> \<open>r \<noteq> []\<close> r(2) assms(3) show False
      using suffix_last_eq [of r p s] by simp
  qed
  then show ?thesis
    using assms(2) is_run_snoc [of th tol "[]" tv] by (auto simp: tail_run_def suffix_snoc is_run_snoc)
qed

definition sustained_inv :: "f64 \<Rightarrow> duration \<Rightarrow> timed_value list \<Rightarrow> sustained_state \<Rightarrow> bool" where
  "sustained_inv th tol p st \<longleftrightarrow> (\<exists>s cur lastTS longest.
     st = (cur, lastTS, longest, int (length (filter (\<lambda>tv. th \<le> tv_V tv) p))) \<and> tail_run th tol p s \<and>
     cur = (if s = [] then None else Some (run_of s)) \<and> (s \<noteq> [] \<longrightarrow> lastTS = tv_TS (last s)) \<and>
     (longest = zero_run \<or> (\<exists>r. sublist r p \<and> is_run th tol r \<and> longest = run_of r)) \<and>
     (\<forall>r. sublist r p \<and> is_run th tol r \<longrightarrow>
        int (length r) \<le> max (run_Minutes longest) (int (length s))))"

lemma sustained_inv_init: "sustained_inv th tol [] (None, 0, zero_run, 0)"
  using tail_run_Nil by (simp add: sustained_inv_def is_run_def)

lemma keep_longest_cases:
  "(keep_longest cur longest = longest \<or> cur = Some (keep_longest cur longest)) \<and>
   run_Minutes (keep_longest cur longest)
     = max (run_Minutes longest) (case cur of None \<Rightarrow> run_Minutes longest | Some r \<Rightarrow> run_Minutes r)"
  by (auto simp: keep_longest_def split: option.splits)

text \<open>One observation preserves the invariant: the three ways the loop body takes.\<close>

lemma sustained_inv_step:
  assumes "sustained_inv th tol p st"
  shows "sustained_inv th tol (p @ [tv]) (sustained_step th tol st tv)"
proof -
  let ?n = "int (length (filter (\<lambda>tv. th \<le> tv_V tv) p))"
  from assms obtain s cur lastTS longest where st: "st = (cur, lastTS, longest, ?n)"
    and t: "tail_run th tol p s" and cur: "cur = (if s = [] then None else Some (run_of s))"
    and lt: "s \<noteq> [] \<longrightarrow> lastTS = tv_TS (last s)"
    and lo: "longest = zero_run \<or> (\<exists>r. sublist r p \<and> is_run th tol r \<and> longest = run_of r)"
    and mx: "\<forall>r. sublist r p \<and> is_run th tol r \<longrightarrow>
        int (length r) \<le> max (run_Minutes longest) (int (length s))"
    unfolding sustained_inv_def by blast
  have ss: "sublist s p" and sr: "s \<noteq> [] \<longrightarrow> is_run th tol s" using t by (auto simp: tail_run_def)
  define keep where "keep = keep_longest cur longest"
  have keep: "keep = zero_run \<or> (\<exists>r. sublist r (p @ [tv]) \<and> is_run th tol r \<and> keep = run_of r)"
    "max (run_Minutes longest) (int (length s)) \<le> run_Minutes keep"
    using keep_longest_cases [of cur longest] lo ss sr
    by (auto simp: keep_def cur sublist_snoc split: if_splits)
  have fin: "sustained_inv th tol (p @ [tv])
      (if s' = [] then None else Some (run_of s'), l', lg, int (length (filter (\<lambda>tv. th \<le> tv_V tv) (p @ [tv]))))"
    if t': "tail_run th tol (p @ [tv]) s'" and l': "s' \<noteq> [] \<longrightarrow> l' = tv_TS (last s')"
      and lg: "lg = zero_run \<or> (\<exists>r. sublist r (p @ [tv]) \<and> is_run th tol r \<and> lg = run_of r)"
      and le: "max (run_Minutes longest) (int (length s)) \<le> max (run_Minutes lg) (int (length s'))"
    for s' l' lg
  proof -
    have "int (length r) \<le> max (run_Minutes lg) (int (length s'))"
      if "sublist r (p @ [tv])" "is_run th tol r" for r
      using that t' mx le by (force simp: sublist_snoc tail_run_def simp del: suffix_snoc)
    with t' l' lg show ?thesis unfolding sustained_inv_def by blast
  qed
  have lo': "longest = zero_run \<or> (\<exists>r. sublist r (p @ [tv]) \<and> is_run th tol r \<and> longest = run_of r)"
    using lo by (auto simp: sublist_snoc)
  consider "\<not> th \<le> tv_V tv"
    | "th \<le> tv_V tv" "s \<noteq> []" "time_sub (tv_TS tv) (tv_TS (last s)) \<le> tol"
    | "th \<le> tv_V tv" "s = [] \<or> \<not> time_sub (tv_TS tv) (tv_TS (last s)) \<le> tol" by blast
  then show ?thesis
  proof cases
    case 1
    then show ?thesis
      using fin [of "[]" lastTS keep] tail_run_below [OF 1] keep
      by (simp add: st sustained_step_def keep_def)
  next
    case 2
    have "max (run_Minutes longest) (int (length s)) \<le> max (run_Minutes longest) (int (length (s @ [tv])))"
      by auto
    with 2 show ?thesis
      using fin [of "s @ [tv]" "tv_TS tv" longest] tail_run_extend [OF t 2(2,1,3)] lo' lt
      by (simp add: st sustained_step_def cur run_of_snoc add.commute)
  next
    case 3
    have "keep = longest" if "s = []" using that by (simp add: keep_def cur keep_longest_def)
    moreover have "max (run_Minutes longest) (int (length s)) \<le> max (run_Minutes keep) (int (length [tv]))"
      using keep(2) by auto
    ultimately show ?thesis
      using fin [of "[tv]" "tv_TS tv" keep] tail_run_restart [OF t 3] keep(1) lt 3
      by (cases "s = []") (simp_all add: st sustained_step_def cur run_of_single keep_def add.commute)
  qed
qed

lemma sustained_inv_foldl:
  "sustained_inv th tol vs (foldl (sustained_step th tol) (None, 0, zero_run, 0) vs)"
  by (induction vs rule: rev_induct) (simp_all add: sustained_inv_init sustained_inv_step)

lemma Sustained_correct:
  assumes "Sustained vs th tol = (r, n)"
  shows "n = int (length (filter (\<lambda>tv. th \<le> tv_V tv) vs))"
    and "r = zero_run \<or> (\<exists>b. sublist b vs \<and> is_run th tol b \<and> r = run_of b)"
    and "\<forall>b. sublist b vs \<and> is_run th tol b \<longrightarrow> int (length b) \<le> run_Minutes r"
proof -
  obtain s cur lastTS longest where
    st: "foldl (sustained_step th tol) (None, 0, zero_run, 0) vs
          = (cur, lastTS, longest, int (length (filter (\<lambda>tv. th \<le> tv_V tv) vs)))"
    and t: "tail_run th tol vs s" and cur: "cur = (if s = [] then None else Some (run_of s))"
    and lo: "longest = zero_run \<or> (\<exists>r. sublist r vs \<and> is_run th tol r \<and> longest = run_of r)"
    and mx: "\<forall>r. sublist r vs \<and> is_run th tol r \<longrightarrow>
        int (length r) \<le> max (run_Minutes longest) (int (length s))"
    using sustained_inv_foldl [of th tol vs] unfolding sustained_inv_def by blast
  from assms have r: "r = keep_longest cur longest"
    and n: "n = int (length (filter (\<lambda>tv. th \<le> tv_V tv) vs))"
    by (simp_all add: Sustained_def st)
  have t': "s \<noteq> [] \<Longrightarrow> sublist s vs \<and> is_run th tol s" using t by (auto simp: tail_run_def)
  have "0 \<le> run_Minutes longest" using lo by auto
  then have k: "max (run_Minutes longest) (int (length s)) \<le> run_Minutes r"
    using keep_longest_cases [of cur longest] by (auto simp: r cur split: if_splits)
  show "n = int (length (filter (\<lambda>tv. th \<le> tv_V tv) vs))" by (fact n)
  show "r = zero_run \<or> (\<exists>b. sublist b vs \<and> is_run th tol b \<and> r = run_of b)"
    using lo t' keep_longest_cases [of cur longest] by (auto simp: r cur split: if_splits)
  show "\<forall>b. sublist b vs \<and> is_run th tol b \<longrightarrow> int (length b) \<le> run_Minutes r"
    using mx k by (meson order_trans)
qed

text \<open>
  C18. \<open>Sustained\<close> reads the series once and yet returns the longest run in the declarative sense:
  the total is the number of observations at or above the threshold, the returned run is the summary
  of a block of the series that is a run, no run of the series is longer, and the zero run is
  returned exactly when no observation reaches the threshold.
\<close>

theorem Sustained_spec:
  assumes "Sustained vs th tol = (r, n)"
  shows "n = int (length (filter (\<lambda>tv. th \<le> tv_V tv) vs)) \<and>
    (\<forall>b. sublist b vs \<and> is_run th tol b \<longrightarrow> int (length b) \<le> run_Minutes r) \<and>
    (if n = 0 then r = zero_run else \<exists>b. sublist b vs \<and> is_run th tol b \<and> r = run_of b)"
proof -
  note c = Sustained_correct [OF assms]
  have "r = zero_run" if "n = 0"
  proof -
    from that c(1) have "\<forall>tv \<in> set vs. \<not> th \<le> tv_V tv" by (simp add: filter_empty_conv)
    then have "\<not> (sublist b vs \<and> is_run th tol b)" for b
      using set_mono_sublist [of b vs] by (auto simp: is_run_def list_all_iff neq_Nil_conv)
    with c(2) show ?thesis by blast
  qed
  moreover have "\<exists>b. sublist b vs \<and> is_run th tol b \<and> r = run_of b" if "n \<noteq> 0"
  proof -
    from that c(1) obtain tv where tv: "tv \<in> set vs" "th \<le> tv_V tv"
      by (auto simp: filter_empty_conv)
    then have "sublist [tv] vs" by (metis split_list sublist_appendI append_Cons append_Nil)
    with tv(2) c(3) have "1 \<le> run_Minutes r" by (force simp: is_run_def)
    then have "r \<noteq> zero_run" by auto
    with c(2) show ?thesis by blast
  qed
  ultimately show ?thesis using c by simp
qed

theorem Sustained_spec_witness:
  "\<exists>b. sublist b [\<lparr>tv_TS = 60, tv_V = 1\<rparr>, \<lparr>tv_TS = 120, tv_V = 1\<rparr>, \<lparr>tv_TS = 180, tv_V = 0\<rparr>]
        \<and> is_run 1 90 b \<and> \<lparr>run_Start = 60, run_End = 120, run_Minutes = 2, run_PeakV = 1\<rparr> = run_of b"
proof -
  have "Sustained [\<lparr>tv_TS = 60, tv_V = 1\<rparr>, \<lparr>tv_TS = 120, tv_V = 1\<rparr>, \<lparr>tv_TS = 180, tv_V = 0\<rparr>] 1 90
      = (\<lparr>run_Start = 60, run_End = 120, run_Minutes = 2, run_PeakV = 1\<rparr>, 2)" by code_simp
  from Sustained_spec [OF this] show ?thesis by auto
qed

end
