(* ===== verification/GoMap.thy ===== *)
theory GoMap
  imports UraPrelude
begin

text \<open>
  The interface of the maps the code keeps: a lookup, an update, and the one law that relates them.
  The lemmas of the locale are what the components rest on when they update a map inside
  \<open>for k, v := range m\<close>: with distinct keys, each key is updated once, from its own old value, and
  the result does not depend on the order in which the runtime presents the keys. The interface is
  interpreted on association lists, the model's Go maps.
\<close>

locale key_store =
  fixes lookup :: "'s \<Rightarrow> 'k \<Rightarrow> 'v option"
    and upd :: "'k \<Rightarrow> 'v \<Rightarrow> 's \<Rightarrow> 's"
  assumes lookup_upd: "lookup (upd k v s) k' = (if k' = k then Some v else lookup s k')"
begin

lemma lookup_upd_same: "lookup (upd k v s) k = Some v"
  by (simp add: lookup_upd)

lemma lookup_upd_other: "k' \<noteq> k \<Longrightarrow> lookup (upd k v s) k' = lookup s k'"
  by (simp add: lookup_upd)

lemma lookup_range_other:
  "k \<notin> fst ` set xs \<Longrightarrow> lookup (foldl (\<lambda>s (k, x). upd k (f k (lookup s k) x) s) s xs) k = lookup s k"
  by (induction xs arbitrary: s) (auto simp: lookup_upd)

lemma lookup_range:
  assumes "distinct (map fst xs)"
  shows "lookup (foldl (\<lambda>s (k, x). upd k (f k (lookup s k) x) s) s xs) k =
    (case map_of xs k of None \<Rightarrow> lookup s k | Some x \<Rightarrow> Some (f k (lookup s k) x))"
  using assms
proof (induction xs arbitrary: s)
  case (Cons p xs)
  obtain k0 x0 where p: "p = (k0, x0)" by force
  show ?case
  proof (cases "k = k0")
    case True
    with Cons.prems p have "k \<notin> fst ` set xs" by auto
    then show ?thesis using True by (simp add: p lookup_range_other lookup_upd)
  next
    case False
    with Cons p show ?thesis by (simp add: lookup_upd split: option.split)
  qed
qed simp

lemma lookup_range_perm:
  assumes "distinct (map fst xs)" "mset xs = mset ys"
  shows "lookup (foldl (\<lambda>s (k, x). upd k (f k (lookup s k) x) s) s xs) k =
    lookup (foldl (\<lambda>s (k, x). upd k (f k (lookup s k) x) s) s ys) k"
proof -
  have d: "distinct (map fst ys)"
    using assms(1) mset_eq_imp_distinct_iff [of "map fst xs" "map fst ys"] assms(2) by simp
  have "set xs = set ys" using assms(2) by (metis set_mset_mset)
  then have "map_of xs = map_of ys"
    using assms(1) d by (simp add: map_of_inject_set)
  then show ?thesis by (simp add: lookup_range [OF assms(1)] lookup_range [OF d])
qed

end

interpretation go_map: key_store map_of AList.update
  by unfold_locales (simp add: update_conv')

lemma update_distinct_keys: "distinct (map fst m) \<Longrightarrow> distinct (map fst (AList.update k v m))"
  by (rule distinct_update)

text \<open>Summing a function over the values of an association list, before and after an update.\<close>

lemma sum_list_update:
  fixes g :: "'v \<Rightarrow> int"
  assumes "distinct (map fst m)"
  shows "sum_list (map (g \<circ> snd) (AList.update k v m)) = sum_list (map (g \<circ> snd) m)
    - (case map_of m k of None \<Rightarrow> 0 | Some u \<Rightarrow> g u) + g v"
  using assms
proof (induction m)
  case (Cons p m)
  obtain k0 v0 where p: "p = (k0, v0)" by force
  have "map_of m k0 = None" using Cons.prems p by (simp add: map_of_eq_None_iff)
  with Cons p show ?case by (cases "k = k0") auto
qed simp

lemma set_update_values: "snd ` set (AList.update k v m) \<subseteq> insert v (snd ` set m)"
  by (induction m) (auto split: if_splits)

end
