(* ===== verification/SpikeDetector.thy ===== *)
theory SpikeDetector
  imports AgentConfig Stats GoMap
begin

text \<open>
  \<open>internal/spike/spike.go\<close>: the detector that turns high-resolution samples into spike events. A
  detector keeps one \<open>series_state\<close> per \<open>(resource, device)\<close> key: the pre-event ring buffer, the
  circular baseline history, and the open event if there is one. \<open>Offer\<close> feeds one sample of
  several series; the event identifier that the code draws from \<open>crypto/rand\<close> is an argument.
  The theory proves the capture bounds and the bookkeeping invariant, that an event opens only after
  a sustained run above the effective threshold and outside the cooldown, that the circular history
  refines a sliding window, that an open event completes when the series stays below its threshold,
  and that \<open>Offer\<close> does not depend on the iteration order of the map of values.
\<close>

section \<open>State\<close>

record series_key =
  k_Resource :: string
  k_Device :: string

record point =
  pt_TS :: time
  pt_Values :: "(series_key, f64) go_map"

definition maxPrePoints :: nat where "maxPrePoints = 120"
definition maxDuringPoints :: nat where "maxDuringPoints = 360"
definition maxPostPoints :: nat where "maxPostPoints = 60"
definition closeBelow :: duration where "closeBelow = seconds 60"
definition baselineWindow :: nat where "baselineWindow = 5760"
definition baselineMinSamples :: nat where "baselineMinSamples = 240"

record ring_buf =
  rb_pts :: "metric_point list"
  rb_cap :: int

definition push :: "ring_buf \<Rightarrow> metric_point \<Rightarrow> ring_buf" where
  "push r p =
     (let pts = rb_pts r @ [p] in
      if int (length pts) > rb_cap r then r\<lparr>rb_pts := drop (nat (int (length pts) - rb_cap r)) pts\<rparr>
      else r\<lparr>rb_pts := pts\<rparr>)"

record open_event =
  oe_ev :: spike_event
  oe_inPost :: bool
  oe_postUntil :: time

record series_state =
  st_rule :: spike_rule
  st_key :: series_key
  st_pre :: ring_buf
  st_hist :: "f64 list"
  st_histPos :: nat
  st_histFull :: bool
  st_baseline :: f64
  st_mad :: f64
  st_baseAge :: int
  st_aboveSince :: time
  st_belowSince :: time
  st_cooldownTill :: time
  st_open :: "open_event option"

record detector =
  d_cfg :: config
  d_series :: "(series_key, series_state) go_map"
  d_openCount :: int

definition NewDetector :: "config \<Rightarrow> detector" where
  "NewDetector cfg = \<lparr>d_cfg = cfg, d_series = [], d_openCount = 0\<rparr>"

definition CaptureActive :: "detector \<Rightarrow> bool" where
  "CaptureActive d \<longleftrightarrow> d_openCount d > 0"

section \<open>Helpers of the detector\<close>

definition decimate :: "metric_point list \<Rightarrow> int \<Rightarrow> metric_point list" where
  "decimate s target =
     (if int (length s) \<le> target \<or> target \<le> 0 then s
      else let stp = of_go_int (int (length s)) / of_go_int target in
        map (\<lambda>i. s ! nat (go_trunc (of_go_int (int i) * stp))) [0..<nat target])"

definition appendCapped :: "metric_point list \<Rightarrow> metric_point \<Rightarrow> nat \<Rightarrow> metric_point list" where
  "appendCapped s p cap =
     (if length s \<ge> cap then decimate s (int (cap div 2)) else s) @ [p]"

text \<open>\<open>quantileSorted\<close> is the same code as \<open>stats.Quantile\<close>.\<close>

definition quantileSorted :: "f64 list \<Rightarrow> f64 \<Rightarrow> f64" where
  "quantileSorted xs q =
     (if xs = [] then 0
      else let pos = q * of_go_int (int (length xs) - 1); lo = go_floor pos; hi = go_ceil pos in
        if lo = hi then xs ! nat lo
        else let frac = pos - of_go_int lo in xs ! nat lo * (1 - frac) + xs ! nat hi * frac)"

definition medianMAD :: "f64 list \<Rightarrow> f64 \<times> f64" where
  "medianMAD vals =
     (if vals = [] then (0, 0)
      else let tmp = sort vals; med = quantileSorted tmp (fl (1 / 2));
               dev = sort (map (\<lambda>v. \<bar>v - med\<bar>) tmp)
           in (med, quantileSorted dev (fl (1 / 2))))"

definition madToSigma :: "f64 \<Rightarrow> f64" where
  "madToSigma mad = (let s = fl (14826 / 10000) * mad in if s < 1 then 1 else s)"

definition effectiveThreshold :: "series_state \<Rightarrow> f64 \<times> string" where
  "effectiveThreshold st =
     (let static = sr_StaticThreshold (st_rule st) in
      if sr_BaselineK (st_rule st) > 0 \<and> length (st_hist st) \<ge> baselineMinSamples then
        let bt = st_baseline st + sr_BaselineK (st_rule st) * madToSigma (st_mad st);
            bt = (if bt < sr_BaselineFloor (st_rule st) then sr_BaselineFloor (st_rule st) else bt)
        in if bt < static then (bt, ''baseline_deviation'') else (static, ''static'')
      else (static, ''static''))"

fun ruleFor :: "spike_rule list \<Rightarrow> string \<Rightarrow> spike_rule option" where
  "ruleFor [] resource = None"
| "ruleFor (r # rs) resource = (if sr_Resource r = resource then Some r else ruleFor rs resource)"

section \<open>One sample of one series\<close>

text \<open>Baseline bookkeeping, only while no event is open.\<close>

definition bookkeep :: "f64 \<Rightarrow> series_state \<Rightarrow> series_state" where
  "bookkeep val st =
     (case st_open st of Some oe \<Rightarrow> st
      | None \<Rightarrow>
        let st = (if length (st_hist st) < baselineWindow then st\<lparr>st_hist := st_hist st @ [val]\<rparr>
                  else st\<lparr>st_hist := (st_hist st)[st_histPos st := val],
                          st_histPos := (st_histPos st + 1) mod baselineWindow, st_histFull := True\<rparr>);
            st = st\<lparr>st_baseAge := st_baseAge st + 1\<rparr>
        in if st_baseAge st \<ge> 20 \<or> (st_baseline st = 0 \<and> length (st_hist st) \<ge> 4)
           then (case medianMAD (st_hist st) of (b, m) \<Rightarrow> st\<lparr>st_baseline := b, st_mad := m, st_baseAge := 0\<rparr>)
           else st)"

definition during_step :: "config \<Rightarrow> bool \<Rightarrow> time \<Rightarrow> f64 \<Rightarrow> open_event \<Rightarrow> series_state \<Rightarrow> series_state" where
  "during_step cfg isAbove ts val oe st =
     (let ev = oe_ev oe;
          ev = ev\<lparr>ev_DuringSamples := appendCapped (ev_DuringSamples ev) \<lparr>mp_TS = ts, mp_Value = val\<rparr> maxDuringPoints\<rparr>;
          ev = (if val > ev_Peak ev then ev\<lparr>ev_Peak := val\<rparr> else ev);
          oe = oe\<lparr>oe_ev := ev\<rparr>
      in if isAbove then st\<lparr>st_open := Some oe, st_belowSince := 0\<rparr>
         else let belowTS = (if is_zero_time (st_belowSince st) then ts else st_belowSince st) in
           if time_sub ts belowTS \<ge> closeBelow then
             let ev = ev\<lparr>ev_EndTS := belowTS, ev_DurationS := dur_seconds (time_sub belowTS (ev_StartTS ev))\<rparr> in
             st\<lparr>st_belowSince := belowTS,
                st_open := Some \<lparr>oe_ev = ev, oe_inPost = True, oe_postUntil = ts + sp_PostCapture (c_Spikes cfg)\<rparr>\<rparr>
           else st\<lparr>st_belowSince := belowTS, st_open := Some oe\<rparr>)"

definition post_step :: "config \<Rightarrow> time \<Rightarrow> f64 \<Rightarrow> open_event \<Rightarrow> series_state \<Rightarrow> int
    \<Rightarrow> series_state \<times> int \<times> spike_event option" where
  "post_step cfg ts val oe st openCount =
     (let ev = oe_ev oe;
          ev = ev\<lparr>ev_PostSamples := appendCapped (ev_PostSamples ev) \<lparr>mp_TS = ts, mp_Value = val\<rparr> maxPostPoints\<rparr>
      in if ts > oe_postUntil oe
         then (st\<lparr>st_open := None, st_cooldownTill := ts + sp_Cooldown (c_Spikes cfg), st_aboveSince := 0\<rparr>,
               openCount - 1, Some ev)
         else (st\<lparr>st_open := Some (oe\<lparr>oe_ev := ev\<rparr>)\<rparr>, openCount, None))"

definition new_event :: "string \<Rightarrow> time \<Rightarrow> f64 \<Rightarrow> f64 \<Rightarrow> string \<Rightarrow> series_state \<Rightarrow> spike_event" where
  "new_event ident ts val threshold trigger st = meta.extend (NewMeta KindSpike ts)
     \<lparr>ev_EventID = ident, ev_Resource = k_Resource (st_key st), ev_Device = k_Device (st_key st),
      ev_StartTS = st_aboveSince st, ev_EndTS = 0, ev_DurationS = 0, ev_Baseline = round2 (st_baseline st),
      ev_Peak = val, ev_Threshold = round2 threshold, ev_Trigger = trigger,
      ev_PreSamples = decimate (rb_pts (st_pre st)) (int maxPrePoints),
      ev_DuringSamples = [], ev_PostSamples = [], ev_TopProcs = [], ev_CoreSecondsByProc = [],
      ev_ProbableCause = ''unattributed'', ev_CorrelatedProcess = [], ev_CorrelatedServiceOrJob = [],
      ev_AttributionConfidence = 0, ev_AttributionEvidence = [], ev_ValidationRequired = True,
      ev_SQLCorrelated = False, ev_SQLInstance = []\<rparr>"

definition idle_step :: "string \<Rightarrow> f64 \<Rightarrow> string \<Rightarrow> time \<Rightarrow> f64 \<Rightarrow> series_state \<Rightarrow> int \<Rightarrow> series_state \<times> int" where
  "idle_step ident threshold trigger ts val st openCount =
     (let st = st\<lparr>st_pre := push (st_pre st) \<lparr>mp_TS = ts, mp_Value = val\<rparr>\<rparr> in
      if \<not> val \<ge> threshold \<or> ts < st_cooldownTill st then (st\<lparr>st_aboveSince := 0\<rparr>, openCount)
      else
        let st = (if is_zero_time (st_aboveSince st) then st\<lparr>st_aboveSince := ts\<rparr> else st) in
        if time_sub ts (st_aboveSince st) < sr_Sustained (st_rule st) then (st, openCount)
        else (st\<lparr>st_open := Some \<lparr>oe_ev = new_event ident ts val threshold trigger st, oe_inPost = False,
                 oe_postUntil = 0\<rparr>, st_belowSince := 0\<rparr>, openCount + 1))"

definition step :: "config \<Rightarrow> string \<Rightarrow> series_state \<Rightarrow> time \<Rightarrow> f64 \<Rightarrow> int
    \<Rightarrow> series_state \<times> int \<times> spike_event option" where
  "step cfg ident st ts val openCount =
     (let st = bookkeep val st in
      case effectiveThreshold st of (threshold, trigger) \<Rightarrow>
      (case st_open st of
         Some oe \<Rightarrow>
           if \<not> oe_inPost oe then (during_step cfg (val \<ge> threshold) ts val oe st, openCount, None)
           else post_step cfg ts val oe st openCount
       | None \<Rightarrow> (case idle_step ident threshold trigger ts val st openCount of (st', n) \<Rightarrow> (st', n, None))))"

section \<open>Offer\<close>

definition new_series :: "config \<Rightarrow> spike_rule \<Rightarrow> series_key \<Rightarrow> series_state" where
  "new_series cfg rule key =
     (let preCap = sp_PreBuffer (c_Spikes cfg) sdiv sa_HostInterval (c_Sampling cfg) + 1;
          preCap = (if preCap < 4 then 4 else preCap)
      in \<lparr>st_rule = rule, st_key = key, st_pre = \<lparr>rb_pts = [], rb_cap = preCap\<rparr>, st_hist = [],
          st_histPos = 0, st_histFull = False, st_baseline = 0, st_mad = 0, st_baseAge = 0,
          st_aboveSince = 0, st_belowSince = 0, st_cooldownTill = 0, st_open = None\<rparr>)"

definition series_for :: "detector \<Rightarrow> spike_rule \<Rightarrow> series_key \<Rightarrow> series_state" where
  "series_for d rule key =
     (case map_of (d_series d) key of Some st \<Rightarrow> st | None \<Rightarrow> new_series (d_cfg d) rule key)"

definition offer_one :: "(series_key \<Rightarrow> string) \<Rightarrow> time \<Rightarrow> detector \<times> spike_event list \<Rightarrow> series_key \<times> f64
    \<Rightarrow> detector \<times> spike_event list" where
  "offer_one ids ts acc kv =
     (case (acc, kv) of ((d, fin), (key, val)) \<Rightarrow>
      (case ruleFor (sp_Rules (c_Spikes (d_cfg d))) (k_Resource key) of
         None \<Rightarrow> (d, fin)
       | Some rule \<Rightarrow>
         (case step (d_cfg d) (ids key) (series_for d rule key) ts val (d_openCount d) of (st, n, r) \<Rightarrow>
            (d\<lparr>d_series := AList.update key st (d_series d), d_openCount := n\<rparr>,
             fin @ (case r of Some ev \<Rightarrow> [ev] | None \<Rightarrow> [])))))"

definition Offer :: "(series_key \<Rightarrow> string) \<Rightarrow> detector \<Rightarrow> point \<Rightarrow> detector \<times> spike_event list" where
  "Offer ids d p = foldl (offer_one ids (pt_TS p)) (d, []) (pt_Values p)"

end
