(* ===== verification/SpikeFacts.thy ===== *)
theory SpikeFacts
  imports SpikeDetector
begin

text \<open>
  Properties of the spike detector of \<open>SpikeDetector\<close>: the bounds of the capture helpers, the
  invariant of a series and of the detector and its preservation by \<open>step\<close> and \<open>Offer\<close>, the
  sliding-window refinement of the baseline history, the opening and the completion of events.
\<close>

section \<open>Decimation\<close>

definition decimate_index :: "nat \<Rightarrow> int \<Rightarrow> nat \<Rightarrow> nat" where
  "decimate_index n target i = nat (go_trunc (of_go_int (int i) * (of_go_int (int n) / of_go_int target)))"

lemma decimate_eq:
  "decimate s target = (if int (length s) \<le> target \<or> target \<le> 0 then s
     else map (\<lambda>i. s ! decimate_index (length s) target i) [0..<nat target])"
  by (simp add: decimate_def decimate_index_def Let_def)

lemma length_decimate:
  "length (decimate s t) = (if int (length s) \<le> t \<or> t \<le> 0 then length s else nat t)"
  by (simp add: decimate_eq)

lemma decimate_index_mono: "i \<le> j \<Longrightarrow> 0 < t \<Longrightarrow> decimate_index n t i \<le> decimate_index n t j"
proof -
  assume ij: "i \<le> j" and t: "0 < t"
  have "0 \<le> of_go_int (int n) / of_go_int t"
    using t by (intro f64_nonneg_intros of_go_int_nonneg) auto
  then have "of_go_int (int i) * (of_go_int (int n) / of_go_int t)
      \<le> of_go_int (int j) * (of_go_int (int n) / of_go_int t)"
    using ij by (intro f64_mult_mono of_go_int_mono) auto
  then show ?thesis
    by (auto simp: decimate_index_def go_trunc_def f64_le_iff intro!: nat_mono floor_mono ceiling_mono)
qed

lemma decimate_slack:
  fixes n t u e :: rat
  assumes "1 \<le> t" "t \<le> 2 ^ 20" "1 \<le> n" "0 < u" "u \<le> 1 / 2 ^ 53" "0 < e" "e \<le> u * u"
  shows "(t - 1) * (n / t * (1 + u) + e) * (1 + u) + e < n"
proof -
  have uu: "u * u \<le> u" using assms mult_left_mono [of u 1 u] by simp
  have n3: "0 \<le> n * (1 - 1 / t)" using assms by (simp add: field_simps)
  have a: "(t - 1) * (n / t * (1 + u) + e) * (1 + u) + e
      = n * (1 - 1 / t) * ((1 + u) * (1 + u)) + ((t - 1) * e * (1 + u) + e)"
    using assms by (simp add: field_simps)
  have b: "n * (1 - 1 / t) * ((1 + u) * (1 + u)) \<le> n * (1 - 1 / t) * (1 + 3 * u)"
    using uu by (intro mult_left_mono [OF _ n3]) (simp add: algebra_simps)
  have c: "(1 - 1 / t) * (1 + 3 * u) \<le> 1 - 1 / 2 ^ 21"
  proof -
    have "1 / 2 ^ 20 \<le> 1 / t" using assms by (intro divide_left_mono) auto
    moreover have "3 * u \<le> 3 / 2 ^ 53" using assms by simp
    moreover have "0 \<le> 1 / t * (3 * u)" using assms by simp
    ultimately show ?thesis by (simp add: algebra_simps) 
  qed
  have "n * (1 - 1 / t) * (1 + 3 * u) \<le> n * (1 - 1 / 2 ^ 21)"
    using mult_left_mono [OF c, of n] assms(3) by (simp only: mult.assoc)
  moreover have "n * (1 - 1 / 2 ^ 21) \<le> n - 1 / 2 ^ 21"
    using assms by (simp add: algebra_simps)
  moreover have "(t - 1) * e * (1 + u) + e < 1 / 2 ^ 21"
  proof -
    have e': "e \<le> 1 / 2 ^ 106"
      using assms(7) mult_mono [OF assms(5) assms(5)] assms(4) by simp
    have "(t - 1) * e * (1 + u) \<le> 2 ^ 20 * e * 2"
      using assms by (intro mult_mono) auto
    then show ?thesis using e' by simp
  qed
  ultimately show ?thesis using a b by linarith
qed

lemma decimate_index_less:
  assumes "0 < t" "t \<le> 2 ^ 20" "0 < n" "int n \<le> 2 ^ 53" "int i < t"
  shows "decimate_index n t i < n"
proof -
  let ?s = "of_go_int (int n) / of_go_int t"
  have ex: "fval (of_go_int (int i)) = of_nat i" "fval (of_go_int (int n)) = of_nat n"
    "fval (of_go_int t) = of_int t"
    using assms by (subst fval_of_go_int; simp)+
  have r: "0 \<le> (of_nat n / of_int t :: rat)" using assms by simp
  have s: "fval ?s \<le> of_nat n / of_int t * (1 + f64_ulp) + f64_eta" "0 \<le> fval ?s"
    using rnd64_bounds [OF r] by (simp_all add: fval_arith ex rnd64_nonneg r)
  have p: "0 \<le> (of_nat i :: rat) * fval ?s" using s by simp
  have "fval (of_go_int (int i) * ?s) \<le> of_nat i * fval ?s * (1 + f64_ulp) + f64_eta"
    using rnd64_bounds [OF p] by (simp add: fval_arith(3) ex)
  also have "\<dots> \<le> (of_int t - 1) * (of_nat n / of_int t * (1 + f64_ulp) + f64_eta) * (1 + f64_ulp) + f64_eta"
  proof -
    have "(of_nat i :: rat) \<le> of_int t - 1" using assms(5) by linarith
    then have "(of_nat i :: rat) * fval ?s \<le> (of_int t - 1) * (of_nat n / of_int t * (1 + f64_ulp) + f64_eta)"
      using s assms(1) by (intro mult_mono) auto
    then show ?thesis using f64_ulp_bounds(1) by simp
  qed
  also have "\<dots> < of_nat n"
  proof (rule decimate_slack)
    have "f64_ulp = 1 / 2 ^ 53" by (simp add: f64_ulp_def power_int_def power_divide)
    then show "f64_ulp \<le> 1 / 2 ^ 53" by simp
    have "of_int t \<le> (of_int (2 ^ 20) :: rat)" using assms by (simp only: of_int_le_iff)
    then show "of_int t \<le> (2 ^ 20 :: rat)" by simp
  qed (use assms f64_ulp_bounds f64_eta_pos in auto)
  finally have lt: "fval (of_go_int (int i) * ?s) < of_nat n" .
  have nn: "0 \<le> fval (of_go_int (int i) * ?s)" using p by (simp add: fval_arith(3) ex rnd64_nonneg)
  have "\<lfloor>fval (of_go_int (int i) * ?s)\<rfloor> < int n" using lt by (simp add: floor_less_iff)
  with nn show ?thesis by (simp add: decimate_index_def go_trunc_def nat_less_iff)
qed

lemma decimate_subset:
  assumes "t \<le> 2 ^ 20" "int (length s) \<le> 2 ^ 53"
  shows "set (decimate s t) \<subseteq> set s"
proof (cases "int (length s) \<le> t \<or> t \<le> 0")
  case False
  then have "decimate_index (length s) t i < length s" if "i < nat t" for i
    using that assms by (intro decimate_index_less) auto
  then show ?thesis using False by (auto simp: decimate_eq)
qed (simp add: decimate_eq)

lemma decimate_sorted:
  assumes "t \<le> 2 ^ 20" "int (length s) \<le> 2 ^ 53" "sorted (map mp_TS s)"
  shows "sorted (map mp_TS (decimate s t))"
proof (cases "int (length s) \<le> t \<or> t \<le> 0")
  case False
  let ?k = "decimate_index (length s) t"
  have "mp_TS (s ! ?k i) \<le> mp_TS (s ! ?k j)" if "i \<le> j" "j < nat t" for i j
  proof -
    have "?k j < length s" using False that assms by (intro decimate_index_less) auto
    moreover have "?k i \<le> ?k j" using False that by (intro decimate_index_mono) auto
    ultimately show ?thesis using sorted_nth_mono [OF assms(3), of "?k i" "?k j"] by simp
  qed
  then show ?thesis using False by (auto simp: decimate_eq sorted_iff_nth_mono)
qed (simp add: decimate_eq assms(3))

text \<open>Halving a full buffer keeps every other point, the oldest included.\<close>

lemma decimate_half:
  assumes "length s = 2 * n" "0 < n" "int n \<le> 2 ^ 51"
  shows "decimate s (int n) = map (\<lambda>i. s ! (2 * i)) [0..<n]"
proof -
  have r2: "rnd64 2 = 2" using rnd64_of_int [of 2] by simp
  have st: "of_go_int (int (2 * n)) / of_go_int (int n) = fl 2"
    using assms fval_of_go_int [of "int (2 * n)"] fval_of_go_int [of "int n"]
    by (simp flip: fval_inject' add: fval_arith r2)
  have "decimate_index (2 * n) (int n) i = 2 * i" if "i < n" for i
  proof -
    have "fval (of_go_int (int i) * fl 2) = rnd64 (of_int (2 * int i))"
      using that assms fval_of_go_int [of "int i"] by (simp add: fval_arith r2 mult.commute)
    also have "\<dots> = of_int (2 * int i)" using that assms by (intro rnd64_of_int) auto
    finally show ?thesis by (simp only: decimate_index_def st go_trunc_def floor_of_int ceiling_of_int) simp
  qed
  then show ?thesis using assms by (auto simp: decimate_eq)
qed

section \<open>The capped buffers\<close>

lemma appendCapped_full:
  assumes "length s = 2 * n" "0 < n" "int n \<le> 2 ^ 51"
  shows "appendCapped s p (2 * n) = map (\<lambda>i. s ! (2 * i)) [0..<n] @ [p]"
  using decimate_half [OF assms] assms(1) by (simp add: appendCapped_def)

lemma length_appendCapped: "2 \<le> cap \<Longrightarrow> length s \<le> cap \<Longrightarrow> length (appendCapped s p cap) \<le> cap"
  by (auto simp: appendCapped_def length_decimate)

lemma appendCapped_last [simp]: "appendCapped s p cap \<noteq> []" "last (appendCapped s p cap) = p"
  by (simp_all add: appendCapped_def)

lemma set_appendCapped:
  assumes "cap \<le> 2 ^ 20" "length s \<le> cap"
  shows "set (appendCapped s p cap) \<subseteq> insert p (set s)"
proof -
  have "set (decimate s (int (cap div 2))) \<subseteq> set s"
    using assms by (intro decimate_subset) auto
  then show ?thesis by (auto simp: appendCapped_def)
qed

lemma sorted_appendCapped:
  assumes "cap \<le> 2 ^ 20" "length s \<le> cap" "sorted (map mp_TS s)" "\<forall>q \<in> set s. mp_TS q \<le> mp_TS p"
  shows "sorted (map mp_TS (appendCapped s p cap))"
proof -
  have "sorted (map mp_TS (decimate s (int (cap div 2))))" "set (decimate s (int (cap div 2))) \<subseteq> set s"
    using assms by (auto intro!: decimate_sorted dest: decimate_subset [THEN subsetD, rotated 2])
  then show ?thesis using assms by (auto simp: appendCapped_def sorted_append)
qed

lemma push_simps [simp]: "rb_cap (push r p) = rb_cap r"
  by (simp add: push_def Let_def)

lemma length_push: "0 \<le> rb_cap r \<Longrightarrow> int (length (rb_pts (push r p))) \<le> rb_cap r"
  by (simp add: push_def Let_def) arith

lemma set_push: "set (rb_pts (push r p)) \<subseteq> insert p (set (rb_pts r))"
  by (auto simp: push_def Let_def dest: in_set_dropD)

lemma sorted_push:
  assumes "sorted (map mp_TS (rb_pts r))" "\<forall>q \<in> set (rb_pts r). mp_TS q \<le> mp_TS p"
  shows "sorted (map mp_TS (rb_pts (push r p)))"
proof -
  have "sorted (map mp_TS (rb_pts r @ [p]))" using assms by (simp add: sorted_append)
  then show ?thesis unfolding push_def Let_def by (auto simp del: map_append drop_append simp flip: drop_map)
qed

text \<open>The newest point is always in the ring, so the pre-samples of an event end at its opening.\<close>

lemma last_push: "1 \<le> rb_cap r \<Longrightarrow> last (rb_pts (push r p)) = p"
  by (simp add: push_def Let_def last_drop)

section \<open>The invariant of a series\<close>

definition samples_ok :: "time \<Rightarrow> int \<Rightarrow> metric_point list \<Rightarrow> bool" where
  "samples_ok t cap s \<longleftrightarrow> int (length s) \<le> cap \<and> sorted (map mp_TS s) \<and> (\<forall>p \<in> set s. mp_TS p \<le> t)"

definition event_ok :: "time \<Rightarrow> series_key \<Rightarrow> spike_event \<Rightarrow> bool" where
  "event_ok t key ev \<longleftrightarrow>
     samples_ok t (int maxPrePoints) (ev_PreSamples ev) \<and> samples_ok t (int maxDuringPoints) (ev_DuringSamples ev) \<and>
     samples_ok t (int maxPostPoints) (ev_PostSamples ev) \<and> (\<forall>p \<in> set (ev_DuringSamples ev). mp_Value p \<le> ev_Peak ev) \<and>
     0 < ev_StartTS ev \<and> ev_StartTS ev \<le> t \<and> ev_Resource ev = k_Resource key \<and> ev_Device ev = k_Device key \<and>
     ev_ValidationRequired ev \<and> ev_ProbableCause ev = ''unattributed'' \<and> m_Kind ev = KindSpike"

definition event_closed :: "time \<Rightarrow> spike_event \<Rightarrow> bool" where
  "event_closed t ev \<longleftrightarrow> ev_StartTS ev \<le> ev_EndTS ev \<and> ev_EndTS ev \<le> t \<and>
     ev_DurationS ev = dur_seconds (time_sub (ev_EndTS ev) (ev_StartTS ev))"

definition open_ok :: "time \<Rightarrow> series_state \<Rightarrow> open_event \<Rightarrow> bool" where
  "open_ok t st oe \<longleftrightarrow> event_ok t (st_key st) (oe_ev oe) \<and>
     (if oe_inPost oe then event_closed t (oe_ev oe)
      else st_belowSince st = 0 \<or> ev_StartTS (oe_ev oe) \<le> st_belowSince st)"

definition hist_ok :: "series_state \<Rightarrow> bool" where
  "hist_ok st \<longleftrightarrow> length (st_hist st) \<le> baselineWindow \<and> st_histPos st < baselineWindow \<and>
     (st_histPos st \<noteq> 0 \<or> st_histFull st \<longrightarrow> length (st_hist st) = baselineWindow)"

definition series_inv :: "time \<Rightarrow> series_state \<Rightarrow> bool" where
  "series_inv t st \<longleftrightarrow> 0 \<le> t \<and> hist_ok st \<and> 1 \<le> rb_cap (st_pre st) \<and> rb_cap (st_pre st) \<le> 2 ^ 53 \<and>
     samples_ok t (rb_cap (st_pre st)) (rb_pts (st_pre st)) \<and>
     0 \<le> st_aboveSince st \<and> st_aboveSince st \<le> t \<and> 0 \<le> st_belowSince st \<and> st_belowSince st \<le> t \<and>
     (case st_open st of None \<Rightarrow> True | Some oe \<Rightarrow> open_ok t st oe)"

lemmas cap_defs = maxPrePoints_def maxDuringPoints_def maxPostPoints_def

lemma samples_ok_Nil [simp]: "samples_ok t cap [] \<longleftrightarrow> 0 \<le> cap"
  by (simp add: samples_ok_def)

lemma samples_ok_mono: "samples_ok t cap s \<Longrightarrow> t \<le> t' \<Longrightarrow> samples_ok t' cap s"
  by (auto simp: samples_ok_def)

lemma samples_ok_appendCapped:
  assumes "samples_ok t (int cap) s" "t \<le> mp_TS p" "2 \<le> cap" "cap \<le> 2 ^ 20"
  shows "samples_ok (mp_TS p) (int cap) (appendCapped s p cap)"
proof -
  have l: "length s \<le> cap" and q: "\<forall>q \<in> set s. mp_TS q \<le> mp_TS p" and so: "sorted (map mp_TS s)"
    using assms by (auto simp: samples_ok_def)
  show ?thesis unfolding samples_ok_def
  proof (intro conjI)
    show "int (length (appendCapped s p cap)) \<le> int cap" using length_appendCapped [OF assms(3) l] by simp
    show "sorted (map mp_TS (appendCapped s p cap))" by (rule sorted_appendCapped [OF assms(4) l so q])
    show "\<forall>q \<in> set (appendCapped s p cap). mp_TS q \<le> mp_TS p"
      using set_appendCapped [OF assms(4) l, of p] q by auto
  qed
qed

lemma samples_ok_push:
  assumes "samples_ok t (rb_cap r) (rb_pts r)" "t \<le> mp_TS p" "0 \<le> rb_cap r"
  shows "samples_ok (mp_TS p) (rb_cap r) (rb_pts (push r p))"
proof -
  have q: "\<forall>q \<in> set (rb_pts r). mp_TS q \<le> mp_TS p" using assms by (auto simp: samples_ok_def)
  show ?thesis
    using length_push [OF assms(3), of p] sorted_push [OF _ q] set_push [of r p] q assms(1)
    by (auto simp: samples_ok_def)
qed

lemma samples_ok_decimate:
  assumes "samples_ok t cap s" "cap \<le> 2 ^ 53" "0 < n" "n \<le> 2 ^ 20"
  shows "samples_ok t n (decimate s n)"
  using assms decimate_sorted [of n s] decimate_subset [of n s]
  by (auto simp: samples_ok_def length_decimate)

lemma event_ok_mono: "event_ok t key ev \<Longrightarrow> t \<le> t' \<Longrightarrow> event_ok t' key ev"
  by (auto simp: event_ok_def intro: samples_ok_mono)

lemma event_closed_mono: "event_closed t ev \<Longrightarrow> t \<le> t' \<Longrightarrow> event_closed t' ev"
  by (auto simp: event_closed_def)

lemma open_ok_mono: "open_ok t st oe \<Longrightarrow> t \<le> t' \<Longrightarrow> open_ok t' st oe"
  by (auto simp: open_ok_def intro: event_ok_mono event_closed_mono split: if_splits)

lemma series_inv_mono: "series_inv t st \<Longrightarrow> t \<le> t' \<Longrightarrow> series_inv t' st"
  by (auto simp: series_inv_def intro: samples_ok_mono open_ok_mono split: option.splits)

lemma bookkeep_frame [simp]:
  "st_rule (bookkeep v st) = st_rule st" "st_key (bookkeep v st) = st_key st"
  "st_pre (bookkeep v st) = st_pre st" "st_aboveSince (bookkeep v st) = st_aboveSince st"
  "st_belowSince (bookkeep v st) = st_belowSince st" "st_cooldownTill (bookkeep v st) = st_cooldownTill st"
  "st_open (bookkeep v st) = st_open st"
  by (simp_all add: bookkeep_def Let_def split: option.splits prod.splits)

lemma bookkeep_open [simp]: "st_open st = Some oe \<Longrightarrow> bookkeep v st = st"
  by (simp add: bookkeep_def)

lemma bookkeep_hist:
  "st_open st = None \<Longrightarrow> st_hist (bookkeep v st) =
     (if length (st_hist st) < baselineWindow then st_hist st @ [v] else (st_hist st)[st_histPos st := v])"
  "st_open st = None \<Longrightarrow> st_histPos (bookkeep v st) =
     (if length (st_hist st) < baselineWindow then st_histPos st else (st_histPos st + 1) mod baselineWindow)"
  "st_open st = None \<Longrightarrow> st_histFull (bookkeep v st) =
     (if length (st_hist st) < baselineWindow then st_histFull st else True)"
  by (simp_all add: bookkeep_def Let_def split: option.splits prod.splits)

lemma hist_ok_bookkeep: "hist_ok st \<Longrightarrow> hist_ok (bookkeep v st)"
proof (cases "st_open st")
  case None
  then show "hist_ok st \<Longrightarrow> hist_ok (bookkeep v st)"
    by (auto simp: hist_ok_def bookkeep_hist baselineWindow_def)
qed simp

lemma open_ok_bookkeep [simp]: "open_ok t (bookkeep v st) oe = open_ok t st oe"
  by (simp add: open_ok_def)

lemma series_inv_bookkeep: "series_inv t st \<Longrightarrow> series_inv t (bookkeep v st)"
  by (auto simp: series_inv_def hist_ok_bookkeep split: option.splits)

subsection \<open>Preservation\<close>

lemma event_ok_during:
  assumes "event_ok t key ev" "t \<le> ts"
  shows "event_ok ts key (ev\<lparr>ev_DuringSamples := appendCapped (ev_DuringSamples ev) \<lparr>mp_TS = ts, mp_Value = v\<rparr> maxDuringPoints,
     ev_Peak := (if v > ev_Peak ev then v else ev_Peak ev)\<rparr>)"
proof -
  let ?p = "\<lparr>mp_TS = ts, mp_Value = v\<rparr>"
  have d: "samples_ok t (int maxDuringPoints) (ev_DuringSamples ev)"
    and pk: "\<forall>p \<in> set (ev_DuringSamples ev). mp_Value p \<le> ev_Peak ev"
    using assms(1) by (simp_all add: event_ok_def)
  have "samples_ok ts (int maxDuringPoints) (appendCapped (ev_DuringSamples ev) ?p maxDuringPoints)"
    using samples_ok_appendCapped [OF d, of ?p] assms(2) by (simp add: cap_defs)
  moreover have "\<forall>p \<in> set (appendCapped (ev_DuringSamples ev) ?p maxDuringPoints).
      mp_Value p \<le> (if v > ev_Peak ev then v else ev_Peak ev)"
    using set_appendCapped [of maxDuringPoints "ev_DuringSamples ev" ?p] d pk
    by (fastforce simp: samples_ok_def cap_defs dest: subsetD)
  ultimately show ?thesis
    using event_ok_mono [OF assms] by (simp add: event_ok_def)
qed

lemma event_ok_post:
  assumes "event_ok t key ev" "t \<le> ts"
  shows "event_ok ts key (ev\<lparr>ev_PostSamples := appendCapped (ev_PostSamples ev) \<lparr>mp_TS = ts, mp_Value = v\<rparr> maxPostPoints\<rparr>)"
proof -
  have "samples_ok t (int maxPostPoints) (ev_PostSamples ev)" using assms(1) by (simp add: event_ok_def)
  from samples_ok_appendCapped [OF this, of "\<lparr>mp_TS = ts, mp_Value = v\<rparr>"] assms(2)
  show ?thesis using event_ok_mono [OF assms] by (simp add: event_ok_def cap_defs)
qed

lemma event_ok_end [simp]:
  "event_ok t key (ev\<lparr>ev_EndTS := e, ev_DurationS := d\<rparr>) = event_ok t key ev"
  by (simp add: event_ok_def)

lemma during_step_eq:
  "during_step cfg isAbove ts v oe st =
    (let ev = (oe_ev oe)\<lparr>ev_DuringSamples := appendCapped (ev_DuringSamples (oe_ev oe)) \<lparr>mp_TS = ts, mp_Value = v\<rparr> maxDuringPoints,
           ev_Peak := (if v > ev_Peak (oe_ev oe) then v else ev_Peak (oe_ev oe))\<rparr>;
         b = (if st_belowSince st = 0 then ts else st_belowSince st)
     in if isAbove then st\<lparr>st_open := Some (oe\<lparr>oe_ev := ev\<rparr>), st_belowSince := 0\<rparr>
        else if time_sub ts b \<ge> closeBelow
        then st\<lparr>st_belowSince := b, st_open := Some
          \<lparr>oe_ev = ev\<lparr>ev_EndTS := b, ev_DurationS := dur_seconds (time_sub b (ev_StartTS (oe_ev oe)))\<rparr>,
           oe_inPost = True, oe_postUntil = ts + sp_PostCapture (c_Spikes cfg)\<rparr>\<rparr>
        else st\<lparr>st_belowSince := b, st_open := Some (oe\<lparr>oe_ev := ev\<rparr>)\<rparr>)"
proof -
  have pk: "(if v > ev_Peak e then e\<lparr>ev_DuringSamples := d, ev_Peak := v\<rparr> else e\<lparr>ev_DuringSamples := d\<rparr>)
      = e\<lparr>ev_DuringSamples := d, ev_Peak := (if v > ev_Peak e then v else ev_Peak e)\<rparr>" for e :: spike_event and d
    by simp
  show ?thesis by (simp add: during_step_def Let_def pk [symmetric])
qed

lemma series_inv_during:
  assumes inv: "series_inv t st" and op: "st_open st = Some oe" "\<not> oe_inPost oe" and ts: "t \<le> ts" "0 < ts"
  shows "series_inv ts (during_step cfg isAbove ts v oe st)"
proof -
  note m = series_inv_mono [OF inv ts(1)]
  have e: "event_ok t (st_key st) (oe_ev oe)"
    and b: "st_belowSince st = 0 \<or> ev_StartTS (oe_ev oe) \<le> st_belowSince st"
    using inv op by (simp_all add: series_inv_def open_ok_def)
  have s: "ev_StartTS (oe_ev oe) \<le> ts" using e ts by (simp add: event_ok_def)
  note ev = event_ok_during [OF e ts(1), of v]
  show ?thesis
    using m op ev s b ts
    by (auto simp: during_step_eq Let_def series_inv_def open_ok_def event_closed_def hist_ok_def)
qed

lemma series_inv_post:
  assumes inv: "series_inv t st" and op: "st_open st = Some oe" "oe_inPost oe" and ts: "t \<le> ts" "0 < ts"
    and st': "post_step cfg ts v oe st n = (st', n', r)"
  shows "series_inv ts st'" "\<And>ev. r = Some ev \<Longrightarrow> event_ok ts (st_key st) ev \<and> event_closed ts ev"
proof -
  note m = series_inv_mono [OF inv ts(1)]
  have e: "event_ok t (st_key st) (oe_ev oe)" and c: "event_closed t (oe_ev oe)"
    using inv op by (simp_all add: series_inv_def open_ok_def)
  note ev = event_ok_post [OF e ts(1), of v] event_closed_mono [OF c ts(1)]
  show "series_inv ts st'"
    using m op ev st' ts
    by (auto simp: post_step_def Let_def series_inv_def open_ok_def event_closed_def hist_ok_def split: if_splits)
  show "event_ok ts (st_key st) ev \<and> event_closed ts ev" if "r = Some ev" for ev
    using that ev st' by (auto simp: post_step_def Let_def event_closed_def split: if_splits)
qed

lemma new_event_simps [simp]:
  "ev_PreSamples (new_event i ts v th tr st) = decimate (rb_pts (st_pre st)) (int maxPrePoints)"
  "ev_DuringSamples (new_event i ts v th tr st) = []" "ev_PostSamples (new_event i ts v th tr st) = []"
  "ev_StartTS (new_event i ts v th tr st) = st_aboveSince st" "ev_Peak (new_event i ts v th tr st) = v"
  "ev_Resource (new_event i ts v th tr st) = k_Resource (st_key st)"
  "ev_Device (new_event i ts v th tr st) = k_Device (st_key st)"
  "ev_ValidationRequired (new_event i ts v th tr st)" "ev_EventID (new_event i ts v th tr st) = i"
  "ev_ProbableCause (new_event i ts v th tr st) = ''unattributed''"
  "m_Kind (new_event i ts v th tr st) = KindSpike" "m_TS (new_event i ts v th tr st) = ts"
  "ev_Threshold (new_event i ts v th tr st) = round2 th" "ev_Trigger (new_event i ts v th tr st) = tr"
  by (simp_all add: new_event_def meta.defs NewMeta_def)

lemma series_inv_idle:
  assumes inv: "series_inv t st" and op: "st_open st = None" and ts: "t \<le> ts" "0 < ts"
    and st': "idle_step ident th tr ts v st n = (st', n')"
  shows "series_inv ts st'"
proof -
  note m = series_inv_mono [OF inv ts(1)]
  let ?r = "push (st_pre st) \<lparr>mp_TS = ts, mp_Value = v\<rparr>"
  have "samples_ok ts (rb_cap (st_pre st)) (rb_pts ?r)"
    using samples_ok_push [of t "st_pre st" "\<lparr>mp_TS = ts, mp_Value = v\<rparr>"] inv ts by (simp add: series_inv_def)
  moreover from samples_ok_decimate [OF this] m
  have "samples_ok ts (int maxPrePoints) (decimate (rb_pts ?r) (int maxPrePoints))"
    by (simp add: series_inv_def cap_defs)
  ultimately show ?thesis
    using m op st' ts
    by (auto simp: idle_step_def Let_def series_inv_def open_ok_def event_ok_def cap_defs hist_ok_def split: if_splits)
qed

text \<open>The three phases of \<open>step\<close>, with the bookkeeping already applied.\<close>

lemma step_idle:
  "st_open st = None \<Longrightarrow> step cfg ident st ts v n =
    (case idle_step ident (fst (effectiveThreshold (bookkeep v st))) (snd (effectiveThreshold (bookkeep v st)))
       ts v (bookkeep v st) n of (st', n') \<Rightarrow> (st', n', None))"
  by (simp add: step_def Let_def split: prod.splits)

lemma step_during:
  "st_open st = Some oe \<Longrightarrow> \<not> oe_inPost oe \<Longrightarrow> step cfg ident st ts v n =
    (during_step cfg (v \<ge> fst (effectiveThreshold st)) ts v oe st, n, None)"
  by (simp add: step_def Let_def split: prod.splits)

lemma step_post:
  "st_open st = Some oe \<Longrightarrow> oe_inPost oe \<Longrightarrow> step cfg ident st ts v n = post_step cfg ts v oe st n"
  by (simp add: step_def Let_def split: prod.splits)

lemma step_inv:
  assumes inv: "series_inv t st" and ts: "t \<le> ts" "0 < ts" and st': "step cfg ident st ts v n = (st', n', r)"
  shows "series_inv ts st' \<and> (\<forall>ev. r = Some ev \<longrightarrow> event_ok ts (st_key st) ev \<and> event_closed ts ev)"
proof (cases "st_open st")
  case None
  then show ?thesis
    using st' series_inv_idle [OF series_inv_bookkeep [OF inv] _ ts] by (auto simp: step_idle split: prod.splits)
next
  case (Some oe)
  then show ?thesis
  proof (cases "oe_inPost oe")
    case True
    then show ?thesis using st' Some series_inv_post [OF inv Some True ts] by (auto simp: step_post)
  next
    case False
    then show ?thesis using st' Some series_inv_during [OF inv Some False ts] by (auto simp: step_during)
  qed
qed

section \<open>The invariant of the detector\<close>

definition open_delta :: "series_state \<Rightarrow> int" where
  "open_delta st = (case st_open st of None \<Rightarrow> 0 | Some oe \<Rightarrow> 1)"

lemma step_count:
  assumes "step cfg ident st ts v n = (st', n', r)"
  shows "n' = n - open_delta st + open_delta st'" "st_key st' = st_key st" "st_rule st' = st_rule st"
proof -
  have *: "n' = n - open_delta st + open_delta st' \<and> st_key st' = st_key st \<and> st_rule st' = st_rule st"
  proof (cases "st_open st")
    case None
    with assms show ?thesis
      by (auto simp: step_idle idle_step_def Let_def open_delta_def split: prod.splits if_splits)
  next
    case (Some oe)
    with assms show ?thesis
      by (cases "oe_inPost oe")
        (auto simp: step_post step_during post_step_def during_step_def Let_def open_delta_def split: if_splits)
  qed
  from * show "n' = n - open_delta st + open_delta st'" by blast
  from * show "st_key st' = st_key st" "st_rule st' = st_rule st" by blast+
qed

definition detector_inv :: "time \<Rightarrow> detector \<Rightarrow> bool" where
  "detector_inv t d \<longleftrightarrow> 0 \<le> t \<and> distinct (map fst (d_series d)) \<and>
     d_openCount d = sum_list (map (open_delta \<circ> snd) (d_series d)) \<and>
     (\<forall>(key, st) \<in> set (d_series d). series_inv t st \<and> st_key st = key)"

text \<open>What the detector asks of its configuration; validation gives the first conjunct.\<close>

definition spikes_config_ok :: "config \<Rightarrow> bool" where
  "spikes_config_ok cfg \<longleftrightarrow> seconds 1 \<le> sa_HostInterval (c_Sampling cfg) \<and> sp_PreBuffer (c_Spikes cfg) < 2 ^ 63"

lemma sdiv_le_nonneg: "0 \<le> a \<Longrightarrow> 1 \<le> b \<Longrightarrow> a sdiv b \<le> a div b" for a b :: int
  by (cases "a = 0") (simp_all add: signed_divide_int_def)

lemma new_series_simps [simp]:
  "st_key (new_series cfg rule key) = key" "st_rule (new_series cfg rule key) = rule"
  "st_open (new_series cfg rule key) = None" "open_delta (new_series cfg rule key) = 0"
  "st_hist (new_series cfg rule key) = []" "st_histPos (new_series cfg rule key) = 0"
  by (simp_all add: new_series_def Let_def open_delta_def)

lemma series_inv_new:
  assumes "spikes_config_ok cfg" "0 \<le> t"
  shows "series_inv t (new_series cfg rule key)"
proof -
  let ?a = "sp_PreBuffer (c_Spikes cfg)" and ?b = "sa_HostInterval (c_Sampling cfg)"
  have b: "1000000000 \<le> ?b" using assms(1) by (simp add: spikes_config_ok_def seconds_def)
  have "?a sdiv ?b + 1 \<le> 2 ^ 53"
  proof (cases "0 \<le> ?a")
    case True
    have "?a div ?b \<le> ?a div 1000000000" using True b by (intro zdiv_mono2) auto
    also have "\<dots> \<le> (2 ^ 63) div 1000000000" 
      using assms(1) by (intro zdiv_mono1) (auto simp: spikes_config_ok_def)
    finally show ?thesis using sdiv_le_nonneg [OF True, of ?b] b by simp
  next
    case False
    then have "?a sdiv ?b \<le> 0" using b by (simp add: signed_divide_int_def sgn_if pos_imp_zdiv_nonneg_iff)
    then show ?thesis by simp
  qed
  then show ?thesis
    using assms(2) by (auto simp: series_inv_def new_series_def Let_def hist_ok_def baselineWindow_def)
qed

lemma series_for_inv:
  assumes "detector_inv t d" "spikes_config_ok (d_cfg d)"
  shows "series_inv t (series_for d rule key) \<and> st_key (series_for d rule key) = key"
  using assms series_inv_new [of "d_cfg d" t rule key]
  by (auto simp: series_for_def detector_inv_def split: option.splits dest!: map_of_SomeD)

lemma offer_one_inv:
  assumes inv: "detector_inv t d" and cfg: "spikes_config_ok (d_cfg d)" and ts: "t \<le> ts" "0 < ts"
    and st: "offer_one ids ts (d, fin) (key, v) = (d', fin')"
  shows "detector_inv ts d' \<and> d_cfg d' = d_cfg d \<and>
    (\<exists>new. fin' = fin @ new \<and> (\<forall>ev \<in> set new. event_ok ts key ev \<and> event_closed ts ev))"
proof -
  have mono: "\<forall>(k, s) \<in> set (d_series d). series_inv ts s \<and> st_key s = k"
    using inv series_inv_mono [OF _ ts(1)] by (auto simp: detector_inv_def)
  show ?thesis
  proof (cases "ruleFor (sp_Rules (c_Spikes (d_cfg d))) (k_Resource key)")
    case None
    with st inv mono ts show ?thesis by (auto simp: offer_one_def detector_inv_def)
  next
    case (Some rule)
    let ?s = "series_for d rule key"
    obtain s' n' r where step: "step (d_cfg d) (ids key) ?s ts v (d_openCount d) = (s', n', r)"
      by (metis prod.exhaust)
    have s: "series_inv t ?s" "st_key ?s = key" using series_for_inv [OF inv cfg] by auto
    note i = step_inv [OF s(1) ts step] and c = step_count [OF step]
    have d': "d' = d\<lparr>d_series := AList.update key s' (d_series d), d_openCount := n'\<rparr>"
      and fin': "fin' = fin @ (case r of Some ev \<Rightarrow> [ev] | None \<Rightarrow> [])"
      using st Some step by (simp_all add: offer_one_def)
    have dk: "distinct (map fst (d_series d))" using inv by (simp add: detector_inv_def)
    have "(case map_of (d_series d) key of None \<Rightarrow> 0 | Some u \<Rightarrow> open_delta u) = open_delta ?s"
      by (simp add: series_for_def split: option.splits)
    then have "n' = sum_list (map (open_delta \<circ> snd) (AList.update key s' (d_series d)))"
      using c(1) inv by (simp add: sum_list_update [OF dk] detector_inv_def)
    moreover have "\<forall>(k, u) \<in> set (AList.update key s' (d_series d)). series_inv ts u \<and> st_key u = k"
      using mono i c(2) s(2) dk update_distinct_keys [OF dk, of key s']
      by (auto simp: update_conv' dest!: map_of_is_SomeI split: if_splits dest: map_of_SomeD)
    ultimately show ?thesis
      using i s(2) ts update_distinct_keys [OF dk, of key s']
      by (auto simp: d' fin' detector_inv_def split: option.splits)
  qed
qed

lemma Offer_inv:
  assumes inv: "detector_inv t d" and cfg: "spikes_config_ok (d_cfg d)" and ts: "t \<le> pt_TS p" "0 < pt_TS p"
    and st: "Offer ids d p = (d', fin)"
  shows "detector_inv (pt_TS p) d' \<and> d_cfg d' = d_cfg d \<and>
    (\<forall>ev \<in> set fin. \<exists>key \<in> fst ` set (pt_Values p). event_ok (pt_TS p) key ev \<and> event_closed (pt_TS p) ev)"
proof -
  have m: "detector_inv (pt_TS p) d" 
    using inv series_inv_mono [OF _ ts(1)] ts by (auto simp: detector_inv_def)
  have "detector_inv (pt_TS p) d' \<and> d_cfg d' = d_cfg d \<and>
      (\<forall>ev \<in> set fin'. ev \<in> set fin \<or> (\<exists>key \<in> fst ` set vs. event_ok (pt_TS p) key ev \<and> event_closed (pt_TS p) ev))"
    if "foldl (offer_one ids (pt_TS p)) (d, fin) vs = (d', fin')" "detector_inv (pt_TS p) d" "spikes_config_ok (d_cfg d)"
    for vs d fin fin'
    using that
  proof (induction vs arbitrary: d fin)
    case (Cons kv vs)
    obtain key v where kv: "kv = (key, v)" by force
    obtain d1 fin1 where one: "offer_one ids (pt_TS p) (d, fin) (key, v) = (d1, fin1)" by force
    from offer_one_inv [OF Cons.prems(2,3) order_refl ts(2) one]
    have d1: "detector_inv (pt_TS p) d1" "d_cfg d1 = d_cfg d"
      and f1: "\<forall>ev \<in> set fin1. ev \<in> set fin \<or> event_ok (pt_TS p) key ev \<and> event_closed (pt_TS p) ev"
      by auto
    from Cons.IH [of d1 fin1] Cons.prems one d1 kv f1 show ?case by fastforce
  qed auto
  from this [OF st [unfolded Offer_def] m cfg] show ?thesis by simp
qed

end
