(* ===== verification/SpikeRuns.thy ===== *)
theory SpikeRuns
  imports SpikeFacts
begin

text \<open>
  Runs of the spike detector: what holds of every detector that started empty and was fed samples
  in chronological order (\<open>detector_run\<close>), of every single series (\<open>series_run\<close>, which records for
  each observation whether it was idle and whether it was above the effective threshold outside the
  cooldown), and the properties of the detector that rest on them.
\<close>

section \<open>Runs of the detector\<close>

inductive detector_run :: "config \<Rightarrow> time \<Rightarrow> detector \<Rightarrow> spike_event list \<Rightarrow> bool" for cfg where
  start: "detector_run cfg 0 (NewDetector cfg) []"
| feed: "detector_run cfg t d evs \<Longrightarrow> t \<le> pt_TS p \<Longrightarrow> 0 < pt_TS p \<Longrightarrow> Offer ids d p = (d', fin) \<Longrightarrow>
    detector_run cfg (pt_TS p) d' (evs @ fin)"

inductive_cases detector_runE: "detector_run cfg t d evs"

lemma detector_run_inv:
  assumes "detector_run cfg t d evs" "spikes_config_ok cfg"
  shows "detector_inv t d \<and> d_cfg d = cfg \<and> (\<forall>ev \<in> set evs. \<exists>key. event_ok t key ev \<and> event_closed t ev)"
  using assms
proof (induction rule: detector_run.induct)
  case start
  then show ?case by (simp add: NewDetector_def detector_inv_def)
next
  case (feed t d evs p ids d' fin)
  then have "detector_inv t d" "spikes_config_ok (d_cfg d)" by auto
  from Offer_inv [OF this feed.hyps(2-4)] feed show ?case
    by (fastforce intro: event_ok_mono event_closed_mono)
qed

lemma sum_open_delta_pos:
  "(0 < sum_list (map (open_delta \<circ> snd) m)) \<longleftrightarrow> (\<exists>p \<in> set m. st_open (snd p) \<noteq> None)"
proof (induction m)
  case (Cons p m)
  have "0 \<le> sum_list (map (open_delta \<circ> snd) m)"
    by (intro sum_list_nonneg) (auto simp: open_delta_def split: option.splits)
  moreover have "open_delta (snd p) = (if st_open (snd p) = None then 0 else 1)"
    by (auto simp: open_delta_def split: option.splits)
  ultimately show ?case using Cons by (cases "st_open (snd p) = None") (auto simp: o_def)
qed simp

text \<open>
  C12. Whatever samples a detector is fed in chronological order, every series keeps its bounds and
  its event bookkeeping (\<open>detector_inv\<close>), a capture is reported active exactly when some series has
  an open event, and every event it has emitted is complete: at most 120 pre-, 360 during- and 60
  post-samples, each chronological, a peak no during-sample exceeds, an end not before the start, the
  duration the difference of the two, and the attribution left open for validation.
\<close>

theorem detector_run_sound:
  assumes "detector_run cfg t d evs" "spikes_config_ok cfg"
  shows "detector_inv t d \<and>
    (CaptureActive d \<longleftrightarrow> (\<exists>p \<in> set (d_series d). st_open (snd p) \<noteq> None)) \<and>
    (\<forall>ev \<in> set evs. \<exists>key. event_ok t key ev \<and> event_closed t ev)"
  using detector_run_inv [OF assms] sum_open_delta_pos by (simp add: CaptureActive_def detector_inv_def)

section \<open>The effective threshold\<close>

text \<open>
  The effective threshold is never above the static one; it is below it exactly when the trigger
  is the deviation from the baseline, never below the floor of the rule (nor below the static
  threshold, where the floor is above it), and it is the static one until the baseline trigger is
  enabled and has its minimum of history.
\<close>

theorem effectiveThreshold_spec:
  assumes "effectiveThreshold st = (th, trig)"
  shows "th \<le> sr_StaticThreshold (st_rule st) \<and>
    trig = (if th < sr_StaticThreshold (st_rule st) then ''baseline_deviation'' else ''static'') \<and>
    min (sr_StaticThreshold (st_rule st)) (sr_BaselineFloor (st_rule st)) \<le> th \<and>
    (sr_BaselineK (st_rule st) \<le> 0 \<or> length (st_hist st) < baselineMinSamples \<longrightarrow>
       th = sr_StaticThreshold (st_rule st))"
  using assms by (auto simp: effectiveThreshold_def Let_def min_def split: if_splits)

section \<open>Runs of one series\<close>

record obs =
  o_TS :: time
  o_V :: f64
  o_Idle :: bool
  o_Hot :: bool

text \<open>Whether a sample counts towards an event: above the threshold in force, outside the cooldown.\<close>

definition hot :: "series_state \<Rightarrow> time \<Rightarrow> f64 \<Rightarrow> bool" where
  "hot st ts v \<longleftrightarrow> st_open st = None \<and> fst (effectiveThreshold (bookkeep v st)) \<le> v \<and>
     st_cooldownTill st \<le> ts"

definition observe :: "series_state \<Rightarrow> time \<Rightarrow> f64 \<Rightarrow> obs" where
  "observe st ts v = \<lparr>o_TS = ts, o_V = v, o_Idle = (st_open st = None), o_Hot = hot st ts v\<rparr>"

inductive series_run :: "config \<Rightarrow> spike_rule \<Rightarrow> series_key \<Rightarrow> obs list \<Rightarrow> series_state \<Rightarrow> bool"
  for cfg rule key where
  start: "series_run cfg rule key [] (new_series cfg rule key)"
| sample: "series_run cfg rule key h st \<Longrightarrow> 0 < ts \<Longrightarrow> \<forall>x \<in> set h. o_TS x \<le> ts \<Longrightarrow>
    step cfg ident st ts v n = (st', n', r) \<Longrightarrow> series_run cfg rule key (h @ [observe st ts v]) st'"

text \<open>The time of the first observation of the unbroken hot tail of a history, 0 if it has none.\<close>

definition hot_since :: "obs list \<Rightarrow> time" where
  "hot_since h = (let r = takeWhile o_Hot (rev h) in if r = [] then 0 else o_TS (last r))"

lemma hot_since_Nil [simp]: "hot_since [] = 0"
  by (simp add: hot_since_def)

lemma hot_since_snoc:
  assumes "\<forall>x \<in> set h. 0 < o_TS x"
  shows "hot_since (h @ [x]) = (if \<not> o_Hot x then 0 else if hot_since h = 0 then o_TS x else hot_since h)"
proof -
  have "0 < o_TS (last r)" if "r = takeWhile o_Hot (rev h)" "r \<noteq> []" for r
    using that assms last_in_set [of r] set_takeWhileD [of _ o_Hot "rev h"] by auto
  then show ?thesis by (auto simp: hot_since_def Let_def)
qed

lemma series_run_pos: "series_run cfg rule key h st \<Longrightarrow> \<forall>x \<in> set h. 0 < o_TS x"
  by (induction rule: series_run.induct) (auto simp: observe_def)

lemma series_run_rule: "series_run cfg rule key h st \<Longrightarrow> st_rule st = rule \<and> st_key st = key"
  by (induction rule: series_run.induct) (auto dest: step_count)

text \<open>What an idle step does, in terms of \<open>hot\<close>.\<close>

lemma step_idle_cases:
  assumes "st_open st = None" "step cfg ident st ts v n = (st', n', r)"
  defines "since \<equiv> (if st_aboveSince st = 0 then ts else st_aboveSince st)"
  shows "r = None \<and> st_aboveSince st' = (if hot st ts v then since else 0) \<and>
    (st_open st' \<noteq> None \<longleftrightarrow> hot st ts v \<and> sr_Sustained (st_rule st) \<le> time_sub ts since) \<and>
    (\<forall>oe. st_open st' = Some oe \<longrightarrow> \<not> oe_inPost oe \<and> ev_StartTS (oe_ev oe) = since \<and> ev_Peak (oe_ev oe) = v \<and>
        st_belowSince st' = 0)"
  using assms
  by (auto simp: step_idle idle_step_def Let_def hot_def since_def split: prod.splits if_splits)

lemma step_open_to_idle:
  assumes "st_open st = Some oe" "step cfg ident st ts v n = (st', n', r)" "st_open st' = None"
  shows "st_aboveSince st' = 0 \<and> oe_inPost oe \<and> oe_postUntil oe < ts"
  using assms
  by (cases "oe_inPost oe")
    (auto simp: step_post step_during post_step_def during_step_def Let_def split: if_splits)

lemma series_run_aboveSince:
  "series_run cfg rule key h st \<Longrightarrow> st_open st = None \<Longrightarrow> st_aboveSince st = hot_since h"
proof (induction rule: series_run.induct)
  case start
  then show ?case by (simp add: new_series_def Let_def)
next
  case (sample h st ts ident v n st' n' r)
  note pos = series_run_pos [OF sample.hyps(1)]
  show ?case
  proof (cases "st_open st")
    case None
    with sample step_idle_cases [OF None sample.hyps(4)] show ?thesis
      by (simp add: hot_since_snoc [OF pos] observe_def)
  next
    case (Some oe)
    with step_open_to_idle [OF Some sample.hyps(4) sample.prems] show ?thesis
      by (simp add: hot_since_snoc [OF pos] observe_def hot_def)
  qed
qed

text \<open>
  C6. An event opens on a sample exactly when the unbroken tail of samples that were above the
  threshold in force and outside the cooldown, this sample included, is at least as long as the rule
  requires; the event starts at the first of them. A single high sample opens no event of a rule
  with a positive sustained duration.
\<close>

theorem event_opens_iff_sustained:
  assumes "series_run cfg rule key h st" "st_open st = None" "0 < ts"
    and "step cfg ident st ts v n = (st', n', r)"
  shows "(st_open st' \<noteq> None \<longleftrightarrow>
      hot st ts v \<and> sr_Sustained rule \<le> time_sub ts (hot_since (h @ [observe st ts v]))) \<and>
    (\<forall>oe. st_open st' = Some oe \<longrightarrow> ev_StartTS (oe_ev oe) = hot_since (h @ [observe st ts v]))"
proof -
  note a = series_run_aboveSince [OF assms(1,2)] and p = series_run_pos [OF assms(1)]
  note c = step_idle_cases [OF assms(2,4)]
  have "hot st ts v \<Longrightarrow> hot_since (h @ [observe st ts v]) = (if st_aboveSince st = 0 then ts else st_aboveSince st)"
    by (simp add: hot_since_snoc [OF p] observe_def a)
  with c series_run_rule [OF assms(1)] show ?thesis by auto
qed

section \<open>The circular history is a sliding window\<close>

definition hist_window :: "series_state \<Rightarrow> f64 list" where
  "hist_window st = drop (st_histPos st) (st_hist st) @ take (st_histPos st) (st_hist st)"

definition lastn :: "nat \<Rightarrow> 'a list \<Rightarrow> 'a list" where
  "lastn n xs = drop (length xs - n) xs"

lemma lastn_snoc: "0 < n \<Longrightarrow> lastn n (lastn n xs @ [x]) = lastn n (xs @ [x])"
  by (cases "length xs \<le> n") (auto simp: lastn_def not_le Suc_diff_le)

lemma rotate_update:
  assumes "p < length xs"
  shows "(let ys = xs[p := v]; q = (p + 1) mod length xs in drop q ys @ take q ys)
    = tl (drop p xs @ take p xs) @ [v]"
proof -
  have d: "drop p xs = xs ! p # drop (Suc p) xs" using assms by (simp add: Cons_nth_drop_Suc)
  show ?thesis
  proof (cases "Suc p = length xs")
    case True
    then show ?thesis using assms d by (simp add: Let_def list_update_append upd_conv_take_nth_drop)
  next
    case False
    with assms have "(p + 1) mod length xs = Suc p" "Suc p < length xs" by auto
    then show ?thesis using d assms
      by (simp add: Let_def upd_conv_take_nth_drop)
  qed
qed

lemma hist_window_bookkeep:
  assumes "hist_ok st" "st_open st = None"
  shows "hist_window (bookkeep v st) = lastn baselineWindow (hist_window st @ [v])"
proof (cases "length (st_hist st) < baselineWindow")
  case True
  with assms have "st_histPos st = 0" by (auto simp: hist_ok_def)
  then show ?thesis using True assms(2) by (simp add: hist_window_def bookkeep_hist lastn_def)
next
  case False
  with assms have l: "length (st_hist st) = baselineWindow" "st_histPos st < length (st_hist st)"
    by (auto simp: hist_ok_def)
  have "hist_window (bookkeep v st) = tl (hist_window st) @ [v]"
    using rotate_update [OF l(2), of v] False assms(2) l(1)
    by (simp add: hist_window_def bookkeep_hist Let_def)
  moreover have "length (hist_window st) = baselineWindow" "0 < baselineWindow"
    using l by (simp_all add: hist_window_def)
  ultimately show ?thesis by (simp add: lastn_def drop_Suc [of 0, simplified])
qed

lemma step_hist:
  assumes "step cfg ident st ts v n = (st', n', r)"
  shows "st_hist st' = st_hist (bookkeep v st)" "st_histPos st' = st_histPos (bookkeep v st)"
    "st_histFull st' = st_histFull (bookkeep v st)"
proof -
  have *: "st_hist st' = st_hist (bookkeep v st) \<and> st_histPos st' = st_histPos (bookkeep v st) \<and>
      st_histFull st' = st_histFull (bookkeep v st)"
  proof (cases "st_open st")
    case None
    with assms show ?thesis
      by (auto simp: step_idle idle_step_def Let_def split: prod.splits if_splits)
  next
    case (Some oe)
    with assms show ?thesis
      by (cases "oe_inPost oe")
        (auto simp: step_post step_during post_step_def during_step_def Let_def split: if_splits)
  qed
  from * show "st_hist st' = st_hist (bookkeep v st)" by blast
  from * show "st_histPos st' = st_histPos (bookkeep v st)" by blast
  from * show "st_histFull st' = st_histFull (bookkeep v st)" by simp
qed

lemma series_run_hist_ok: "series_run cfg rule key h st \<Longrightarrow> hist_ok st"
proof (induction rule: series_run.induct)
  case start
  then show ?case by (simp add: hist_ok_def new_series_def Let_def baselineWindow_def)
next
  case (sample h st ts ident v n st' n' r)
  then have "hist_ok (bookkeep v st)" by (simp add: hist_ok_bookkeep)
  moreover have "st_hist st' = st_hist (bookkeep v st)" "st_histPos st' = st_histPos (bookkeep v st)"
    "st_histFull st' = st_histFull (bookkeep v st)"
    by (rule step_hist [OF sample.hyps(4)])+
  ultimately show ?case by (simp add: hist_ok_def)
qed

lemma mset_hist_window: "mset (hist_window st) = mset (st_hist st)"
proof -
  have "mset (hist_window st) = mset (take (st_histPos st) (st_hist st) @ drop (st_histPos st) (st_hist st))"
    by (simp only: hist_window_def mset_append add.commute)
  then show ?thesis by simp
qed

lemma medianMAD_mset: "mset xs = mset ys \<Longrightarrow> medianMAD xs = medianMAD ys"
  using sort_eq_iff_mset [of xs ys] by (auto simp: medianMAD_def)

text \<open>
  C19. The circular buffer of the baseline implements a sliding window: after any run of a series
  its content, read from the write position, is the last 5760 values that were observed while no
  event was open, and the median and the deviation the code computes from the unordered buffer are
  those of that window.
\<close>

theorem history_refines_window:
  assumes "series_run cfg rule key h st"
  shows "hist_window st = lastn baselineWindow (map o_V (filter o_Idle h)) \<and>
    medianMAD (st_hist st) = medianMAD (lastn baselineWindow (map o_V (filter o_Idle h)))"
proof -
  have w: "hist_window st = lastn baselineWindow (map o_V (filter o_Idle h))"
    using assms
  proof (induction rule: series_run.induct)
    case start
    then show ?case by (simp add: hist_window_def lastn_def)
  next
    case (sample h st ts ident v n st' n' r)
    have e: "hist_window st' = hist_window (bookkeep v st)"
      using step_hist [OF sample.hyps(4)] by (simp add: hist_window_def)
    show ?case
    proof (cases "st_open st")
      case None
      have "0 < baselineWindow" by (simp add: baselineWindow_def)
      then show ?thesis
        using e hist_window_bookkeep [OF series_run_hist_ok [OF sample.hyps(1)] None] sample.IH None
        by (simp add: observe_def lastn_snoc)
    next
      case (Some oe)
      then show ?thesis using e sample.IH by (simp add: observe_def)
    qed
  qed
  then show ?thesis using medianMAD_mset [OF mset_hist_window, of st] by simp
qed

section \<open>An open event completes\<close>

fun run_series :: "config \<Rightarrow> string \<Rightarrow> series_state \<Rightarrow> (time \<times> f64) list \<Rightarrow> series_state \<times> spike_event list" where
  "run_series cfg ident st [] = (st, [])"
| "run_series cfg ident st ((ts, v) # xs) =
     (case step cfg ident st ts v 0 of (st', n, r) \<Rightarrow>
      (case run_series cfg ident st' xs of (st'', evs) \<Rightarrow>
         (st'', (case r of Some ev \<Rightarrow> [ev] | None \<Rightarrow> []) @ evs)))"

definition emitted :: "config \<Rightarrow> string \<Rightarrow> series_state \<Rightarrow> (time \<times> f64) list \<Rightarrow> spike_event list" where
  "emitted cfg ident st xs = snd (run_series cfg ident st xs)"

lemma emitted_Cons:
  assumes "step cfg ident st ts v 0 = (st', n, r)"
  shows "set (emitted cfg ident st ((ts, v) # xs)) = set_option r \<union> set (emitted cfg ident st' xs)"
  using assms by (auto simp: emitted_def split: prod.splits option.splits)

lemma emitted_post:
  assumes "st_open st = Some oe" "oe_inPost oe" "x \<in> set xs" "oe_postUntil oe < fst x"
  shows "\<exists>ev \<in> set (emitted cfg ident st xs). ev_EventID ev = ev_EventID (oe_ev oe)"
  using assms
proof (induction xs arbitrary: st oe)
  case (Cons y xs)
  obtain ts v where y: "y = (ts, v)" by force
  obtain st' n r where st': "step cfg ident st ts v 0 = (st', n, r)" by (metis prod.exhaust)
  note p = st' [unfolded step_post [OF Cons.prems(1,2)]]
  show ?case
  proof (cases "oe_postUntil oe < ts")
    case True
    with p have "\<exists>ev. r = Some ev \<and> ev_EventID ev = ev_EventID (oe_ev oe)"
      by (auto simp: post_step_def Let_def)
    then show ?thesis by (auto simp: y emitted_Cons [OF st'])
  next
    case False
    with p obtain oe' where "st_open st' = Some oe'" "oe_inPost oe'"
      "oe_postUntil oe' = oe_postUntil oe" "ev_EventID (oe_ev oe') = ev_EventID (oe_ev oe)"
      using Cons.prems(2) by (auto simp: post_step_def Let_def)
    with Cons.IH [of st' oe'] Cons.prems False show ?thesis by (auto simp: y emitted_Cons [OF st'])
  qed
qed simp

lemma effectiveThreshold_frame:
  "st_rule st' = st_rule st \<Longrightarrow> st_hist st' = st_hist st \<Longrightarrow> st_baseline st' = st_baseline st \<Longrightarrow>
   st_mad st' = st_mad st \<Longrightarrow> effectiveThreshold st' = effectiveThreshold st"
  by (simp only: effectiveThreshold_def)

text \<open>A sample below the threshold while the event is not yet in its post phase.\<close>

lemma step_below:
  assumes "st_open st = Some oe" "\<not> oe_inPost oe" "v < fst (effectiveThreshold st)"
    and "step cfg ident st ts v 0 = (st', n, r)"
  defines "b \<equiv> (if st_belowSince st = 0 then ts else st_belowSince st)"
  shows "r = None" "effectiveThreshold st' = effectiveThreshold st" "st_belowSince st' = b"
    and "\<exists>oe'. st_open st' = Some oe' \<and> ev_EventID (oe_ev oe') = ev_EventID (oe_ev oe) \<and>
      oe_inPost oe' = (closeBelow \<le> time_sub ts b) \<and>
      (oe_inPost oe' \<longrightarrow> oe_postUntil oe' = ts + sp_PostCapture (c_Spikes cfg))"
proof -
  have "(fst (effectiveThreshold st) \<le> v) = False" using assms(3) by simp
  then have *: "st' = during_step cfg False ts v oe st" "r = None"
    using assms(1,2,4) by (simp_all add: step_during)
  then show "r = None" by blast
  show "effectiveThreshold st' = effectiveThreshold st"
    by (rule effectiveThreshold_frame) (simp_all add: * during_step_eq Let_def)
  show "st_belowSince st' = b" by (simp add: * during_step_eq Let_def b_def)
  show "\<exists>oe'. st_open st' = Some oe' \<and> ev_EventID (oe_ev oe') = ev_EventID (oe_ev oe) \<and>
      oe_inPost oe' = (closeBelow \<le> time_sub ts b) \<and>
      (oe_inPost oe' \<longrightarrow> oe_postUntil oe' = ts + sp_PostCapture (c_Spikes cfg))"
    using assms(2) by (auto simp: * during_step_eq Let_def b_def)
qed

lemma emitted_below:
  assumes "st_open st = Some oe" "\<not> oe_inPost oe"
    and "\<forall>x \<in> set xs. 0 < fst x \<and> snd x < fst (effectiveThreshold st)" "sorted (map fst xs)"
    and "xs = ys @ y # zs" "z \<in> set zs" "fst y + sp_PostCapture (c_Spikes cfg) < fst z"
    and "closeBelow \<le> time_sub (fst y) (if st_belowSince st = 0 then fst (hd xs) else st_belowSince st)"
  shows "\<exists>ev \<in> set (emitted cfg ident st xs). ev_EventID ev = ev_EventID (oe_ev oe)"
  using assms
proof (induction ys arbitrary: st oe xs)
  case Nil
  obtain ts v where y: "y = (ts, v)" by force
  obtain st' n r where st': "step cfg ident st ts v 0 = (st', n, r)" by (metis prod.exhaust)
  have "v < fst (effectiveThreshold st)" using Nil.prems(3,5) y by simp
  from step_below [OF Nil.prems(1,2) this st'] Nil.prems
  obtain oe' where "st_open st' = Some oe'" "oe_inPost oe'" "ev_EventID (oe_ev oe') = ev_EventID (oe_ev oe)"
    "oe_postUntil oe' < fst z"
    by (auto simp: y split: if_splits)
  with emitted_post [of st' oe' z zs cfg ident] Nil.prems y show ?case by (auto simp: emitted_Cons [OF st'])
next
  case (Cons w ys)
  obtain ts v where w: "w = (ts, v)" by force
  obtain st' n r where st': "step cfg ident st ts v 0 = (st', n, r)" by (metis prod.exhaust)
  define b where "b = (if st_belowSince st = 0 then ts else st_belowSince st)"
  have xs: "xs = (ts, v) # (ys @ y # zs)" using Cons.prems(5) w by simp
  have v: "v < fst (effectiveThreshold st)" "0 < ts" using Cons.prems(3) xs by auto
  note sb = step_below [OF Cons.prems(1,2) v(1) st', folded b_def]
  obtain oe' where oe': "st_open st' = Some oe'" "ev_EventID (oe_ev oe') = ev_EventID (oe_ev oe)"
      "oe_inPost oe' = (closeBelow \<le> time_sub ts b)"
      "oe_inPost oe' \<longrightarrow> oe_postUntil oe' = ts + sp_PostCapture (c_Spikes cfg)"
    using sb(4) by blast
  have "\<exists>ev \<in> set (emitted cfg ident st' (ys @ y # zs)). ev_EventID ev = ev_EventID (oe_ev oe')"
  proof (cases "oe_inPost oe'")
    case True
    have "ts \<le> fst y" using Cons.prems(4) xs by auto
    then have "oe_postUntil oe' < fst z" using oe'(4) True Cons.prems(7) by linarith
    then show ?thesis using emitted_post [OF oe'(1) True, of z] Cons.prems(6) by simp
  next
    case False
    have b0: "b \<noteq> 0" using v(2) by (auto simp: b_def)
    show ?thesis
    proof (rule Cons.IH [OF oe'(1) False _ _ refl Cons.prems(6,7)])
      show "\<forall>x \<in> set (ys @ y # zs). 0 < fst x \<and> snd x < fst (effectiveThreshold st')"
        using Cons.prems(3) xs sb(2) by simp
      show "sorted (map fst (ys @ y # zs))" using Cons.prems(4) xs by simp
      show "closeBelow \<le> time_sub (fst y) (if st_belowSince st' = 0 then fst (hd (ys @ y # zs)) else st_belowSince st')"
        using Cons.prems(8) b0 sb(3) xs by (cases "st_belowSince st = 0") (simp_all add: b_def)
    qed
  qed
  then show ?case by (simp add: xs emitted_Cons [OF st'] oe'(2) sb(1))
qed

text \<open>
  C20. Liveness: an open event is emitted once its series stays below the threshold in force at
  opening for a minute and then for the post-capture time, however the samples are spaced; the
  threshold cannot move meanwhile.
\<close>

theorem open_event_completes:
  assumes "st_open st = Some oe" "\<not> oe_inPost oe"
    and "\<forall>x \<in> set xs. 0 < fst x \<and> snd x < fst (effectiveThreshold st)" "sorted (map fst xs)"
    and "st_belowSince st \<le> fst (hd xs)"
    and "xs = ys @ y # zs" "z \<in> set zs" "fst (hd xs) + closeBelow \<le> fst y"
    and "fst y + sp_PostCapture (c_Spikes cfg) < fst z"
  shows "\<exists>ev \<in> set (emitted cfg ident st xs). ev_EventID ev = ev_EventID (oe_ev oe)"
proof (rule emitted_below [OF assms(1-4,6,7,9)])
  have "closeBelow \<le> time_sub (fst y) (fst (hd xs))"
    using assms(8) by (simp add: time_sub_def closeBelow_def seconds_def)
  moreover have "time_sub (fst y) (fst (hd xs)) \<le> time_sub (fst y) (st_belowSince st)"
    using assms(5) by (auto simp: time_sub_def)
  ultimately show "closeBelow \<le> time_sub (fst y) (if st_belowSince st = 0 then fst (hd xs) else st_belowSince st)"
    by simp
qed

section \<open>The iteration order of the sampled values\<close>

text \<open>The state, the count change and the event of one key, from the detector as it was at entry.\<close>

definition upd_key :: "config \<Rightarrow> (series_key \<Rightarrow> string) \<Rightarrow> time \<Rightarrow> series_key \<Rightarrow> series_state option \<Rightarrow> f64
    \<Rightarrow> series_state \<times> int \<times> spike_event option" where
  "upd_key cfg ids ts key old v =
     (let rule = the (ruleFor (sp_Rules (c_Spikes cfg)) (k_Resource key));
          st = (case old of Some st \<Rightarrow> st | None \<Rightarrow> new_series cfg rule key)
      in step cfg (ids key) st ts v 0)"

definition has_rule :: "config \<Rightarrow> series_key \<times> f64 \<Rightarrow> bool" where
  "has_rule cfg kv \<longleftrightarrow> ruleFor (sp_Rules (c_Spikes cfg)) (k_Resource (fst kv)) \<noteq> None"

lemma step_shift:
  assumes "step cfg ident st ts v 0 = (st', n', r)"
  shows "step cfg ident st ts v n = (st', n + n', r)"
proof (cases "st_open st")
  case None
  with assms show ?thesis
    by (auto simp: step_idle idle_step_def Let_def split: prod.splits if_splits)
next
  case (Some oe)
  with assms show ?thesis
    by (cases "oe_inPost oe")
      (auto simp: step_post step_during post_step_def during_step_def Let_def split: if_splits)
qed

lemma offer_one_eq:
  "offer_one ids ts (d, fin) (key, v) =
    (if has_rule (d_cfg d) (key, v) then
       case upd_key (d_cfg d) ids ts key (map_of (d_series d) key) v of (st, n, r) \<Rightarrow>
         (d\<lparr>d_series := AList.update key st (d_series d), d_openCount := d_openCount d + n\<rparr>,
          fin @ (case r of Some ev \<Rightarrow> [ev] | None \<Rightarrow> []))
     else (d, fin))"
proof (cases "ruleFor (sp_Rules (c_Spikes (d_cfg d))) (k_Resource key)")
  case (Some rule)
  obtain st n r where u: "step (d_cfg d) (ids key) (series_for d rule key) ts v 0 = (st, n, r)"
    by (metis prod.exhaust)
  with Some show ?thesis
    by (simp add: offer_one_def has_rule_def upd_key_def step_shift [OF u] flip: series_for_def)
qed (simp add: offer_one_def has_rule_def)

definition count_of :: "config \<Rightarrow> (series_key \<Rightarrow> string) \<Rightarrow> time \<Rightarrow> (series_key \<Rightarrow> series_state option)
    \<Rightarrow> series_key \<times> f64 \<Rightarrow> int" where
  "count_of cfg ids ts m kv = fst (snd (upd_key cfg ids ts (fst kv) (m (fst kv)) (snd kv)))"

definition event_of :: "config \<Rightarrow> (series_key \<Rightarrow> string) \<Rightarrow> time \<Rightarrow> (series_key \<Rightarrow> series_state option)
    \<Rightarrow> series_key \<times> f64 \<Rightarrow> spike_event list" where
  "event_of cfg ids ts m kv =
     (case snd (snd (upd_key cfg ids ts (fst kv) (m (fst kv)) (snd kv))) of Some ev \<Rightarrow> [ev] | None \<Rightarrow> [])"

lemma Offer_fold:
  assumes "distinct (map fst vs)" "\<forall>k \<in> fst ` set vs. map_of (d_series d) k = m k"
  shows "foldl (offer_one ids ts) (d, fin) vs =
    (d\<lparr>d_series := foldl (\<lambda>s (k, x). AList.update k (fst (upd_key (d_cfg d) ids ts k (map_of s k) x)) s)
          (d_series d) (filter (has_rule (d_cfg d)) vs),
       d_openCount := d_openCount d + sum_list (map (count_of (d_cfg d) ids ts m) (filter (has_rule (d_cfg d)) vs))\<rparr>,
     fin @ concat (map (event_of (d_cfg d) ids ts m) (filter (has_rule (d_cfg d)) vs)))"
  using assms
proof (induction vs arbitrary: d fin)
  case (Cons kv vs)
  obtain k v where kv: "kv = (k, v)" by force
  show ?case
  proof (cases "has_rule (d_cfg d) kv")
    case True
    obtain st n r where u: "upd_key (d_cfg d) ids ts k (map_of (d_series d) k) v = (st, n, r)"
      by (metis prod.exhaust)
    let ?d = "d\<lparr>d_series := AList.update k st (d_series d), d_openCount := d_openCount d + n\<rparr>"
    have "\<forall>j \<in> fst ` set vs. map_of (d_series ?d) j = m j"
      using Cons.prems kv by (auto simp: go_map.lookup_upd)
    with Cons.IH [of ?d] Cons.prems True kv u show ?thesis
      by (simp add: offer_one_eq count_of_def event_of_def)
  next
    case False
    with Cons show ?thesis by (simp add: kv offer_one_eq)
  qed
qed simp

text \<open>
  \<open>Offer\<close> ranges over a Go map, in an order the runtime chooses at random. Whatever the order,
  every series ends in the same state, the count of open events is the same, and the same events are
  emitted.
\<close>

theorem Offer_order_irrelevant:
  assumes "distinct (map fst (pt_Values p))" "mset (pt_Values q) = mset (pt_Values p)" "pt_TS q = pt_TS p"
    and "Offer ids d p = (d', fin)" "Offer ids d q = (e', gin)"
  shows "map_of (d_series e') = map_of (d_series d') \<and> d_openCount e' = d_openCount d' \<and> mset gin = mset fin"
proof -
  let ?m = "map_of (d_series d)" and ?P = "has_rule (d_cfg d)" and ?u = "upd_key (d_cfg d) ids (pt_TS p)"
  let ?f = "filter ?P (pt_Values p)" and ?g = "filter ?P (pt_Values q)"
  have dq: "distinct (map fst (pt_Values q))"
    using assms(1,2) mset_eq_imp_distinct_iff [of "map fst (pt_Values p)" "map fst (pt_Values q)"] by simp
  have ms: "mset ?g = mset ?f" using assms(2) by simp
  have df: "distinct (map fst ?f)" using assms(1) by (simp add: distinct_map_filter)
  note F = Offer_fold [OF assms(1), of d ?m ids "pt_TS p" "[]", simplified]
    and G = Offer_fold [OF dq, of d ?m ids "pt_TS p" "[]", simplified]
  have "map_of (d_series e') k = map_of (d_series d') k" for k
    using assms(4,5) F G go_map.lookup_range_perm [OF df ms [symmetric], of "\<lambda>k old x. fst (?u k old x)" "d_series d" k]
    by (auto simp: Offer_def assms(3))
  moreover have "sum_list (map c ?g) = sum_list (map c ?f)" for c :: "series_key \<times> f64 \<Rightarrow> int"
    using ms by (metis mset_map sum_mset_sum_list)
  then have "d_openCount e' = d_openCount d'"
    using assms(4,5) F G by (auto simp: Offer_def assms(3))
  moreover have "mset gin = mset fin"
  proof -
    have "mset (concat (map c ?g)) = mset (concat (map c ?f))" for c :: "series_key \<times> f64 \<Rightarrow> spike_event list"
      using ms by (simp add: mset_concat flip: mset_map sum_mset_sum_list) (simp add: sum_mset_sum_list)
    then show ?thesis using assms(4,5) F G by (auto simp: Offer_def assms(3))
  qed
  ultimately show ?thesis by blast
qed

section \<open>A concrete run\<close>

text \<open>
  The default configuration and a host whose CPU is at 95% and, two minutes later, at 90%: the second
  sample completes the sustained run and opens an event. The series is then below the threshold for
  a minute, and quiet for the three minutes of post capture.
\<close>

definition cpu_key :: series_key where
  "cpu_key = \<lparr>k_Resource = ResCPU, k_Device = []\<rparr>"

definition cpu_point :: "int \<Rightarrow> rat \<Rightarrow> point" where
  "cpu_point m v = \<lparr>pt_TS = minutes m, pt_Values = [(cpu_key, fl v)]\<rparr>"

definition run_cpu :: "(int \<times> rat) list \<Rightarrow> detector \<times> spike_event list" where
  "run_cpu xs = foldl (\<lambda>(d, evs) (m, v). case Offer (\<lambda>k. ''e1'') d (cpu_point m v) of
     (d', fin) \<Rightarrow> (d', evs @ fin)) (NewDetector (Default Unix), []) xs"

definition cpu_trace :: "(int \<times> rat) list" where
  "cpu_trace = [(10, 95), (12, 90), (13, 50), (14, 50), (18, 50)]"

lemma run_cpu_detector_run:
  "sorted (map fst xs) \<Longrightarrow> \<forall>x \<in> set xs. 0 < fst x \<Longrightarrow> run_cpu xs = (d, evs) \<Longrightarrow>
   detector_run (Default Unix) (if xs = [] then 0 else minutes (fst (last xs))) d evs"
proof (induction xs arbitrary: d evs rule: rev_induct)
  case Nil
  then show ?case using detector_run.start [of "Default Unix"] by (auto simp: run_cpu_def)
next
  case (snoc x xs)
  obtain m v where x: "x = (m, v)" by force
  obtain d0 evs0 where r0: "run_cpu xs = (d0, evs0)" by force
  obtain d1 fin where o: "Offer (\<lambda>k. ''e1'') d0 (cpu_point m v) = (d1, fin)" by force
  have s: "sorted (map fst xs)" "\<forall>y \<in> set xs. 0 < fst y" and m: "0 < m" "\<forall>y \<in> set xs. fst y \<le> m"
    using snoc.prems x by (auto simp: sorted_append)
  have d: "d = d1" "evs = evs0 @ fin" using snoc.prems(3) r0 o by (simp_all add: run_cpu_def x)
  have "(if xs = [] then 0 else minutes (fst (last xs))) \<le> pt_TS (cpu_point m v)"
    using m by (auto simp: cpu_point_def minutes_def)
  then have "detector_run (Default Unix) (pt_TS (cpu_point m v)) d1 (evs0 @ fin)"
    using detector_run.feed [OF snoc.IH [OF s r0] _ _ o] m by (simp add: cpu_point_def minutes_def)
  then show ?case by (simp add: d x cpu_point_def)
qed

lemma default_spikes_config_ok: "spikes_config_ok (Default os)"
  by (simp add: spikes_config_ok_def Default_def seconds_def minutes_def)

theorem detector_run_sound_witness:
  "(\<exists>p \<in> set (d_series (fst (run_cpu [(10, 95), (12, 90)]))). st_open (snd p) \<noteq> None) \<and>
   (\<exists>ev key. snd (run_cpu cpu_trace) = [ev] \<and> event_ok (minutes 18) key ev \<and> event_closed (minutes 18) ev)"
proof -
  obtain d evs where r: "run_cpu cpu_trace = (d, evs)" by force
  have len: "length (snd (run_cpu cpu_trace)) = 1" by code_simp
  have "detector_run (Default Unix) (if cpu_trace = [] then 0 else minutes (fst (last cpu_trace))) d evs"
    by (rule run_cpu_detector_run [OF _ _ r]) (simp_all add: cpu_trace_def)
  then have "detector_run (Default Unix) (minutes 18) d evs" by (simp add: cpu_trace_def)
  from detector_run_sound [OF this default_spikes_config_ok] len r
  have 2: "\<exists>ev key. snd (run_cpu cpu_trace) = [ev] \<and> event_ok (minutes 18) key ev \<and> event_closed (minutes 18) ev"
    by (auto simp: length_Suc_conv)
  obtain d2 evs2 where r2: "run_cpu [(10, 95), (12, 90)] = (d2, evs2)" by force
  have act: "CaptureActive (fst (run_cpu [(10, 95), (12, 90)]))" by code_simp
  have "detector_run (Default Unix) (minutes 12) d2 evs2"
    using run_cpu_detector_run [OF _ _ r2] by simp
  from detector_run_sound [OF this default_spikes_config_ok] act r2 2 show ?thesis by auto
qed

text \<open>
  The recorded peak of an event starts at the sample that opens it. The samples of the climb,
  from \<open>StartTS\<close> on, are kept as pre-samples but do not count: in this run the host was at 95% when
  the event started, the event says 90%.
\<close>

theorem peak_ignores_climb:
  "map (\<lambda>p. map_option (\<lambda>oe. (ev_StartTS (oe_ev oe), ev_Peak (oe_ev oe), ev_PreSamples (oe_ev oe))) (st_open (snd p)))
      (d_series (fst (run_cpu [(10, 95), (12, 90)]))) =
   [Some (minutes 10, fl 90, [\<lparr>mp_TS = minutes 10, mp_Value = fl 95\<rparr>, \<lparr>mp_TS = minutes 12, mp_Value = fl 90\<rparr>])]"
  by code_simp

text \<open>The same samples on the level of one series.\<close>

definition cpu_rule :: spike_rule where
  "cpu_rule = mk_rule ''cpu'' 85 (minutes 2) 4 40"

definition ex_st0 :: series_state where
  "ex_st0 = new_series (Default Unix) cpu_rule cpu_key"

definition ex_st1 :: series_state where
  "ex_st1 = fst (step (Default Unix) ''e1'' ex_st0 (minutes 10) (fl 95) 0)"

definition ex_st2 :: series_state where
  "ex_st2 = fst (step (Default Unix) ''e1'' ex_st1 (minutes 12) (fl 90) 0)"

lemma ex_run1: "series_run (Default Unix) cpu_rule cpu_key [observe ex_st0 (minutes 10) (fl 95)] ex_st1"
proof -
  have "step (Default Unix) ''e1'' ex_st0 (minutes 10) (fl 95) 0 =
     (ex_st1, snd (step (Default Unix) ''e1'' ex_st0 (minutes 10) (fl 95) 0))" by (simp add: ex_st1_def)
  then obtain n r where "step (Default Unix) ''e1'' ex_st0 (minutes 10) (fl 95) 0 = (ex_st1, n, r)"
    by (metis prod.exhaust)
  from series_run.sample [OF series_run.start _ _ this [unfolded ex_st0_def]]
  show ?thesis by (simp add: ex_st0_def minutes_def)
qed

theorem effectiveThreshold_spec_witness:
  "fl 85 \<le> sr_StaticThreshold (st_rule ex_st1) \<and> min (sr_StaticThreshold (st_rule ex_st1)) (sr_BaselineFloor (st_rule ex_st1)) \<le> fl 85"
proof -
  have "effectiveThreshold ex_st1 = (fl 85, ''static'')" by code_simp
  from effectiveThreshold_spec [OF this] show ?thesis by blast
qed

theorem event_opens_iff_sustained_witness:
  "st_open ex_st2 \<noteq> None"
proof -
  obtain n r where st: "step (Default Unix) ''e1'' ex_st1 (minutes 12) (fl 90) 0 = (ex_st2, n, r)"
    by (metis ex_st2_def fst_conv prod.exhaust)
  have n: "st_open ex_st1 = None" by code_simp
  have h: "hot ex_st1 (minutes 12) (fl 90)" by code_simp
  have "hot_since ([observe ex_st0 (minutes 10) (fl 95)] @ [observe ex_st1 (minutes 12) (fl 90)]) = minutes 10"
    by code_simp
  then have "sr_Sustained cpu_rule \<le> time_sub (minutes 12)
      (hot_since ([observe ex_st0 (minutes 10) (fl 95)] @ [observe ex_st1 (minutes 12) (fl 90)]))"
    by (simp add: cpu_rule_def mk_rule_def minutes_def time_sub_def)
  with event_opens_iff_sustained [OF ex_run1 n _ st] h show ?thesis by (simp add: minutes_def)
qed

theorem history_refines_window_witness:
  "hist_window ex_st1 = lastn baselineWindow [fl 95]"
proof -
  have "map o_V (filter o_Idle [observe ex_st0 (minutes 10) (fl 95)]) = [fl 95]"
    by (simp add: observe_def ex_st0_def)
  with history_refines_window [OF ex_run1] show ?thesis by simp
qed

theorem open_event_completes_witness:
  "\<exists>ev \<in> set (emitted (Default Unix) ''e2'' ex_st2 [(minutes 13, fl 50), (minutes 14, fl 50), (minutes 18, fl 50)]).
     ev_EventID ev = ''e1''"
proof -
  have "map_option (\<lambda>oe. (oe_inPost oe, ev_EventID (oe_ev oe))) (st_open ex_st2) = Some (False, ''e1'')"
    by code_simp
  then obtain oe where oe: "st_open ex_st2 = Some oe" "\<not> oe_inPost oe" "ev_EventID (oe_ev oe) = ''e1''"
    by auto
  have th: "fl 50 < fst (effectiveThreshold ex_st2)" and b: "st_belowSince ex_st2 = 0" by code_simp+
  let ?xs = "[(minutes 13, fl 50), (minutes 14, fl 50), (minutes 18, fl 50)]"
  have "\<exists>ev \<in> set (emitted (Default Unix) ''e2'' ex_st2 ?xs). ev_EventID ev = ev_EventID (oe_ev oe)"
    by (rule open_event_completes [OF oe(1,2), where ys = "[(minutes 13, fl 50)]" and y = "(minutes 14, fl 50)"
          and zs = "[(minutes 18, fl 50)]" and z = "(minutes 18, fl 50)"])
      (use th b in \<open>simp_all add: minutes_def closeBelow_def seconds_def Default_def\<close>)
  then show ?thesis by (simp add: oe(3))
qed

definition mem_key :: series_key where
  "mem_key = \<lparr>k_Resource = ResMemory, k_Device = []\<rparr>"

theorem Offer_order_irrelevant_witness:
  "map_of (d_series (fst (Offer (\<lambda>k. ''e'') (NewDetector (Default Unix))
      \<lparr>pt_TS = minutes 10, pt_Values = [(mem_key, fl 50), (cpu_key, fl 95)]\<rparr>))) =
   map_of (d_series (fst (Offer (\<lambda>k. ''e'') (NewDetector (Default Unix))
      \<lparr>pt_TS = minutes 10, pt_Values = [(cpu_key, fl 95), (mem_key, fl 50)]\<rparr>)))"
proof -
  let ?p = "\<lparr>pt_TS = minutes 10, pt_Values = [(cpu_key, fl 95), (mem_key, fl 50)]\<rparr>"
    and ?q = "\<lparr>pt_TS = minutes 10, pt_Values = [(mem_key, fl 50), (cpu_key, fl 95)]\<rparr>"
  have d: "distinct (map fst (pt_Values ?p))" by (simp add: cpu_key_def mem_key_def ResCPU_def ResMemory_def)
  have m: "mset (pt_Values ?q) = mset (pt_Values ?p)" by simp
  show ?thesis
    using Offer_order_irrelevant [OF d m _ surjective_pairing surjective_pairing] by simp
qed

text \<open>
  A full during-buffer is thinned over its whole length: every other point goes, from the oldest
  on, and the new point is appended, so that after a wrap the first half of an event is kept at half
  the resolution, and at a quarter after the next.
\<close>

theorem full_buffer_is_halved:
  assumes "length s = maxDuringPoints"
  shows "appendCapped s p maxDuringPoints = map (\<lambda>i. s ! (2 * i)) [0..<180] @ [p]"
  using appendCapped_full [of s 180 p] assms by (simp add: maxDuringPoints_def)

theorem full_buffer_is_halved_witness:
  "length (appendCapped (replicate 360 \<lparr>mp_TS = 1, mp_Value = 0\<rparr>) \<lparr>mp_TS = 2, mp_Value = 0\<rparr> maxDuringPoints) = 181"
  using full_buffer_is_halved [of "replicate 360 \<lparr>mp_TS = 1, mp_Value = 0\<rparr>" "\<lparr>mp_TS = 2, mp_Value = 0\<rparr>"]
  by (simp add: maxDuringPoints_def)

end
