(* ===== verification/Recurrence.thy ===== *)
theory Recurrence
  imports Records GoMap
begin

text \<open>
  \<open>internal/analyzer/recurrence.go\<close>: \<open>DetectPatterns\<close> groups the spike events of a host by resource
  and device, clusters each group greedily by the time of day, and reports the clusters with at least
  three occurrences on three days. The map of groups is ranged over in an order the runtime chooses:
  the argument \<open>ord\<close>, a rearrangement of the groups. The loop over \<open>used\<close> flags is modelled as it is
  written and shown equal to a recursive partition; the theory proves the bounds of a pattern, that
  patterns share no event, and the independence of the report from the iteration order.
\<close>

section \<open>Time of day\<close>

definition minuteOfDay :: "time \<Rightarrow> int" where
  "minuteOfDay t = hour_of_day t * 60 + minute_of_hour t"

definition minuteDist :: "int \<Rightarrow> int \<Rightarrow> int" where
  "minuteDist a b =
     (let d = a - b; d = (if d < 0 then - d else d) in if d > 720 then 1440 - d else d)"

definition recurrenceTolMin :: int where
  "recurrenceTolMin = 20"

section \<open>Patterns\<close>

record pattern =
  pa_Resource :: string
  pa_Device :: string
  pa_TimeOfDayUTC :: string
  pa_Occurrences :: int
  pa_DistinctDays :: int
  pa_ObservedDays :: int
  pa_MeanDurationS :: f64
  pa_MeanPeak :: f64
  pa_Cadence :: string
  pa_EventIDs :: "string list"
  pa_Description :: string

text \<open>
  The text of a duration of whole seconds, as \<open>Duration.String\<close> writes it.
\<close>

definition fmt_dur_s :: "int \<Rightarrow> string" where
  "fmt_dur_s n =
     (let a = \<bar>n\<bar>; h = a div 3600; m = a div 60 mod 60; s = a mod 60 in
      (if n < 0 then ''-'' else []) @ (if h > 0 then fmt_d h @ ''h'' else []) @
      (if h > 0 \<or> m > 0 then fmt_d m @ ''m'' else []) @ fmt_d s @ ''s'')"

text \<open>One inner loop: the cluster anchored at \<open>i\<close>, and the flags after it.\<close>

definition inner_step :: "spike_event list \<Rightarrow> int \<Rightarrow> spike_event list \<times> bool list \<Rightarrow> nat
    \<Rightarrow> spike_event list \<times> bool list" where
  "inner_step evs base acc j =
     (case acc of (cluster, used) \<Rightarrow>
      if used ! j then (cluster, used)
      else if minuteDist base (minuteOfDay (ev_StartTS (evs ! j))) \<le> recurrenceTolMin
      then (cluster @ [evs ! j], used[j := True])
      else (cluster, used))"

definition outer_step :: "spike_event list \<Rightarrow> spike_event list list \<times> bool list \<Rightarrow> nat
    \<Rightarrow> spike_event list list \<times> bool list" where
  "outer_step evs acc i =
     (case acc of (cs, used) \<Rightarrow>
      if used ! i then (cs, used)
      else case foldl (inner_step evs (minuteOfDay (ev_StartTS (evs ! i))))
             ([evs ! i], used[i := True]) [i + 1..<length evs] of
        (cluster, used') \<Rightarrow> (cs @ [cluster], used'))"

definition cluster_loop :: "spike_event list \<Rightarrow> spike_event list list" where
  "cluster_loop evs = fst (foldl (outer_step evs) ([], replicate (length evs) False) [0..<length evs])"

definition cadence :: "int \<Rightarrow> int \<Rightarrow> bool \<Rightarrow> string" where
  "cadence days observedDays weekdaysOnly =
     (if observedDays > 0 \<and> of_go_int days / of_go_int observedDays \<ge> fl (8 / 10) then ''daily''
      else if weekdaysOnly \<and> observedDays \<ge> 7 then ''weekdays''
      else if observedDays \<ge> 14 \<and> days \<ge> observedDays sdiv 7 then ''weekly''
      else ''irregular-recurring'')"

definition distinct_days :: "spike_event list \<Rightarrow> int" where
  "distinct_days cluster = int (length (remdups (map (fmt_date \<circ> ev_StartTS) cluster)))"

definition weekdays_only :: "spike_event list \<Rightarrow> bool" where
  "weekdays_only cluster = list_all (\<lambda>e. weekday (ev_StartTS e) \<noteq> 6 \<and> weekday (ev_StartTS e) \<noteq> 0) cluster"

definition pattern_of :: "string \<times> string \<Rightarrow> int \<Rightarrow> spike_event list \<Rightarrow> pattern option" where
  "pattern_of k observedDays cluster =
     (let days = distinct_days cluster; n = int (length cluster);
          sumDur = foldl (+) 0 (map ev_DurationS cluster);
          sumPeak = foldl (+) 0 (map ev_Peak cluster);
          sumMin = sum_list (map (minuteOfDay \<circ> ev_StartTS) cluster)
      in if n < 3 \<or> days < 3 then None
         else
           let meanMin = sumMin sdiv n;
               tod = fmt_0d 2 (meanMin sdiv 60) @ '':'' @ fmt_0d 2 (meanMin smod 60);
               cad = cadence days observedDays (weekdays_only cluster);
               meanDur = sumDur / of_go_int n; meanPeak = sumPeak / of_go_int n
           in Some \<lparr>pa_Resource = fst k, pa_Device = snd k, pa_TimeOfDayUTC = tod, pa_Occurrences = n,
                pa_DistinctDays = days, pa_ObservedDays = observedDays, pa_MeanDurationS = meanDur,
                pa_MeanPeak = meanPeak, pa_Cadence = cad, pa_EventIDs = map ev_EventID cluster,
                pa_Description = fst k @ '' spike '' @ cad @ '' around '' @ tod @ '' UTC ('' @ fmt_d n @
                  '' occurrences on '' @ fmt_d days @ '' of '' @ fmt_d observedDays @
                  '' observed days, mean peak '' @ fmt_f 0 meanPeak @ '', mean duration '' @
                  fmt_dur_s (go_trunc meanDur) @ '')''\<rparr>)"

definition group_key :: "spike_event \<Rightarrow> string \<times> string" where
  "group_key s = (ev_Resource s, ev_Device s)"

definition group_step :: "(string \<times> string, spike_event list) go_map \<Rightarrow> spike_event
    \<Rightarrow> (string \<times> string, spike_event list) go_map" where
  "group_step groups s = AList.update (group_key s)
     ((case map_of groups (group_key s) of Some evs \<Rightarrow> evs | None \<Rightarrow> []) @ [s]) groups"

definition group_patterns :: "int \<Rightarrow> (string \<times> string) \<times> spike_event list \<Rightarrow> pattern list" where
  "group_patterns observedDays g =
     List.map_filter (pattern_of (fst g) observedDays) (cluster_loop (sort_key ev_StartTS (snd g)))"

type_synonym group_order =
  "(string \<times> string, spike_event list) go_map \<Rightarrow> (string \<times> string, spike_event list) go_map"

definition DetectPatterns :: "group_order \<Rightarrow> spike_event list \<Rightarrow> int \<Rightarrow> pattern list" where
  "DetectPatterns ord spikes observedDays =
     sort_key (\<lambda>p. - pa_Occurrences p)
       (concat (map (group_patterns observedDays) (ord (foldl group_step [] spikes))))"

fun PatternFor :: "pattern list \<Rightarrow> string \<Rightarrow> pattern option" where
  "PatternFor [] eventID = None"
| "PatternFor (p # ps) eventID = (if eventID \<in> set (pa_EventIDs p) then Some p else PatternFor ps eventID)"

section \<open>Circular distance\<close>

lemma minuteOfDay_range: "0 \<le> minuteOfDay t \<and> minuteOfDay t < 1440"
proof -
  have "0 \<le> hour_of_day t" "hour_of_day t < 24" "0 \<le> minute_of_hour t" "minute_of_hour t < 60"
    by (simp_all add: hour_of_day_def minute_of_hour_def)
  then show ?thesis by (auto simp: minuteOfDay_def)
qed

text \<open>
  \<open>minuteDist\<close> is the distance on the circle of the 1440 minutes of a day: the shorter of the two
  ways round, symmetric, at most twelve hours, and zero only between equal minutes.
\<close>

theorem minuteDist_circular:
  "minuteDist (minuteOfDay s) (minuteOfDay t) =
     min ((minuteOfDay s - minuteOfDay t) mod 1440) ((minuteOfDay t - minuteOfDay s) mod 1440) \<and>
   minuteDist (minuteOfDay s) (minuteOfDay t) = minuteDist (minuteOfDay t) (minuteOfDay s) \<and>
   0 \<le> minuteDist (minuteOfDay s) (minuteOfDay t) \<and> minuteDist (minuteOfDay s) (minuteOfDay t) \<le> 720 \<and>
   (minuteDist (minuteOfDay s) (minuteOfDay t) = 0 \<longleftrightarrow> minuteOfDay s = minuteOfDay t)"
proof -
  obtain a b where ab: "a = minuteOfDay s" "b = minuteOfDay t" by blast
  have r: "0 \<le> a" "a < 1440" "0 \<le> b" "b < 1440" using minuteOfDay_range ab by auto
  have m: "(x - y) mod 1440 = (if y \<le> x then x - y else x - y + 1440)"
    if "0 \<le> x" "x < 1440" "0 \<le> y" "y < 1440" for x y :: int
    using that mod_pos_pos_trivial [of "x - y + 1440" 1440] by (auto simp: mod_pos_pos_trivial)
  show ?thesis unfolding ab [symmetric] m [OF r] m [OF r(3,4,1,2)]
    using r by (auto simp: minuteDist_def Let_def min_def)
qed

section \<open>The clusters are a partition\<close>

definition near :: "spike_event \<Rightarrow> spike_event \<Rightarrow> bool" where
  "near a x \<longleftrightarrow> minuteDist (minuteOfDay (ev_StartTS a)) (minuteOfDay (ev_StartTS x)) \<le> recurrenceTolMin"

fun clusters :: "spike_event list \<Rightarrow> spike_event list list" where
  "clusters [] = []"
| "clusters (e # es) = (e # filter (near e) es) # clusters (filter (\<lambda>x. \<not> near e x) es)"

text \<open>The events a loop has not used yet, from index \<open>i\<close> on.\<close>

definition unused :: "spike_event list \<Rightarrow> bool list \<Rightarrow> nat \<Rightarrow> spike_event list" where
  "unused evs used i = map ((!) evs) (filter (\<lambda>j. \<not> used ! j) [i..<length evs])"

lemma unused_end [simp]: "unused evs used (length evs) = []"
  by (simp add: unused_def)

lemma unused_step:
  "i < length evs \<Longrightarrow> unused evs used i = (if used ! i then [] else [evs ! i]) @ unused evs used (Suc i)"
  by (simp add: unused_def upt_conv_Cons)

lemma unused_cong: "(\<And>j. i \<le> j \<Longrightarrow> j < length evs \<Longrightarrow> u ! j = w ! j) \<Longrightarrow> unused evs u i = unused evs w i"
  by (auto simp: unused_def intro!: arg_cong [of _ _ "map _"] filter_cong)

lemma inner_loop:
  assumes "length used = length evs" "m \<le> length evs" "i \<le> m"
  shows "\<exists>used'. foldl (inner_step evs (minuteOfDay (ev_StartTS e))) (c, used) [m..<length evs] =
      (c @ filter (near e) (unused evs used m), used') \<and> length used' = length evs \<and>
      (\<forall>j < m. used' ! j = used ! j) \<and> unused evs used' m = filter (\<lambda>x. \<not> near e x) (unused evs used m)"
  using assms(2,1)
proof (induction m arbitrary: c used rule: inc_induct)
  case base
  then show ?case by auto
next
  case (step m)
  let ?f = "inner_step evs (minuteOfDay (ev_StartTS e))"
  have up: "[m..<length evs] = m # [Suc m..<length evs]" using step.hyps by (simp add: upt_conv_Cons)
  consider (used) "used ! m" | (near) "\<not> used ! m" "near e (evs ! m)" | (far) "\<not> used ! m" "\<not> near e (evs ! m)"
    by blast
  then show ?case
  proof cases
    case used
    then have "?f (c, used) m = (c, used)" by (simp add: inner_step_def)
    with step.IH [OF step.prems, of c] used step.hyps show ?thesis
      by (auto simp: up unused_step [OF step.hyps(2)])
  next
    case far
    then have "?f (c, used) m = (c, used)" by (simp add: inner_step_def near_def)
    with step.IH [OF step.prems, of c] far step.hyps show ?thesis
      by (auto simp: up unused_step [OF step.hyps(2)])
  next
    case near
    then have f: "?f (c, used) m = (c @ [evs ! m], used[m := True])" by (simp add: inner_step_def near_def)
    have u: "unused evs (used[m := True]) (Suc m) = unused evs used (Suc m)"
      by (rule unused_cong) simp
    from step.IH [of "used[m := True]" "c @ [evs ! m]"] step.prems obtain used' where
      IH: "foldl ?f (c @ [evs ! m], used[m := True]) [Suc m..<length evs] =
        ((c @ [evs ! m]) @ filter (near e) (unused evs used (Suc m)), used')" "length used' = length evs"
        "\<forall>j < Suc m. used' ! j = used[m := True] ! j"
        "unused evs used' (Suc m) = filter (\<lambda>x. \<not> near e x) (unused evs used (Suc m))"
      by (auto simp: u)
    have "used' ! m" using IH(3) step.hyps step.prems by simp
    with IH near step.hyps f show ?thesis
      by (auto simp: up unused_step [OF step.hyps(2)])
  qed
qed

lemma outer_loop:
  assumes "i \<le> length evs" "length used = length evs"
  shows "fst (foldl (outer_step evs) (cs, used) [i..<length evs]) = cs @ clusters (unused evs used i)"
  using assms
proof (induction i arbitrary: cs used rule: inc_induct)
  case base
  then show ?case by simp
next
  case (step i)
  have up: "[i..<length evs] = i # [Suc i..<length evs]" using step.hyps by (simp add: upt_conv_Cons)
  show ?case
  proof (cases "used ! i")
    case True
    then have "outer_step evs (cs, used) i = (cs, used)" by (simp add: outer_step_def)
    with step True show ?thesis by (simp add: up unused_step [OF step.hyps(2)])
  next
    case False
    have u: "unused evs (used[i := True]) (Suc i) = unused evs used (Suc i)" by (rule unused_cong) simp
    obtain used' where
      in1: "foldl (inner_step evs (minuteOfDay (ev_StartTS (evs ! i)))) ([evs ! i], used[i := True]) [Suc i..<length evs]
        = ([evs ! i] @ filter (near (evs ! i)) (unused evs used (Suc i)), used')" "length used' = length evs"
        "unused evs used' (Suc i) = filter (\<lambda>x. \<not> near (evs ! i) x) (unused evs used (Suc i))"
      using inner_loop [of "used[i := True]" evs "Suc i" "Suc i" "evs ! i" "[evs ! i]"] step by (auto simp: u)
    then have "outer_step evs (cs, used) i =
        (cs @ [evs ! i # filter (near (evs ! i)) (unused evs used (Suc i))], used')"
      using False by (simp add: outer_step_def)
    with step.IH [OF in1(2)] in1(3) False show ?thesis
      by (simp add: up unused_step [OF step.hyps(2)])
  qed
qed

lemma cluster_loop_eq: "cluster_loop evs = clusters evs"
proof -
  have "unused evs (replicate (length evs) False) 0 = map ((!) evs) [0..<length evs]"
    unfolding unused_def by (intro arg_cong [of _ _ "map _"]) (auto simp: filter_id_conv)
  then have "unused evs (replicate (length evs) False) 0 = evs" by (simp add: map_nth)
  then show ?thesis using outer_loop [of 0 evs "replicate (length evs) False" "[]"]
    by (simp add: cluster_loop_def)
qed

lemma clusters_nonempty: "c \<in> set (clusters es) \<Longrightarrow> c \<noteq> []"
  by (induction es rule: clusters.induct) auto

lemma mset_clusters: "mset (concat (clusters es)) = mset es"
proof (induction es rule: clusters.induct)
  case (2 e es)
  have "mset (filter (near e) es) + mset (filter (\<lambda>x. \<not> near e x) es) = mset es"
    by (simp add: mset_filter multiset_partition [symmetric])
  with 2 show ?case by simp
qed simp

lemma set_clusters: "\<Union> (set ` set (clusters es)) = set es"
  using mset_clusters [of es] by (metis set_concat set_mset_mset)

lemma near_refl: "near e e"
  by (simp add: near_def minuteDist_def recurrenceTolMin_def)

lemma clusters_near: "c \<in> set (clusters es) \<Longrightarrow> x \<in> set c \<Longrightarrow> near (hd c) x"
  by (induction es rule: clusters.induct) (auto simp: near_refl)

lemma clusters_apart: "sorted_wrt (\<lambda>c d. \<forall>x \<in> set d. \<not> near (hd c) x) (clusters es)"
proof (induction es rule: clusters.induct)
  case (2 e es)
  have "x \<in> set d \<Longrightarrow> d \<in> set (clusters (filter (\<lambda>x. \<not> near e x) es)) \<Longrightarrow> \<not> near e x" for x d
    using set_clusters [of "filter (\<lambda>x. \<not> near e x) es"] by auto
  with 2 show ?case by auto
qed simp

text \<open>
  C22. The flag loop partitions the events of a group: every event is in exactly one cluster, each
  cluster lies within twenty minutes of its first event, and no later cluster has an event within
  twenty minutes of the anchor of an earlier one.
\<close>

theorem cluster_loop_partition:
  "mset (concat (cluster_loop evs)) = mset evs \<and>
   list_all (\<lambda>c. c \<noteq> [] \<and> list_all (near (hd c)) c) (cluster_loop evs) \<and>
   sorted_wrt (\<lambda>c d. list_all (\<lambda>x. \<not> near (hd c) x) d) (cluster_loop evs)"
  using mset_clusters [of evs] clusters_near [of _ evs] clusters_nonempty [of _ evs] clusters_apart [of evs]
  by (auto simp: cluster_loop_eq list_all_iff)

section \<open>The report\<close>

lemma mset_update_append:
  "distinct (map fst m) \<Longrightarrow>
   mset (concat (map snd (AList.update k ((case map_of m k of Some evs \<Rightarrow> evs | None \<Rightarrow> []) @ [s]) m))) =
   add_mset s (mset (concat (map snd m)))"
proof (induction m)
  case (Cons p m)
  then show ?case by (cases p) auto
qed simp

lemma groups_inv:
  defines "g \<equiv> foldl group_step []"
  shows "distinct (map fst (g spikes)) \<and> mset (concat (map snd (g spikes))) = mset spikes \<and>
    (\<forall>k evs. (k, evs) \<in> set (g spikes) \<longrightarrow> set evs = {s \<in> set spikes. group_key s = k})"
proof (induction spikes rule: rev_induct)
  case (snoc s spikes)
  then have d: "distinct (map fst (g spikes))"
    and grp: "\<And>k evs. (k, evs) \<in> set (g spikes) \<Longrightarrow> set evs = {s \<in> set spikes. group_key s = k}" by blast+
  let ?old = "case map_of (g spikes) (group_key s) of Some evs \<Rightarrow> evs | None \<Rightarrow> []"
  have gs: "g (spikes @ [s]) = AList.update (group_key s) (?old @ [s]) (g spikes)"
    by (simp add: g_def group_step_def)
  have du: "distinct (map fst (g (spikes @ [s])))" using d by (simp add: gs update_distinct_keys)
  have old: "set ?old = {x \<in> set spikes. group_key x = group_key s}"
  proof (cases "map_of (g spikes) (group_key s)")
    case None
    have "x \<notin> set spikes" if "group_key x = group_key s" for x
    proof
      assume "x \<in> set spikes"
      then have "x \<in> set (concat (map snd (g spikes)))" using snoc by (metis set_mset_mset)
      then obtain k evs where "(k, evs) \<in> set (g spikes)" "x \<in> set evs" by auto
      moreover from this snoc have "group_key x = k" by blast
      ultimately show False using that None by (force simp: map_of_eq_None_iff)
    qed
    with None show ?thesis by auto
  next
    case (Some evs)
    with grp [OF map_of_SomeD [OF Some]] show ?thesis by simp
  qed
  have "set evs = {x \<in> set (spikes @ [s]). group_key x = k}" if "(k, evs) \<in> set (g (spikes @ [s]))" for k evs
  proof -
    have "map_of (g (spikes @ [s])) k = Some evs" using that du by simp
    then have "(if k = group_key s then Some (?old @ [s]) else map_of (g spikes) k) = Some evs"
      by (simp add: gs go_map.lookup_upd)
    then show ?thesis
      using old grp [OF map_of_SomeD, of k evs] by (cases "k = group_key s") auto
  qed
  with du mset_update_append [OF d] snoc show ?case by (simp add: gs)
qed (simp add: g_def)

lemma distinct_days_le: "distinct_days c \<le> int (length c)"
  using length_remdups_leq [of "map (fmt_date \<circ> ev_StartTS) c"] by (simp add: distinct_days_def)

lemma pattern_of_Some:
  assumes "pattern_of k n c = Some p"
  shows "pa_Resource p = fst k" "pa_Device p = snd k" "pa_Occurrences p = int (length c)"
    "pa_DistinctDays p = distinct_days c" "pa_EventIDs p = map ev_EventID c"
    "3 \<le> pa_Occurrences p" "3 \<le> pa_DistinctDays p"
  using assms by (auto simp: pattern_of_def Let_def split: if_splits)

definition order_ok :: "group_order \<Rightarrow> bool" where
  "order_ok ord \<longleftrightarrow> (\<forall>g. mset (ord g) = mset g)"

lemma set_DetectPatterns:
  assumes "order_ok ord"
  shows "set (DetectPatterns ord spikes n) =
    (\<Union>g \<in> set (foldl group_step [] spikes). set (group_patterns n g))"
proof -
  have "set (ord (foldl group_step [] spikes)) = set (foldl group_step [] spikes)"
    using assms by (metis order_ok_def set_mset_mset)
  then show ?thesis by (simp add: DetectPatterns_def)
qed

lemma set_group_patterns:
  "p \<in> set (group_patterns n (k, evs)) \<Longrightarrow>
   \<exists>c. c \<in> set (clusters (sort_key ev_StartTS evs)) \<and> pattern_of k n c = Some p"
  by (auto simp: group_patterns_def cluster_loop_eq List.map_filter_def)

text \<open>
  C21. Every reported pattern is a set of spikes of one resource and device, at least three of them, on
  at least three different days and within twenty minutes of the time of day of the first; its counts
  and its event list are those of that set, and the report is ordered by falling number of occurrences.
\<close>

theorem DetectPatterns_sound:
  assumes "order_ok ord" "p \<in> set (DetectPatterns ord spikes n)"
  shows "(\<exists>c. c \<noteq> [] \<and> pa_EventIDs p = map ev_EventID c \<and> pa_Occurrences p = int (length c) \<and>
      pa_DistinctDays p = distinct_days c \<and> 3 \<le> distinct_days c \<and> distinct_days c \<le> int (length c) \<and>
      list_all (\<lambda>e. e \<in> set spikes \<and> ev_Resource e = pa_Resource p \<and> ev_Device e = pa_Device p \<and>
        near (hd c) e) c) \<and>
    sorted (map (\<lambda>p. - pa_Occurrences p) (DetectPatterns ord spikes n))"
proof -
  from assms(2) obtain k evs where g: "(k, evs) \<in> set (foldl group_step [] spikes)"
    and "p \<in> set (group_patterns n (k, evs))" by (auto simp: set_DetectPatterns [OF assms(1)])
  then obtain c where c: "c \<in> set (clusters (sort_key ev_StartTS evs))" and p: "pattern_of k n c = Some p"
    using set_group_patterns by blast
  have "set c \<subseteq> set evs" using c set_clusters [of "sort_key ev_StartTS evs"] by auto
  moreover have "set evs = {s \<in> set spikes. group_key s = k}" using g groups_inv [of spikes] by blast
  ultimately have "\<forall>e \<in> set c. e \<in> set spikes \<and> ev_Resource e = pa_Resource p \<and> ev_Device e = pa_Device p"
    by (auto simp: group_key_def pattern_of_Some [OF p])
  then show ?thesis
    using pattern_of_Some [OF p] clusters_near [OF c] clusters_nonempty [OF c] distinct_days_le [of c]
    by (auto simp: DetectPatterns_def list_all_iff intro!: exI [of _ c])
qed

text \<open>
  The report does not depend on the order in which the runtime presents the groups, up to the
  order of patterns with the same number of occurrences.
\<close>

theorem DetectPatterns_order_irrelevant:
  assumes "order_ok ord" "order_ok ord'"
  shows "mset (DetectPatterns ord spikes n) = mset (DetectPatterns ord' spikes n)"
proof -
  have "mset (ord (foldl group_step [] spikes)) = mset (ord' (foldl group_step [] spikes))"
    using assms by (simp add: order_ok_def)
  then show ?thesis unfolding DetectPatterns_def mset_sort by (rule mset_concat_map_cong)
qed

lemma map_filter_ids:
  "(\<And>c p. pattern_of k n c = Some p \<Longrightarrow> pa_EventIDs p = map ev_EventID c) \<Longrightarrow>
   mset (concat (map pa_EventIDs (List.map_filter (pattern_of k n) cs))) \<subseteq># mset (map ev_EventID (concat cs))"
  by (induction cs) (auto simp: List.map_filter_simps subset_mset.add_mono subset_mset.add_increasing split: option.splits)

lemma ids_group: "mset (concat (map pa_EventIDs (group_patterns n g))) \<subseteq># mset (map ev_EventID (snd g))"
proof -
  have "mset (concat (clusters (sort_key ev_StartTS (snd g)))) = mset (snd g)" by (simp add: mset_clusters)
  then have "mset (map ev_EventID (concat (clusters (sort_key ev_StartTS (snd g))))) = mset (map ev_EventID (snd g))"
    by (simp only: mset_map)
  then show ?thesis
    using map_filter_ids [of "fst g" n "clusters (sort_key ev_StartTS (snd g))", OF pattern_of_Some(5)]
    by (simp only: group_patterns_def cluster_loop_eq)
qed

lemma concat_map_subset_mset:
  "(\<And>x. x \<in> set xs \<Longrightarrow> mset (f x) \<subseteq># mset (h x)) \<Longrightarrow> mset (concat (map f xs)) \<subseteq># mset (concat (map h xs))"
  by (induction xs) (auto intro: subset_mset.add_mono)

lemma ids_DetectPatterns:
  assumes "order_ok ord"
  shows "mset (concat (map pa_EventIDs (DetectPatterns ord spikes n))) \<subseteq># mset (map ev_EventID spikes)"
proof -
  let ?g = "ord (foldl group_step [] spikes)"
  let ?ps = "concat (map (group_patterns n) ?g)"
  have "mset (DetectPatterns ord spikes n) = mset ?ps" by (simp add: DetectPatterns_def)
  then have "mset (concat (map pa_EventIDs (DetectPatterns ord spikes n))) = mset (concat (map pa_EventIDs ?ps))"
    by (rule mset_concat_map_cong)
  also have "concat (map pa_EventIDs (concat (map f gs))) = concat (map (\<lambda>g. concat (map pa_EventIDs (f g))) gs)"
    for f :: "(string \<times> string) \<times> spike_event list \<Rightarrow> pattern list" and gs
    by (induction gs) simp_all
  also have "mset (concat (map (\<lambda>g. concat (map pa_EventIDs (group_patterns n g))) ?g))
      \<subseteq># mset (concat (map (\<lambda>g. map ev_EventID (snd g)) ?g))"
    by (rule concat_map_subset_mset) (rule ids_group)
  also have "\<dots> = mset (concat (map (\<lambda>g. map ev_EventID (snd g)) (foldl group_step [] spikes)))"
    using assms by (intro mset_concat_map_cong) (simp add: order_ok_def)
  also have "concat (map (\<lambda>g. map ev_EventID (snd g)) gs) = map ev_EventID (concat (map snd gs))"
    for gs :: "((string \<times> string) \<times> spike_event list) list"
    by (induction gs) simp_all
  also have "mset (map ev_EventID (concat (map snd (foldl group_step [] spikes)))) = mset (map ev_EventID spikes)"
    unfolding mset_map using groups_inv [of spikes] by simp
  finally show ?thesis .
qed

lemma PatternFor_Some:
  "distinct (concat (map pa_EventIDs ps)) \<Longrightarrow> PatternFor ps i = Some p \<longleftrightarrow> p \<in> set ps \<and> i \<in> set (pa_EventIDs p)"
  by (induction ps) auto

text \<open>
  When event identifiers are unique, an event belongs to at most one pattern, and \<open>PatternFor\<close>
  finds it: it returns a pattern exactly when that pattern is reported and lists the event.
\<close>

theorem PatternFor_correct:
  assumes "order_ok ord" "distinct (map ev_EventID spikes)"
  shows "PatternFor (DetectPatterns ord spikes n) i = Some p \<longleftrightarrow>
    p \<in> set (DetectPatterns ord spikes n) \<and> i \<in> set (pa_EventIDs p)"
proof (rule PatternFor_Some)
  show "distinct (concat (map pa_EventIDs (DetectPatterns ord spikes n)))"
    by (rule distinct_submset [OF ids_DetectPatterns [OF assms(1)] assms(2)])
qed

section \<open>Concrete reports\<close>

definition mk_spike :: "string \<Rightarrow> int \<Rightarrow> int \<Rightarrow> spike_event" where
  "mk_spike ident day minute = \<lparr>m_Kind = KindSpike, m_Schema = SchemaVersion, m_TS = hours (24 * day) + minutes minute,
     ev_EventID = ident, ev_Resource = ResCPU, ev_Device = [], ev_StartTS = hours (24 * day) + minutes minute,
     ev_EndTS = hours (24 * day) + minutes (minute + 5), ev_DurationS = of_go_int 300, ev_Baseline = of_go_int 20,
     ev_Peak = of_go_int 90, ev_Threshold = of_go_int 85, ev_Trigger = ''static'', ev_PreSamples = [],
     ev_DuringSamples = [], ev_PostSamples = [], ev_TopProcs = [], ev_CoreSecondsByProc = [],
     ev_ProbableCause = ''unattributed'', ev_CorrelatedProcess = [], ev_CorrelatedServiceOrJob = [],
     ev_AttributionConfidence = 0, ev_AttributionEvidence = [], ev_ValidationRequired = True,
     ev_SQLCorrelated = False, ev_SQLInstance = []\<rparr>"

text \<open>A job at midnight, seen five minutes before or after it.\<close>

definition midnight_spikes :: "spike_event list" where
  "midnight_spikes = [mk_spike ''a'' 739000 1435, mk_spike ''b'' 739001 5, mk_spike ''c'' 739002 1435, mk_spike ''d'' 739003 5]"

text \<open>
  The clusters are formed on the circle of the day but the reported time is the arithmetic mean of
  the minutes of the day: four spikes within five minutes of midnight are reported as a pattern
  around 12:00.
\<close>

theorem midnight_pattern_reported_at_noon:
  "map (\<lambda>p. (pa_TimeOfDayUTC p, pa_Occurrences p, pa_EventIDs p)) (DetectPatterns id midnight_spikes 30) =
     [(''12:00'', 4, [''a'', ''b'', ''c'', ''d''])] \<and>
   list_all (\<lambda>e. minuteDist 0 (minuteOfDay (ev_StartTS e)) \<le> 5) midnight_spikes"
  by code_simp

lemma order_ok_id: "order_ok id" "order_ok rev"
  by (simp_all add: order_ok_def)

theorem DetectPatterns_sound_witness:
  "sorted (map (\<lambda>p. - pa_Occurrences p) (DetectPatterns rev midnight_spikes 30))"
proof -
  have "length (DetectPatterns rev midnight_spikes 30) = 1" by code_simp
  then obtain p where "p \<in> set (DetectPatterns rev midnight_spikes 30)" by (auto simp: length_Suc_conv)
  from DetectPatterns_sound [OF order_ok_id(2) this] show ?thesis by blast
qed

theorem DetectPatterns_order_irrelevant_witness:
  "mset (DetectPatterns id midnight_spikes 30) = mset (DetectPatterns rev midnight_spikes 30)"
  by (rule DetectPatterns_order_irrelevant [OF order_ok_id])

theorem PatternFor_correct_witness:
  "\<exists>p. PatternFor (DetectPatterns id midnight_spikes 30) ''c'' = Some p \<and> ''c'' \<in> set (pa_EventIDs p)"
proof -
  have d: "distinct (map ev_EventID midnight_spikes)" by code_simp
  have "list_ex (\<lambda>p. ''c'' \<in> set (pa_EventIDs p)) (DetectPatterns id midnight_spikes 30)" by code_simp
  then obtain p where "p \<in> set (DetectPatterns id midnight_spikes 30)" "''c'' \<in> set (pa_EventIDs p)"
    by (auto simp: list_ex_iff)
  with PatternFor_correct [OF order_ok_id(1) d] show ?thesis by blast
qed

end
