(* ===== verification/AnalyzerTypes.thy ===== *)
theory AnalyzerTypes
  imports Stats Recurrence
begin

text \<open>
  The data of \<open>internal/analyzer\<close>: what is imported for a host (\<open>HostData\<close> of \<open>dataset.go\<close>), the
  recommendation categories, the sizing targets and the report records of \<open>recommend.go\<close> and
  \<open>analyzer.go\<close>. A map the analyzer ranges over is an association list in the order the runtime
  presents it.
\<close>

section \<open>Imported data\<close>

record host_data =
  hd_HostID :: string
  hd_Inventory :: "inventory option"
  hd_Minutes :: "host_minute list"
  hd_Spikes :: "spike_event list"
  hd_ProcTops :: "proc_top list"
  hd_Sched :: "sched_snapshot list"
  hd_SQLInv :: "(string, sql_inventory) go_map"
  hd_SQLSamples :: "(string, sql_sample list) go_map"
  hd_SQLSpikes :: "sql_spike_context list"
  hd_Health :: "health list"
  hd_Manifests :: "manifest list"
  hd_Problems :: "string list"

record dataset =
  ds_Hosts :: "(string, host_data) go_map"
  ds_Warnings :: "string list"
  ds_Bundles :: int
  ds_OKBundles :: int
  ds_PartialBundles :: int
  ds_RejectedBundles :: int

definition new_host :: "string \<Rightarrow> host_data" where
  "new_host hostID = \<lparr>hd_HostID = hostID, hd_Inventory = None, hd_Minutes = [], hd_Spikes = [],
     hd_ProcTops = [], hd_Sched = [], hd_SQLInv = [], hd_SQLSamples = [], hd_SQLSpikes = [],
     hd_Health = [], hd_Manifests = [], hd_Problems = []\<rparr>"

section \<open>Categories and targets\<close>

definition CatLikelyRightsizing :: string where "CatLikelyRightsizing = ''likely_rightsizing_candidate''"
definition CatPossibleRightsizing :: string where "CatPossibleRightsizing = ''possible_rightsizing_candidate''"
definition CatOptimizeWorkload :: string where "CatOptimizeWorkload = ''optimize_recurring_workload_before_rightsizing''"
definition CatSQLMemoryConfig :: string where "CatSQLMemoryConfig = ''sql_memory_configuration_issue''"
definition CatMultiInstanceRisk :: string where "CatMultiInstanceRisk = ''multi_instance_memory_allocation_risk''"
definition CatInsufficientHeadroom :: string where "CatInsufficientHeadroom = ''insufficient_os_headroom''"
definition CatHADRConstraint :: string where "CatHADRConstraint = ''ha_dr_constraint''"
definition CatNoChange :: string where "CatNoChange = ''no_change_recommended''"
definition CatInsufficientData :: string where "CatInsufficientData = ''insufficient_data''"
definition CatMonitorLonger :: string where "CatMonitorLonger = ''monitor_for_longer''"

lemmas cat_defs = CatLikelyRightsizing_def CatPossibleRightsizing_def CatOptimizeWorkload_def
  CatSQLMemoryConfig_def CatMultiInstanceRisk_def CatInsufficientHeadroom_def CatHADRConstraint_def
  CatNoChange_def CatInsufficientData_def CatMonitorLonger_def

definition cpuTargetPeakPct :: f64 where "cpuTargetPeakPct = fl 70"
definition cpuSustainedLimit :: f64 where "cpuSustainedLimit = fl 85"
definition memHeadroomFactor :: f64 where "memHeadroomFactor = fl (130 / 100)"
definition osReserveMinGB :: f64 where "osReserveMinGB = fl 4"
definition minVCPU :: int where "minVCPU = 2"

section \<open>Reports\<close>

record capacity_range =
  cr_MinVCPU :: int
  cr_MaxVCPU :: int
  cr_MinRAMGB :: f64
  cr_MaxRAMGB :: f64
  cr_Note :: string

record host_report =
  hr_HostID :: string
  hr_Hostname :: string
  hr_OS :: string
  hr_OSVersion :: string
  hr_Virtualization :: string
  hr_AllocVCPU :: int
  hr_AllocRAMGB :: f64
  hr_ObservedDays :: int
  hr_CoveragePct :: f64
  hr_DataProblems :: "string list"
  hr_CPU :: summary
  hr_CPUPeak :: summary
  hr_CPUSteal :: f64
  hr_SustainedCPU :: sustained_run
  hr_MinutesOver70 :: int
  hr_MinutesOver85 :: int
  hr_Mem :: summary
  hr_MemUsedP95GB :: f64
  hr_MemPressure :: "string list"
  hr_PagingEvidence :: bool
  hr_DiskCapacity :: "fs_usage list"
  hr_DiskLatencyP95MS :: f64
  hr_DiskBusyP95Pct :: f64
  hr_NetRxP95MBs :: f64
  hr_NetTxP95MBs :: f64
  hr_SpikeCount :: int
  hr_Patterns :: "pattern list"
  hr_TopCorrelates :: "string list"
  hr_SQLInstances :: "string list"
  hr_Category :: string
  hr_Recommendation :: string
  hr_Suggested :: "capacity_range option"
  hr_Confidence :: f64
  hr_ValidationRequired :: bool
  hr_Rationale :: "string list"

record sql_report =
  sqr_HostID :: string
  sqr_Hostname :: string
  sqr_InstanceKey :: string
  sqr_InstanceName :: string
  sqr_Version :: string
  sqr_Edition :: string
  sqr_HARole :: string
  sqr_HAGroup :: string
  sqr_CollectionLevel :: string
  sqr_HostRAMGB :: f64
  sqr_MinServerMemMB :: u64
  sqr_MaxServerMemMB :: u64
  sqr_MaxIsUnlimited :: bool
  sqr_SQLProcessMemGB :: f64
  sqr_TotalServerMemGB :: f64
  sqr_TargetServerMemGB :: f64
  sqr_SQLMemPctOfHost :: f64
  sqr_SQLMemPctOfMax :: f64
  sqr_NonBufferMemGB :: f64
  sqr_OSHeadroomGB :: f64
  sqr_EngineUptimeDays :: f64
  sqr_PLEP5 :: int
  sqr_GrantsPendingMax :: int
  sqr_PressureSignals :: "string list"
  sqr_BatchReqP95 :: f64
  sqr_SQLCPUP95 :: f64
  sqr_FileIOReadP95MS :: f64
  sqr_TopWaits :: "string list"
  sqr_SQLSpikes :: int
  sqr_JobCorrelates :: "string list"
  sqr_Category :: string
  sqr_Recommendation :: string
  sqr_SuggestedMaxMemGB :: "capacity_range option"
  sqr_Confidence :: f64
  sqr_ValidationRequired :: bool
  sqr_Rationale :: "string list"

record spike_report_entry =
  spe_HostID :: string
  spe_Hostname :: string
  spe_EventID :: string
  spe_StartTS :: time
  spe_DurationS :: f64
  spe_Resource :: string
  spe_Device :: string
  spe_Baseline :: f64
  spe_Peak :: f64
  spe_Recurrence :: string
  spe_Process :: string
  spe_ServiceOrJob :: string
  spe_SQLInstance :: string
  spe_SQLEvidence :: string
  spe_ProbableCause :: string
  spe_Confidence :: f64
  spe_Evidence :: "string list"
  spe_NextValidationStep :: string
  spe_VCPUImpactNote :: string

record fleet_summary =
  fs_Hosts :: int
  fs_SQLInstances :: int
  fs_TotalAllocVCPU :: int
  fs_TotalAllocRAMGB :: f64
  fs_SpikeEvents :: int
  fs_Categories :: "(string, int) go_map"
  fs_PotentialVCPU :: int
  fs_PotentialRAMGB :: f64

record ha_group =
  hg_AGName :: string
  hg_Members :: "string list"
  hg_Replicas :: "string list"
  hg_Note :: string

record report =
  rp_GeneratedAt :: time
  rp_SchemaVersion :: string
  rp_ToolVersion :: string
  rp_Fleet :: fleet_summary
  rp_Hosts :: "host_report list"
  rp_SQLInstances :: "sql_report list"
  rp_HAGroups :: "ha_group list"
  rp_Spikes :: "spike_report_entry list"
  rp_DataQuality :: "string list"

section \<open>Helpers\<close>

definition roundGB :: "f64 \<Rightarrow> f64" where
  "roundGB v = math_ceil v"

definition gib :: f64 where
  "gib = of_go_int (2 ^ 30)"

fun sep_by :: "string \<Rightarrow> string list \<Rightarrow> string" where
  "sep_by s [] = []"
| "sep_by s [x] = x"
| "sep_by s (x # y # zs) = x @ s @ sep_by s (y # zs)"

text \<open>\<open>%v\<close> of a slice of strings.\<close>

definition fmt_v_strings :: "string list \<Rightarrow> string" where
  "fmt_v_strings ss = ''['' @ sep_by '' '' ss @ '']''"

end
