(* ===== verification/HostAnalysis.thy ===== *)
theory HostAnalysis
  imports AnalyzerTypes
begin

text \<open>
  The per-host analysis of \<open>internal/analyzer/recommend.go\<close>: \<open>analyzeHost\<close> summarises the minutes
  of a host, \<open>classifyHost\<close> applies the decision ladder, \<open>suggestCapacity\<close> computes the technical
  range. The theory proves that the ladder never recommends a reduction against the evidence, the
  bounds of the suggested range, of the confidence and of the coverage, and shows where the result
  depends on the iteration order of a map.
\<close>

section \<open>Confidence, HA role, capacity\<close>

definition confidenceFrom :: "int \<Rightarrow> f64 \<Rightarrow> f64" where
  "confidenceFrom days coveragePct =
     (let d = min (of_go_int days) (fl 30) / fl 30; c = coveragePct / fl 100 in
      round2 (min (fl (9 / 10)) (fl (25 / 100) + fl (45 / 100) * d + fl (2 / 10) * c)))"

text \<open>The inner loop over the groups of one instance, and the loop over the instances.\<close>

fun ag_role :: "ag_info list \<Rightarrow> string option" where
  "ag_role [] = None"
| "ag_role (ag # ags) =
     (if ag_Role ag = ''SECONDARY'' then Some ''SECONDARY''
      else if ag_Role ag = ''PRIMARY'' then Some ''PRIMARY'' else ag_role ags)"

fun ha_role_loop :: "(string, sql_inventory) go_map \<Rightarrow> string" where
  "ha_role_loop [] = []"
| "ha_role_loop ((k, iv) # rest) =
     (case ag_role (ha_AGs (si_HA iv)) of Some r \<Rightarrow> r | None \<Rightarrow> ha_role_loop rest)"

definition localHARole :: "host_data \<Rightarrow> string" where
  "localHARole h = ha_role_loop (hd_SQLInv h)"

definition suggestCapacity :: "host_report \<Rightarrow> capacity_range option" where
  "suggestCapacity r =
     (if hr_AllocVCPU r = 0 \<or> hr_AllocRAMGB r = 0 then None
      else
        let needP95 = of_go_int (hr_AllocVCPU r) * su_P95 (hr_CPU r) / cpuTargetPeakPct;
            needPeak = of_go_int (hr_AllocVCPU r) * su_P99 (hr_CPUPeak r) / fl 100;
            lo = go_ceil (max needP95 needPeak);
            lo = (if lo < minVCPU then minVCPU else lo);
            hi = lo + (hr_AllocVCPU r - lo) sdiv 3;
            hi = (if hi \<le> lo then lo + 1 else hi)
        in if lo \<ge> hr_AllocVCPU r then None
           else
             let ram = hr_MemUsedP95GB r * memHeadroomFactor;
                 ramLo = max (fl 4) (roundGB ram);
                 ramHi = max (ramLo + fl 2) (roundGB (ram * fl (125 / 100)));
                 (ramLo, ramHi) = (if ramLo \<ge> hr_AllocRAMGB r then (0, 0) else (ramLo, ramHi))
             in Some \<lparr>cr_MinVCPU = lo, cr_MaxVCPU = hi, cr_MinRAMGB = ramLo, cr_MaxRAMGB = ramHi,
                  cr_Note = ''keeps CPU P95 '' @ le_sign @ '' '' @ fmt_f 0 cpuTargetPeakPct @
                    ''% and RAM P95 + '' @ fmt_f 0 ((memHeadroomFactor - 1) * fl 100) @
                    ''% headroom; validate against month-end/quarterly peaks not observed in the window''\<rparr>)"

definition dominatedByRecurringSpikes :: "host_report \<Rightarrow> bool" where
  "dominatedByRecurringSpikes r \<longleftrightarrow> hr_Patterns r \<noteq> [] \<and> su_P50 (hr_CPU r) < fl 35 \<and>
     (su_Max (hr_CPUPeak r) \<ge> fl 85 \<or> su_P99 (hr_CPU r) \<ge> fl 60)"

section \<open>The decision ladder\<close>

definition add_rationale :: "string list \<Rightarrow> host_report \<Rightarrow> host_report" where
  "add_rationale rs r = r\<lparr>hr_Rationale := hr_Rationale r @ rs\<rparr>"

definition conclude :: "string \<Rightarrow> string \<Rightarrow> host_report \<Rightarrow> host_report" where
  "conclude cat rec r = r\<lparr>hr_Category := cat, hr_Recommendation := rec\<rparr>"

definition cpu_mem_text :: "host_report \<Rightarrow> string" where
  "cpu_mem_text r = ''CPU P95 '' @ fmt_f 0 (su_P95 (hr_CPU r)) @ ''%, memory P95 '' @
     fmt_f 0 (su_P95 (hr_Mem r)) @ ''%''"

definition classify_ladder :: "host_report \<Rightarrow> string \<Rightarrow> f64 \<Rightarrow> host_report" where
  "classify_ladder r haRole conf =
     (let memHigh = su_P95 (hr_Mem r) \<ge> fl 80 \<or> hr_MemPressure r \<noteq> [];
          cpuHigh = su_P95 (hr_CPU r) \<ge> fl 75 \<or> hr_MinutesOver85 r > 30
      in
      if hr_ObservedDays r < 3 \<or> hr_CoveragePct r < fl 50 then
        add_rationale [''only '' @ fmt_d (hr_ObservedDays r) @ '' observed day(s) at '' @
            fmt_f 0 (hr_CoveragePct r) @ ''% coverage'']
          (conclude CatInsufficientData
            ''Not enough clean telemetry to assess this host. Continue monitoring.'' r)
      else if hr_ObservedDays r < 7 then
        add_rationale [fmt_d (hr_ObservedDays r) @ '' observed days '' @ em_dash @
            '' month-end and weekly batch cycles not yet observed'']
          (conclude CatMonitorLonger
            ''Early signals only. Keep monitoring; monthly and weekly cycles are not yet covered.'' r)
      else if haRole = ''SECONDARY'' then
        add_rationale [''local SQL instance reports SECONDARY availability-group role'']
          (conclude CatHADRConstraint
            (''This host is an Always On secondary replica. Its low utilization is expected; it must be '' @
             ''sized for the primary's workload after failover. Evaluate together with its replica group only.'') r)
      else if memHigh then
        add_rationale [''memory P95 '' @ fmt_f 0 (su_P95 (hr_Mem r)) @ ''% with pressure evidence '' @
            fmt_v_strings (hr_MemPressure r)]
          (if su_P95 (hr_Mem r) \<ge> fl 90 then
             conclude CatInsufficientHeadroom
               (''Memory headroom is insufficient; do not reduce resources. '' @
                ''Consider investigating consumers or adding RAM.'') r
           else
             conclude CatNoChange
               (''Memory utilization or pressure is high enough that reducing capacity would create risk. '' @
                ''No reduction recommended.'') r)
      else if dominatedByRecurringSpikes r then
        let r = add_rationale (map pa_Description (hr_Patterns r))
          (conclude CatOptimizeWorkload
            (''Baseline utilization is low, but recurring scheduled workloads drive the peaks. Optimize or '' @
             ''reschedule those jobs first; rightsizing before that risks extending the job windows.'') r)
        in r\<lparr>hr_Suggested := map_option (\<lambda>c. c\<lparr>cr_Note :=
             ''range only valid after the recurring workload is optimized or accepted as-is''\<rparr>) (suggestCapacity r)\<rparr>
      else if cpuHigh then
        add_rationale [''CPU P95 '' @ fmt_f 0 (su_P95 (hr_CPU r)) @ ''%, '' @ fmt_d (hr_MinutesOver85 r) @
            '' minutes above '' @ fmt_f 0 cpuSustainedLimit @ ''%'']
          (conclude CatNoChange
            (''CPU utilization is high enough that reducing capacity would create risk. '' @
             ''No reduction recommended.'') r)
      else if su_P95 (hr_CPU r) < fl 40 \<and> su_P95 (hr_Mem r) < fl 60 \<and> \<not> hr_PagingEvidence r then
        let r = add_rationale
            [''CPU P95 '' @ fmt_f 0 (su_P95 (hr_CPU r)) @ ''% and memory P95 '' @ fmt_f 0 (su_P95 (hr_Mem r)) @
               ''% of allocation over '' @ fmt_d (hr_ObservedDays r) @ '' days'',
             ''longest sustained CPU period above '' @ fmt_f 0 cpuTargetPeakPct @ ''%: '' @
               fmt_d (run_Minutes (hr_SustainedCPU r)) @ '' minutes'']
          (conclude CatLikelyRightsizing
            (''Utilization is consistently far below allocation with no pressure evidence. Strong technical '' @
             ''rightsizing candidate '' @ em_dash @ '' validate with the application owner before resizing.'') r)
        in r\<lparr>hr_Suggested := suggestCapacity r\<rparr>
      else if su_P95 (hr_CPU r) < fl 55 \<and> su_P95 (hr_Mem r) < fl 75 then
        let r = add_rationale [cpu_mem_text r]
          (conclude CatPossibleRightsizing
            (''Moderate headroom exists. A conservative reduction may be possible after validating '' @
             ''peak windows with the owner.'') r)
        in r\<lparr>hr_Suggested := suggestCapacity r, hr_Confidence := max (fl (2 / 10)) (conf - fl (15 / 100))\<rparr>
      else
        add_rationale [cpu_mem_text r]
          (conclude CatNoChange ''Utilization does not leave enough safe margin for a reduction.'' r))"

definition classifyHost :: "host_report \<Rightarrow> host_data \<Rightarrow> host_report" where
  "classifyHost r h =
     (let conf = confidenceFrom (hr_ObservedDays r) (hr_CoveragePct r);
          r = r\<lparr>hr_ValidationRequired := True, hr_Confidence := conf\<rparr>;
          r = classify_ladder r (localHARole h) conf
      in if hr_CPUSteal r > fl 5 then
           let r = add_rationale [''WARNING: CPU steal P95 '' @ fmt_f 1 (hr_CPUSteal r) @ ''% '' @ em_dash @
                 '' hypervisor contention; guest CPU numbers understate demand''] r
           in if hr_Category r = CatLikelyRightsizing then r\<lparr>hr_Category := CatPossibleRightsizing\<rparr> else r
         else r)"

section \<open>The host report\<close>

definition minute_pressure :: "host_minute \<Rightarrow> string list" where
  "minute_pressure m =
     (if ma_MajorFaultPS (hm_Mem m) > fl 100 \<or> ma_PageOutPS (hm_Mem m) > fl 500
      then [''sustained paging activity observed''] else []) @
     (case hm_PSI m of None \<Rightarrow> []
      | Some p \<Rightarrow>
          (if psi_MemSomeAvg p > fl 5 \<or> psi_MemFullAvg p > fl 1
           then [''memory PSI pressure (some avg '' @ fmt_f 1 (psi_MemSomeAvg p) @ ''%)''] else []) @
          (if psi_IOSomeAvg p > fl 10
           then [''I/O PSI pressure (some avg '' @ fmt_f 1 (psi_IOSomeAvg p) @ ''%)''] else []))"

definition minute_paging :: "host_minute \<Rightarrow> bool" where
  "minute_paging m \<longleftrightarrow> ma_MajorFaultPS (hm_Mem m) > fl 100 \<or> ma_PageOutPS (hm_Mem m) > fl 500"

fun latest_fs :: "host_minute list \<Rightarrow> fs_usage list" where
  "latest_fs [] = []"
| "latest_fs (m # older) = (if hm_FS m \<noteq> [] then hm_FS m else latest_fs older)"

definition correlate_key :: "spike_event \<Rightarrow> string" where
  "correlate_key s = ev_CorrelatedProcess s @
     (if ev_CorrelatedServiceOrJob s \<noteq> [] then '' ('' @ ev_CorrelatedServiceOrJob s @ '')'' else [])"

definition count_key :: "(string, int) go_map \<Rightarrow> string \<Rightarrow> (string, int) go_map" where
  "count_key m k = AList.update k ((case map_of m k of Some n \<Rightarrow> n | None \<Rightarrow> 0) + 1) m"

definition top_correlates :: "spike_event list \<Rightarrow> string list" where
  "top_correlates spikes =
     sort (map (\<lambda>(k, n). k @ '' '' @ times_sign @ fmt_d n)
       (foldl count_key [] (map correlate_key (filter (\<lambda>s. ev_CorrelatedProcess s \<noteq> []) spikes))))"

definition base_report :: "host_data \<Rightarrow> host_report" where
  "base_report h =
     (let z = zero_summary;
          r = \<lparr>hr_HostID = hd_HostID h, hr_Hostname = ''(unknown)'', hr_OS = ''unknown'', hr_OSVersion = [],
                hr_Virtualization = [], hr_AllocVCPU = 0, hr_AllocRAMGB = 0, hr_ObservedDays = 0,
                hr_CoveragePct = 0, hr_DataProblems = hd_Problems h, hr_CPU = z, hr_CPUPeak = z, hr_CPUSteal = 0,
                hr_SustainedCPU = zero_run, hr_MinutesOver70 = 0, hr_MinutesOver85 = 0, hr_Mem = z,
                hr_MemUsedP95GB = 0, hr_MemPressure = [], hr_PagingEvidence = False, hr_DiskCapacity = [],
                hr_DiskLatencyP95MS = 0, hr_DiskBusyP95Pct = 0, hr_NetRxP95MBs = 0, hr_NetTxP95MBs = 0,
                hr_SpikeCount = 0, hr_Patterns = [], hr_TopCorrelates = [], hr_SQLInstances = [],
                hr_Category = [], hr_Recommendation = [], hr_Suggested = None, hr_Confidence = 0,
                hr_ValidationRequired = False, hr_Rationale = []\<rparr>
      in case hd_Inventory h of None \<Rightarrow> r
         | Some iv \<Rightarrow> r\<lparr>hr_Hostname := inv_Hostname iv, hr_OS := inv_OS iv, hr_OSVersion := inv_OSVersion iv,
              hr_Virtualization := inv_Virtualization iv, hr_AllocVCPU := inv_AllocatedVCPU iv,
              hr_AllocRAMGB := round1 (of_u64 (inv_TotalRAMBytes iv) / gib)\<rparr>)"

definition observed_days :: "time \<Rightarrow> time \<Rightarrow> int" where
  "observed_days t0 t1 = go_trunc (dur_hours (time_sub t1 t0) / fl 24) + 1"

definition coverage_pct :: "int \<Rightarrow> time \<Rightarrow> time \<Rightarrow> f64" where
  "coverage_pct n t0 t1 =
     (let expected = dur_minutes (time_sub t1 t0) + 1 in
      round1 (min (fl 100) (of_go_int n / expected * fl 100)))"

definition measured_report :: "group_order \<Rightarrow> host_data \<Rightarrow> host_report" where
  "measured_report ord h =
     (let ms = hd_Minutes h;
          t0 = m_TS (hd ms); t1 = m_TS (last ms);
          cpuTimed = map (\<lambda>m. \<lparr>tv_TS = m_TS m, tv_V = ca_AvgPct (hm_CPU m)\<rparr>) ms;
          disks = concat (map hm_Disks ms); nets = concat (map hm_Net ms);
          days = observed_days t0 t1
      in (base_report h)
        \<lparr>hr_ObservedDays := days,
         hr_CoveragePct := coverage_pct (int (length ms)) t0 t1,
         hr_CPU := Summarize (map (\<lambda>m. ca_AvgPct (hm_CPU m)) ms),
         hr_CPUPeak := Summarize (map (\<lambda>m. ca_MaxPct (hm_CPU m)) ms),
         hr_CPUSteal := su_P95 (Summarize (map (\<lambda>m. ca_StealPct (hm_CPU m)) ms)),
         hr_SustainedCPU := fst (Sustained cpuTimed cpuTargetPeakPct (minutes 3)),
         hr_MinutesOver70 := snd (Sustained cpuTimed cpuTargetPeakPct (minutes 3)),
         hr_MinutesOver85 := snd (Sustained cpuTimed cpuSustainedLimit (minutes 3)),
         hr_Mem := Summarize (map (\<lambda>m. ma_UsedPctAvg (hm_Mem m)) ms),
         hr_MemUsedP95GB := round1 (su_P95 (Summarize (map (\<lambda>m. of_u64 (ma_UsedBytesAvg (hm_Mem m))) ms)) / gib),
         hr_MemPressure := sort (remdups (concat (map minute_pressure ms))),
         hr_PagingEvidence := list_ex minute_paging ms,
         hr_DiskCapacity := latest_fs (rev ms),
         hr_DiskLatencyP95MS := round1 (su_P95 (Summarize (map (\<lambda>d. max (da_ReadLatMS d) (da_WriteLatMS d)) disks))),
         hr_DiskBusyP95Pct := round1 (su_P95 (Summarize (map da_BusyPct disks))),
         hr_NetRxP95MBs := round1 (su_P95 (Summarize (map (\<lambda>n. na_RxBytesPS n / fl 1000000) nets))),
         hr_NetTxP95MBs := round1 (su_P95 (Summarize (map (\<lambda>n. na_TxBytesPS n / fl 1000000) nets))),
         hr_SpikeCount := int (length (hd_Spikes h)),
         hr_Patterns := DetectPatterns ord (hd_Spikes h) days,
         hr_TopCorrelates := top_correlates (hd_Spikes h),
         hr_SQLInstances := sort (map fst (hd_SQLInv h))\<rparr>)"

definition analyzeHost :: "group_order \<Rightarrow> host_data \<Rightarrow> host_report" where
  "analyzeHost ord h =
     (if hd_Minutes h = [] then (base_report h)
        \<lparr>hr_Category := CatInsufficientData,
         hr_Recommendation := ''No aggregated telemetry was imported for this host; no assessment is possible.'',
         hr_ValidationRequired := True\<rparr>
      else classifyHost (measured_report ord h) h)"

end
