(* ===== verification/HostFacts.thy ===== *)
theory HostFacts
  imports HostAnalysis
begin

text \<open>
  Properties of the host analysis: what the ladder guarantees about a recommended reduction, the
  suggested capacity range, the confidence, the coverage, and the dependence of the local
  availability-group role on the iteration order of a map.
\<close>

section \<open>The ladder\<close>

lemma add_rationale_simps [simp]:
  "hr_Category (add_rationale rs r) = hr_Category r" "hr_Suggested (add_rationale rs r) = hr_Suggested r"
  "hr_CPUSteal (add_rationale rs r) = hr_CPUSteal r" "hr_Confidence (add_rationale rs r) = hr_Confidence r"
  "hr_ValidationRequired (add_rationale rs r) = hr_ValidationRequired r"
  "hr_MemPressure (add_rationale rs r) = hr_MemPressure r" "hr_AllocVCPU (add_rationale rs r) = hr_AllocVCPU r"
  by (simp_all add: add_rationale_def)

lemma conclude_simps [simp]:
  "hr_Category (conclude c t r) = c" "hr_Suggested (conclude c t r) = hr_Suggested r"
  "hr_CPUSteal (conclude c t r) = hr_CPUSteal r" "hr_Confidence (conclude c t r) = hr_Confidence r"
  "hr_ValidationRequired (conclude c t r) = hr_ValidationRequired r"
  by (simp_all add: conclude_def)

lemma suggestCapacity_cong:
  "hr_AllocVCPU r' = hr_AllocVCPU r \<Longrightarrow> hr_AllocRAMGB r' = hr_AllocRAMGB r \<Longrightarrow> hr_CPU r' = hr_CPU r \<Longrightarrow>
   hr_CPUPeak r' = hr_CPUPeak r \<Longrightarrow> hr_MemUsedP95GB r' = hr_MemUsedP95GB r \<Longrightarrow>
   suggestCapacity r' = suggestCapacity r"
  by (simp only: suggestCapacity_def)

lemma suggestCapacity_frame [simp]:
  "suggestCapacity (add_rationale rs r) = suggestCapacity r" "suggestCapacity (conclude c t r) = suggestCapacity r"
  "suggestCapacity (r\<lparr>hr_ValidationRequired := b, hr_Confidence := x\<rparr>) = suggestCapacity r"
  by (rule suggestCapacity_cong; simp add: add_rationale_def conclude_def)+

lemma dominated_frame [simp]:
  "dominatedByRecurringSpikes (r\<lparr>hr_ValidationRequired := b, hr_Confidence := x\<rparr>) = dominatedByRecurringSpikes r"
  by (simp add: dominatedByRecurringSpikes_def)

lemma cat_distinct [simp]:
  "CatLikelyRightsizing \<noteq> CatPossibleRightsizing" "CatLikelyRightsizing \<noteq> CatOptimizeWorkload"
  "CatLikelyRightsizing \<noteq> CatInsufficientHeadroom" "CatLikelyRightsizing \<noteq> CatHADRConstraint"
  "CatLikelyRightsizing \<noteq> CatNoChange" "CatLikelyRightsizing \<noteq> CatInsufficientData"
  "CatLikelyRightsizing \<noteq> CatMonitorLonger" "CatPossibleRightsizing \<noteq> CatLikelyRightsizing"
  "CatPossibleRightsizing \<noteq> CatOptimizeWorkload" "CatPossibleRightsizing \<noteq> CatInsufficientHeadroom"
  "CatPossibleRightsizing \<noteq> CatHADRConstraint" "CatPossibleRightsizing \<noteq> CatNoChange"
  "CatPossibleRightsizing \<noteq> CatInsufficientData" "CatPossibleRightsizing \<noteq> CatMonitorLonger"
  "CatOptimizeWorkload \<noteq> CatLikelyRightsizing" "CatOptimizeWorkload \<noteq> CatPossibleRightsizing"
  "CatInsufficientHeadroom \<noteq> CatLikelyRightsizing" "CatInsufficientHeadroom \<noteq> CatPossibleRightsizing"
  "CatInsufficientHeadroom \<noteq> CatOptimizeWorkload" "CatHADRConstraint \<noteq> CatLikelyRightsizing"
  "CatHADRConstraint \<noteq> CatPossibleRightsizing" "CatHADRConstraint \<noteq> CatOptimizeWorkload"
  "CatNoChange \<noteq> CatLikelyRightsizing" "CatNoChange \<noteq> CatPossibleRightsizing"
  "CatNoChange \<noteq> CatOptimizeWorkload" "CatInsufficientData \<noteq> CatLikelyRightsizing"
  "CatInsufficientData \<noteq> CatPossibleRightsizing" "CatInsufficientData \<noteq> CatOptimizeWorkload"
  "CatMonitorLonger \<noteq> CatLikelyRightsizing" "CatMonitorLonger \<noteq> CatPossibleRightsizing"
  "CatMonitorLonger \<noteq> CatOptimizeWorkload"
  by (simp_all add: cat_defs)

definition reduces :: "string \<Rightarrow> bool" where
  "reduces cat \<longleftrightarrow> cat = CatLikelyRightsizing \<or> cat = CatPossibleRightsizing \<or> cat = CatOptimizeWorkload"

text \<open>What the evidence must look like before the ladder speaks of a reduction at all.\<close>

definition reduction_evidence :: "host_report \<Rightarrow> string \<Rightarrow> bool" where
  "reduction_evidence r haRole \<longleftrightarrow> 7 \<le> hr_ObservedDays r \<and> fl 50 \<le> hr_CoveragePct r \<and> haRole \<noteq> ''SECONDARY'' \<and>
     su_P95 (hr_Mem r) < fl 80 \<and> hr_MemPressure r = []"

lemma ladder_reduces:
  assumes "hr_Suggested r = None"
    and "reduces (hr_Category (classify_ladder r ha conf)) \<or> hr_Suggested (classify_ladder r ha conf) \<noteq> None"
  shows "reduction_evidence r ha"
  using assms
  by (auto simp: classify_ladder_def Let_def reduces_def reduction_evidence_def not_less not_le split: if_splits)

lemma ladder_suggested:
  assumes "hr_Suggested r = None" "hr_Suggested (classify_ladder r ha conf) \<noteq> None"
  shows "reduces (hr_Category (classify_ladder r ha conf))"
  using assms by (auto simp: classify_ladder_def Let_def reduces_def split: if_splits)

lemma ladder_likely:
  assumes "hr_Category (classify_ladder r ha conf) = CatLikelyRightsizing"
  shows "su_P95 (hr_CPU r) < fl 40 \<and> su_P95 (hr_Mem r) < fl 60 \<and> \<not> hr_PagingEvidence r \<and> hr_MinutesOver85 r \<le> 30"
  using assms by (auto simp: classify_ladder_def Let_def split: if_splits)

lemma ladder_possible:
  assumes "hr_Category (classify_ladder r ha conf) = CatPossibleRightsizing"
  shows "su_P95 (hr_CPU r) < fl 55 \<and> su_P95 (hr_Mem r) < fl 75 \<and> hr_MinutesOver85 r \<le> 30"
  using assms by (auto simp: classify_ladder_def Let_def split: if_splits)

lemma ladder_frame [simp]:
  "hr_CPUSteal (classify_ladder r ha conf) = hr_CPUSteal r"
  "hr_ValidationRequired (classify_ladder r ha conf) = hr_ValidationRequired r"
  by (auto simp: classify_ladder_def Let_def)

lemma classifyHost_eq:
  defines "lad r h \<equiv> classify_ladder (r\<lparr>hr_ValidationRequired := True,
      hr_Confidence := confidenceFrom (hr_ObservedDays r) (hr_CoveragePct r)\<rparr>) (localHARole h)
      (confidenceFrom (hr_ObservedDays r) (hr_CoveragePct r))"
  shows "hr_Suggested (classifyHost r h) = hr_Suggested (lad r h)"
    "hr_Category (classifyHost r h) = (if hr_CPUSteal r > fl 5 \<and> hr_Category (lad r h) = CatLikelyRightsizing
       then CatPossibleRightsizing else hr_Category (lad r h))"
    "hr_ValidationRequired (classifyHost r h)"
  by (simp_all add: classifyHost_def Let_def lad_def)

lemma measured_simps [simp]:
  "hr_Suggested (measured_report ord h) = None"
  "hr_MemPressure (measured_report ord h) = sort (remdups (concat (map minute_pressure (hd_Minutes h))))"
  "hr_PagingEvidence (measured_report ord h) = list_ex minute_paging (hd_Minutes h)"
  by (simp_all add: measured_report_def base_report_def Let_def split: option.splits)

lemma paging_pressure: "minute_paging m \<Longrightarrow> minute_pressure m \<noteq> []"
  by (auto simp: minute_paging_def minute_pressure_def)

lemma no_pressure_no_paging:
  assumes "hr_MemPressure (measured_report ord h) = []"
  shows "\<forall>m \<in> set (hd_Minutes h). minute_pressure m = [] \<and> \<not> minute_paging m"
proof -
  have "concat (map minute_pressure (hd_Minutes h)) = []"
    using assms by (simp add: sort_Nil_iff remdups_eq_nil_iff)
  then have "minute_pressure m = []" if "m \<in> set (hd_Minutes h)" for m using that by simp
  then show ?thesis using paging_pressure by blast
qed


section \<open>The suggested range\<close>

lemma of_go_int_ceil: "x \<le> of_go_int (go_ceil x)"
proof -
  have "fl (fval x) \<le> fl (of_int \<lceil>fval x\<rceil>)" by (intro fl_mono) linarith
  then show ?thesis by (simp add: of_go_int_def go_ceil_def)
qed

lemma third_bounds: "0 < a \<Longrightarrow> 0 \<le> a sdiv 3 \<and> a sdiv 3 < a" for a :: int
  by (simp add: signed_divide_int_def) (simp add: sgn_if int_div_less_self)

lemma suggestCapacity_vcpu:
  assumes "suggestCapacity r = Some c"
  shows "minVCPU \<le> cr_MinVCPU c \<and> cr_MinVCPU c < cr_MaxVCPU c \<and> cr_MaxVCPU c \<le> hr_AllocVCPU r \<and>
    of_go_int (hr_AllocVCPU r) * su_P95 (hr_CPU r) / cpuTargetPeakPct \<le> of_go_int (cr_MinVCPU c) \<and>
    of_go_int (hr_AllocVCPU r) * su_P99 (hr_CPUPeak r) / fl 100 \<le> of_go_int (cr_MinVCPU c)"
proof -
  let ?p = "of_go_int (hr_AllocVCPU r) * su_P95 (hr_CPU r) / cpuTargetPeakPct"
    and ?q = "of_go_int (hr_AllocVCPU r) * su_P99 (hr_CPUPeak r) / fl 100"
  define lo where "lo = (if go_ceil (max ?p ?q) < minVCPU then minVCPU else go_ceil (max ?p ?q))"
  have c: "lo < hr_AllocVCPU r" "cr_MinVCPU c = lo"
      "cr_MaxVCPU c = (if (hr_AllocVCPU r - lo) sdiv 3 \<le> 0 then lo + 1 else lo + (hr_AllocVCPU r - lo) sdiv 3)"
    using assms by (auto simp: suggestCapacity_def Let_def lo_def [symmetric] not_le split: if_splits prod.splits)
  have "max ?p ?q \<le> of_go_int (go_ceil (max ?p ?q))" by (rule of_go_int_ceil)
  also have "\<dots> \<le> of_go_int lo" by (rule of_go_int_mono) (simp add: lo_def)
  finally have "?p \<le> of_go_int lo" "?q \<le> of_go_int lo" by auto
  moreover have "minVCPU \<le> lo" by (simp add: lo_def)
  ultimately show ?thesis using c third_bounds [of "hr_AllocVCPU r - lo"] by auto
qed

lemma suggestCapacity_ram:
  assumes "suggestCapacity r = Some c"
  shows "(cr_MinRAMGB c = 0 \<and> cr_MaxRAMGB c = 0) \<or>
    (fl 4 \<le> cr_MinRAMGB c \<and> cr_MinRAMGB c < hr_AllocRAMGB r \<and> cr_MinRAMGB c + fl 2 \<le> cr_MaxRAMGB c \<and>
     hr_MemUsedP95GB r * memHeadroomFactor \<le> cr_MinRAMGB c)"
  using assms of_go_int_ceil [of "hr_MemUsedP95GB r * memHeadroomFactor"]
  by (auto simp: suggestCapacity_def Let_def roundGB_def math_ceil_def not_le le_max_iff_disj split: if_splits prod.splits)

text \<open>
  C23. A suggested range is never below two vCPUs, is a real range within the allocation, and its lower
  end keeps the 95th percentile of the load at the 70% target and the 99th percentile of the minute
  peaks within the new size. The memory range is either withheld or starts below the allocation, at no
  less than 4 GB and the 95th percentile plus 30%.
\<close>

theorem suggestCapacity_bounds:
  assumes "suggestCapacity r = Some c"
  shows "minVCPU \<le> cr_MinVCPU c \<and> cr_MinVCPU c < cr_MaxVCPU c \<and> cr_MaxVCPU c \<le> hr_AllocVCPU r \<and>
    of_go_int (hr_AllocVCPU r) * su_P95 (hr_CPU r) / cpuTargetPeakPct \<le> of_go_int (cr_MinVCPU c) \<and>
    of_go_int (hr_AllocVCPU r) * su_P99 (hr_CPUPeak r) / fl 100 \<le> of_go_int (cr_MinVCPU c) \<and>
    ((cr_MinRAMGB c = 0 \<and> cr_MaxRAMGB c = 0) \<or>
     (fl 4 \<le> cr_MinRAMGB c \<and> cr_MinRAMGB c < hr_AllocRAMGB r \<and> cr_MinRAMGB c + fl 2 \<le> cr_MaxRAMGB c \<and>
      hr_MemUsedP95GB r * memHeadroomFactor \<le> cr_MinRAMGB c))"
  using suggestCapacity_vcpu [OF assms] suggestCapacity_ram [OF assms] by blast

text \<open>A host with 16 vCPUs and 14 GB whose load is 20% at the 95th percentile.\<close>

definition ex_report :: host_report where
  "ex_report = (base_report (new_host ''h''))\<lparr>hr_AllocVCPU := 16, hr_AllocRAMGB := fl 14,
     hr_CPU := zero_summary\<lparr>su_P95 := fl 20\<rparr>, hr_CPUPeak := zero_summary\<lparr>su_P99 := fl 40\<rparr>,
     hr_MemUsedP95GB := fl 10\<rparr>"

lemma ex_capacity:
  "map_option (\<lambda>c. (cr_MinVCPU c, cr_MaxVCPU c, cr_MinRAMGB c, cr_MaxRAMGB c)) (suggestCapacity ex_report)
   = Some (7, 10, fl 13, fl 17)"
  by code_simp

theorem suggestCapacity_bounds_witness:
  "\<exists>c. suggestCapacity ex_report = Some c \<and> cr_MinVCPU c < cr_MaxVCPU c \<and> cr_MaxVCPU c \<le> 16"
proof -
  from ex_capacity obtain c where c: "suggestCapacity ex_report = Some c" by auto
  have "hr_AllocVCPU ex_report = 16" by (simp add: ex_report_def)
  with suggestCapacity_bounds [OF c] c show ?thesis by auto
qed

text \<open>
  Unlike the vCPU range, the memory range is not capped by the allocation: for a host with 14 GB
  and 10 GB in use the suggestion is 13 to 17 GB.
\<close>

theorem suggested_ram_exceeds_allocation:
  "hr_AllocRAMGB ex_report = fl 14 \<and>
   map_option (\<lambda>c. (cr_MinRAMGB c, cr_MaxRAMGB c)) (suggestCapacity ex_report) = Some (fl 13, fl 17)"
  using ex_capacity by (auto simp: ex_report_def)

section \<open>Confidence and coverage\<close>

lemma f64_min_mono: "a \<le> b \<Longrightarrow> min c a \<le> min c b" for a b c :: f64
  by (rule min.mono) auto

lemma f64_mult_mono_right: "a \<le> b \<Longrightarrow> 0 \<le> c \<Longrightarrow> c * a \<le> c * b" for a b c :: f64
  using f64_mult_mono [of a b c] by (simp add: f64_mult_commute)

lemma fl_nonneg [simp]: "0 \<le> x \<Longrightarrow> 0 \<le> fl x"
  by (simp add: f64_zero_le rnd64_nonneg)

lemma confidenceFrom_mono:
  assumes "days \<le> days'" "cov \<le> cov'"
  shows "confidenceFrom days cov \<le> confidenceFrom days' cov'"
proof -
  have "min (of_go_int days) (fl 30) / fl 30 \<le> min (of_go_int days') (fl 30) / fl 30"
    using assms by (intro f64_divide_mono min.mono of_go_int_mono) auto
  then have "fl (45 / 100) * (min (of_go_int days) (fl 30) / fl 30) \<le> fl (45 / 100) * (min (of_go_int days') (fl 30) / fl 30)"
    by (rule f64_mult_mono_right) simp
  moreover have "fl (2 / 10) * (cov / fl 100) \<le> fl (2 / 10) * (cov' / fl 100)"
    by (rule f64_mult_mono_right [OF f64_divide_mono [OF assms(2)]]) simp_all
  ultimately show ?thesis
    unfolding confidenceFrom_def Let_def by (intro round2_mono f64_min_mono f64_add_mono) auto
qed

lemma round2_cap: "round2 (fl (9 / 10)) = fl (9 / 10)"
  by code_simp

text \<open>
  The confidence of a recommendation grows with the observed days and the coverage and is never
  above 0.9, however long the observation.
\<close>

theorem confidence_bounds:
  "confidenceFrom days cov \<le> fl (9 / 10) \<and>
   (days \<le> days' \<and> cov \<le> cov' \<longrightarrow> confidenceFrom days cov \<le> confidenceFrom days' cov')"
proof -
  have "confidenceFrom days cov \<le> round2 (fl (9 / 10))"
    unfolding confidenceFrom_def Let_def by (rule round2_mono) simp
  then show ?thesis using confidenceFrom_mono by (auto simp: round2_cap)
qed

theorem confidence_bounds_witness:
  "confidenceFrom 7 (fl 80) \<le> confidenceFrom 30 (fl 95)"
  using confidence_bounds [of 7 "fl 80" 30 "fl 95"] by (simp add: fl_mono)

lemma dur_in_nonneg: "0 \<le> d \<Longrightarrow> 0 < u \<Longrightarrow> 0 \<le> dur_in u d"
proof -
  assume d: "0 \<le> d" and u: "0 < u"
  have "0 \<le> d sdiv u" using d u by (cases "d = 0") (simp_all add: signed_divide_int_def pos_imp_zdiv_nonneg_iff)
  moreover have "0 \<le> d smod u" using d u by (cases "d = 0") (simp_all add: smod_int_alt_def)
  ultimately show ?thesis unfolding dur_in_def using u
    by (intro f64_nonneg_intros of_go_int_nonneg) auto
qed

lemma round1_100: "round1 (fl 100) = fl 100"
  by code_simp

lemma round1_nonneg: "0 \<le> a \<Longrightarrow> 0 \<le> round1 a"
proof -
  have "round1 0 = 0" by code_simp
  then show "0 \<le> a \<Longrightarrow> 0 \<le> round1 a" using round1_mono [of 0 a] by simp
qed

lemma coverage_range:
  assumes "t0 \<le> t1" "0 \<le> n"
  shows "0 \<le> coverage_pct n t0 t1 \<and> coverage_pct n t0 t1 \<le> fl 100"
proof -
  have e: "0 \<le> dur_minutes (time_sub t1 t0) + 1"
    using assms unfolding dur_minutes_def
    by (intro f64_nonneg_intros dur_in_nonneg) (simp_all add: minutes_def time_sub_def f64_zero_le)
  have "0 \<le> of_go_int n / (dur_minutes (time_sub t1 t0) + 1) * fl 100"
    using assms by (intro f64_nonneg_intros(2,3) of_go_int_nonneg e) auto
  then have "0 \<le> min (fl 100) (of_go_int n / (dur_minutes (time_sub t1 t0) + 1) * fl 100)" by simp
  moreover have "coverage_pct n t0 t1 \<le> round1 (fl 100)"
    unfolding coverage_pct_def Let_def by (rule round1_mono) simp
  ultimately show ?thesis unfolding coverage_pct_def Let_def by (simp add: round1_nonneg round1_100)
qed

lemma observed_days_pos:
  assumes "t0 \<le> t1"
  shows "1 \<le> observed_days t0 t1"
proof -
  have "0 \<le> dur_hours (time_sub t1 t0) / fl 24"
    using assms unfolding dur_hours_def
    by (intro f64_nonneg_intros dur_in_nonneg) (simp_all add: hours_def time_sub_def)
  then show ?thesis by (simp add: observed_days_def go_trunc_def f64_zero_le)
qed

lemma sorted_hd_le_last: "sorted xs \<Longrightarrow> xs \<noteq> [] \<Longrightarrow> hd xs \<le> last xs" for xs :: "'a::linorder list"
  by (cases xs) auto

text \<open>
  For a host whose minutes are in order, as \<open>normalize\<close> leaves them, at least one day is reported
  and the coverage is a percentage.
\<close>

theorem observation_bounds:
  assumes "hd_Minutes h \<noteq> []" "sorted (map m_TS (hd_Minutes h))"
  shows "1 \<le> hr_ObservedDays (measured_report ord h) \<and> 0 \<le> hr_CoveragePct (measured_report ord h) \<and>
    hr_CoveragePct (measured_report ord h) \<le> fl 100"
proof -
  have le: "m_TS (hd (hd_Minutes h)) \<le> m_TS (last (hd_Minutes h))"
    using assms sorted_hd_le_last [of "map m_TS (hd_Minutes h)"] by (simp add: hd_map last_map)
  then show ?thesis
    using observed_days_pos [OF le] coverage_range [OF le, of "int (length (hd_Minutes h))"]
    by (simp add: measured_report_def Let_def)
qed

section \<open>An idle host\<close>

text \<open>Six days of minutes at zero load, one every minute.\<close>

definition idle_minute :: "nat \<Rightarrow> host_minute" where
  "idle_minute i = \<lparr>m_Kind = KindHostMinute, m_Schema = SchemaVersion, m_TS = minutes (1000 + int i), hm_Samples = 4,
     hm_CPU = \<lparr>ca_AvgPct = 0, ca_MaxPct = 0, ca_UserPct = 0, ca_SystemPct = 0, ca_IOWaitPct = 0, ca_StealPct = 0,
       ca_PerCoreMax = [], ca_Load1 = 0, ca_Load5 = 0, ca_RunQueue = 0, ca_CtxSwitchPS = 0\<rparr>,
     hm_Mem = \<lparr>ma_UsedPctAvg = 0, ma_UsedPctMax = 0, ma_UsedBytesAvg = 0, ma_AvailBytesMin = 0,
       ma_CommittedBytes = 0, ma_SwapUsedBytes = 0, ma_PageInPS = 0, ma_PageOutPS = 0, ma_MajorFaultPS = 0\<rparr>,
     hm_Disks = [], hm_FS = [], hm_Net = [], hm_PSI = None\<rparr>"

definition idle_host :: host_data where
  "idle_host = (new_host ''h'')\<lparr>hd_Minutes := map idle_minute [0..<8641]\<rparr>"

lemma fl_pos: "1 \<le> x \<Longrightarrow> (0::f64) < fl x"
  using fl_mono [of 1 x] rnd64_mono [of 1 x] rnd64_of_int [of 1] by (simp add: f64_less_iff)

lemma f64_zeros [simp]: "(0::f64) * x = 0" "(0::f64) + 0 = 0" "(0::f64) / x = 0" "\<not> fl 100 < 0" "\<not> fl 500 < 0"
  using fl_pos [of 100] fl_pos [of 500]
  by (simp_all flip: fval_inject' add: fval_arith f64_less_iff)

lemma Quantile_zeros:
  assumes "int n \<le> 2 ^ 53" "0 \<le> fval q" "fval q \<le> 1"
  shows "Quantile (replicate n 0) q = 0"
proof (cases "n = 0")
  case False
  then have n: "0 < n" by simp
  note i = quantile_indices [OF n assms]
  from i n have "nat (go_floor (quantile_pos n q)) < n" "nat (go_ceil (quantile_pos n q)) < n" by linarith+
  with False show ?thesis by (simp add: Quantile_cases Let_def)
qed (simp add: Quantile_def)

lemma sort_zeros: "sort (replicate n (0::f64)) = replicate n 0"
  by (rule sort_key_id_if_sorted) (simp add: sorted_replicate)

lemma foldl_zeros: "foldl (+) (0::f64) (replicate n 0) = 0"
  by (induction n) simp_all

lemma Summarize_zeros:
  assumes "int n \<le> 2 ^ 53" "0 < n"
  shows "Summarize (replicate n 0) = zero_summary\<lparr>su_Count := int n\<rparr>"
  using assms fval_fl_unit [of "50 / 100"] fval_fl_unit [of "95 / 100"] fval_fl_unit [of "99 / 100"]
  by (simp add: Summarize_def Let_def sort_zeros Quantile_zeros foldl_zeros zero_summary_def)

lemma idle_fields:
  "map (\<lambda>m. ca_AvgPct (hm_CPU m)) (hd_Minutes idle_host) = replicate 8641 0"
  "map (\<lambda>m. ca_MaxPct (hm_CPU m)) (hd_Minutes idle_host) = replicate 8641 0"
  "map (\<lambda>m. ca_StealPct (hm_CPU m)) (hd_Minutes idle_host) = replicate 8641 0"
  "map (\<lambda>m. ma_UsedPctAvg (hm_Mem m)) (hd_Minutes idle_host) = replicate 8641 0"
  "concat (map minute_pressure (hd_Minutes idle_host)) = []"
  "hd_Minutes idle_host \<noteq> []" "length (hd_Minutes idle_host) = 8641"
  "m_TS (hd (hd_Minutes idle_host)) = minutes 1000" "m_TS (last (hd_Minutes idle_host)) = minutes 9640"
  "hd_Spikes idle_host = []" "hd_SQLInv idle_host = []" "hd_Inventory idle_host = None"
  by (simp_all add: idle_host_def idle_minute_def minute_pressure_def new_host_def o_def map_replicate_const
      hd_map last_map map_nth)

lemma measured_fields:
  "hr_ObservedDays (measured_report ord h) = observed_days (m_TS (hd (hd_Minutes h))) (m_TS (last (hd_Minutes h)))"
  "hr_CoveragePct (measured_report ord h) = coverage_pct (int (length (hd_Minutes h)))
     (m_TS (hd (hd_Minutes h))) (m_TS (last (hd_Minutes h)))"
  "hr_CPU (measured_report ord h) = Summarize (map (\<lambda>m. ca_AvgPct (hm_CPU m)) (hd_Minutes h))"
  "hr_Mem (measured_report ord h) = Summarize (map (\<lambda>m. ma_UsedPctAvg (hm_Mem m)) (hd_Minutes h))"
  "hr_CPUSteal (measured_report ord h) = su_P95 (Summarize (map (\<lambda>m. ca_StealPct (hm_CPU m)) (hd_Minutes h)))"
  "hr_MinutesOver85 (measured_report ord h) = snd (Sustained
     (map (\<lambda>m. \<lparr>tv_TS = m_TS m, tv_V = ca_AvgPct (hm_CPU m)\<rparr>) (hd_Minutes h)) cpuSustainedLimit (minutes 3))"
  "hr_Patterns (measured_report ord h) = DetectPatterns ord (hd_Spikes h)
     (observed_days (m_TS (hd (hd_Minutes h))) (m_TS (last (hd_Minutes h))))"
  by (simp_all add: measured_report_def Let_def)

lemma idle_days: "observed_days (minutes 1000) (minutes 9640) = 7"
  by code_simp

lemma idle_coverage: "coverage_pct 8641 (minutes 1000) (minutes 9640) = fl 100"
  by code_simp

lemma idle_over85:
  "snd (Sustained (map (\<lambda>m. \<lparr>tv_TS = m_TS m, tv_V = ca_AvgPct (hm_CPU m)\<rparr>) (hd_Minutes idle_host)) cpuSustainedLimit d) = 0"
proof -
  let ?vs = "map (\<lambda>m. \<lparr>tv_TS = m_TS m, tv_V = ca_AvgPct (hm_CPU m)\<rparr>) (hd_Minutes idle_host)"
  obtain r n where s: "Sustained ?vs cpuSustainedLimit d = (r, n)" by force
  have "filter (\<lambda>tv. cpuSustainedLimit \<le> tv_V tv) ?vs = []"
    using fl_pos [of 85] by (auto simp: idle_host_def idle_minute_def cpuSustainedLimit_def filter_empty_conv)
  with Sustained_correct(1) [OF s] s show ?thesis by simp
qed

lemma idle_likely:
  assumes "order_ok ord"
  shows "hr_Category (analyzeHost ord idle_host) = CatLikelyRightsizing"
proof -
  let ?r = "measured_report ord idle_host"
  have ps: "hr_Patterns ?r = []"
    using set_DetectPatterns [OF assms, of "[]"] by (simp add: measured_fields idle_fields)
  have z: "Summarize (replicate 8641 0) = zero_summary\<lparr>su_Count := 8641\<rparr>" using Summarize_zeros [of 8641] by simp
  have lt: "fl 5 > 0" "fl 40 > 0" "fl 60 > 0" "fl 75 > 0" "fl 80 > 0" by (intro fl_pos; simp)+
  have f: "hr_ObservedDays ?r = 7" "hr_CoveragePct ?r = fl 100" "su_P95 (hr_CPU ?r) = 0" "su_P95 (hr_Mem ?r) = 0"
    "hr_CPUSteal ?r = 0" "hr_MinutesOver85 ?r = 0"
    by (simp_all only: measured_fields idle_fields z idle_over85)
      (simp_all add: idle_days idle_coverage zero_summary_def)
  have cov: "\<not> fl 100 < fl 50" using fl_mono [of 50 100] by simp
  have pg: "\<not> hr_PagingEvidence ?r"
    by (auto simp: idle_host_def idle_minute_def minute_paging_def list_ex_iff)
  have ha: "localHARole idle_host = []" by (simp add: localHARole_def idle_fields)
  have pr: "hr_MemPressure ?r = []" by (simp add: idle_fields)
  have "hr_Category (classifyHost ?r idle_host) = CatLikelyRightsizing"
    using lt cov by (simp add: classifyHost_eq classify_ladder_def Let_def dominatedByRecurringSpikes_def f ps pg ha pr
        del: measured_simps not_le not_less)
      (simp add: not_le)
  then show ?thesis by (simp add: analyzeHost_def idle_fields)
qed


theorem observation_bounds_witness:
  "1 \<le> hr_ObservedDays (measured_report id idle_host) \<and> hr_CoveragePct (measured_report id idle_host) \<le> fl 100"
proof -
  have "sorted (map m_TS (hd_Minutes idle_host))"
    by (simp add: idle_host_def idle_minute_def o_def sorted_map minutes_def sorted_wrt_upt [THEN sorted_wrt_mono_rel [rotated]])
  from observation_bounds [OF idle_fields(6) this] show ?thesis by blast
qed

section \<open>The local availability-group role\<close>

definition ag_inventory :: "string \<Rightarrow> string \<Rightarrow> sql_inventory" where
  "ag_inventory key role = \<lparr>m_Kind = KindSQLInventory, m_Schema = SchemaVersion, m_TS = 1, si_InstanceKey = key,
     si_MachineName = [], si_InstanceName = key, si_IsDefault = False, si_Version = [], si_Build = [],
     si_ProductLevel = [], si_Edition = [], si_StartTime = 0, si_UptimeS = 0, si_CPUCountVisible = 0,
     si_SchedulerCount = 0, si_PhysMemVisibleKB = 0, si_PID = 0, si_ServiceAccount = [], si_MaxDOP = 0,
     si_CostThreshold = 0, si_MinServerMemoryMB = 0, si_MaxServerMemoryMB = 0,
     si_MaxMemoryUnlimitedDefault = False, si_LockPagesInMemory = [], si_LinuxMemoryLimitMB = 0,
     si_HA = \<lparr>ha_Mode = ''ag'', ha_AGs = [\<lparr>ag_AGName = ''AG'', ag_Role = role, ag_SyncState = [],
       ag_ReadableSecondary = [], ag_PartnerReplicas = []\<rparr>]\<rparr>,
     si_Databases = [], si_CollectionLevel = SQLLevelDeep, si_CollectionNote = []\<rparr>"

text \<open>
  \<open>localHARole\<close> ranges over a Go map and returns the role of whichever instance comes first. For a
  host with a primary and a secondary replica the answer depends on the iteration order, and with it
  whether the ladder treats the host as an HA constraint.
\<close>

theorem local_role_depends_on_order:
  "localHARole ((new_host ''h'')\<lparr>hd_SQLInv := [(''A'', ag_inventory ''A'' ''PRIMARY''), (''B'', ag_inventory ''B'' ''SECONDARY'')]\<rparr>)
     = ''PRIMARY'' \<and>
   localHARole ((new_host ''h'')\<lparr>hd_SQLInv := [(''B'', ag_inventory ''B'' ''SECONDARY''), (''A'', ag_inventory ''A'' ''PRIMARY'')]\<rparr>)
     = ''SECONDARY''"
  by (simp add: localHARole_def ag_inventory_def)

end
