(* ===== verification/Spool.thy ===== *)
theory Spool
  imports Records GoMap
begin

text \<open>
  The telemetry spool of \<open>internal/store/store.go\<close>: records are buffered per kind, flushed as gzip
  members appended to one active file per kind, and rotated into closed segments with a sidecar.

  A segment file is the list of what was appended to it: complete gzip members with their
  uncompressed bytes and compressed size, and torn ones, left by a crash or a short write, with the
  bytes a decoder still yields. The decoder's output for bytes that follow a torn member is a
  parameter (\<open>junk\<close>), as are \<open>json.Valid\<close> and the decoding of \<open>Meta\<close>. Every system call that can
  fail has its outcome as an argument of the operation, so that each error return of the code is a
  branch of the model.
\<close>

section \<open>Files\<close>

datatype chunk =
    Member (chunk_bytes: string) (chunk_size: int)
  | Torn (chunk_bytes: string) (chunk_size: int)

fun gunzip :: "(chunk list \<Rightarrow> string) \<Rightarrow> chunk list \<Rightarrow> string \<times> bool" where
  "gunzip junk [] = ([], False)"
| "gunzip junk (Member s n # cs) = (case gunzip junk cs of (t, e) \<Rightarrow> (s @ t, e))"
| "gunzip junk (Torn s n # cs) = (s @ (if cs = [] then [] else junk cs), True)"

definition newline :: char where
  "newline = CHR 0x0A"

definition spaces :: "char list" where
  "spaces = [CHR 0x09, CHR 0x0A, CHR 0x0B, CHR 0x0C, CHR 0x0D, CHR 0x20]"

text \<open>\<open>bytes.TrimSpace\<close> on ASCII white space.\<close>

definition trim_space :: "string \<Rightarrow> string" where
  "trim_space s = rev (dropWhile (\<lambda>c. c \<in> set spaces) (rev (dropWhile (\<lambda>c. c \<in> set spaces) s)))"

text \<open>
  \<open>bufio.Scanner\<close> with a limit of \<open>16 << 20\<close> bytes: the lines, the last one also without its newline
  when it is not empty, up to the first line that does not fit.
\<close>

definition maxToken :: nat where
  "maxToken = 2 ^ 24"

fun scan_lines :: "string list \<Rightarrow> string list \<times> bool" where
  "scan_lines [] = ([], False)"
| "scan_lines [l] = (if l = [] then ([], False) else if length l < maxToken then ([l], False) else ([], True))"
| "scan_lines (l # ls) = (if length l < maxToken then (case scan_lines ls of (r, e) \<Rightarrow> (l # r, e)) else ([], True))"

definition ReadSegment :: "(chunk list \<Rightarrow> string) \<Rightarrow> (string \<Rightarrow> bool) \<Rightarrow> chunk list \<Rightarrow> string list \<times> bool" where
  "ReadSegment junk valid file =
     (case gunzip junk file of (bytes, err) \<Rightarrow>
      case scan_lines (split_on newline bytes) of (ls, tooLong) \<Rightarrow>
        let recs = filter (\<lambda>l. l \<noteq> []) (map trim_space ls) in
        (filter valid recs, err \<or> tooLong \<or> list_ex (\<lambda>l. \<not> valid l) recs))"

section \<open>State\<close>

definition autoFlushRecords :: nat where "autoFlushRecords = 512"
definition MaxSegmentBytes :: int where "MaxSegmentBytes = 2 ^ 25"

record segment_info =
  sg_Name :: string
  sg_Kind :: string
  sg_Records :: int
  sg_MinTS :: time
  sg_MaxTS :: time
  sg_SizeBytes :: int
  sg_Recovered :: bool

record active_seg =
  as_date :: string
  as_buf :: "string list"
  as_records :: int
  as_minTS :: time
  as_maxTS :: time
  as_size :: int
  as_rawBuffered :: int

record disk =
  dk_active :: "(string, chunk list) go_map"
  dk_closed :: "(string, chunk list) go_map"
  dk_meta :: "(string, segment_info) go_map"

record store =
  s_active :: "(string, active_seg) go_map"
  s_dropped :: u64
  s_disk :: disk

text \<open>What the environment answers: a flush, and the closing of a file.\<close>

datatype flush_outcome =
    FlushOK int
  | FlushOpenFails
  | FlushWriteFails "chunk option"
  | FlushSyncFails int
  | FlushCloseFails int

datatype close_outcome =
    CloseOK
  | CloseStatFails
  | CloseRenameFails
  | CloseMetaWriteFails
  | CloseMetaRenameFails

datatype spool_error =
    MarshalFailed
  | LacksTimestamp string
  | OpenFailed
  | WriteFailed
  | SyncFailed
  | FileCloseFailed
  | StatFailed
  | RenameFailed
  | MetaWriteFailed
  | MetaRenameFailed
  | NotFound
  | RecoverFailed string spool_error

section \<open>Flushing\<close>

definition member_bytes :: "string list \<Rightarrow> string" where
  "member_bytes buf = concat (map (\<lambda>r. r @ [newline]) buf)"

definition active_file :: "store \<Rightarrow> string \<Rightarrow> chunk list" where
  "active_file s kind = (case map_of (dk_active (s_disk s)) kind of Some f \<Rightarrow> f | None \<Rightarrow> [])"

definition append_chunks :: "string \<Rightarrow> chunk list \<Rightarrow> store \<Rightarrow> store" where
  "append_chunks kind cs s = s\<lparr>s_disk := (s_disk s)\<lparr>dk_active :=
     AList.update kind (active_file s kind @ cs) (dk_active (s_disk s))\<rparr>\<rparr>"

definition set_active :: "string \<Rightarrow> active_seg \<Rightarrow> store \<Rightarrow> store" where
  "set_active kind a s = s\<lparr>s_active := AList.update kind a (s_active s)\<rparr>"

definition flushLocked :: "flush_outcome \<Rightarrow> string \<Rightarrow> store \<Rightarrow> store \<times> spool_error option" where
  "flushLocked out kind s =
     (case map_of (s_active s) kind of None \<Rightarrow> (s, None)
      | Some a \<Rightarrow>
        if as_buf a = [] then (s, None)
        else (case out of
            FlushOpenFails \<Rightarrow> (s, Some OpenFailed)
          | FlushWriteFails c \<Rightarrow> (append_chunks kind (case c of Some t \<Rightarrow> [t] | None \<Rightarrow> []) s, Some WriteFailed)
          | FlushSyncFails n \<Rightarrow> (append_chunks kind [Member (member_bytes (as_buf a)) n] s, Some SyncFailed)
          | FlushCloseFails n \<Rightarrow> (append_chunks kind [Member (member_bytes (as_buf a)) n] s, Some FileCloseFailed)
          | FlushOK n \<Rightarrow>
              (set_active kind (a\<lparr>as_size := as_size a + n, as_buf := [], as_rawBuffered := 0\<rparr>)
                (append_chunks kind [Member (member_bytes (as_buf a)) n] s), None)))"

fun flush_kinds :: "(string \<Rightarrow> flush_outcome) \<Rightarrow> string list \<Rightarrow> store \<Rightarrow> spool_error option
    \<Rightarrow> store \<times> spool_error option" where
  "flush_kinds out [] s firstErr = (s, firstErr)"
| "flush_kinds out (kind # kinds) s firstErr =
     (case flushLocked (out kind) kind s of (s', e) \<Rightarrow>
        flush_kinds out kinds s' (if firstErr = None then e else firstErr))"

definition Flush :: "(string \<Rightarrow> flush_outcome) \<Rightarrow> store \<Rightarrow> store \<times> spool_error option" where
  "Flush out s = flush_kinds out (map fst (s_active s)) s None"

section \<open>Closing\<close>

definition seg_name :: "string \<Rightarrow> string \<Rightarrow> nat \<Rightarrow> string" where
  "seg_name kind date seq = ''seg-'' @ kind @ ''-'' @ date @ ''-'' @ fmt_0d 3 (int seq) @ ''.ndjson.gz''"

text \<open>The loop without a bound that looks for a free sequence number.\<close>

partial_function (option) free_seq :: "string list \<Rightarrow> string \<Rightarrow> string \<Rightarrow> nat \<Rightarrow> nat option" where
  "free_seq names kind date seq =
     (if seg_name kind date seq \<in> set names then free_seq names kind date (seq + 1) else Some seq)"

declare free_seq.simps [code]

definition file_size :: "chunk list \<Rightarrow> int" where
  "file_size f = sum_list (map chunk_size f)"

definition closeFile :: "close_outcome \<Rightarrow> time \<Rightarrow> string \<Rightarrow> segment_info \<Rightarrow> store \<Rightarrow> store \<times> spool_error option" where
  "closeFile out now kind info s =
     (let date = fmt_date (if is_zero_time (sg_MinTS info) then now else sg_MinTS info);
          d = s_disk s
      in case free_seq (map fst (dk_closed d)) kind date 0 of
        None \<Rightarrow> (s, None)
      | Some seq \<Rightarrow>
        let name = seg_name kind date seq in
        (case map_of (dk_active d) kind of
           None \<Rightarrow> (s, Some StatFailed)
         | Some f \<Rightarrow>
           let info = info\<lparr>sg_Name := name, sg_SizeBytes := file_size f\<rparr>;
               moved = d\<lparr>dk_active := AList.delete kind (dk_active d), dk_closed := AList.update name f (dk_closed d)\<rparr>
           in (case out of
               CloseStatFails \<Rightarrow> (s, Some StatFailed)
             | CloseRenameFails \<Rightarrow> (s, Some RenameFailed)
             | CloseMetaWriteFails \<Rightarrow> (s\<lparr>s_disk := moved\<rparr>, Some MetaWriteFailed)
             | CloseMetaRenameFails \<Rightarrow> (s\<lparr>s_disk := moved\<rparr>, Some MetaRenameFailed)
             | CloseOK \<Rightarrow> (s\<lparr>s_disk := moved\<lparr>dk_meta := AList.update name info (dk_meta d)\<rparr>\<rparr>, None))))"

definition rotateLocked :: "flush_outcome \<Rightarrow> close_outcome \<Rightarrow> time \<Rightarrow> string \<Rightarrow> store \<Rightarrow> store \<times> spool_error option" where
  "rotateLocked fout cout now kind s =
     (case map_of (s_active s) kind of None \<Rightarrow> (s, None)
      | Some a0 \<Rightarrow>
        (case flushLocked fout kind s of
           (s, Some e) \<Rightarrow> (s, Some e)
         | (s, None) \<Rightarrow>
           let a = (case map_of (s_active s) kind of Some a \<Rightarrow> a | None \<Rightarrow> a0);
               s = s\<lparr>s_active := AList.delete kind (s_active s)\<rparr>
           in if as_records a = 0 then
                (s\<lparr>s_disk := (s_disk s)\<lparr>dk_active := AList.delete kind (dk_active (s_disk s))\<rparr>\<rparr>, None)
              else closeFile cout now kind \<lparr>sg_Name = [], sg_Kind = kind, sg_Records = as_records a,
                     sg_MinTS = as_minTS a, sg_MaxTS = as_maxTS a, sg_SizeBytes = 0, sg_Recovered = False\<rparr> s))"

fun rotate_kinds :: "(string \<Rightarrow> flush_outcome) \<Rightarrow> (string \<Rightarrow> close_outcome) \<Rightarrow> time \<Rightarrow> string list \<Rightarrow> store
    \<Rightarrow> spool_error option \<Rightarrow> store \<times> spool_error option" where
  "rotate_kinds fout cout now [] s firstErr = (s, firstErr)"
| "rotate_kinds fout cout now (kind # kinds) s firstErr =
     (case rotateLocked (fout kind) (cout kind) now kind s of (s', e) \<Rightarrow>
        rotate_kinds fout cout now kinds s' (if firstErr = None then e else firstErr))"

definition Rotate :: "(string \<Rightarrow> flush_outcome) \<Rightarrow> (string \<Rightarrow> close_outcome) \<Rightarrow> time \<Rightarrow> store
    \<Rightarrow> store \<times> spool_error option" where
  "Rotate fout cout now s = rotate_kinds fout cout now (map fst (s_active s)) s None"

section \<open>Appending\<close>

record append_env =
  e_rotate_flush :: flush_outcome
  e_rotate_close :: close_outcome
  e_auto_flush :: flush_outcome
  e_now :: time

definition new_active :: "string \<Rightarrow> active_seg" where
  "new_active date = \<lparr>as_date = date, as_buf = [], as_records = 0, as_minTS = 0, as_maxTS = 0,
     as_size = 0, as_rawBuffered = 0\<rparr>"

definition add_record :: "string \<Rightarrow> time \<Rightarrow> active_seg \<Rightarrow> active_seg" where
  "add_record b ts a =
     a\<lparr>as_buf := as_buf a @ [b], as_rawBuffered := as_rawBuffered a + int (length b),
       as_records := as_records a + 1,
       as_minTS := (if is_zero_time (as_minTS a) \<or> ts < as_minTS a then ts else as_minTS a),
       as_maxTS := (if ts > as_maxTS a then ts else as_maxTS a)\<rparr>"

text \<open>The buffered record, then the automatic flush, which drops the batch when it fails.\<close>

definition append_buffered :: "flush_outcome \<Rightarrow> string \<Rightarrow> string \<Rightarrow> string \<Rightarrow> time \<Rightarrow> store \<Rightarrow> store \<times> spool_error option" where
  "append_buffered out kind date b ts s =
     (let a = (case map_of (s_active s) kind of Some a \<Rightarrow> a | None \<Rightarrow> new_active date);
          a = add_record b ts a;
          s = set_active kind a s
      in if length (as_buf a) \<ge> autoFlushRecords then
           (case flushLocked out kind s of
              (s, None) \<Rightarrow> (s, None)
            | (s, Some e) \<Rightarrow>
                (set_active kind (a\<lparr>as_records := as_records a - int (length (as_buf a)), as_buf := []\<rparr>)
                   (s\<lparr>s_dropped := s_dropped s + of_nat (length (as_buf a))\<rparr>), Some e))
         else (s, None))"

definition Append :: "append_env \<Rightarrow> (string \<Rightarrow> time option) \<Rightarrow> string \<Rightarrow> string option \<Rightarrow> store
    \<Rightarrow> store \<times> spool_error option" where
  "Append env meta_ts kind rec s =
     (case rec of None \<Rightarrow> (s, Some MarshalFailed)
      | Some b \<Rightarrow>
        (case meta_ts b of None \<Rightarrow> (s, Some (LacksTimestamp kind))
         | Some ts \<Rightarrow>
           if is_zero_time ts then (s, Some (LacksTimestamp kind))
           else
             let date = fmt_date ts in
             (case map_of (s_active s) kind of
                None \<Rightarrow> append_buffered (e_auto_flush env) kind date b ts s
              | Some a \<Rightarrow>
                  if as_date a \<noteq> date \<or> as_size a + as_rawBuffered a > MaxSegmentBytes then
                    (case rotateLocked (e_rotate_flush env) (e_rotate_close env) (e_now env) kind s of
                       (s, Some e) \<Rightarrow> (s, Some e)
                     | (s, None) \<Rightarrow> append_buffered (e_auto_flush env) kind date b ts s)
                  else append_buffered (e_auto_flush env) kind date b ts s)))"

section \<open>Recovery, listing, retention\<close>

definition recover_step :: "time \<Rightarrow> time \<times> time \<Rightarrow> time \<times> time" where
  "recover_step ts mm = (case mm of (mn, mx) \<Rightarrow>
     (if is_zero_time mn \<or> ts < mn then ts else mn, if ts > mx then ts else mx))"

definition recover_range :: "(string \<Rightarrow> time option) \<Rightarrow> string list \<Rightarrow> time \<times> time" where
  "recover_range meta_ts recs =
     fold (\<lambda>r mm. case meta_ts r of Some ts \<Rightarrow> recover_step ts mm | None \<Rightarrow> mm) recs (0, 0)"

fun recover_files :: "(chunk list \<Rightarrow> string) \<Rightarrow> (string \<Rightarrow> bool) \<Rightarrow> (string \<Rightarrow> time option)
    \<Rightarrow> (string \<Rightarrow> close_outcome) \<Rightarrow> time \<Rightarrow> string list \<Rightarrow> store \<Rightarrow> store \<times> spool_error option" where
  "recover_files junk valid meta_ts cout now [] s = (s, None)"
| "recover_files junk valid meta_ts cout now (kind # kinds) s =
     (let recs = fst (ReadSegment junk valid (active_file s kind));
          mm = recover_range meta_ts recs
      in case closeFile (cout kind) now kind \<lparr>sg_Name = [], sg_Kind = kind, sg_Records = int (length recs),
             sg_MinTS = fst mm, sg_MaxTS = snd mm, sg_SizeBytes = 0, sg_Recovered = True\<rparr> s of
           (s', Some e) \<Rightarrow> (s', Some (RecoverFailed kind e))
         | (s', None) \<Rightarrow> recover_files junk valid meta_ts cout now kinds s')"

text \<open>\<open>Open\<close> on a disk as a previous run left it; \<open>ReadDir\<close> returns the names in order.\<close>

definition Open :: "(chunk list \<Rightarrow> string) \<Rightarrow> (string \<Rightarrow> bool) \<Rightarrow> (string \<Rightarrow> time option)
    \<Rightarrow> (string \<Rightarrow> close_outcome) \<Rightarrow> time \<Rightarrow> disk \<Rightarrow> store \<times> spool_error option" where
  "Open junk valid meta_ts cout now d =
     recover_files junk valid meta_ts cout now (sort (map fst (dk_active d)))
       \<lparr>s_active = [], s_dropped = 0, s_disk = d\<rparr>"

definition ListClosed :: "disk \<Rightarrow> segment_info list" where
  "ListClosed d = sort_key sg_Name
     (filter (\<lambda>i. sg_Name i \<noteq> [] \<and> map_of (dk_closed d) (sg_Name i) \<noteq> None) (map snd (dk_meta d)))"

definition Remove :: "string \<Rightarrow> disk \<Rightarrow> disk \<times> spool_error option" where
  "Remove name d =
     (d\<lparr>dk_closed := AList.delete name (dk_closed d), dk_meta := AList.delete name (dk_meta d)\<rparr>,
      if map_of (dk_closed d) name = None then Some NotFound else None)"

definition SpoolBytes :: "(segment_info \<Rightarrow> int) \<Rightarrow> disk \<Rightarrow> int" where
  "SpoolBytes meta_size d = sum_list (map (file_size \<circ> snd) (dk_active d)) +
     sum_list (map (file_size \<circ> snd) (dk_closed d)) + sum_list (map (meta_size \<circ> snd) (dk_meta d))"

record retention_result =
  rr_DeletedSegments :: int
  rr_DeletedBytes :: int

definition retain_step :: "int \<Rightarrow> int \<Rightarrow> time \<Rightarrow> disk \<times> retention_result \<times> int \<Rightarrow> segment_info
    \<Rightarrow> disk \<times> retention_result \<times> int" where
  "retain_step maxBytes maxAgeDays cutoff acc seg =
     (case acc of (d, res, tot) \<Rightarrow>
      let tooOld = maxAgeDays > 0 \<and> \<not> is_zero_time (sg_MaxTS seg) \<and> sg_MaxTS seg < cutoff;
          overCap = maxBytes > 0 \<and> tot > maxBytes
      in if \<not> tooOld \<and> \<not> overCap then (d, res, tot)
         else case Remove (sg_Name seg) d of
           (d', None) \<Rightarrow> (d', res\<lparr>rr_DeletedSegments := rr_DeletedSegments res + 1,
              rr_DeletedBytes := rr_DeletedBytes res + sg_SizeBytes seg\<rparr>, tot - sg_SizeBytes seg)
         | (d', Some e) \<Rightarrow> (d', res, tot))"

definition EnforceRetention :: "(segment_info \<Rightarrow> int) \<Rightarrow> time \<Rightarrow> int \<Rightarrow> int \<Rightarrow> disk \<Rightarrow> disk \<times> retention_result" where
  "EnforceRetention meta_size now maxBytes maxAgeDays d =
     (case foldl (retain_step maxBytes maxAgeDays (now - maxAgeDays * hours 24))
        (d, \<lparr>rr_DeletedSegments = 0, rr_DeletedBytes = 0\<rparr>, SpoolBytes meta_size d) (ListClosed d)
      of (d', res, tot) \<Rightarrow> (d', res))"

end
