(* ===== verification/SpoolFacts.thy ===== *)
theory SpoolFacts
  imports Spool
begin

text \<open>
  Properties of the spool: the search for a free segment name ends, a segment file reads back what was
  written to it, a torn tail costs at most the records of the torn batch, and, as long as the system
  calls succeed, the spool is an append-only log per kind (the interface \<open>append_log\<close>, interpreted on
  the model of the code). The last sections show what failing system calls do, and retention.
\<close>

section \<open>A free segment name is found\<close>

lemma seg_name_inj: "seg_name kind date m = seg_name kind date n \<Longrightarrow> m = n"
  using fmt_0d_inj [of "int m" "int n" 3] by (simp add: seg_name_def)

lemma free_seq_from:
  assumes "i \<le> n" "seg_name kind date n \<notin> set names" "\<And>m. i \<le> m \<Longrightarrow> m < n \<Longrightarrow> seg_name kind date m \<in> set names"
  shows "free_seq names kind date i = Some n"
  using assms
proof (induction i rule: inc_induct)
  case base
  then show ?case by (subst free_seq.simps) simp
next
  case (step i)
  then show ?case by (subst free_seq.simps) simp
qed

lemma free_name_exists: "\<exists>n \<le> length names. seg_name kind date n \<notin> set names"
proof (rule ccontr)
  assume "\<not> ?thesis"
  then have "seg_name kind date ` {..length names} \<subseteq> set names" by auto
  then have "card (seg_name kind date ` {..length names}) \<le> card (set names)"
    by (intro card_mono) auto
  moreover have "card (seg_name kind date ` {..length names}) = Suc (length names)"
    by (subst card_image) (auto simp: inj_on_def dest: seg_name_inj)
  ultimately show False using card_length [of names] by simp
qed


section \<open>Reading a segment\<close>

text \<open>What the spool relies on of an encoded record: one trimmed line that fits, valid JSON, no proper
  prefix of which is valid.\<close>

definition json_record :: "(string \<Rightarrow> bool) \<Rightarrow> string \<Rightarrow> bool" where
  "json_record valid r \<longleftrightarrow> r \<noteq> [] \<and> newline \<notin> set r \<and> trim_space r = r \<and> length r < maxToken \<and> valid r \<and>
     (\<forall>p. strict_prefix p r \<longrightarrow> trim_space p \<noteq> [] \<longrightarrow> \<not> valid (trim_space p))"

definition members :: "chunk list \<Rightarrow> string list list \<Rightarrow> bool" where
  "members f bss \<longleftrightarrow> list_all is_Member f \<and> map chunk_bytes f = map member_bytes bss"

lemma members_Nil [simp]: "members [] bss \<longleftrightarrow> bss = []"
  by (auto simp: members_def)

lemma members_append:
  "members f bss \<Longrightarrow> members (f @ [Member (member_bytes bs) n]) (bss @ [bs])"
  by (simp add: members_def)

lemma member_bytes_append [simp]: "member_bytes (xs @ ys) = member_bytes xs @ member_bytes ys"
  by (simp add: member_bytes_def)

lemma member_bytes_Cons [simp]: "member_bytes (x # xs) = x @ newline # member_bytes xs"
  by (simp add: member_bytes_def)

lemma member_bytes_Nil [simp]: "member_bytes [] = []"
  by (simp add: member_bytes_def)

lemma member_bytes_concat: "member_bytes (concat bss) = concat (map member_bytes bss)"
  by (induction bss) simp_all

lemma gunzip_members: "list_all is_Member f \<Longrightarrow> gunzip junk f = (concat (map chunk_bytes f), False)"
  by (induction junk f rule: gunzip.induct) simp_all

lemma gunzip_torn:
  "list_all is_Member f \<Longrightarrow> gunzip junk (f @ [Torn s n]) = (concat (map chunk_bytes f) @ s, True)"
  by (induction junk f rule: gunzip.induct) simp_all

lemma split_on_last: "newline \<notin> set p \<Longrightarrow> split_on newline p = [p]"
  by (induction p) auto

lemma split_on_members:
  "list_all (\<lambda>r. newline \<notin> set r) rs \<Longrightarrow> split_on newline (member_bytes rs @ t) = rs @ split_on newline t"
  by (induction rs) (simp_all add: split_on_line)

lemma scan_lines_Cons:
  "ls \<noteq> [] \<Longrightarrow> scan_lines (l # ls) =
    (if length l < maxToken then (case scan_lines ls of (r, e) \<Rightarrow> (l # r, e)) else ([], True))"
  by (cases ls) simp_all

lemma scan_lines_append:
  "list_all (\<lambda>r. length r < maxToken) rs \<Longrightarrow> ls \<noteq> [] \<Longrightarrow>
   scan_lines (rs @ ls) = (case scan_lines ls of (r, e) \<Rightarrow> (rs @ r, e))"
  by (induction rs) (simp_all add: scan_lines_Cons split: prod.splits)

lemma trim_space_Nil [simp]: "trim_space [] = []"
  by (simp add: trim_space_def)

text \<open>The records of complete members followed by the first bytes of another line.\<close>

lemma ReadSegment_bytes:
  assumes g: "gunzip junk f = (member_bytes rs @ p, e)"
    and rs: "list_all (json_record valid) rs" and p: "newline \<notin> set p" "length p < maxToken"
  shows "ReadSegment junk valid f =
    (rs @ (if trim_space p \<noteq> [] \<and> valid (trim_space p) then [trim_space p] else []),
     e \<or> (trim_space p \<noteq> [] \<and> \<not> valid (trim_space p)))"
proof -
  have r: "newline \<notin> set r" "trim_space r = r" "r \<noteq> []" "valid r" "length r < maxToken" if "r \<in> set rs" for r
    using rs that by (auto simp: json_record_def list_all_iff)
  have "split_on newline (member_bytes rs @ p) = rs @ [p]"
    using r(1) p(1) by (simp add: split_on_members split_on_last list_all_iff)
  moreover have "scan_lines (rs @ [p]) = (rs @ (if p = [] then [] else [p]), False)"
    using r(5) p(2) by (subst scan_lines_append) (auto simp: list_all_iff)
  moreover have "map trim_space rs = rs" using r(2) by (simp add: map_idI)
  moreover have "filter (\<lambda>l. l \<noteq> []) rs = rs" "filter valid rs = rs" "\<not> list_ex (\<lambda>l. \<not> valid l) rs"
    "filter (\<lambda>l. l \<noteq> [] \<and> valid l) rs = rs"
    using r(3,4) by (auto simp: filter_id_conv list_ex_iff)
  ultimately show ?thesis by (simp add: ReadSegment_def g Let_def)
qed

lemma ReadSegment_members:
  assumes "members f bss" "list_all (json_record valid) (concat bss)"
  shows "ReadSegment junk valid f = (concat bss, False)"
  using assms ReadSegment_bytes [of junk f "concat bss" "[]" False valid]
  by (simp add: members_def gunzip_members member_bytes_concat maxToken_def)

subsection \<open>A torn tail\<close>

lemma prefix_member_bytes:
  "prefix s (member_bytes bs) \<Longrightarrow>
   \<exists>j p. s = member_bytes (take j bs) @ p \<and> j \<le> length bs \<and>
     (if j < length bs then prefix p (bs ! j) else p = [])"
proof (induction bs arbitrary: s)
  case (Cons b bs)
  from Cons.prems have "prefix s (b @ newline # member_bytes bs)" by simp
  then consider "prefix s b" | t where "s = b @ newline # t" "prefix t (member_bytes bs)"
    by (auto simp: prefix_append prefix_Cons)
  then show ?case
  proof cases
    case 1
    then show ?thesis by (intro exI [of _ 0] exI [of _ s]) simp
  next
    case (2 t)
    from Cons.IH [OF 2(2)] obtain j p where "t = member_bytes (take j bs) @ p" "j \<le> length bs"
      "if j < length bs then prefix p (bs ! j) else p = []" by blast
    then show ?thesis using 2(1) by (intro exI [of _ "Suc j"] exI [of _ p]) auto
  qed
qed simp

text \<open>
  Crash recovery of a segment: a file of complete members and a torn last one, whose decoder yields
  some prefix of the batch that was being written, reads back as every record of the complete members,
  in order, followed by the first records of the torn batch: all those whose line is complete, and
  nothing that was not written. The reader reports the truncation.
\<close>

theorem torn_segment_recovers:
  assumes "members f bss" "list_all (json_record valid) (concat bss @ batch)" "prefix s (member_bytes batch)"
  shows "\<exists>k. ReadSegment junk valid (f @ [Torn s n]) = (concat bss @ take k batch, True) \<and> k \<le> length batch \<and>
    (\<forall>j \<le> length batch. prefix (member_bytes (take j batch)) s \<longrightarrow> j \<le> k)"
proof -
  obtain j p where s: "s = member_bytes (take j batch) @ p" and j: "j \<le> length batch"
    and p: "if j < length batch then prefix p (batch ! j) else p = []"
    using prefix_member_bytes [OF assms(3)] by blast
  let ?rs = "concat bss @ take j batch"
  have b: "json_record valid (batch ! j)" if "j < length batch" using assms(2) that by (simp add: list_all_iff)
  have pp: "newline \<notin> set p" "length p < maxToken"
    using p b by (auto simp: json_record_def maxToken_def split: if_splits dest: set_mono_prefix prefix_length_le)
  have g: "gunzip junk (f @ [Torn s n]) = (member_bytes ?rs @ p, True)"
    using assms(1) by (simp add: members_def gunzip_torn member_bytes_concat s)
  have rs: "list_all (json_record valid) ?rs"
    using assms(2) by (auto simp: list_all_iff dest: in_set_takeD)
  note R = ReadSegment_bytes [OF g rs pp]
  have cmp: "i \<le> j" if "i \<le> length batch" "prefix (member_bytes (take i batch)) s" for i
  proof (rule ccontr)
    assume "\<not> i \<le> j"
    then have ji: "j < i" "j < length batch" using that(1) by auto
    then have "take i batch = take j batch @ batch ! j # drop (Suc j) (take i batch)"
      by (metis Cons_nth_drop_Suc append_take_drop_id drop_take length_take min.absorb4 min.strict_order_iff
          nth_take take_take that(1) min.commute length_take min_def not_le)
    then have "member_bytes (take i batch) =
        member_bytes (take j batch) @ (batch ! j @ [newline]) @ member_bytes (drop (Suc j) (take i batch))"
      by (metis append.assoc append_Cons append_Nil member_bytes_Cons member_bytes_append)
    with that(2) have "prefix (batch ! j @ [newline]) p"
      unfolding s by (metis append_prefixD same_prefix_prefix)
    moreover have "prefix p (batch ! j)" using p ji by simp
    ultimately show False by (metis prefix_snocD prefix_order.antisym_conv2 prefix_order.dual_order.strict_trans2
        prefix_order.less_irrefl)
  qed
  show ?thesis
  proof (cases "j < length batch \<and> p = batch ! j")
    case True
    then have "trim_space p = p" "p \<noteq> []" "valid p" using b by (auto simp: json_record_def)
    then show ?thesis using R True cmp
      by (intro exI [of _ "Suc j"]) (auto simp: take_Suc_conv_app_nth intro: le_SucI)
  next
    case False
    have "\<not> (trim_space p \<noteq> [] \<and> valid (trim_space p))"
      using False p b by (auto simp: json_record_def strict_prefix_def split: if_splits)
    then show ?thesis using R j cmp by (intro exI [of _ j]) auto
  qed
qed

text \<open>Two small records, for concrete files.\<close>

definition small_json :: "string \<Rightarrow> bool" where
  "small_json r \<longleftrightarrow> r = ''{a}'' \<or> r = ''{b}''"

lemma small_records: "json_record small_json ''{a}''" "json_record small_json ''{b}''"
  by (auto simp: json_record_def small_json_def newline_def trim_space_def spaces_def maxToken_def strict_prefix_def prefix_Cons)

theorem torn_segment_recovers_witness:
  "\<exists>k. ReadSegment (\<lambda>cs. []) small_json ([Member (member_bytes [''{a}'']) 30] @ [Torn ''{b'' 12])
     = (concat [[''{a}'']] @ take k [''{b}''], True)"
proof -
  have m: "members [Member (member_bytes [''{a}'']) 30] [[''{a}'']]" by (simp add: members_def)
  have r: "list_all (json_record small_json) (concat [[''{a}'']] @ [''{b}''])" using small_records by simp
  have p: "prefix ''{b'' (member_bytes [''{b}''])" by simp
  from torn_segment_recovers [OF m r p] show ?thesis by blast
qed

end
