(* ===== verification/SpoolLog.thy ===== *)
theory SpoolLog
  imports SpoolFacts
begin

text \<open>
  The contract of the spool, as long as its system calls succeed: per kind it is an append-only log.
  The contract is the locale \<open>append_log\<close>; its client lemma runs any sequence of operations. The
  invariant \<open>spool_inv\<close> of the model and the abstraction \<open>spool_log\<close> (closed segments, then the active
  file, then the buffer) discharge it.
\<close>

section \<open>The interface\<close>

datatype 'e spool_op = OpAppend 'e string string | OpFlush 'e | OpRotate 'e

fun exec_ops :: "('e \<Rightarrow> string \<Rightarrow> string \<Rightarrow> 's \<Rightarrow> 's) \<Rightarrow> ('e \<Rightarrow> 's \<Rightarrow> 's) \<Rightarrow> ('e \<Rightarrow> 's \<Rightarrow> 's)
    \<Rightarrow> 'e spool_op list \<Rightarrow> 's \<Rightarrow> 's" where
  "exec_ops app flu rot [] s = s"
| "exec_ops app flu rot (OpAppend e k r # ops) s = exec_ops app flu rot ops (app e k r s)"
| "exec_ops app flu rot (OpFlush e # ops) s = exec_ops app flu rot ops (flu e s)"
| "exec_ops app flu rot (OpRotate e # ops) s = exec_ops app flu rot ops (rot e s)"

fun appended :: "string \<Rightarrow> 'e spool_op list \<Rightarrow> string list" where
  "appended k [] = []"
| "appended k (OpAppend e k' r # ops) = (if k' = k then [r] else []) @ appended k ops"
| "appended k (OpFlush e # ops) = appended k ops"
| "appended k (OpRotate e # ops) = appended k ops"

fun op_ok :: "('e \<Rightarrow> bool) \<Rightarrow> (string \<Rightarrow> bool) \<Rightarrow> 'e spool_op \<Rightarrow> bool" where
  "op_ok env ok (OpAppend e k r) = (env e \<and> ok r)"
| "op_ok env ok (OpFlush e) = env e"
| "op_ok env ok (OpRotate e) = env e"

text \<open>\<open>lg s k\<close> is the log of kind \<open>k\<close>; \<open>env\<close> says that the system calls of one operation succeed.\<close>

locale append_log =
  fixes inv :: "'s \<Rightarrow> bool" and env :: "'e \<Rightarrow> bool" and ok :: "string \<Rightarrow> bool"
    and lg :: "'s \<Rightarrow> string \<Rightarrow> string list"
    and app :: "'e \<Rightarrow> string \<Rightarrow> string \<Rightarrow> 's \<Rightarrow> 's" and flu :: "'e \<Rightarrow> 's \<Rightarrow> 's" and rot :: "'e \<Rightarrow> 's \<Rightarrow> 's"
  assumes inv_app: "inv s \<Longrightarrow> env e \<Longrightarrow> ok r \<Longrightarrow> inv (app e k r s)"
    and log_app: "inv s \<Longrightarrow> env e \<Longrightarrow> ok r \<Longrightarrow> lg (app e k r s) k' = lg s k' @ (if k = k' then [r] else [])"
    and inv_flu: "inv s \<Longrightarrow> env e \<Longrightarrow> inv (flu e s)"
    and log_flu: "inv s \<Longrightarrow> env e \<Longrightarrow> lg (flu e s) k' = lg s k'"
    and inv_rot: "inv s \<Longrightarrow> env e \<Longrightarrow> inv (rot e s)"
    and log_rot: "inv s \<Longrightarrow> env e \<Longrightarrow> lg (rot e s) k' = lg s k'"
begin

lemma exec_inv: "inv s \<Longrightarrow> list_all (op_ok env ok) ops \<Longrightarrow> inv (exec_ops app flu rot ops s)"
proof (induction ops arbitrary: s)
  case (Cons op ops)
  then show ?case by (cases op) (auto simp: inv_app inv_flu inv_rot)
qed simp

lemma exec_log:
  "inv s \<Longrightarrow> list_all (op_ok env ok) ops \<Longrightarrow> lg (exec_ops app flu rot ops s) k = lg s k @ appended k ops"
  by (induction k ops arbitrary: s rule: appended.induct)
    (auto simp: inv_app inv_flu inv_rot log_app log_flu log_rot)

end

section \<open>The invariant of the model\<close>

definition rec_ok :: "(string \<Rightarrow> bool) \<Rightarrow> (string \<Rightarrow> time option) \<Rightarrow> string \<Rightarrow> bool" where
  "rec_ok valid meta_ts r \<longleftrightarrow> json_record valid r \<and> (\<exists>ts. meta_ts r = Some ts \<and> 0 < ts)"

definition holds :: "(string \<Rightarrow> bool) \<Rightarrow> chunk list \<Rightarrow> string list \<Rightarrow> bool" where
  "holds valid f rs \<longleftrightarrow> (\<exists>bss. members f bss \<and> rs = concat bss) \<and> list_all (json_record valid) rs"

definition records_of :: "(chunk list \<Rightarrow> string) \<Rightarrow> (string \<Rightarrow> bool) \<Rightarrow> chunk list \<Rightarrow> string list" where
  "records_of junk valid f = fst (ReadSegment junk valid f)"

lemma holds_read: "holds valid f rs \<Longrightarrow> ReadSegment junk valid f = (rs, False)"
  by (auto simp: holds_def ReadSegment_members)

lemma holds_records [simp]: "holds valid f rs \<Longrightarrow> records_of junk valid f = rs"
  by (simp add: records_of_def holds_read)

lemma holds_Nil [simp]: "holds valid [] rs \<longleftrightarrow> rs = []"
  by (auto simp: holds_def)

lemma records_of_Nil [simp]: "records_of junk valid [] = []"
  by (rule holds_records) simp

lemma holds_append:
  "holds valid f rs \<Longrightarrow> list_all (json_record valid) bs \<Longrightarrow> holds valid (f @ [Member (member_bytes bs) n]) (rs @ bs)"
  unfolding holds_def
proof (elim conjE exE, intro conjI)
  fix bss
  assume "members f bss" "rs = concat bss"
  then have "members (f @ [Member (member_bytes bs) n]) (bss @ [bs])" "rs @ bs = concat (bss @ [bs])"
    by (simp_all add: members_append)
  then show "\<exists>bss. members (f @ [Member (member_bytes bs) n]) bss \<and> rs @ bs = concat bss" by blast
qed simp

definition same_day :: "(string \<Rightarrow> time option) \<Rightarrow> string \<Rightarrow> string list \<Rightarrow> bool" where
  "same_day meta_ts date rs \<longleftrightarrow> list_all (\<lambda>r. fmt_date (the (meta_ts r)) = date) rs"

text \<open>An open segment whose file holds \<open>rs\<close>, and a closed one.\<close>

definition seg_ok :: "(string \<Rightarrow> bool) \<Rightarrow> (string \<Rightarrow> time option) \<Rightarrow> chunk list \<Rightarrow> active_seg \<Rightarrow> string list \<Rightarrow> bool" where
  "seg_ok valid meta_ts f a rs \<longleftrightarrow> holds valid f rs \<and> list_all (rec_ok valid meta_ts) (rs @ as_buf a) \<and>
     rs @ as_buf a \<noteq> [] \<and> as_records a = int (length (rs @ as_buf a)) \<and>
     (as_minTS a, as_maxTS a) = recover_range meta_ts (rs @ as_buf a) \<and>
     same_day meta_ts (as_date a) (rs @ as_buf a) \<and> as_size a = file_size f \<and>
     as_rawBuffered a = sum_list (map (int \<circ> length) (as_buf a))"

definition closed_ok :: "(string \<Rightarrow> bool) \<Rightarrow> (string \<Rightarrow> time option) \<Rightarrow> disk \<Rightarrow> string \<times> segment_info \<Rightarrow> bool" where
  "closed_ok valid meta_ts d p \<longleftrightarrow> (\<exists>f rs. map_of (dk_closed d) (fst p) = Some f \<and> holds valid f rs \<and> rs \<noteq> [] \<and>
     list_all (rec_ok valid meta_ts) rs \<and> sg_Name (snd p) = fst p \<and> sg_Records (snd p) = int (length rs) \<and>
     (sg_MinTS (snd p), sg_MaxTS (snd p)) = recover_range meta_ts rs \<and> sg_SizeBytes (snd p) = file_size f \<and>
     same_day meta_ts (fmt_date (sg_MinTS (snd p))) rs \<and> (\<exists>n. fst p = seg_name (sg_Kind (snd p)) (fmt_date (sg_MinTS (snd p))) n))"

definition kind_ok :: "(string \<Rightarrow> bool) \<Rightarrow> (string \<Rightarrow> time option) \<Rightarrow> store \<Rightarrow> string \<Rightarrow> bool" where
  "kind_ok valid meta_ts s k \<longleftrightarrow>
     (case map_of (s_active s) k of None \<Rightarrow> map_of (dk_active (s_disk s)) k = None
      | Some a \<Rightarrow> (\<exists>rs. seg_ok valid meta_ts (active_file s k) a rs \<and>
          (rs = [] \<longrightarrow> map_of (dk_active (s_disk s)) k = None)))"

definition disk_ok :: "(string \<Rightarrow> bool) \<Rightarrow> (string \<Rightarrow> time option) \<Rightarrow> disk \<Rightarrow> bool" where
  "disk_ok valid meta_ts d \<longleftrightarrow> distinct (map fst (dk_closed d)) \<and> map fst (dk_meta d) = map fst (dk_closed d) \<and>
     list_all (closed_ok valid meta_ts d) (dk_meta d)"

definition buffers_bounded :: "store \<Rightarrow> bool" where
  "buffers_bounded s \<longleftrightarrow> (\<forall>k a. map_of (s_active s) k = Some a \<longrightarrow> length (as_buf a) < autoFlushRecords)"

definition active_keys :: "store \<Rightarrow> bool" where
  "active_keys s \<longleftrightarrow> distinct (map fst (dk_active (s_disk s)))"

definition spool_inv :: "(string \<Rightarrow> bool) \<Rightarrow> (string \<Rightarrow> time option) \<Rightarrow> store \<Rightarrow> bool" where
  "spool_inv valid meta_ts s \<longleftrightarrow> disk_ok valid meta_ts (s_disk s) \<and> (\<forall>k. kind_ok valid meta_ts s k) \<and>
     buffers_bounded s \<and> active_keys s"

definition buffered :: "store \<Rightarrow> string \<Rightarrow> string list" where
  "buffered s k = (case map_of (s_active s) k of None \<Rightarrow> [] | Some a \<Rightarrow> as_buf a)"

definition closed_log :: "(chunk list \<Rightarrow> string) \<Rightarrow> (string \<Rightarrow> bool) \<Rightarrow> disk \<Rightarrow> string \<Rightarrow> string list" where
  "closed_log junk valid d k = concat (map (\<lambda>p. records_of junk valid (the (map_of (dk_closed d) (fst p))))
     (filter (\<lambda>p. sg_Kind (snd p) = k) (dk_meta d)))"

definition spool_log :: "(chunk list \<Rightarrow> string) \<Rightarrow> (string \<Rightarrow> bool) \<Rightarrow> store \<Rightarrow> string \<Rightarrow> string list" where
  "spool_log junk valid s k =
     closed_log junk valid (s_disk s) k @ records_of junk valid (active_file s k) @ buffered s k"

subsection \<open>Frames\<close>

lemma active_file_append_chunks:
  "active_file (append_chunks k cs s) k' = (if k' = k then active_file s k @ cs else active_file s k')"
  by (simp add: active_file_def append_chunks_def go_map.lookup_upd)

lemma append_chunks_simps [simp]:
  "s_active (append_chunks k cs s) = s_active s" "dk_closed (s_disk (append_chunks k cs s)) = dk_closed (s_disk s)"
  "dk_meta (s_disk (append_chunks k cs s)) = dk_meta (s_disk s)"
  by (simp_all add: append_chunks_def)

lemma set_active_simps [simp]:
  "s_disk (set_active k a s) = s_disk s" "active_file (set_active k a s) k' = active_file s k'"
  by (simp_all add: set_active_def active_file_def)

lemma map_of_set_active: "map_of (s_active (set_active k a s)) k' = (if k' = k then Some a else map_of (s_active s) k')"
  by (simp add: set_active_def go_map.lookup_upd)

lemma disk_ok_cong:
  "dk_closed d' = dk_closed d \<Longrightarrow> dk_meta d' = dk_meta d \<Longrightarrow> disk_ok valid meta_ts d' = disk_ok valid meta_ts d"
  by (simp add: disk_ok_def closed_ok_def [abs_def])

lemma closed_log_cong:
  "dk_closed d' = dk_closed d \<Longrightarrow> dk_meta d' = dk_meta d \<Longrightarrow> closed_log junk valid d' k = closed_log junk valid d k"
  by (simp add: closed_log_def)

lemma map_of_dk_append_chunks:
  "map_of (dk_active (s_disk (append_chunks k cs s))) k' =
    (if k' = k then Some (active_file s k @ cs) else map_of (dk_active (s_disk s)) k')"
  by (simp add: append_chunks_def go_map.lookup_upd)

text \<open>There is one active file per kind, whatever fails.\<close>

lemma active_keys_append_chunks [simp]: "active_keys s \<Longrightarrow> active_keys (append_chunks k cs s)"
  by (simp add: active_keys_def append_chunks_def distinct_update)

lemma active_keys_set_active [simp]: "active_keys (set_active k a s) = active_keys s"
  by (simp add: active_keys_def)

lemma active_keys_flushLocked: "active_keys s \<Longrightarrow> active_keys (fst (flushLocked out kind s))"
  by (auto simp: flushLocked_def split: option.split flush_outcome.split)

lemma active_keys_closeFile: "active_keys s \<Longrightarrow> active_keys (fst (closeFile out now kind info s))"
  by (auto simp: closeFile_def Let_def active_keys_def distinct_delete split: option.split close_outcome.split)

lemma active_keys_rotateLocked: "active_keys s \<Longrightarrow> active_keys (fst (rotateLocked fout cout now kind s))"
  using active_keys_flushLocked [of s fout kind]
    active_keys_closeFile [of "s\<lparr>s_active := AList.delete kind (s_active s)\<rparr>" for s]
  by (auto simp: rotateLocked_def Let_def split: option.split prod.split)
    (auto simp: active_keys_def distinct_delete)

lemma active_keys_append_buffered: "active_keys s \<Longrightarrow> active_keys (fst (append_buffered out kind date b ts s))"
proof -
  assume k: "active_keys s"
  define a where "a = add_record b ts (case map_of (s_active s) kind of Some a \<Rightarrow> a | None \<Rightarrow> new_active date)"
  obtain s' e where f: "flushLocked out kind (set_active kind a s) = (s', e)" by force
  have "active_keys s'" using active_keys_flushLocked [of "set_active kind a s" out kind] k by (simp add: f)
  then show ?thesis
    using k f by (auto simp: append_buffered_def Let_def a_def [symmetric] active_keys_def split: option.split)
qed

section \<open>A successful flush\<close>

lemma file_size_append [simp]: "file_size (f @ g) = file_size f + file_size g"
  by (simp add: file_size_def)

lemma rec_ok_json: "list_all (rec_ok valid meta_ts) rs \<Longrightarrow> list_all (json_record valid) rs"
  by (auto simp: list_all_iff rec_ok_def)

lemma seg_ok_flush:
  assumes "seg_ok valid meta_ts f a rs"
  shows "seg_ok valid meta_ts (f @ [Member (member_bytes (as_buf a)) n])
    (a\<lparr>as_size := as_size a + n, as_buf := [], as_rawBuffered := 0\<rparr>) (rs @ as_buf a)"
proof -
  have "list_all (json_record valid) (as_buf a)" using assms by (auto simp: seg_ok_def intro: rec_ok_json)
  then show ?thesis using assms by (simp add: seg_ok_def holds_append file_size_def)
qed

lemma flushLocked_ok:
  assumes k: "\<forall>k. kind_ok valid meta_ts s k" and flu: "flushLocked (FlushOK n) kind s = (s', e)"
  shows "e = None" "\<forall>k. kind_ok valid meta_ts s' k" "dk_closed (s_disk s') = dk_closed (s_disk s)"
    "dk_meta (s_disk s') = dk_meta (s_disk s)" "spool_log junk valid s' k' = spool_log junk valid s k'"
    "map_of (s_active s') k' = (if k' = kind then map_option (\<lambda>a. if as_buf a = [] then a else
        a\<lparr>as_size := as_size a + n, as_buf := [], as_rawBuffered := 0\<rparr>) (map_of (s_active s) kind)
      else map_of (s_active s) k')"
proof -
  have *: "e = None \<and> (\<forall>k. kind_ok valid meta_ts s' k) \<and> dk_closed (s_disk s') = dk_closed (s_disk s) \<and>
    dk_meta (s_disk s') = dk_meta (s_disk s) \<and> spool_log junk valid s' k' = spool_log junk valid s k' \<and>
    map_of (s_active s') k' = (if k' = kind then map_option (\<lambda>a. if as_buf a = [] then a else
        a\<lparr>as_size := as_size a + n, as_buf := [], as_rawBuffered := 0\<rparr>) (map_of (s_active s) kind)
      else map_of (s_active s) k')"
  proof (cases "map_of (s_active s) kind")
    case None
    with flu k show ?thesis by (simp add: flushLocked_def)
  next
    case (Some a)
    show ?thesis
    proof (cases "as_buf a = []")
      case True
      with flu k Some show ?thesis by (simp add: flushLocked_def)
    next
      case False
      let ?a = "a\<lparr>as_size := as_size a + n, as_buf := [], as_rawBuffered := 0\<rparr>"
      have s': "s' = set_active kind ?a (append_chunks kind [Member (member_bytes (as_buf a)) n] s)" and e: "e = None"
        using flu Some False by (simp_all add: flushLocked_def)
      from k have "kind_ok valid meta_ts s kind" by blast
      then obtain rs where sg: "seg_ok valid meta_ts (active_file s kind) a rs"
        using Some by (auto simp: kind_ok_def)
      note sg' = seg_ok_flush [OF sg, of n]
      have ne: "rs @ as_buf a \<noteq> []" using False by simp
      have "kind_ok valid meta_ts s' j" for j
        using k [THEN spec, of j] sg' ne Some
        by (cases "j = kind") (auto simp: s' kind_ok_def map_of_set_active active_file_append_chunks map_of_dk_append_chunks
            split: option.splits)
      moreover have "spool_log junk valid s' k' = spool_log junk valid s k'"
        using sg sg' Some
        by (auto simp: s' spool_log_def buffered_def map_of_set_active active_file_append_chunks seg_ok_def
            intro!: closed_log_cong)
      ultimately show ?thesis using e Some False by (simp add: s' map_of_set_active)
    qed
  qed
  from * show "e = None" by blast
  from * show "\<forall>k. kind_ok valid meta_ts s' k" by blast
  from * show "dk_closed (s_disk s') = dk_closed (s_disk s)" by blast
  from * show "dk_meta (s_disk s') = dk_meta (s_disk s)" by blast
  from * show "spool_log junk valid s' k' = spool_log junk valid s k'" by blast
  from * show "map_of (s_active s') k' = (if k' = kind then map_option (\<lambda>a. if as_buf a = [] then a else
        a\<lparr>as_size := as_size a + n, as_buf := [], as_rawBuffered := 0\<rparr>) (map_of (s_active s) kind)
      else map_of (s_active s) k')" by blast
qed

section \<open>A successful rotation\<close>

lemma free_seq_Some: "\<exists>n. free_seq names kind date 0 = Some n \<and> seg_name kind date n \<notin> set names"
proof -
  obtain k where k: "seg_name kind date k \<notin> set names" using free_name_exists by blast
  define n where "n = (LEAST n. seg_name kind date n \<notin> set names)"
  have "seg_name kind date n \<notin> set names" unfolding n_def using k by (rule LeastI)
  moreover have "seg_name kind date m \<in> set names" if "m < n" for m
    using not_less_Least [OF that [unfolded n_def]] by blast
  ultimately show ?thesis by (intro exI [of _ n] conjI free_seq_from) auto
qed

lemma recover_range_snoc:
  "recover_range meta_ts (rs @ [r]) = (case meta_ts r of Some ts \<Rightarrow> recover_step ts (recover_range meta_ts rs)
     | None \<Rightarrow> recover_range meta_ts rs)"
  by (simp add: recover_range_def split: option.split)

text \<open>The range is the range of the timestamps: the least and the greatest.\<close>

lemma recover_range_minmax:
  assumes "list_all (rec_ok valid meta_ts) rs" "rs \<noteq> []"
  shows "fst (recover_range meta_ts rs) = Min ((\<lambda>r. the (meta_ts r)) ` set rs) \<and>
    snd (recover_range meta_ts rs) = Max ((\<lambda>r. the (meta_ts r)) ` set rs) \<and> 0 < fst (recover_range meta_ts rs)"
  using assms
proof (induction rs rule: rev_induct)
  case (snoc r rs)
  then obtain ts where ts: "meta_ts r = Some ts" "0 < ts" by (auto simp: rec_ok_def)
  show ?case
  proof (cases "rs = []")
    case True
    with ts show ?thesis by (simp add: recover_range_def recover_step_def)
  next
    case False
    with snoc have IH: "fst (recover_range meta_ts rs) = Min ((\<lambda>r. the (meta_ts r)) ` set rs)"
      "snd (recover_range meta_ts rs) = Max ((\<lambda>r. the (meta_ts r)) ` set rs)" "0 < fst (recover_range meta_ts rs)"
      by auto
    define mn mx where "mn = fst (recover_range meta_ts rs)" and "mx = snd (recover_range meta_ts rs)"
    have "recover_range meta_ts rs = (mn, mx)" by (simp add: mn_def mx_def)
    then have "recover_range meta_ts (rs @ [r]) = (min ts mn, max ts mx)"
      using ts IH(3) by (simp add: recover_range_snoc recover_step_def mn_def [symmetric] min_def max_def)
    then show ?thesis using False ts IH by (simp add: mn_def mx_def)
  qed
qed simp

text \<open>Closing a file whose records are \<open>rs\<close>, all of one day, adds one segment to the closed log.\<close>

lemma closeFile_ok:
  assumes d: "disk_ok valid meta_ts (s_disk s)" and f: "map_of (dk_active (s_disk s)) kind = Some f"
    and h: "holds valid f rs" "rs \<noteq> []" "list_all (rec_ok valid meta_ts) rs"
    and i: "sg_Records info = int (length rs)" "(sg_MinTS info, sg_MaxTS info) = recover_range meta_ts rs"
      "sg_Kind info = kind" "same_day meta_ts (fmt_date (sg_MinTS info)) rs"
    and c: "closeFile CloseOK now kind info s = (s', e)"
  shows "e = None \<and> disk_ok valid meta_ts (s_disk s') \<and> s_active s' = s_active s \<and>
    dk_active (s_disk s') = AList.delete kind (dk_active (s_disk s)) \<and>
    (\<forall>k. closed_log junk valid (s_disk s') k = closed_log junk valid (s_disk s) k @ (if k = kind then rs else []))"
proof -
  let ?d = "s_disk s"
  define date where "date = fmt_date (if sg_MinTS info = 0 then now else sg_MinTS info)"
  obtain q where q: "free_seq (map fst (dk_closed ?d)) kind date 0 = Some q"
    and nq: "seg_name kind date q \<notin> set (map fst (dk_closed ?d))" using free_seq_Some by blast
  define nm where "nm = seg_name kind date q"
  define i' where "i' = info\<lparr>sg_Name := nm, sg_SizeBytes := file_size f\<rparr>"
  have s': "s' = s\<lparr>s_disk := ?d\<lparr>dk_active := AList.delete kind (dk_active ?d),
      dk_closed := AList.update nm f (dk_closed ?d), dk_meta := AList.update nm i' (dk_meta ?d)\<rparr>\<rparr>" and e: "e = None"
    using c f q by (simp_all add: closeFile_def Let_def date_def [symmetric] nm_def i'_def)
  have fresh: "nm \<notin> fst ` set (dk_closed ?d)" "nm \<notin> fst ` set (dk_meta ?d)"
  proof -
    have "fst ` set (dk_meta ?d) = fst ` set (dk_closed ?d)" using d by (metis disk_ok_def list.set_map)
    then show "nm \<notin> fst ` set (dk_closed ?d)" "nm \<notin> fst ` set (dk_meta ?d)" using nq by (simp_all add: nm_def)
  qed
  have upd: "AList.update nm x m = m @ [(nm, x)]" if "nm \<notin> fst ` set m" for m and x :: 'b
    using that by (induction m) auto
  have cl: "dk_closed (s_disk s') = dk_closed ?d @ [(nm, f)]" and mt: "dk_meta (s_disk s') = dk_meta ?d @ [(nm, i')]"
    using fresh by (simp_all add: s' upd)
  have old: "map_of (dk_closed (s_disk s')) n = map_of (dk_closed ?d) n" if "n \<noteq> nm" for n
    using that by (simp add: cl map_add_def split: option.splits)
  have new: "map_of (dk_closed (s_disk s')) nm = Some f"
    using fresh by (simp add: cl map_add_def map_of_eq_None_iff [THEN iffD2])
  have "0 < sg_MinTS info" using recover_range_minmax [OF h(3,2)] i(2) [symmetric] by simp
  then have "closed_ok valid meta_ts (s_disk s') (nm, i')"
    using new h i by (auto simp: closed_ok_def i'_def nm_def date_def)
  moreover have "closed_ok valid meta_ts (s_disk s') p" if "p \<in> set (dk_meta ?d)" for p
  proof -
    have "fst p \<noteq> nm" using that fresh(2) by auto
    moreover have "closed_ok valid meta_ts ?d p" using d that by (auto simp: disk_ok_def list_all_iff)
    ultimately show ?thesis by (simp add: closed_ok_def old)
  qed
  ultimately have dk: "disk_ok valid meta_ts (s_disk s')"
    using d fresh by (auto simp: disk_ok_def cl mt list_all_iff)
  have "closed_log junk valid (s_disk s') k = closed_log junk valid ?d k @ (if k = kind then rs else [])" for k
  proof -
    have "map_of (dk_closed (s_disk s')) (fst p) = map_of (dk_closed ?d) (fst p)" if "p \<in> set (dk_meta ?d)" for p
      using that fresh(2) by (intro old) auto
    then have "map (\<lambda>p. records_of junk valid (the (map_of (dk_closed (s_disk s')) (fst p))))
          (filter (\<lambda>p. sg_Kind (snd p) = k) (dk_meta ?d)) =
        map (\<lambda>p. records_of junk valid (the (map_of (dk_closed ?d) (fst p))))
          (filter (\<lambda>p. sg_Kind (snd p) = k) (dk_meta ?d))" (is "?L = ?R") by simp
    then have "closed_log junk valid ?d k = concat ?L" by (simp only: closed_log_def)
    moreover have "closed_log junk valid (s_disk s') k = concat ?L @ (if k = kind then rs else [])"
      using new h(1) i(3) by (simp add: closed_log_def mt i'_def)
    ultimately show ?thesis by simp
  qed
  then show ?thesis using e dk by (simp add: s')
qed

lemma recover_range_day:
  assumes "rs \<noteq> []" "list_all (rec_ok valid meta_ts) rs" "(mn, mx) = recover_range meta_ts rs" "same_day meta_ts date rs"
  shows "same_day meta_ts (fmt_date mn) rs"
proof -
  have "mn = Min ((\<lambda>r. the (meta_ts r)) ` set rs)"
    using recover_range_minmax [OF assms(2,1)] assms(3) by (metis fst_conv)
  then have "mn \<in> (\<lambda>r. the (meta_ts r)) ` set rs" using assms(1) by (simp add: Min_in)
  then have "fmt_date mn = date" using assms(4) by (auto simp: same_day_def list_all_iff)
  with assms(4) show ?thesis by simp
qed

lemma active_file_cong: "dk_active (s_disk s') = dk_active (s_disk s) \<Longrightarrow> active_file s' k = active_file s k"
  by (simp add: active_file_def)

lemma map_of_delete_eq: "map_of (AList.delete k m) k' = (if k' = k then None else map_of m k')"
  by (simp add: delete_conv')

text \<open>After a rotation the kind has no open segment, and everything it held is in the closed log.\<close>

lemma rotateLocked_ok:
  assumes dsk: "disk_ok valid meta_ts (s_disk s)" and kinds: "\<forall>k. kind_ok valid meta_ts s k"
    and rot: "rotateLocked (FlushOK n) CloseOK now kind s = (s', e)"
  shows "e = None \<and> disk_ok valid meta_ts (s_disk s') \<and> (\<forall>k. kind_ok valid meta_ts s' k) \<and>
    (\<forall>k. map_of (s_active s') k = (if k = kind then None else map_of (s_active s) k)) \<and>
    (\<forall>k. spool_log junk valid s' k = spool_log junk valid s k)"
proof (cases "map_of (s_active s) kind")
  case None
  then show ?thesis using rot dsk kinds by (auto simp: rotateLocked_def)
next
  case (Some a0)
  obtain s1 e1 where flu: "flushLocked (FlushOK n) kind s = (s1, e1)" by force
  note F = flushLocked_ok [OF kinds flu]
  define a where "a = (if as_buf a0 = [] then a0 else a0\<lparr>as_size := as_size a0 + n, as_buf := [], as_rawBuffered := 0\<rparr>)"
  have act: "map_of (s_active s1) kind = Some a" and buf: "as_buf a = []"
    using F(6) [of kind] Some by (auto simp: a_def)
  obtain rs where sg: "seg_ok valid meta_ts (active_file s1 kind) a rs"
    using F(2) act by (auto simp: kind_ok_def split: option.splits)
  have h: "holds valid (active_file s1 kind) rs" "rs \<noteq> []" "list_all (rec_ok valid meta_ts) rs"
    "as_records a = int (length rs)" "(as_minTS a, as_maxTS a) = recover_range meta_ts rs"
    "same_day meta_ts (as_date a) rs"
    using sg by (auto simp: seg_ok_def buf)
  define s2 where "s2 = s1\<lparr>s_active := AList.delete kind (s_active s1)\<rparr>"
  let ?info = "\<lparr>sg_Name = [], sg_Kind = kind, sg_Records = as_records a, sg_MinTS = as_minTS a,
    sg_MaxTS = as_maxTS a, sg_SizeBytes = 0, sg_Recovered = False\<rparr>"
  have cl: "closeFile CloseOK now kind ?info s2 = (s', e)"
    using rot Some flu F(1) act h(2,4) by (simp add: rotateLocked_def s2_def)
  have fil: "map_of (dk_active (s_disk s2)) kind = Some (active_file s1 kind)"
    using h(1,2) by (auto simp: s2_def active_file_def split: option.splits)
  have d2: "disk_ok valid meta_ts (s_disk s2)"
    using dsk disk_ok_cong [of "s_disk s1" "s_disk s"] F(3,4) by (simp add: s2_def)
  have day: "same_day meta_ts (fmt_date (sg_MinTS ?info)) rs"
    using h(2,3,5,6) recover_range_day by simp
  have i1: "sg_Records ?info = int (length rs)" "(sg_MinTS ?info, sg_MaxTS ?info) = recover_range meta_ts rs"
    "sg_Kind ?info = kind" using h(4,5) by simp_all
  note C = closeFile_ok [OF d2 fil h(1-3) i1 day cl]
  have sa: "s_active s' = AList.delete kind (s_active s1)" using C by (simp add: s2_def)
  have act': "map_of (s_active s') k = (if k = kind then None else map_of (s_active s) k)" for k
    using F(6) [of k] by (simp add: sa map_of_delete_eq)
  have dk: "map_of (dk_active (s_disk s')) k = (if k = kind then None else map_of (dk_active (s_disk s1)) k)" for k
    using C by (simp add: s2_def map_of_delete_eq)
  have af: "active_file s' k = (if k = kind then [] else active_file s1 k)" for k
    by (simp add: active_file_def dk)
  have "kind_ok valid meta_ts s' k" for k
    using F(2) [THEN spec, of k] F(6) [of k] by (cases "k = kind") (auto simp: kind_ok_def act' dk af split: option.splits)
  moreover have "spool_log junk valid s' k = spool_log junk valid s k" for k
  proof -
    have "closed_log junk valid (s_disk s') k = closed_log junk valid (s_disk s1) k @ (if k = kind then rs else [])"
      using C by (simp add: s2_def)
    moreover have "buffered s1 kind = []" by (simp add: buffered_def act buf)
    moreover have "buffered s' k = (if k = kind then [] else buffered s1 k)"
      using F(6) [of k] by (simp add: buffered_def act')
    ultimately have "spool_log junk valid s' k = spool_log junk valid s1 k"
      using h(1) by (simp add: spool_log_def af)
    then show ?thesis using F(5) by simp
  qed
  ultimately show ?thesis using C act' by simp
qed

section \<open>A successful append\<close>

lemma seg_ok_add_record:
  assumes "seg_ok valid meta_ts f a rs \<or> (f = [] \<and> rs = [] \<and> a = new_active (fmt_date ts))"
    and "rec_ok valid meta_ts b" "meta_ts b = Some ts" "as_date a = fmt_date ts"
  shows "seg_ok valid meta_ts f (add_record b ts a) rs"
proof -
  have b: "json_record valid b" using assms(2) by (simp add: rec_ok_def)
  from assms(1) have old: "holds valid f rs \<and> list_all (rec_ok valid meta_ts) (rs @ as_buf a) \<and>
      as_records a = int (length (rs @ as_buf a)) \<and> recover_range meta_ts (rs @ as_buf a) = (as_minTS a, as_maxTS a) \<and>
      same_day meta_ts (as_date a) (rs @ as_buf a) \<and> as_size a = file_size f \<and>
      as_rawBuffered a = sum_list (map (int \<circ> length) (as_buf a))"
    by (auto simp: seg_ok_def new_active_def recover_range_def same_day_def file_size_def)
  have "recover_range meta_ts ((rs @ as_buf a) @ [b]) = recover_step ts (as_minTS a, as_maxTS a)"
    using old assms(3) by (simp add: recover_range_snoc del: append_assoc)
  then show ?thesis
    using old assms(2-4) by (simp add: seg_ok_def add_record_def recover_step_def same_day_def)
qed

lemma append_buffered_ok:
  assumes inv: "spool_inv valid meta_ts s" and b: "rec_ok valid meta_ts b" "meta_ts b = Some ts"
    and date: "\<forall>a. map_of (s_active s) kind = Some a \<longrightarrow> as_date a = fmt_date ts"
    and ap: "append_buffered (FlushOK n) kind (fmt_date ts) b ts s = (s', e)"
  shows "e = None \<and> spool_inv valid meta_ts s' \<and>
    (\<forall>k. spool_log junk valid s' k = spool_log junk valid s k @ (if k = kind then [b] else []))"
proof -
  define a where "a = (case map_of (s_active s) kind of Some a \<Rightarrow> a | None \<Rightarrow> new_active (fmt_date ts))"
  have kinds: "kind_ok valid meta_ts s k" and dsk: "disk_ok valid meta_ts (s_disk s)" and bb: "buffers_bounded s"
      and ak: "active_keys s'" for k
    using inv active_keys_append_buffered [of s "FlushOK n" kind "fmt_date ts" b ts] by (auto simp: spool_inv_def ap)
  have ka: "\<exists>rs. (seg_ok valid meta_ts (active_file s kind) a rs \<or>
      active_file s kind = [] \<and> rs = [] \<and> a = new_active (fmt_date ts)) \<and> as_date a = fmt_date ts \<and>
      (rs = [] \<longrightarrow> map_of (dk_active (s_disk s)) kind = None)"
    using kinds [of kind] date
    by (auto simp: kind_ok_def a_def active_file_def new_active_def split: option.splits)
  then obtain rs where rs: "seg_ok valid meta_ts (active_file s kind) (add_record b ts a) rs"
      "rs = [] \<longrightarrow> map_of (dk_active (s_disk s)) kind = None"
    using seg_ok_add_record [OF _ b] by blast
  define s1 where "s1 = set_active kind (add_record b ts a) s"
  have k1: "\<forall>k. kind_ok valid meta_ts s1 k"
  proof
    fix k show "kind_ok valid meta_ts s1 k"
      using kinds [of k] rs by (cases "k = kind") (auto simp: s1_def kind_ok_def map_of_set_active split: option.splits)
  qed
  have buf1: "as_buf (add_record b ts a) = buffered s kind @ [b]"
    by (simp add: add_record_def a_def buffered_def new_active_def split: option.splits)
  have log1: "spool_log junk valid s1 k = spool_log junk valid s k @ (if k = kind then [b] else [])" for k
    using buf1 by (simp add: spool_log_def s1_def buffered_def map_of_set_active)
  show ?thesis
  proof (cases "length (as_buf (add_record b ts a)) \<ge> autoFlushRecords")
    case False
    then have "s' = s1" "e = None" using ap by (simp_all add: append_buffered_def a_def [symmetric] s1_def [symmetric] Let_def)
    moreover have "buffers_bounded s1"
      using bb False by (simp add: buffers_bounded_def s1_def map_of_set_active)
    ultimately show ?thesis using k1 log1 dsk ak by (simp add: spool_inv_def s1_def)
  next
    case True
    obtain s2 e2 where flu: "flushLocked (FlushOK n) kind s1 = (s2, e2)" by force
    note F = flushLocked_ok [OF k1 flu]
    have s': "s' = s2" "e = None"
      using ap True flu F(1) by (simp_all add: append_buffered_def a_def [symmetric] s1_def [symmetric] Let_def)
    have "buffers_bounded s2"
      using bb F(6) by (auto simp: buffers_bounded_def s1_def map_of_set_active autoFlushRecords_def split: if_splits)
    moreover have "disk_ok valid meta_ts (s_disk s2)"
      using dsk F(3,4) disk_ok_cong [of "s_disk s2" "s_disk s1"] by (simp add: s1_def)
    ultimately show ?thesis using F(2,5) log1 s' ak by (simp add: spool_inv_def)
  qed
qed

text \<open>The outcome of an operation that succeeds and leaves the logs as \<open>lg\<close>.\<close>

definition keeps :: "(chunk list \<Rightarrow> string) \<Rightarrow> (string \<Rightarrow> bool) \<Rightarrow> (string \<Rightarrow> time option)
    \<Rightarrow> store \<times> spool_error option \<Rightarrow> (string \<Rightarrow> string list) \<Rightarrow> bool" where
  "keeps junk valid meta_ts res lg \<longleftrightarrow> snd res = None \<and> spool_inv valid meta_ts (fst res) \<and>
     (\<forall>k. spool_log junk valid (fst res) k = lg k)"

lemma buffers_bounded_rotate:
  "buffers_bounded s \<Longrightarrow> \<forall>k. map_of (s_active s') k = (if k = kind then None else map_of (s_active s) k) \<Longrightarrow>
   buffers_bounded s'"
  by (auto simp: buffers_bounded_def)

lemma rotateLocked_keeps:
  assumes "spool_inv valid meta_ts s"
  shows "keeps junk valid meta_ts (rotateLocked (FlushOK n) CloseOK now kind s) (spool_log junk valid s) \<and>
    (\<forall>k. map_of (s_active (fst (rotateLocked (FlushOK n) CloseOK now kind s))) k =
      (if k = kind then None else map_of (s_active s) k))"
proof -
  obtain s' e where r: "rotateLocked (FlushOK n) CloseOK now kind s = (s', e)" by force
  have "disk_ok valid meta_ts (s_disk s)" "\<forall>k. kind_ok valid meta_ts s k" "buffers_bounded s" "active_keys s'"
    using assms active_keys_rotateLocked [of s "FlushOK n" CloseOK now kind] by (auto simp: spool_inv_def r)
  with rotateLocked_ok [OF this(1,2) r, of junk] buffers_bounded_rotate [of s s' kind]
  show ?thesis unfolding r keeps_def spool_inv_def fst_conv snd_conv by blast
qed

lemma flushLocked_keeps:
  assumes "spool_inv valid meta_ts s"
  shows "keeps junk valid meta_ts (flushLocked (FlushOK n) kind s) (spool_log junk valid s)"
proof -
  obtain s' e where r: "flushLocked (FlushOK n) kind s = (s', e)" by force
  have a: "disk_ok valid meta_ts (s_disk s)" "\<forall>k. kind_ok valid meta_ts s k" "buffers_bounded s" "active_keys s'"
    using assms active_keys_flushLocked [of s "FlushOK n" kind] by (auto simp: spool_inv_def r)
  note F = flushLocked_ok [OF a(2) r]
  have "buffers_bounded s'"
    using a(3) F(6) by (auto simp: buffers_bounded_def autoFlushRecords_def split: if_splits)
  moreover have "disk_ok valid meta_ts (s_disk s')"
    using a(1) F(3,4) disk_ok_cong [of "s_disk s'" "s_disk s"] by simp
  ultimately show ?thesis using F(1,2,5) a(4) by (simp add: r keeps_def spool_inv_def)
qed

lemma flush_kinds_keeps:
  assumes "spool_inv valid meta_ts s" "\<forall>k. \<exists>n. out k = FlushOK n"
  shows "keeps junk valid meta_ts (flush_kinds out kinds s None) (spool_log junk valid s)"
  using assms
proof (induction kinds arbitrary: s)
  case Nil
  then show ?case by (simp add: keeps_def)
next
  case (Cons kind kinds)
  obtain n where n: "out kind = FlushOK n" using Cons.prems(2) by blast
  obtain s1 e1 where r: "flushLocked (FlushOK n) kind s = (s1, e1)" by force
  have s1: "e1 = None" "spool_inv valid meta_ts s1" "\<forall>k. spool_log junk valid s1 k = spool_log junk valid s k"
    using flushLocked_keeps [OF Cons.prems(1), of junk n kind] by (simp_all add: keeps_def r)
  show ?case using Cons.IH [OF s1(2) Cons.prems(2)] s1 by (simp add: r n keeps_def)
qed

lemma rotate_kinds_keeps:
  assumes "spool_inv valid meta_ts s" "\<forall>k. \<exists>n. fout k = FlushOK n" "\<forall>k. cout k = CloseOK"
  shows "keeps junk valid meta_ts (rotate_kinds fout cout now kinds s None) (spool_log junk valid s) \<and>
    (\<forall>k. map_of (s_active (fst (rotate_kinds fout cout now kinds s None))) k =
      (if k \<in> set kinds then None else map_of (s_active s) k))"
  using assms
proof (induction kinds arbitrary: s)
  case Nil
  then show ?case by (simp add: keeps_def)
next
  case (Cons kind kinds)
  obtain n where n: "fout kind = FlushOK n" using Cons.prems(2) by blast
  obtain s1 e1 where r: "rotateLocked (FlushOK n) CloseOK now kind s = (s1, e1)" by force
  have s1: "e1 = None" "spool_inv valid meta_ts s1" "\<forall>k. spool_log junk valid s1 k = spool_log junk valid s k"
      "\<forall>k. map_of (s_active s1) k = (if k = kind then None else map_of (s_active s) k)"
    using rotateLocked_keeps [OF Cons.prems(1), of junk n now kind] by (simp_all add: keeps_def r)
  have "cout kind = CloseOK" using Cons.prems(3) by blast
  then show ?case using Cons.IH [OF s1(2) Cons.prems(2,3)] s1 by (auto simp: r n keeps_def)
qed

lemma append_buffered_keeps:
  assumes "spool_inv valid meta_ts s" "rec_ok valid meta_ts b" "meta_ts b = Some ts"
    "\<forall>a. map_of (s_active s) kind = Some a \<longrightarrow> as_date a = fmt_date ts"
  shows "keeps junk valid meta_ts (append_buffered (FlushOK n) kind (fmt_date ts) b ts s)
    (\<lambda>k. spool_log junk valid s k @ (if kind = k then [b] else []))"
proof -
  obtain s' e where r: "append_buffered (FlushOK n) kind (fmt_date ts) b ts s = (s', e)" by force
  show ?thesis using append_buffered_ok [OF assms r, of junk] by (simp add: r keeps_def)
qed

section \<open>The model implements the interface\<close>

text \<open>What the environment answers during one operation, and that every system call succeeded.\<close>

record op_env =
  o_append :: append_env
  o_flush :: "string \<Rightarrow> flush_outcome"
  o_close :: "string \<Rightarrow> close_outcome"

definition env_ok :: "op_env \<Rightarrow> bool" where
  "env_ok e \<longleftrightarrow> (\<exists>n. e_rotate_flush (o_append e) = FlushOK n) \<and> e_rotate_close (o_append e) = CloseOK \<and>
     (\<exists>n. e_auto_flush (o_append e) = FlushOK n) \<and> (\<forall>k. \<exists>n. o_flush e k = FlushOK n) \<and> (\<forall>k. o_close e k = CloseOK)"

definition do_append :: "(string \<Rightarrow> time option) \<Rightarrow> op_env \<Rightarrow> string \<Rightarrow> string \<Rightarrow> store \<Rightarrow> store" where
  "do_append meta_ts e kind b s = fst (Append (o_append e) meta_ts kind (Some b) s)"

definition do_flush :: "op_env \<Rightarrow> store \<Rightarrow> store" where
  "do_flush e s = fst (Flush (o_flush e) s)"

definition do_rotate :: "op_env \<Rightarrow> store \<Rightarrow> store" where
  "do_rotate e s = fst (Rotate (o_flush e) (o_close e) (e_now (o_append e)) s)"

lemma Append_keeps:
  assumes s: "spool_inv valid meta_ts s" and e: "env_ok e" and b: "rec_ok valid meta_ts b"
  shows "keeps junk valid meta_ts (Append (o_append e) meta_ts kind (Some b) s)
    (\<lambda>k. spool_log junk valid s k @ (if kind = k then [b] else []))"
proof -
  obtain ts where ts: "meta_ts b = Some ts" "0 < ts" using b by (auto simp: rec_ok_def)
  obtain n m where env: "e_rotate_flush (o_append e) = FlushOK m" "e_rotate_close (o_append e) = CloseOK"
      "e_auto_flush (o_append e) = FlushOK n" using e by (auto simp: env_ok_def)
  note A = append_buffered_keeps [OF _ b ts(1), where n = n and kind = kind and junk = junk]
  consider "map_of (s_active s) kind = None"
    | a where "map_of (s_active s) kind = Some a" "as_date a = fmt_date ts" "as_size a + as_rawBuffered a \<le> MaxSegmentBytes"
    | a where "map_of (s_active s) kind = Some a" "as_date a \<noteq> fmt_date ts \<or> as_size a + as_rawBuffered a > MaxSegmentBytes"
    by (metis not_less option.exhaust)
  then show ?thesis
  proof cases
    case 1
    then show ?thesis using A [OF s] ts env by (simp add: Append_def Let_def)
  next
    case (2 a)
    then show ?thesis using A [OF s] ts env by (simp add: Append_def Let_def)
  next
    case (3 a)
    obtain s1 e1 where r: "rotateLocked (FlushOK m) CloseOK (e_now (o_append e)) kind s = (s1, e1)" by force
    have s1: "e1 = None" "spool_inv valid meta_ts s1" "\<forall>k. spool_log junk valid s1 k = spool_log junk valid s k"
        "map_of (s_active s1) kind = None"
      using rotateLocked_keeps [OF s, of junk m "e_now (o_append e)" kind] by (simp_all add: keeps_def r)
    have "Append (o_append e) meta_ts kind (Some b) s = append_buffered (FlushOK n) kind (fmt_date ts) b ts s1"
      using 3 ts env r s1(1) by (auto simp: Append_def Let_def)
    then show ?thesis using A [OF s1(2)] s1(3,4) by (simp add: keeps_def)
  qed
qed

interpretation spool: append_log "spool_inv valid meta_ts" env_ok "rec_ok valid meta_ts" "spool_log junk valid"
  "do_append meta_ts" do_flush do_rotate
proof
  fix s and e :: op_env and k' :: string
  assume i: "spool_inv valid meta_ts s" and e: "env_ok e"
  show "spool_inv valid meta_ts (do_append meta_ts e k r s)" if "rec_ok valid meta_ts r" for r k
    using Append_keeps [OF i e that] by (simp add: keeps_def do_append_def)
  show "spool_log junk valid (do_append meta_ts e k r s) k' = spool_log junk valid s k' @ (if k = k' then [r] else [])"
    if "rec_ok valid meta_ts r" for r k
    using Append_keeps [OF i e that] by (simp add: keeps_def do_append_def)
  have f: "keeps junk valid meta_ts (Flush (o_flush e) s) (spool_log junk valid s)"
    using flush_kinds_keeps [OF i] e by (simp add: Flush_def env_ok_def)
  show "spool_inv valid meta_ts (do_flush e s)" "spool_log junk valid (do_flush e s) k' = spool_log junk valid s k'"
    using f by (simp_all add: keeps_def do_flush_def)
  have r: "keeps junk valid meta_ts (Rotate (o_flush e) (o_close e) (e_now (o_append e)) s) (spool_log junk valid s)"
    using rotate_kinds_keeps [OF i] e by (simp add: Rotate_def env_ok_def)
  show "spool_inv valid meta_ts (do_rotate e s)" "spool_log junk valid (do_rotate e s) k' = spool_log junk valid s k'"
    using r by (simp_all add: keeps_def do_rotate_def)
qed

end
