(* ===== verification/SpoolRuns.thy ===== *)
theory SpoolRuns
  imports SpoolLog
begin

text \<open>
  The properties of the spool over whole runs: the round trip of an orderly shutdown, recovery after a
  crash, the bound on the buffers whatever the system calls answer, the duplicates a failing \<open>Sync\<close>
  leaves, and what \<open>EnforceRetention\<close> guarantees.
\<close>

section \<open>An orderly run\<close>

definition empty_disk :: disk where
  "empty_disk = \<lparr>dk_active = [], dk_closed = [], dk_meta = []\<rparr>"

definition empty_store :: store where
  "empty_store = \<lparr>s_active = [], s_dropped = 0, s_disk = empty_disk\<rparr>"

definition run_spool :: "(string \<Rightarrow> time option) \<Rightarrow> op_env spool_op list \<Rightarrow> store \<Rightarrow> store" where
  "run_spool meta_ts ops s = exec_ops (do_append meta_ts) do_flush do_rotate ops s"

lemma empty_spool: "spool_inv valid meta_ts empty_store" "spool_log junk valid empty_store k = []"
  by (simp_all add: spool_inv_def empty_store_def empty_disk_def disk_ok_def kind_ok_def buffers_bounded_def
      active_keys_def spool_log_def closed_log_def active_file_def buffered_def)

lemma run_spool_inv: "list_all (op_ok env_ok (rec_ok valid meta_ts)) ops \<Longrightarrow> spool_inv valid meta_ts (run_spool meta_ts ops empty_store)"
  unfolding run_spool_def by (rule spool.exec_inv [OF empty_spool(1)])

lemma run_spool_log:
  "list_all (op_ok env_ok (rec_ok valid meta_ts)) ops \<Longrightarrow>
   spool_log junk valid (run_spool meta_ts ops empty_store) k = appended k ops"
  using spool.exec_log [OF empty_spool(1), of valid meta_ts ops junk k] by (simp add: run_spool_def empty_spool(2))

lemma no_segment_log:
  "spool_inv valid meta_ts s \<Longrightarrow> map_of (s_active s) k = None \<Longrightarrow>
   spool_log junk valid s k = closed_log junk valid (s_disk s) k"
  by (auto simp: spool_log_def spool_inv_def kind_ok_def active_file_def buffered_def dest: spec [of _ k])

text \<open>
  C4. Round trip: start with an empty spool, append, flush and rotate in any order, and rotate last, as
  the shutdown of the agent does. If the system calls succeed, reading the closed segments of a kind in
  the order they were closed gives exactly the records that were appended for it, in that order; no
  segment stays open; every sidecar states the true number of records and time range of its file, and
  every file holds the records of a single day.
\<close>

theorem spool_roundtrip:
  assumes "list_all (op_ok env_ok (rec_ok valid meta_ts)) ops" "env_ok e"
    "s = do_rotate e (run_spool meta_ts ops empty_store)"
  shows "closed_log junk valid (s_disk s) kind = appended kind ops \<and> s_active s = [] \<and>
    list_all (closed_ok valid meta_ts (s_disk s)) (dk_meta (s_disk s))"
proof -
  define s0 where "s0 = run_spool meta_ts ops empty_store"
  have i: "spool_inv valid meta_ts s0" using run_spool_inv [OF assms(1)] by (simp add: s0_def)
  have s: "s = fst (rotate_kinds (o_flush e) (o_close e) (e_now (o_append e)) (map fst (s_active s0)) s0 None)"
    using assms(3) by (simp add: s0_def do_rotate_def Rotate_def)
  have env: "\<forall>k. \<exists>n. o_flush e k = FlushOK n" "\<forall>k. o_close e k = CloseOK" using assms(2) by (auto simp: env_ok_def)
  note R = rotate_kinds_keeps [OF i env, of junk "e_now (o_append e)" "map fst (s_active s0)", folded s]
  have inv: "spool_inv valid meta_ts s" and lg: "spool_log junk valid s kind = appended kind ops"
    using R run_spool_log [OF assms(1), of junk kind] by (simp_all add: keeps_def s0_def [symmetric] s [symmetric])
  have none: "map_of (s_active s) k = None" for k
    using R by (simp add: map_of_eq_None_iff)
  then have "s_active s = []" by (cases "s_active s") (auto split: if_splits, metis option.distinct(1))
  then show ?thesis
    using no_segment_log [OF inv none, of junk] lg inv by (simp add: spool_inv_def disk_ok_def)
qed

text \<open>Two one-record operations and an environment in which everything succeeds.\<close>

definition calm :: op_env where
  "calm = \<lparr>o_append = \<lparr>e_rotate_flush = FlushOK 40, e_rotate_close = CloseOK, e_auto_flush = FlushOK 40, e_now = 9\<rparr>,
     o_flush = (\<lambda>k. FlushOK 40), o_close = (\<lambda>k. CloseOK)\<rparr>"

definition small_ts :: "string \<Rightarrow> time option" where
  "small_ts r = (if r = ''{a}'' then Some 5 else if r = ''{b}'' then Some 7 else None)"

definition small_ops :: "op_env spool_op list" where
  "small_ops = [OpAppend calm ''host_minute'' ''{b}'', OpFlush calm, OpAppend calm ''host_minute'' ''{a}'',
     OpAppend calm ''proc_top'' ''{b}'']"

lemma small_ops_ok: "list_all (op_ok env_ok (rec_ok small_json small_ts)) small_ops" "env_ok calm"
  by (auto simp: small_ops_def rec_ok_def small_records small_ts_def env_ok_def calm_def)

theorem spool_roundtrip_witness:
  "closed_log (\<lambda>f. []) small_json (s_disk (do_rotate calm (run_spool small_ts small_ops empty_store))) ''host_minute'' =
    [''{b}'', ''{a}'']"
  using spool_roundtrip [OF small_ops_ok refl, of "\<lambda>f. []" "''host_minute''"] by (simp add: small_ops_def)

section \<open>A crash\<close>

definition recoverable :: "(string \<Rightarrow> bool) \<Rightarrow> (string \<Rightarrow> time option) \<Rightarrow> chunk list \<Rightarrow> bool" where
  "recoverable valid meta_ts f \<longleftrightarrow> (\<exists>rs date. holds valid f rs \<and> rs \<noteq> [] \<and> list_all (rec_ok valid meta_ts) rs \<and>
     same_day meta_ts date rs)"

lemma recover_files_ok:
  assumes "disk_ok valid meta_ts (s_disk s)" "\<forall>k f. map_of (dk_active (s_disk s)) k = Some f \<longrightarrow> recoverable valid meta_ts f"
    "\<forall>k. cout k = CloseOK" "distinct kinds" "set kinds \<subseteq> dom (map_of (dk_active (s_disk s)))"
  shows "case recover_files junk valid meta_ts cout now kinds s of (s', e) \<Rightarrow> e = None \<and>
    disk_ok valid meta_ts (s_disk s') \<and> s_active s' = s_active s \<and>
    (\<forall>k. map_of (dk_active (s_disk s')) k = (if k \<in> set kinds then None else map_of (dk_active (s_disk s)) k)) \<and>
    (\<forall>k. closed_log junk valid (s_disk s') k = closed_log junk valid (s_disk s) k @
      (if k \<in> set kinds then records_of junk valid (active_file s k) else []))"
  using assms
proof (induction kinds arbitrary: s)
  case Nil
  then show ?case by simp
next
  case (Cons kind kinds)
  obtain f where f: "map_of (dk_active (s_disk s)) kind = Some f" using Cons.prems(5) by auto
  then obtain rs date where rs: "holds valid f rs" "rs \<noteq> []" "list_all (rec_ok valid meta_ts) rs" "same_day meta_ts date rs"
    using Cons.prems(2) unfolding recoverable_def by blast
  have af: "active_file s kind = f" by (simp add: active_file_def f)
  obtain mn mx where mm: "recover_range meta_ts rs = (mn, mx)" by force
  let ?info = "\<lparr>sg_Name = [], sg_Kind = kind, sg_Records = int (length rs), sg_MinTS = mn, sg_MaxTS = mx,
    sg_SizeBytes = 0, sg_Recovered = True\<rparr>"
  obtain s1 e1 where c: "closeFile CloseOK now kind ?info s = (s1, e1)" by force
  have day: "same_day meta_ts (fmt_date (sg_MinTS ?info)) rs"
    using recover_range_day [OF rs(2,3) mm [symmetric] rs(4)] by simp
  have i: "sg_Records ?info = int (length rs)" "(sg_MinTS ?info, sg_MaxTS ?info) = recover_range meta_ts rs"
    "sg_Kind ?info = kind" by (simp_all add: mm)
  note C = closeFile_ok [OF Cons.prems(1) f rs(1-3) i day c, of junk]
  have dk: "map_of (dk_active (s_disk s1)) k = (if k = kind then None else map_of (dk_active (s_disk s)) k)" for k
    using C by (simp add: map_of_delete_eq)
  have a1: "active_file s1 k = (if k = kind then [] else active_file s k)" for k
    by (simp add: active_file_def dk)
  have step: "recover_files junk valid meta_ts cout now (kind # kinds) s = recover_files junk valid meta_ts cout now kinds s1"
    using Cons.prems(3) C rs(1) by (simp add: af holds_read mm c)
  have "disk_ok valid meta_ts (s_disk s1)" "\<forall>k f. map_of (dk_active (s_disk s1)) k = Some f \<longrightarrow> recoverable valid meta_ts f"
    "distinct kinds" "set kinds \<subseteq> dom (map_of (dk_active (s_disk s1)))"
    using conjunct1 [OF conjunct2 [OF C]] Cons.prems(2,4,5) by (auto simp: dk)
  note IH = Cons.IH [OF this(1,2) Cons.prems(3) this(3,4)]
  show ?case unfolding step
    using IH C Cons.prems(4) rs(1) by (auto simp: dk a1 af map_of_delete_eq split: prod.split)
qed

lemma spool_inv_recoverable:
  assumes "spool_inv valid meta_ts s" "map_of (dk_active (s_disk s)) k = Some f"
  shows "recoverable valid meta_ts f"
proof -
  have "kind_ok valid meta_ts s k" using assms(1) by (simp add: spool_inv_def)
  then obtain a rs where "seg_ok valid meta_ts f a rs" "rs \<noteq> []"
    using assms(2) by (auto simp: kind_ok_def active_file_def split: option.splits)
  then show ?thesis unfolding recoverable_def by (auto simp: seg_ok_def same_day_def)
qed



section \<open>Failing system calls\<close>

lemma buffers_bounded_set_active:
  "buffers_bounded s \<Longrightarrow> length (as_buf a) < autoFlushRecords \<Longrightarrow> buffers_bounded (set_active k a s)"
  by (simp add: buffers_bounded_def map_of_set_active)

lemma flushLocked_active:
  assumes "map_of (s_active s) kind = Some a" "flushLocked out kind s = (s', e)"
  shows "(e = None \<longrightarrow> (\<exists>a'. map_of (s_active s') kind = Some a' \<and> as_buf a' = [])) \<and>
    (e \<noteq> None \<longrightarrow> s_active s' = s_active s) \<and> (\<forall>k. k \<noteq> kind \<longrightarrow> map_of (s_active s') k = map_of (s_active s) k)"
  using assms
  by (auto simp: flushLocked_def map_of_set_active split: if_splits flush_outcome.splits)

lemma flushLocked_bounded:
  "buffers_bounded s \<Longrightarrow> buffers_bounded (fst (flushLocked out kind s))"
  by (auto simp: flushLocked_def buffers_bounded_def map_of_set_active autoFlushRecords_def
      split: option.split flush_outcome.split)

lemma closeFile_active: "s_active (fst (closeFile out now kind info s)) = s_active s"
  by (auto simp: closeFile_def Let_def split: option.split close_outcome.split)

lemma buffers_bounded_sub:
  "buffers_bounded s \<Longrightarrow> \<forall>k a. map_of (s_active s') k = Some a \<longrightarrow> map_of (s_active s) k = Some a \<Longrightarrow> buffers_bounded s'"
  by (auto simp: buffers_bounded_def)

lemma rotateLocked_bounded:
  assumes "buffers_bounded s"
  shows "buffers_bounded (fst (rotateLocked fout cout now kind s))"
proof (cases "map_of (s_active s) kind")
  case None
  then show ?thesis using assms by (simp add: rotateLocked_def)
next
  case (Some a0)
  obtain s1 e where f: "flushLocked fout kind s = (s1, e)" by force
  have b: "buffers_bounded s1" using flushLocked_bounded [OF assms, of fout kind] by (simp add: f)
  define s2 where "s2 = s1\<lparr>s_active := AList.delete kind (s_active s1)\<rparr>"
  have b2: "buffers_bounded s2"
    by (rule buffers_bounded_sub [OF b]) (simp add: s2_def map_of_delete_eq)
  have b3: "buffers_bounded s'" if "s_active s' = s_active s2" for s'
    by (rule buffers_bounded_sub [OF b2]) (simp add: that)
  show ?thesis
  proof (cases e)
    case None
    show ?thesis
      by (rule b3) (simp add: rotateLocked_def Some f None Let_def closeFile_active s2_def)
  qed (use Some f b in \<open>simp add: rotateLocked_def\<close>)
qed

lemma append_buffered_bounded:
  assumes "buffers_bounded s"
  shows "buffers_bounded (fst (append_buffered out kind date b ts s))"
proof -
  define a where "a = add_record b ts (case map_of (s_active s) kind of Some a \<Rightarrow> a | None \<Rightarrow> new_active date)"
  define s1 where "s1 = set_active kind a s"
  show ?thesis
  proof (cases "length (as_buf a) \<ge> autoFlushRecords")
    case False
    then show ?thesis using assms buffers_bounded_set_active [of s a kind]
      by (simp add: append_buffered_def Let_def a_def [symmetric])
  next
    case True
    obtain s2 e where f: "flushLocked out kind s1 = (s2, e)" by force
    have a1: "map_of (s_active s1) kind = Some a" by (simp add: s1_def map_of_set_active)
    note F = flushLocked_active [OF a1 f]
    have other: "length (as_buf x) < autoFlushRecords" if "map_of (s_active s2) k = Some x" "k \<noteq> kind" for k x
      using that F assms by (simp add: s1_def map_of_set_active buffers_bounded_def)
    let ?a = "a\<lparr>as_records := as_records a - int (length (as_buf a)), as_buf := []\<rparr>"
    let ?s = "s2\<lparr>s_dropped := s_dropped s2 + of_nat (length (as_buf a))\<rparr>"
    have ok: "e = None \<Longrightarrow> buffers_bounded s2"
      unfolding buffers_bounded_def
    proof (intro allI impI)
      fix k x
      assume "e = None" "map_of (s_active s2) k = Some x"
      then show "length (as_buf x) < autoFlushRecords"
        using F other by (cases "k = kind") (auto simp: autoFlushRecords_def)
    qed
    have bad: "buffers_bounded (set_active kind ?a ?s)"
      unfolding buffers_bounded_def
    proof (intro allI impI)
      fix k x
      assume "map_of (s_active (set_active kind ?a ?s)) k = Some x"
      then show "length (as_buf x) < autoFlushRecords"
        using other by (cases "k = kind") (auto simp: autoFlushRecords_def map_of_set_active)
    qed
    have "buffers_bounded (fst (case (s2, e) of (s, None) \<Rightarrow> (s, None) | (s, Some e) \<Rightarrow> (set_active kind ?a ?s, Some e)))"
      using ok bad by (cases e) simp_all
    then show ?thesis using True f
      by (cases e) (simp_all add: append_buffered_def Let_def a_def [symmetric] s1_def [symmetric])
  qed
qed

lemma Append_bounded: "buffers_bounded s \<Longrightarrow> buffers_bounded (fst (Append env meta_ts kind r s))"
  using rotateLocked_bounded [of s "e_rotate_flush env" "e_rotate_close env" "e_now env" kind]
  by (auto simp: Append_def Let_def append_buffered_bounded split: option.split prod.split)

lemma flush_kinds_bounded: "buffers_bounded s \<Longrightarrow> buffers_bounded (fst (flush_kinds out kinds s e))"
proof (induction kinds arbitrary: s e)
  case (Cons kind kinds)
  then show ?case using flushLocked_bounded [of s "out kind" kind] by (auto split: prod.split)
qed simp

lemma rotate_kinds_bounded: "buffers_bounded s \<Longrightarrow> buffers_bounded (fst (rotate_kinds fout cout now kinds s e))"
proof (induction kinds arbitrary: s e)
  case (Cons kind kinds)
  then show ?case using rotateLocked_bounded [of s "fout kind" "cout kind" now kind] by (auto split: prod.split)
qed simp

text \<open>
  The memory of the spool is bounded whatever the system calls answer: after any sequence of
  appends, flushes and rotations with any outcomes, every kind holds fewer than \<open>autoFlushRecords\<close>
  (512) records in memory.
\<close>

theorem spool_memory_bounded: "buffers_bounded (run_spool meta_ts ops empty_store)"
proof -
  have "buffers_bounded s \<Longrightarrow> buffers_bounded (run_spool meta_ts ops s)" for s
  proof (induction ops arbitrary: s)
    case (Cons op ops)
    then show ?case
      by (cases op) (simp_all add: run_spool_def do_append_def do_flush_def do_rotate_def Append_bounded
          Flush_def flush_kinds_bounded Rotate_def rotate_kinds_bounded)
  qed (simp add: run_spool_def)
  moreover have "buffers_bounded empty_store" by (simp add: buffers_bounded_def empty_store_def)
  ultimately show ?thesis by blast
qed

text \<open>
  A \<open>Sync\<close> that fails after the member was written leaves the batch in the buffer although it is in
  the file: the next successful flush writes it again. The segment then reads back with the batch
  twice, while the record count that goes into its sidecar counts it once.
\<close>

theorem sync_failure_duplicates:
  assumes "spool_inv valid meta_ts s" "map_of (s_active s) kind = Some a" "as_buf a \<noteq> []"
    "flushLocked (FlushSyncFails n) kind s = (s1, e1)" "flushLocked (FlushOK m) kind s1 = (s2, e2)"
  shows "e1 = Some SyncFailed \<and> e2 = None \<and>
    records_of junk valid (active_file s2 kind) = records_of junk valid (active_file s kind) @ as_buf a @ as_buf a \<and>
    (\<exists>a'. map_of (s_active s2) kind = Some a' \<and> as_records a' = as_records a)"
proof -
  have "kind_ok valid meta_ts s kind" using assms(1) by (simp add: spool_inv_def)
  then obtain rs where rs: "seg_ok valid meta_ts (active_file s kind) a rs" using assms(2) by (auto simp: kind_ok_def)
  let ?f = "active_file s kind" and ?b = "as_buf a"
  have h: "holds valid ?f rs" and j: "list_all (json_record valid) ?b"
    using rs by (auto simp: seg_ok_def intro: rec_ok_json)
  have s1: "s1 = append_chunks kind [Member (member_bytes ?b) n] s" "e1 = Some SyncFailed"
    using assms(2-4) by (simp_all add: flushLocked_def)
  have s2: "s2 = set_active kind (a\<lparr>as_size := as_size a + m, as_buf := [], as_rawBuffered := 0\<rparr>)
      (append_chunks kind [Member (member_bytes ?b) m] s1)" "e2 = None"
    using assms(2,3,5) by (simp_all add: flushLocked_def s1)
  have "holds valid (active_file s2 kind) ((rs @ ?b) @ ?b)"
    using holds_append [OF holds_append [OF h j] j] by (simp add: s1 s2 active_file_append_chunks)
  then show ?thesis using h s1(2) s2 by (simp add: map_of_set_active)
qed

theorem sync_failure_duplicates_witness:
  "records_of (\<lambda>f. []) small_json (active_file (fst (flushLocked (FlushOK 40) ''k'' (fst (flushLocked (FlushSyncFails 40) ''k''
     (run_spool small_ts [OpAppend calm ''k'' ''{a}''] empty_store))))) ''k'') = [''{a}'', ''{a}'']"
proof -
  let ?s = "run_spool small_ts [OpAppend calm ''k'' ''{a}''] empty_store"
  have ok: "list_all (op_ok env_ok (rec_ok small_json small_ts)) [OpAppend calm ''k'' ''{a}'']"
    by (auto simp: rec_ok_def small_records small_ts_def env_ok_def calm_def)
  have act: "map_of (s_active ?s) ''k'' = Some \<lparr>as_date = fmt_date 5, as_buf = [''{a}''], as_records = 1,
      as_minTS = 5, as_maxTS = 5, as_size = 0, as_rawBuffered = 3\<rparr>" and fil: "active_file ?s ''k'' = []"
    by (simp_all add: run_spool_def do_append_def Append_def append_buffered_def small_ts_def empty_store_def
        empty_disk_def new_active_def add_record_def set_active_def autoFlushRecords_def Let_def active_file_def)
  obtain s1 e1 where f1: "flushLocked (FlushSyncFails 40) ''k'' ?s = (s1, e1)" by force
  obtain s2 e2 where f2: "flushLocked (FlushOK 40) ''k'' s1 = (s2, e2)" by force
  from sync_failure_duplicates [OF run_spool_inv [OF ok] act _ f1 f2, of "\<lambda>f. []"] show ?thesis
    by (simp add: f1 f2 fil)
qed

section \<open>Retention\<close>

text \<open>Which segments go, as a list function: those that are too old, and any while the total is over the cap.\<close>

definition too_old :: "int \<Rightarrow> time \<Rightarrow> segment_info \<Rightarrow> bool" where
  "too_old maxAgeDays cutoff seg \<longleftrightarrow> maxAgeDays > 0 \<and> \<not> is_zero_time (sg_MaxTS seg) \<and> sg_MaxTS seg < cutoff"

fun dels :: "int \<Rightarrow> int \<Rightarrow> time \<Rightarrow> int \<Rightarrow> segment_info list \<Rightarrow> segment_info list" where
  "dels maxBytes maxAgeDays cutoff tot [] = []"
| "dels maxBytes maxAgeDays cutoff tot (seg # segs) =
     (if too_old maxAgeDays cutoff seg \<or> maxBytes > 0 \<and> tot > maxBytes
      then seg # dels maxBytes maxAgeDays cutoff (tot - sg_SizeBytes seg) segs
      else dels maxBytes maxAgeDays cutoff tot segs)"

abbreviation sizes :: "segment_info list \<Rightarrow> int" where
  "sizes segs \<equiv> sum_list (map sg_SizeBytes segs)"

lemma dels_subset: "set (dels maxBytes maxAgeDays cutoff tot segs) \<subseteq> set segs"
  by (induction segs arbitrary: tot) auto

lemma dels_distinct: "distinct (map sg_Name segs) \<Longrightarrow> distinct (map sg_Name (dels maxBytes maxAgeDays cutoff tot segs))"
proof (induction segs arbitrary: tot)
  case (Cons seg segs)
  then show ?case using dels_subset [of maxBytes maxAgeDays cutoff "tot - sg_SizeBytes seg" segs] by auto
qed simp

lemma dels_kept:
  assumes "seg \<in> set segs" "seg \<notin> set (dels maxBytes maxAgeDays cutoff tot segs)" "\<forall>s \<in> set segs. 0 \<le> sg_SizeBytes s"
  shows "\<not> too_old maxAgeDays cutoff seg \<and>
    (maxBytes > 0 \<longrightarrow> tot - sizes (dels maxBytes maxAgeDays cutoff tot segs) \<le> maxBytes)"
  using assms
proof (induction segs arbitrary: tot)
  case (Cons s segs)
  have "0 \<le> sizes (dels maxBytes maxAgeDays cutoff tot segs)"
    using Cons.prems(3) dels_subset [of maxBytes maxAgeDays cutoff tot segs] by (intro sum_list_nonneg) auto
  then show ?case
    using Cons.prems Cons.IH [of tot] Cons.IH [of "tot - sg_SizeBytes s"] by (auto split: if_splits)
qed simp

definition remove_all :: "segment_info list \<Rightarrow> disk \<Rightarrow> disk" where
  "remove_all segs d = foldl (\<lambda>d s. fst (Remove (sg_Name s) d)) d segs"

lemma sum_list_delete:
  fixes g :: "'a \<Rightarrow> int"
  assumes "distinct (map fst m)" "map_of m k = Some v"
  shows "sum_list (map (g \<circ> snd) (AList.delete k m)) = sum_list (map (g \<circ> snd) m) - g v"
  using assms
proof (induction m)
  case (Cons p m)
  have "AList.delete k m = m" if "k \<notin> fst ` set m" using that by (induction m) auto
  then show ?case using Cons by (cases p) (auto split: if_splits)
qed simp

lemma delete_filter: "AList.delete k m = filter (\<lambda>p. fst p \<noteq> k) m"
  by (induction m) auto

lemma remove_all_disk:
  "remove_all segs d = d\<lparr>dk_closed := filter (\<lambda>p. fst p \<notin> sg_Name ` set segs) (dk_closed d),
     dk_meta := filter (\<lambda>p. fst p \<notin> sg_Name ` set segs) (dk_meta d)\<rparr>"
  by (induction segs arbitrary: d)
    (auto simp: remove_all_def Remove_def delete_filter)

lemma retain_fold:
  assumes "\<forall>s \<in> set segs. map_of (dk_closed d) (sg_Name s) \<noteq> None" "distinct (map sg_Name segs)"
  shows "foldl (retain_step maxBytes maxAgeDays cutoff) (d, res, tot) segs =
    (let ds = dels maxBytes maxAgeDays cutoff tot segs in
     (remove_all ds d, res\<lparr>rr_DeletedSegments := rr_DeletedSegments res + int (length ds),
        rr_DeletedBytes := rr_DeletedBytes res + sizes ds\<rparr>, tot - sizes ds))"
  using assms
proof (induction segs arbitrary: d res tot)
  case (Cons seg segs)
  obtain d2 where rm: "Remove (sg_Name seg) d = (d2, None)" using Cons.prems(1) by (auto simp: Remove_def)
  then have "dk_closed d2 = AList.delete (sg_Name seg) (dk_closed d)" by (auto simp: Remove_def)
  then have "\<forall>s \<in> set segs. map_of (dk_closed d2) (sg_Name s) \<noteq> None"
    using Cons.prems by (auto simp: map_of_delete_eq) (metis imageI)
  note IH1 = Cons.IH [OF this]
  have "\<forall>s \<in> set segs. map_of (dk_closed d) (sg_Name s) \<noteq> None" using Cons.prems(1) by simp
  note IH2 = Cons.IH [OF this]
  have dist: "distinct (map sg_Name segs)" using Cons.prems(2) by simp
  show ?case
  proof (cases "too_old maxAgeDays cutoff seg \<or> maxBytes > 0 \<and> tot > maxBytes")
    case True
    then have "retain_step maxBytes maxAgeDays cutoff (d, res, tot) seg = (d2, res\<lparr>rr_DeletedSegments := rr_DeletedSegments res + 1,
        rr_DeletedBytes := rr_DeletedBytes res + sg_SizeBytes seg\<rparr>, tot - sg_SizeBytes seg)"
      using rm by (auto simp: retain_step_def too_old_def)
    then show ?thesis using True rm by (simp add: IH1 [OF dist] Let_def remove_all_def algebra_simps)
  next
    case False
    then have "retain_step maxBytes maxAgeDays cutoff (d, res, tot) seg = (d, res, tot)"
      by (simp add: retain_step_def too_old_def)
    then show ?thesis using False by (auto simp: IH2 [OF dist])
  qed
qed (simp add: remove_all_def)

lemma remove_all_bytes:
  assumes "distinct (map fst (dk_closed d))" "\<forall>i. 0 \<le> meta_size i" "distinct (map sg_Name segs)"
    "\<forall>s \<in> set segs. \<exists>f. map_of (dk_closed d) (sg_Name s) = Some f \<and> sg_SizeBytes s = file_size f"
  shows "SpoolBytes meta_size (remove_all segs d) + sizes segs \<le> SpoolBytes meta_size d"
proof -
  have meta: "sum_list (map (meta_size \<circ> snd) (filter P m)) \<le> sum_list (map (meta_size \<circ> snd) m)" for P m
    using assms(2) by (induction m) (auto intro: add_increasing)
  have closed: "sum_list (map (file_size \<circ> snd) (filter (\<lambda>p. fst p \<notin> sg_Name ` set segs) m)) + sizes segs =
      sum_list (map (file_size \<circ> snd) m)"
    if "distinct (map fst m)" "\<forall>s \<in> set segs. \<exists>f. map_of m (sg_Name s) = Some f \<and> sg_SizeBytes s = file_size f" for m
    using assms(3) that
  proof (induction segs arbitrary: m)
    case (Cons s segs)
    obtain f where f: "map_of m (sg_Name s) = Some f" "sg_SizeBytes s = file_size f" using Cons.prems(3) by auto
    let ?m = "AList.delete (sg_Name s) m"
    have "\<forall>x \<in> set segs. \<exists>f. map_of ?m (sg_Name x) = Some f \<and> sg_SizeBytes x = file_size f"
      using Cons.prems(1,3) by (auto simp: map_of_delete_eq) (metis imageI)
    from Cons.IH [OF _ distinct_delete [OF Cons.prems(2)] this] Cons.prems(1)
    have "sum_list (map (file_size \<circ> snd) (filter (\<lambda>p. fst p \<notin> sg_Name ` set segs) ?m)) + sizes segs =
      sum_list (map (file_size \<circ> snd) ?m)" by (simp add: comp_def)
    moreover have "sum_list (map (file_size \<circ> snd) ?m) = sum_list (map (file_size \<circ> snd) m) - file_size f"
      by (rule sum_list_delete [OF Cons.prems(2) f(1)])
    moreover have "filter (\<lambda>p. fst p \<notin> sg_Name ` set (s # segs)) m = filter (\<lambda>p. fst p \<notin> sg_Name ` set segs) ?m"
      by (auto simp: delete_filter conj_commute)
    ultimately show ?case using f(2) by (simp add: comp_def)
  qed (simp add: comp_def)
  show ?thesis
    using meta [of "\<lambda>p. fst p \<notin> sg_Name ` set segs" "dk_meta d"] closed [OF assms(1,4)]
    by (simp add: SpoolBytes_def remove_all_disk)
qed

lemma disk_ok_meta:
  assumes "disk_ok valid meta_ts d" "p \<in> set (dk_meta d)"
  shows "sg_Name (snd p) = fst p \<and> (\<exists>f. map_of (dk_closed d) (fst p) = Some f \<and> sg_SizeBytes (snd p) = file_size f)"
proof -
  have "closed_ok valid meta_ts d p" using assms by (simp add: disk_ok_def list_all_iff)
  then show ?thesis unfolding closed_ok_def by blast
qed

lemma ListClosed_listed:
  assumes "disk_ok valid meta_ts d"
  shows "distinct (map sg_Name (ListClosed d))"
    "\<forall>s \<in> set (ListClosed d). \<exists>f. map_of (dk_closed d) (sg_Name s) = Some f \<and> sg_SizeBytes s = file_size f"
proof -
  let ?xs = "filter (\<lambda>i. sg_Name i \<noteq> [] \<and> map_of (dk_closed d) (sg_Name i) \<noteq> None) (map snd (dk_meta d))"
  have "map sg_Name (map snd (dk_meta d)) = map fst (dk_meta d)" using disk_ok_meta [OF assms] by simp
  moreover have "distinct (map fst (dk_meta d))" using assms by (simp add: disk_ok_def)
  ultimately have "distinct (map sg_Name (map snd (dk_meta d)))" by (simp only:)
  then have "distinct (map sg_Name ?xs)" by (rule distinct_map_filter)
  then show "distinct (map sg_Name (ListClosed d))"
    by (simp add: ListClosed_def distinct_map del: filter_map)
  show "\<forall>s \<in> set (ListClosed d). \<exists>f. map_of (dk_closed d) (sg_Name s) = Some f \<and> sg_SizeBytes s = file_size f"
  proof
    fix s assume "s \<in> set (ListClosed d)"
    then obtain p where "p \<in> set (dk_meta d)" "s = snd p" by (auto simp: ListClosed_def)
    then show "\<exists>f. map_of (dk_closed d) (sg_Name s) = Some f \<and> sg_SizeBytes s = file_size f"
      using disk_ok_meta [OF assms] by metis
  qed
qed

lemma map_of_filter_key: "map_of (filter (\<lambda>p. fst p \<notin> N) m) k = (if k \<in> N then None else map_of m k)"
  by (induction m) auto

lemma ListClosed_remove_all:
  assumes "disk_ok valid meta_ts d"
  shows "ListClosed (remove_all segs d) = filter (\<lambda>i. sg_Name i \<notin> sg_Name ` set segs) (ListClosed d)"
proof -
  let ?N = "sg_Name ` set segs"
  have "map snd (filter (\<lambda>p. fst p \<notin> ?N) m) = filter (\<lambda>i. sg_Name i \<notin> ?N) (map snd m)"
    if "\<forall>p \<in> set m. sg_Name (snd p) = fst p" for m :: "(string \<times> segment_info) list"
    using that by (induction m) auto
  then have *: "map snd (filter (\<lambda>p. fst p \<notin> ?N) (dk_meta d)) = filter (\<lambda>i. sg_Name i \<notin> ?N) (map snd (dk_meta d))"
    using disk_ok_meta [OF assms] by blast
  show ?thesis
    by (auto simp: ListClosed_def remove_all_disk * map_of_filter_key filter_sort intro!: arg_cong [of _ _ "sort_key sg_Name"] filter_cong)
qed


definition one_segment :: disk where
  "one_segment = \<lparr>dk_active = [], dk_closed = [(''seg-a-00010101-000.ndjson.gz'', [Member (member_bytes [''{a}'']) 30])],
     dk_meta = [(''seg-a-00010101-000.ndjson.gz'', \<lparr>sg_Name = ''seg-a-00010101-000.ndjson.gz'', sg_Kind = ''a'', sg_Records = 1, sg_MinTS = 5, sg_MaxTS = 5,
       sg_SizeBytes = 30, sg_Recovered = False\<rparr>)]\<rparr>"

lemma one_segment_ok: "disk_ok small_json small_ts one_segment"
proof -
  have "seg_name ''a'' (fmt_date 5) 0 = ''seg-a-00010101-000.ndjson.gz''" by code_simp
  then have name: "\<exists>n. ''seg-a-00010101-000.ndjson.gz'' = seg_name ''a'' (fmt_date 5) n" by metis
  have "holds small_json [Member (member_bytes [''{a}'']) 30] [''{a}'']"
    using holds_append [of small_json "[]" "[]" "[''{a}'']" 30] by (simp add: small_records)
  then show ?thesis using name
    by (auto simp: disk_ok_def one_segment_def closed_ok_def rec_ok_def small_records small_ts_def recover_range_def
        recover_step_def same_day_def file_size_def intro!: exI [of _ "[''{a}'']"])
qed


definition host_feb :: segment_info where
  "host_feb = \<lparr>sg_Name = ''seg-host_minute-20240201-000.ndjson.gz'', sg_Kind = ''host_minute'', sg_Records = 1,
     sg_MinTS = 200, sg_MaxTS = 200, sg_SizeBytes = 30, sg_Recovered = False\<rparr>"

definition proc_jan :: segment_info where
  "proc_jan = \<lparr>sg_Name = ''seg-proc_top-20240101-000.ndjson.gz'', sg_Kind = ''proc_top'', sg_Records = 1,
     sg_MinTS = 100, sg_MaxTS = 100, sg_SizeBytes = 30, sg_Recovered = False\<rparr>"

definition two_kinds :: disk where
  "two_kinds = \<lparr>dk_active = [], dk_closed = map (\<lambda>i. (sg_Name i, [Member [] 30])) [proc_jan, host_feb],
     dk_meta = map (\<lambda>i. (sg_Name i, i)) [proc_jan, host_feb]\<rparr>"

text \<open>
  The list of closed segments is in the order of their names, which start with the kind: under the
  byte cap, \<open>EnforceRetention\<close> deletes a newer \<open>host_minute\<close> segment and keeps an older \<open>proc_top\<close>
  segment, where the code's comments promise that the oldest segments go first.
\<close>

theorem retention_not_oldest_first:
  "ListClosed (fst (EnforceRetention (\<lambda>i. 0) 1000 40 0 two_kinds)) = [proc_jan] \<and>
   ListClosed two_kinds = [host_feb, proc_jan] \<and> sg_MaxTS proc_jan < sg_MaxTS host_feb"
  by (simp add: EnforceRetention_def ListClosed_def two_kinds_def host_feb_def proc_jan_def retain_step_def
      Remove_def SpoolBytes_def file_size_def Let_def)

end
