(* ===== verification/SqlAnalysis.thy ===== *)
theory SqlAnalysis
  imports HostAnalysis
begin

text \<open>
  The analysis of a SQL Server instance, \<open>internal/analyzer/recommend_sql.go\<close>: the measurements of
  \<open>analyzeSQLInstance\<close>, the combined memory of the instances of a host (\<open>uint64\<close>, so the sums wrap)
  and the ladder of \<open>classifySQL\<close>. The map of waits is ranged over in an order the runtime chooses and
  then sorted unstably: the argument \<open>word\<close>, a rearrangement of the waits before a stable sort.
\<close>

section \<open>Helpers\<close>

definition dedupStrings :: "string list \<Rightarrow> string list" where
  "dedupStrings xs = dedup_by (\<lambda>s. s) [] xs"

definition samples_of :: "host_data \<Rightarrow> string \<Rightarrow> sql_sample list" where
  "samples_of h key = (case map_of (hd_SQLSamples h) key of Some ss \<Rightarrow> ss | None \<Rightarrow> [])"

definition latestSample :: "host_data \<Rightarrow> string \<Rightarrow> sql_sample option" where
  "latestSample h key = (let ss = samples_of h key in if ss = [] then None else Some (last ss))"

definition kib_per_gib :: f64 where
  "kib_per_gib = of_go_int (2 ^ 20)"

fun max_total_kb :: "u64 \<Rightarrow> sql_sample list \<Rightarrow> u64" where
  "max_total_kb mx [] = mx"
| "max_total_kb mx (s # ss) = max_total_kb (if sq_TotalServerMemoryKB s > mx then sq_TotalServerMemoryKB s else mx) ss"

definition maxTotalServerMemGB :: "host_data \<Rightarrow> string \<Rightarrow> f64" where
  "maxTotalServerMemGB h key = of_u64 (max_total_kb 0 (samples_of h key)) / kib_per_gib"

definition suggestedMaxMemGB :: "f64 \<Rightarrow> f64" where
  "suggestedMaxMemGB hostGB =
     (let reserve = max osReserveMinGB (hostGB * fl (10 / 100)) in max (fl 2) (math_floor (hostGB - reserve)))"

section \<open>Combined memory of the instances of a host\<close>

record combined =
  cb_MaxMB :: u64
  cb_ProcKB :: u64
  cb_Unlimited :: int

definition combine_step :: "host_data \<Rightarrow> combined \<Rightarrow> string \<times> sql_inventory \<Rightarrow> combined" where
  "combine_step h acc p =
     (let other = snd p;
          acc = (if si_MaxMemoryUnlimitedDefault other then acc\<lparr>cb_Unlimited := cb_Unlimited acc + 1\<rparr>
                 else acc\<lparr>cb_MaxMB := cb_MaxMB acc + si_MaxServerMemoryMB other\<rparr>)
      in case latestSample h (fst p) of
           Some s \<Rightarrow> acc\<lparr>cb_ProcKB := cb_ProcKB acc + sq_PhysicalMemoryInUseKB s\<rparr>
         | None \<Rightarrow> acc)"

definition combine :: "host_data \<Rightarrow> combined" where
  "combine h = foldl (combine_step h) \<lparr>cb_MaxMB = 0, cb_ProcKB = 0, cb_Unlimited = 0\<rparr> (hd_SQLInv h)"

definition host_mb :: "host_report \<Rightarrow> u64" where
  "host_mb hr = word_of_int (go_trunc (hr_AllocRAMGB hr * fl 1024))"

definition os_reserve_mb :: "host_report \<Rightarrow> u64" where
  "os_reserve_mb hr = word_of_int (go_trunc (max (osReserveMinGB * fl 1024) (of_u64 (host_mb hr) / fl 10)))"

section \<open>The decision ladder\<close>

definition sql_conclude :: "string \<Rightarrow> string \<Rightarrow> string list \<Rightarrow> sql_report \<Rightarrow> sql_report" where
  "sql_conclude cat rec rs r = r\<lparr>sqr_Category := cat, sqr_Recommendation := rec, sqr_Rationale := sqr_Rationale r @ rs\<rparr>"

definition target_reached :: "host_data \<Rightarrow> string \<Rightarrow> bool" where
  "target_reached h key = (case latestSample h key of None \<Rightarrow> False
     | Some s \<Rightarrow> of_u64 (sq_TotalServerMemoryKB s) \<ge> fl (95 / 100) * of_u64 (sq_TargetServerMemoryKB s))"

definition multi_instance_text :: "host_data \<Rightarrow> host_report \<Rightarrow> string" where
  "multi_instance_text h hr =
     (let c = combine h in
      if cb_Unlimited c > 0 then
        fmt_d (cb_Unlimited c) @ '' of '' @ fmt_d (int (length (hd_SQLInv h))) @
        '' instances on this host leave max server memory at the unlimited default '' @ em_dash @
        '' the instances will compete and can starve the OS. Set explicit per-instance limits that sum '' @
        ''below host RAM minus '' @ fmt_f 0 (of_u64 (os_reserve_mb hr) / fl 1024) @ '' GB.''
      else
        ''Combined max server memory '' @ fmt_f 0 (of_u64 (cb_MaxMB c) / fl 1024) @ '' GB exceeds host RAM '' @
        fmt_f 0 (of_u64 (host_mb hr) / fl 1024) @
        '' GB minus the OS reserve. Rebalance the per-instance limits before any host resize.'')"

definition classifySQL :: "sql_report \<Rightarrow> host_data \<Rightarrow> sql_inventory \<Rightarrow> host_report \<Rightarrow> sql_report" where
  "classifySQL r h iv hr =
     (let r = r\<lparr>sqr_ValidationRequired := True,
                sqr_Confidence := confidenceFrom (hr_ObservedDays hr) (hr_CoveragePct hr)\<rparr>;
          c = combine h;
          hostMB = host_mb hr;
          osReserveMB = os_reserve_mb hr;
          multi = length (hd_SQLInv h) > 1;
          uptimeOK = sqr_EngineUptimeDays r \<ge> fl 3;
          targetReached = target_reached h (si_InstanceKey iv)
      in
      if sqr_HARole r = ''SECONDARY'' then
        sql_conclude CatHADRConstraint
          (''Secondary replica of availability group '' @ sqr_HAGroup r @
           ''. Do not size from its own (expectedly idle) workload '' @ em_dash @
           '' it must absorb the primary's load after failover. Assess the replica group together.'')
          [''availability-group SECONDARY role detected''] r
      else if multi \<and> hostMB > 0 \<and> (cb_Unlimited c > 0 \<or> cb_MaxMB c + osReserveMB > hostMB) then
        sql_conclude CatMultiInstanceRisk (multi_instance_text h hr)
          [''combined configured max '' @ fmt_f 0 (of_u64 (cb_MaxMB c) / fl 1024) @
           '' GB, combined SQL process memory '' @ fmt_f 1 (of_u64 (cb_ProcKB c) / kib_per_gib) @
           '' GB, host '' @ fmt_f 0 (of_u64 hostMB / fl 1024) @ '' GB''] r
      else if sqr_MaxIsUnlimited r then
        let suggested = suggestedMaxMemGB (hr_AllocRAMGB hr) in
        (sql_conclude CatSQLMemoryConfig
          (''max server memory is left at its unlimited default (2147483647 MB). SQL Server will grow toward '' @
           ''all host RAM and can pressure the OS. Set an explicit limit (suggested '' @ approx_sign @ '' '' @
           fmt_f 0 suggested @ '' GB for this '' @ fmt_f 0 (hr_AllocRAMGB hr) @
           '' GB host) before considering any RAM change.'')
          [''sys.configurations max server memory (MB) = 2147483647''] r)
        \<lparr>sqr_SuggestedMaxMemGB := Some \<lparr>cr_MinVCPU = 0, cr_MaxVCPU = 0, cr_MinRAMGB = suggested,
           cr_MaxRAMGB = suggested,
           cr_Note = ''host RAM minus max(4 GB, 10%) OS reserve; adjust for other software on the host''\<rparr>\<rparr>
      else if sqr_PressureSignals r \<noteq> [] then
        sql_conclude CatInsufficientHeadroom
          (''Memory-pressure indicators are present. Do not reduce host RAM or max server memory; '' @
           ''investigate the pressure first.'')
          (sqr_PressureSignals r) r
      else if uptimeOK \<and> \<not> targetReached then
        sql_conclude CatMonitorLonger
          (''Total Server Memory has not reached Target after several days '' @ em_dash @
           '' demand may be genuinely low, but verify the engine has seen its full workload cycle '' @
           ''(including maintenance and month-end) before concluding.'')
          [''Total '' @ fmt_f 1 (sqr_TotalServerMemGB r) @ '' GB vs Target '' @
           fmt_f 1 (sqr_TargetServerMemGB r) @ '' GB at '' @ fmt_f 1 (sqr_EngineUptimeDays r) @ '' days uptime''] r
      else if \<not> uptimeOK then
        sql_conclude CatMonitorLonger
          (''Engine uptime is only '' @ fmt_f 1 (sqr_EngineUptimeDays r) @
           '' days; Total vs Target Server Memory and cache sizing are not yet meaningful.'') [] r
      else if sqr_SQLCPUP95 r < fl 40 \<and> of_go_int (sqr_PLEP5 r) > fl 3600 \<and> sqr_GrantsPendingMax r = 0 \<and>
          sqr_SQLMemPctOfMax r > fl 95 then
        let peakTotal = maxTotalServerMemGB h (si_InstanceKey iv);
            lo = roundGB (peakTotal * fl (12 / 10));
            hi = roundGB (lo * fl (125 / 100))
        in (sql_conclude CatPossibleRightsizing
          (''The buffer cache is full (as designed) but PLE stays high (P5 '' @ fmt_d (sqr_PLEP5 r) @
           ''s) with no pending grants and low SQL CPU '' @ em_dash @
           '' memory demand appears comfortably met. A staged max-server-memory reduction toward '' @
           fmt_f 0 lo @ en_dash @ fmt_f 0 hi @
           '' GB may be possible. High memory usage alone is NOT proof of overprovisioning; '' @
           ''validate after each step.'')
          [''SQL CPU P95 '' @ fmt_f 0 (sqr_SQLCPUP95 r) @ ''%, PLE P5 '' @ fmt_d (sqr_PLEP5 r) @
           ''s, grants pending max '' @ fmt_d (sqr_GrantsPendingMax r)] r)
        \<lparr>sqr_SuggestedMaxMemGB := Some \<lparr>cr_MinVCPU = 0, cr_MaxVCPU = 0, cr_MinRAMGB = lo, cr_MaxRAMGB = hi,
           cr_Note = ''based on peak Total Server Memory + 20% cache headroom; PLE must be re-checked after any reduction''\<rparr>\<rparr>
      else
        sql_conclude CatNoChange
          ''SQL memory configuration and observed pressure give no safe reduction opportunity.''
          [''Total '' @ fmt_f 1 (sqr_TotalServerMemGB r) @ '' GB / Target '' @ fmt_f 1 (sqr_TargetServerMemGB r) @
           '' GB, PLE P5 '' @ fmt_d (sqr_PLEP5 r) @ ''s, SQL CPU P95 '' @ fmt_f 0 (sqr_SQLCPUP95 r) @ ''%''] r)"

section \<open>The report of one instance\<close>

definition sql_identity :: "host_data \<Rightarrow> sql_inventory \<Rightarrow> host_report \<Rightarrow> sql_report" where
  "sql_identity h iv hr =
     (let ags = ha_AGs (si_HA iv) in
      \<lparr>sqr_HostID = hd_HostID h, sqr_Hostname = hr_Hostname hr, sqr_InstanceKey = si_InstanceKey iv,
       sqr_InstanceName = si_InstanceName iv, sqr_Version = si_Version iv, sqr_Edition = si_Edition iv,
       sqr_HARole = (if ags \<noteq> [] then ag_Role (last ags)
         else if ha_Mode (si_HA iv) = ''fci'' then ''fci'' else ''standalone''),
       sqr_HAGroup = (if ags \<noteq> [] then ag_AGName (last ags) else []),
       sqr_CollectionLevel = si_CollectionLevel iv,
       sqr_HostRAMGB = (if hr_AllocRAMGB hr > 0 then hr_AllocRAMGB hr
         else if si_PhysMemVisibleKB iv > 0 then round1 (of_u64 (si_PhysMemVisibleKB iv) / kib_per_gib) else 0),
       sqr_MinServerMemMB = si_MinServerMemoryMB iv, sqr_MaxServerMemMB = si_MaxServerMemoryMB iv,
       sqr_MaxIsUnlimited = si_MaxMemoryUnlimitedDefault iv, sqr_SQLProcessMemGB = 0, sqr_TotalServerMemGB = 0,
       sqr_TargetServerMemGB = 0, sqr_SQLMemPctOfHost = 0, sqr_SQLMemPctOfMax = 0, sqr_NonBufferMemGB = 0,
       sqr_OSHeadroomGB = 0, sqr_EngineUptimeDays = round1 (of_u64 (si_UptimeS iv) / fl 86400), sqr_PLEP5 = 0,
       sqr_GrantsPendingMax = 0, sqr_PressureSignals = [], sqr_BatchReqP95 = 0, sqr_SQLCPUP95 = 0,
       sqr_FileIOReadP95MS = 0, sqr_TopWaits = [], sqr_SQLSpikes = 0, sqr_JobCorrelates = [], sqr_Category = [],
       sqr_Recommendation = [], sqr_SuggestedMaxMemGB = None, sqr_Confidence = 0, sqr_ValidationRequired = False,
       sqr_Rationale = []\<rparr>)"

type_synonym wait_order = "(string \<times> f64) list \<Rightarrow> (string \<times> f64) list"

definition add_wait :: "(string, f64) go_map \<Rightarrow> string \<times> wait_delta \<Rightarrow> (string, f64) go_map" where
  "add_wait m p = AList.update (fst p)
     ((case map_of m (fst p) of Some v \<Rightarrow> v | None \<Rightarrow> 0) + wd_WaitMS (snd p)) m"

definition top_waits :: "wait_order \<Rightarrow> sql_sample list \<Rightarrow> string list" where
  "top_waits word ss =
     map (\<lambda>(n, ms). n @ '' ('' @ fmt_f 0 (ms / fl 1000) @ ''s)'')
       (take 5 (sort_key (\<lambda>w. - snd w) (word (foldl add_wait [] (concat (map sq_WaitDeltas ss))))))"

definition pressure_signals :: "sql_sample \<Rightarrow> host_report \<Rightarrow> int \<Rightarrow> int \<Rightarrow> string list" where
  "pressure_signals latest hr plep5 grants =
     (let bufGB = max 1 (of_u64 (sq_DatabaseCacheKB latest) / kib_per_gib);
          pleFloor = fl 300 * bufGB / fl 4
      in
      (if sq_ProcessPhysicalMemoryLow latest then [''process_physical_memory_low flag set''] else []) @
      (if grants > 0 then [''memory grants pending observed (max '' @ fmt_d grants @ '')''] else []) @
      (if of_go_int plep5 < pleFloor \<and> grants > 0
       then [''PLE P5 '' @ fmt_d plep5 @ ''s below scaled floor '' @ fmt_f 0 pleFloor @ ''s with grants pending'']
       else []) @
      (if hr_PagingEvidence hr then [''host-level paging during the window''] else []))"

definition job_correlates :: "sql_spike_context \<Rightarrow> string list" where
  "job_correlates sc =
     map (\<lambda>j. ''SQL Agent job: '' @ aj_JobName j) (filter aj_Running (sx_AgentJobs sc)) @
     (if sx_CorrelationLevel sc = CorrActiveRequest \<and> sx_ActiveRequests sc \<noteq> [] then
        let ar = hd (sx_ActiveRequests sc) in
        [''active request in db '' @ ar_Database ar @ '' ('' @ ar_Command ar @ '', query_hash '' @ ar_QueryHash ar @ '')'']
      else [])"

definition measured_sql :: "wait_order \<Rightarrow> host_data \<Rightarrow> sql_inventory \<Rightarrow> host_report \<Rightarrow> sql_sample list
    \<Rightarrow> sql_report \<Rightarrow> sql_report" where
  "measured_sql word h iv hr ss r =
     (let latest = last ss;
          plep5 = go_trunc (Quantile (sort (map (\<lambda>s. of_go_int (sq_PLESeconds s)) ss)) (fl (5 / 100)));
          grants = go_trunc (su_Max (Summarize (map (\<lambda>s. of_go_int (sq_MemoryGrantsPending s)) ss)));
          readLat = map io_ReadLatMS (filter (\<lambda>io. io_FileType io = ''data'') (concat (map sq_FileIO ss)));
          procGB = round1 (of_u64 (sq_PhysicalMemoryInUseKB latest) / kib_per_gib);
          totalGB = round1 (of_u64 (sq_TotalServerMemoryKB latest) / kib_per_gib);
          hostGB = sqr_HostRAMGB r;
          ctxs = filter (\<lambda>sc. sx_InstanceKey sc = si_InstanceKey iv) (hd_SQLSpikes h)
      in r\<lparr>sqr_PLEP5 := plep5,
           sqr_GrantsPendingMax := grants,
           sqr_BatchReqP95 := round1 (su_P95 (Summarize (map sq_BatchRequestsPS ss))),
           sqr_SQLCPUP95 := round1 (su_P95 (Summarize (map sq_SQLProcessCPUPct ss))),
           sqr_FileIOReadP95MS := round1 (su_P95 (Summarize readLat)),
           sqr_TopWaits := top_waits word ss,
           sqr_SQLProcessMemGB := procGB,
           sqr_TotalServerMemGB := totalGB,
           sqr_TargetServerMemGB := round1 (of_u64 (sq_TargetServerMemoryKB latest) / kib_per_gib),
           sqr_SQLMemPctOfHost := (if hostGB > 0 then round1 (procGB / hostGB * fl 100) else 0),
           sqr_OSHeadroomGB := (if hostGB > 0 then round1 (hostGB - procGB) else 0),
           sqr_SQLMemPctOfMax := (if sqr_MaxServerMemMB r > 0 \<and> \<not> sqr_MaxIsUnlimited r
             then round1 (of_u64 (sq_TotalServerMemoryKB latest) / fl 1024 / of_u64 (sqr_MaxServerMemMB r) * fl 100)
             else 0),
           sqr_NonBufferMemGB := (if procGB - totalGB > fl (1 / 2) then round1 (procGB - totalGB) else 0),
           sqr_PressureSignals := pressure_signals latest hr plep5 grants,
           sqr_SQLSpikes := int (length ctxs),
           sqr_JobCorrelates := dedupStrings (concat (map job_correlates ctxs))\<rparr>)"

definition analyzeSQLInstance :: "wait_order \<Rightarrow> host_data \<Rightarrow> sql_inventory \<Rightarrow> host_report \<Rightarrow> sql_report" where
  "analyzeSQLInstance word h iv hr =
     (let r = sql_identity h iv hr; ss = samples_of h (si_InstanceKey iv) in
      if si_CollectionLevel iv = SQLLevelProcessOnly \<or> ss = [] then
        r\<lparr>sqr_Category := CatMonitorLonger,
          sqr_Recommendation := ''SQL Server detected; deep SQL telemetry unavailable. Only process-level data '' @
            ''exists. Grant the documented least-privilege login (VIEW SERVER STATE) and monitor again for '' @
            ''memory-configuration analysis.'',
          sqr_ValidationRequired := True, sqr_Confidence := fl (2 / 10),
          sqr_Rationale := (if si_CollectionNote iv \<noteq> [] then [si_CollectionNote iv] else [])\<rparr>
      else classifySQL (measured_sql word h iv hr ss r) h iv hr)"

end
