(* ===== verification/FleetReport.thy ===== *)
theory FleetReport
  imports SqlAnalysis
begin

text \<open>
  The consolidated report of \<open>internal/analyzer/analyzer.go\<close>: \<open>Build\<close> walks the hosts in the order of
  their identifiers, adds their figures to the fleet summary, analyses their SQL instances, enters their
  spikes with the evidence of the SQL contexts, and groups the availability-group replicas. The clock and
  the orders of the maps \<open>DetectPatterns\<close> and \<open>analyzeSQLInstance\<close> range over are arguments.
\<close>

section \<open>Spike entries\<close>

definition context_evidence :: "string \<Rightarrow> sql_spike_context \<Rightarrow> string" where
  "context_evidence acc sc =
     (if sx_CorrelationLevel sc = CorrAgentJob then
        foldl (\<lambda>acc j. if aj_Running j then ''SQL Agent job running: '' @ aj_JobName j else acc) acc (sx_AgentJobs sc)
      else if sx_CorrelationLevel sc = CorrActiveRequest \<and> sx_ActiveRequests sc \<noteq> [] then
        let ar = hd (sx_ActiveRequests sc) in
        ''active request: db='' @ ar_Database ar @ '' cmd='' @ ar_Command ar @ '' cpu='' @ fmt_d (ar_CPUTimeMS ar) @
        ''ms query_hash='' @ ar_QueryHash ar
      else acc)"

definition validationStep :: "spike_report_entry \<Rightarrow> string" where
  "validationStep e =
     (if spe_SQLEvidence e \<noteq> [] \<and> spe_Recurrence e \<noteq> [] then
        ''Confirm the SQL Agent job schedule with the DBA and whether its window can move or its plan be tuned.''
      else if spe_SQLEvidence e \<noteq> [] then
        ''Review the captured query/plan hash with the DBA to identify the statement.''
      else if spe_Recurrence e \<noteq> [] \<and> spe_ServiceOrJob e \<noteq> [] then
        ''Confirm with the owner of '' @ spe_ServiceOrJob e @ '' that this scheduled run is expected and sized correctly.''
      else if spe_Recurrence e \<noteq> [] then
        ''Identify which scheduled task fires at this time (pattern is recurring but no job matched); '' @
        ''check schedules around the event time.''
      else if spe_Process e \<noteq> [] then
        ''Ask the application owner of '' @ spe_Process e @ '' whether this burst is expected at this time.''
      else
        ''Insufficient attribution evidence '' @ em_dash @
        '' extend monitoring or raise process sampling frequency around this time window.'')"

text \<open>\<open>Duration.Round(time.Minute)\<close> of a non-negative number of whole seconds.\<close>

definition round_minute_s :: "int \<Rightarrow> int" where
  "round_minute_s s = (let r = s mod 60 in if 2 * r < 60 then s - r else s + 60 - r)"

definition vcpuImpact :: "spike_event \<Rightarrow> int \<Rightarrow> string" where
  "vcpuImpact s alloc =
     (let total = foldl (+) 0 (map snd (ev_CoreSecondsByProc s)) in
      if total \<le> 0 \<or> ev_DurationS s \<le> 0 then []
      else
        let usedCores = total / ev_DurationS s; newAlloc = alloc sdiv 2 in
        if newAlloc < minVCPU then []
        else if usedCores \<le> of_go_int newAlloc * fl (8 / 10) then
          ''event used ~'' @ fmt_f 1 usedCores @ '' cores of '' @ fmt_d alloc @ ''; halving vCPU to '' @
          fmt_d newAlloc @ '' would likely not extend this job materially''
        else
          let newDur = go_trunc (total / (of_go_int newAlloc * fl (9 / 10))) in
          ''event used ~'' @ fmt_f 1 usedCores @ '' cores of '' @ fmt_d alloc @ '' for '' @
          fmt_dur_s (go_trunc (ev_DurationS s)) @ ''; at '' @ fmt_d newAlloc @
          '' vCPU this CPU-bound work could take up to ~'' @ fmt_dur_s (round_minute_s newDur) @ '' '' @ em_dash @
          '' validate the batch window'')"

definition spikeEntry :: "host_data \<Rightarrow> host_report \<Rightarrow> spike_event \<Rightarrow> pattern list \<Rightarrow> spike_report_entry" where
  "spikeEntry h hr s patterns =
     (let e = \<lparr>spe_HostID = hd_HostID h, spe_Hostname = hr_Hostname hr, spe_EventID = ev_EventID s,
            spe_StartTS = ev_StartTS s, spe_DurationS = ev_DurationS s, spe_Resource = ev_Resource s,
            spe_Device = ev_Device s, spe_Baseline = ev_Baseline s, spe_Peak = ev_Peak s,
            spe_Recurrence = (case PatternFor patterns (ev_EventID s) of Some p \<Rightarrow> pa_Description p | None \<Rightarrow> []),
            spe_Process = ev_CorrelatedProcess s, spe_ServiceOrJob = ev_CorrelatedServiceOrJob s,
            spe_SQLInstance = ev_SQLInstance s,
            spe_SQLEvidence = foldl context_evidence []
              (filter (\<lambda>sc. sx_EventID sc = ev_EventID s) (hd_SQLSpikes h)),
            spe_ProbableCause = ev_ProbableCause s, spe_Confidence = ev_AttributionConfidence s,
            spe_Evidence = ev_AttributionEvidence s, spe_NextValidationStep = [], spe_VCPUImpactNote = []\<rparr>
      in e\<lparr>spe_NextValidationStep := validationStep e,
           spe_VCPUImpactNote := (if ev_Resource s = ResCPU \<and> ev_CoreSecondsByProc s \<noteq> [] \<and> hr_AllocVCPU hr > 0
             then vcpuImpact s (hr_AllocVCPU hr) else [])\<rparr>)"

section \<open>Availability groups\<close>

definition appendUnique :: "string list \<Rightarrow> string \<Rightarrow> string list" where
  "appendUnique s v = (if v \<in> set s then s else s @ [v])"

definition new_group :: "string \<Rightarrow> ha_group" where
  "new_group name = \<lparr>hg_AGName = name, hg_Members = [], hg_Replicas = [],
     hg_Note = ''Replicas of one availability group: evaluate sizing together; a secondary must absorb the '' @
       ''primary's workload after failover. Topology-level validation required before any resize.''\<rparr>"

definition group_add :: "string \<Rightarrow> (string, ha_group) go_map \<Rightarrow> ag_info \<Rightarrow> (string, ha_group) go_map" where
  "group_add key m ag =
     (let g = (case map_of m (ag_AGName ag) of Some g \<Rightarrow> g | None \<Rightarrow> new_group (ag_AGName ag)) in
      AList.update (ag_AGName ag)
        (g\<lparr>hg_Members := hg_Members g @ [key @ '' ('' @ ag_Role ag @ '')''],
           hg_Replicas := foldl appendUnique (hg_Replicas g) (ag_PartnerReplicas ag)\<rparr>) m)"

definition group_map :: "dataset \<Rightarrow> (string, ha_group) go_map" where
  "group_map ds =
     foldl (\<lambda>m (id, h). foldl (\<lambda>m (key, iv). foldl (group_add key) m (ha_AGs (si_HA iv))) m (hd_SQLInv h))
       [] (ds_Hosts ds)"

definition buildHAGroups :: "dataset \<Rightarrow> ha_group list" where
  "buildHAGroups ds =
     sort_key hg_AGName (map (\<lambda>(n, g). g\<lparr>hg_Members := sort (hg_Members g)\<rparr>) (group_map ds))"

section \<open>The fleet\<close>

definition empty_fleet :: fleet_summary where
  "empty_fleet = \<lparr>fs_Hosts = 0, fs_SQLInstances = 0, fs_TotalAllocVCPU = 0, fs_TotalAllocRAMGB = 0,
     fs_SpikeEvents = 0, fs_Categories = [], fs_PotentialVCPU = 0, fs_PotentialRAMGB = 0\<rparr>"

definition potential_vcpu :: "host_report \<Rightarrow> int" where
  "potential_vcpu hr = (case hr_Suggested hr of None \<Rightarrow> 0
     | Some c \<Rightarrow> if cr_MinVCPU c > 0 \<and> cr_MinVCPU c < hr_AllocVCPU hr then hr_AllocVCPU hr - cr_MaxVCPU c else 0)"

definition add_potential_ram :: "host_report \<Rightarrow> f64 \<Rightarrow> f64" where
  "add_potential_ram hr acc = (case hr_Suggested hr of None \<Rightarrow> acc
     | Some c \<Rightarrow> if cr_MinRAMGB c > 0 \<and> cr_MaxRAMGB c < hr_AllocRAMGB hr
         then acc + (hr_AllocRAMGB hr - cr_MaxRAMGB c) else acc)"

definition add_host :: "host_report \<Rightarrow> fleet_summary \<Rightarrow> fleet_summary" where
  "add_host hr fs = fs
     \<lparr>fs_Hosts := fs_Hosts fs + 1,
      fs_TotalAllocVCPU := fs_TotalAllocVCPU fs + hr_AllocVCPU hr,
      fs_TotalAllocRAMGB := fs_TotalAllocRAMGB fs + hr_AllocRAMGB hr,
      fs_SpikeEvents := fs_SpikeEvents fs + hr_SpikeCount hr,
      fs_Categories := count_key (fs_Categories fs) (hr_Category hr),
      fs_PotentialVCPU := fs_PotentialVCPU fs + potential_vcpu hr,
      fs_PotentialRAMGB := add_potential_ram hr (fs_PotentialRAMGB fs)\<rparr>"

definition host_sql :: "wait_order \<Rightarrow> host_data \<Rightarrow> host_report \<Rightarrow> sql_report list" where
  "host_sql word h hr =
     map (\<lambda>key. analyzeSQLInstance word h (the (map_of (hd_SQLInv h) key)) hr) (sort (map fst (hd_SQLInv h)))"

definition host_spikes :: "group_order \<Rightarrow> host_data \<Rightarrow> host_report \<Rightarrow> spike_report_entry list" where
  "host_spikes ord h hr =
     (let patterns = DetectPatterns ord (hd_Spikes h) (hr_ObservedDays hr) in
      map (\<lambda>s. spikeEntry h hr s patterns) (hd_Spikes h))"

definition host_quality :: "host_data \<Rightarrow> host_report \<Rightarrow> string list" where
  "host_quality h hr =
     map (\<lambda>p. hr_Hostname hr @ '': '' @ p) (hd_Problems h) @
     (if hr_CoveragePct hr < fl 90 \<and> hd_Minutes h \<noteq> []
      then [hr_Hostname hr @ '': collection coverage only '' @ fmt_f 0 (hr_CoveragePct hr) @ ''% '' @ em_dash @
            '' gaps reduce percentile reliability''] else [])"

definition build_host :: "group_order \<Rightarrow> wait_order \<Rightarrow> report \<Rightarrow> host_data \<Rightarrow> report" where
  "build_host ord word rep h =
     (let hr = analyzeHost ord h; sqls = host_sql word h hr in
      rep\<lparr>rp_Hosts := rp_Hosts rep @ [hr],
          rp_Fleet := (add_host hr (rp_Fleet rep))\<lparr>fs_SQLInstances := fs_SQLInstances (rp_Fleet rep) + int (length sqls)\<rparr>,
          rp_SQLInstances := rp_SQLInstances rep @ sqls,
          rp_Spikes := rp_Spikes rep @ host_spikes ord h hr,
          rp_DataQuality := rp_DataQuality rep @ host_quality h hr\<rparr>)"

definition hosts_in_order :: "dataset \<Rightarrow> host_data list" where
  "hosts_in_order ds = map (\<lambda>id. the (map_of (ds_Hosts ds) id)) (sort (map fst (ds_Hosts ds)))"

definition Build :: "group_order \<Rightarrow> wait_order \<Rightarrow> time \<Rightarrow> dataset \<Rightarrow> report" where
  "Build ord word now ds =
     (let rep = foldl (build_host ord word)
            \<lparr>rp_GeneratedAt = now, rp_SchemaVersion = SchemaVersion, rp_ToolVersion = AgentVersion,
             rp_Fleet = empty_fleet, rp_Hosts = [], rp_SQLInstances = [], rp_HAGroups = [], rp_Spikes = [],
             rp_DataQuality = ds_Warnings ds\<rparr> (hosts_in_order ds)
      in rep\<lparr>rp_HAGroups := buildHAGroups ds, rp_Spikes := sort_key spe_StartTS (rp_Spikes rep)\<rparr>)"

record run_result =
  rr_Bundles :: int
  rr_OKBundles :: int
  rr_PartialBundles :: int
  rr_RejectedBundles :: int
  rr_Hosts :: int
  rr_SQLInstances :: int
  rr_Spikes :: int
  rr_Warnings :: "string list"

definition run_summary :: "dataset \<Rightarrow> report \<Rightarrow> run_result" where
  "run_summary ds rep = \<lparr>rr_Bundles = ds_Bundles ds, rr_OKBundles = ds_OKBundles ds,
     rr_PartialBundles = ds_PartialBundles ds, rr_RejectedBundles = ds_RejectedBundles ds,
     rr_Hosts = int (length (rp_Hosts rep)), rr_SQLInstances = int (length (rp_SQLInstances rep)),
     rr_Spikes = int (length (rp_Spikes rep)), rr_Warnings = ds_Warnings ds\<rparr>"

section \<open>The report in closed form\<close>

text \<open>What the loop over the hosts accumulates.\<close>

lemma build_hosts_fold:
  "foldl (build_host ord word) rep hs =
    (let hrs = map (analyzeHost ord) hs; sqls = concat (map (\<lambda>h. host_sql word h (analyzeHost ord h)) hs) in
     rep\<lparr>rp_Hosts := rp_Hosts rep @ hrs,
         rp_Fleet := (fold add_host hrs (rp_Fleet rep))\<lparr>fs_SQLInstances := fs_SQLInstances (rp_Fleet rep) + int (length sqls)\<rparr>,
         rp_SQLInstances := rp_SQLInstances rep @ sqls,
         rp_Spikes := rp_Spikes rep @ concat (map (\<lambda>h. host_spikes ord h (analyzeHost ord h)) hs),
         rp_DataQuality := rp_DataQuality rep @ concat (map (\<lambda>h. host_quality h (analyzeHost ord h)) hs)\<rparr>)"
proof (induction hs arbitrary: rep)
  case Nil
  then show ?case by (simp add: Let_def)
next
  case (Cons h hs)
  have one: "add_host hr (fs\<lparr>fs_SQLInstances := n\<rparr>) = (add_host hr fs)\<lparr>fs_SQLInstances := n\<rparr>" for hr fs n
    by (simp add: add_host_def)
  have frame: "fold add_host hrs (fs\<lparr>fs_SQLInstances := n\<rparr>) = (fold add_host hrs fs)\<lparr>fs_SQLInstances := n\<rparr>" for hrs fs n
    by (induction hrs arbitrary: fs) (simp_all add: one)
  show ?case unfolding foldl_Cons Cons.IH by (simp add: build_host_def Let_def frame)
qed

end
