(* ===== verification/SqlFacts.thy ===== *)
theory SqlFacts
  imports SqlAnalysis HostFacts
begin

text \<open>
  What the SQL ladder guarantees, and where its suggestion goes wrong: a reduction of max server memory
  is only suggested with enough evidence, but the suggested value always lies above the current limit.
\<close>

section \<open>Evidence\<close>

definition sql_evidence :: "sql_report \<Rightarrow> host_data \<Rightarrow> sql_inventory \<Rightarrow> host_report \<Rightarrow> bool" where
  "sql_evidence r h iv hr \<longleftrightarrow> sqr_HARole r \<noteq> ''SECONDARY'' \<and> \<not> sqr_MaxIsUnlimited r \<and> sqr_PressureSignals r = [] \<and>
     sqr_EngineUptimeDays r \<ge> fl 3 \<and> target_reached h (si_InstanceKey iv) \<and> sqr_GrantsPendingMax r = 0 \<and>
     of_go_int (sqr_PLEP5 r) > fl 3600 \<and> sqr_SQLCPUP95 r < fl 40 \<and> sqr_SQLMemPctOfMax r > fl 95"

lemma sql_conclude_simps [simp]:
  "sqr_Category (sql_conclude cat rec rs r) = cat"
  "sqr_SuggestedMaxMemGB (sql_conclude cat rec rs r) = sqr_SuggestedMaxMemGB r"
  "sqr_ValidationRequired (sql_conclude cat rec rs r) = sqr_ValidationRequired r"
  "sqr_MaxServerMemMB (sql_conclude cat rec rs r) = sqr_MaxServerMemMB r"
  by (simp_all add: sql_conclude_def)

text \<open>The suggested range of a reduction.\<close>

definition reduced_range :: "host_data \<Rightarrow> string \<Rightarrow> f64 \<times> f64" where
  "reduced_range h key = (let lo = roundGB (maxTotalServerMemGB h key * fl (12 / 10)) in (lo, roundGB (lo * fl (125 / 100))))"

lemma classifySQL_cases:
  assumes "sqr_SuggestedMaxMemGB r = None"
  shows "sqr_ValidationRequired (classifySQL r h iv hr) \<and>
    (sqr_Category (classifySQL r h iv hr) = CatPossibleRightsizing \<longrightarrow> sql_evidence r h iv hr \<and>
       (\<exists>c. sqr_SuggestedMaxMemGB (classifySQL r h iv hr) = Some c \<and>
         (cr_MinRAMGB c, cr_MaxRAMGB c) = reduced_range h (si_InstanceKey iv))) \<and>
    (sqr_Category (classifySQL r h iv hr) \<noteq> CatPossibleRightsizing \<longrightarrow>
       sqr_SuggestedMaxMemGB (classifySQL r h iv hr) \<noteq> None \<longrightarrow>
       sqr_MaxIsUnlimited r \<and> sqr_Category (classifySQL r h iv hr) = CatSQLMemoryConfig)"
  using assms
  by (simp add: classifySQL_def Let_def cat_defs sql_evidence_def reduced_range_def)

lemma sql_identity_simps [simp]:
  "sqr_SuggestedMaxMemGB (sql_identity h iv hr) = None"
  "sqr_MaxServerMemMB (sql_identity h iv hr) = si_MaxServerMemoryMB iv"
  "sqr_MaxIsUnlimited (sql_identity h iv hr) = si_MaxMemoryUnlimitedDefault iv"
  by (simp_all add: sql_identity_def Let_def)

lemma measured_sql_simps [simp]:
  "sqr_SuggestedMaxMemGB (measured_sql word h iv hr ss r) = sqr_SuggestedMaxMemGB r"
  "sqr_MaxServerMemMB (measured_sql word h iv hr ss r) = sqr_MaxServerMemMB r"
  "sqr_MaxIsUnlimited (measured_sql word h iv hr ss r) = sqr_MaxIsUnlimited r"
  by (simp_all add: measured_sql_def Let_def)

text \<open>
  C15. Every SQL report asks for validation, and a reduction of max server memory is only reported with
  deep telemetry on a primary or standalone instance with an explicit limit, without any pressure
  signal or pending grant, after three days of uptime with Total at Target, high page life expectancy
  and low SQL CPU; any other suggestion is the explicit limit proposed for an unlimited instance.
\<close>

theorem sql_reduction_needs_evidence:
  assumes "r = analyzeSQLInstance word h iv hr"
  shows "sqr_ValidationRequired r \<and>
    (sqr_Category r = CatPossibleRightsizing \<longrightarrow> si_CollectionLevel iv \<noteq> SQLLevelProcessOnly \<and>
       (let ss = samples_of h (si_InstanceKey iv); m = measured_sql word h iv hr ss (sql_identity h iv hr) in
        ss \<noteq> [] \<and> sql_evidence m h iv hr)) \<and>
    (sqr_SuggestedMaxMemGB r \<noteq> None \<longrightarrow> sqr_Category r = CatPossibleRightsizing \<or>
       sqr_Category r = CatSQLMemoryConfig \<and> si_MaxMemoryUnlimitedDefault iv)"
proof -
  let ?ss = "samples_of h (si_InstanceKey iv)"
  let ?m = "measured_sql word h iv hr ?ss (sql_identity h iv hr)"
  have "sqr_SuggestedMaxMemGB ?m = None" by simp
  note C = classifySQL_cases [OF this, of h iv hr]
  show ?thesis using C unfolding assms
    by (auto simp: analyzeSQLInstance_def Let_def cat_defs)
qed

section \<open>The suggested reduction\<close>

text \<open>Rounding within a millionth.\<close>

lemma rnd64_near:
  assumes "0 \<le> x"
  shows "x * (1 - 1 / 1000000) - 1 / 1000000 \<le> rnd64 x" "rnd64 x \<le> x * (1 + 1 / 1000000) + 1 / 1000000"
proof -
  have "f64_ulp \<le> 2 powi (- 20)" unfolding f64_ulp_def by (rule powi2_mono) simp
  then have u: "f64_ulp \<le> 1 / 1000000" by (simp add: power_int_def power_divide)
  have "f64_eta \<le> 2 powi (- 20)" unfolding f64_eta_def by (rule powi2_mono) simp
  then have e: "f64_eta \<le> 1 / 1000000" by (simp add: power_int_def power_divide)
  have "x * f64_ulp \<le> x * (1 / 1000000)" using assms u by (rule mult_left_mono [rotated])
  then show "x * (1 - 1 / 1000000) - 1 / 1000000 \<le> rnd64 x" "rnd64 x \<le> x * (1 + 1 / 1000000) + 1 / 1000000"
    using rnd64_bounds [OF assms] e by (simp_all add: algebra_simps)
qed

lemma max_total_ge: "mx \<le> max_total_kb mx ss" "s \<in> set ss \<Longrightarrow> sq_TotalServerMemoryKB s \<le> max_total_kb mx ss"
proof -
  have "\<forall>mx. mx \<le> max_total_kb mx ss \<and> (\<forall>s \<in> set ss. sq_TotalServerMemoryKB s \<le> max_total_kb mx ss)"
    by (induction ss) (auto intro: order_trans [OF less_imp_le] dest: spec split: if_splits, (meson not_less order_trans)+)
  then show "mx \<le> max_total_kb mx ss" "s \<in> set ss \<Longrightarrow> sq_TotalServerMemoryKB s \<le> max_total_kb mx ss" by auto
qed

lemma math_ceil_ge: "a \<le> math_ceil a"
proof -
  have "fval a \<le> of_int \<lceil>fval a\<rceil>" by simp
  then show ?thesis unfolding math_ceil_def go_ceil_def of_go_int_def by (rule fl_ge_iff_fval)
qed

text \<open>The measured percentage of the limit and the suggestion, from the latest total and the peak.\<close>

definition pct_of_max :: "u64 \<Rightarrow> u64 \<Rightarrow> f64" where
  "pct_of_max t m = round1 (of_u64 t / fl 1024 / of_u64 m * fl 100)"

lemma round1_95: "round1 (fl 95) = fl 95"
  by code_simp

lemma rnd64_numeral [simp]: "(numeral k :: int) \<le> 2 ^ 53 \<Longrightarrow> rnd64 (numeral k) = numeral k"
  using rnd64_of_int [of "numeral k"] by simp

lemma fval_kib [simp]: "fval kib_per_gib = 1048576"
  by (simp add: kib_per_gib_def of_go_int_def)

lemma of_u64_near:
  assumes "0 < w"
  shows "1 \<le> (of_int (uint w) :: rat)" "of_int (uint w) * 9 / 10 \<le> fval (of_u64 w)"
proof -
  have "1 \<le> uint w" using assms by (simp add: word_less_def)
  then show u: "1 \<le> (of_int (uint w) :: rat)" by (metis of_int_1 of_int_le_iff)
  show "of_int (uint w) * 9 / 10 \<le> fval (of_u64 w)"
  proof -
    define u where "u = (of_int (uint w) :: rat)"
    have u1: "1 \<le> u" using u by (simp only: u_def)
    then have "0 \<le> u" by simp
    from rnd64_near(1) [OF this] u1 show ?thesis unfolding fval_of_u64 u_def [symmetric] by simp
  qed
qed

lemma pct_above_95:
  assumes "fl 95 < pct_of_max t m"
  shows "95 < fval (of_u64 t / fl 1024 / of_u64 m * fl 100)"
proof (rule ccontr)
  assume "\<not> ?thesis"
  then have "of_u64 t / fl 1024 / of_u64 m * fl 100 \<le> fl 95" by (simp add: f64_le_iff)
  from round1_mono [OF this] assms show False by (simp add: pct_of_max_def round1_95)
qed

lemma total_near_limit:
  assumes "fl 95 < pct_of_max t m" "0 < m"
  shows "945 / 1000 * fval (of_u64 m) < fval (of_u64 t) / 1024"
proof -
  define T M where "T = fval (of_u64 t)" and "M = fval (of_u64 m)"
  define b a where "b = rnd64 (T / 1024)" and "a = rnd64 (b / M)"
  have T: "0 \<le> T" by (simp add: T_def of_u64_nonneg)
  have M: "9 / 10 \<le> M" using of_u64_near [OF assms(2)] unfolding M_def by linarith
  have b: "0 \<le> b" "b \<le> T / 1024 * (1 + 1 / 1000000) + 1 / 1000000"
    using rnd64_near(2) [of "T / 1024"] T by (simp_all add: b_def rnd64_nonneg)
  have q: "0 \<le> b / M" using b(1) M by simp
  have a: "0 \<le> a" "a \<le> b / M * (1 + 1 / 1000000) + 1 / 1000000"
    using rnd64_near(2) [OF q] q by (simp_all add: a_def rnd64_nonneg)
  have "fval (of_u64 t / fl 1024 / of_u64 m * fl 100) = rnd64 (a * 100)"
    by (simp add: fval_arith a_def b_def T_def M_def)
  then have "95 < rnd64 (a * 100)" using pct_above_95 [OF assms(1)] by simp
  then have "95 < a * 100 * (1 + 1 / 1000000) + 1 / 1000000" using rnd64_near(2) [of "a * 100"] a(1) by simp
  then have "949 / 1000 < a" by simp
  then have "948 / 1000 < b / M" using a(2) by simp
  then have "948 / 1000 * M < b" using M by (simp add: pos_less_divide_eq)
  then show ?thesis using b(2) M unfolding T_def [symmetric] M_def [symmetric] by simp
qed

lemma suggestion_above:
  assumes "945 / 1000 * fval (of_u64 m) < fval (of_u64 t) / 1024" "t \<le> p" "0 < m"
  shows "of_int (uint m) < fval (roundGB (of_u64 p / kib_per_gib * fl (12 / 10))) * 1024"
proof -
  define u where "u = (of_int (uint m) :: rat)"
  define P y c where "P = fval (of_u64 p)" and "y = rnd64 (P / 1048576)" and "c = fval (fl (12 / 10))"
  have P: "fval (of_u64 t) \<le> P" using of_u64_mono [OF assms(2)] by (simp add: P_def f64_le_iff)
  have u1: "1 \<le> u" unfolding u_def by (rule of_u64_near(1) [OF assms(3)])
  have "u * (1 - 1 / 1000000) - 1 / 1000000 \<le> fval (of_u64 m)"
    using rnd64_near(1) [of u] u1 unfolding fval_of_u64 u_def [symmetric] by linarith
  then have P0: "944 / 1000 * u < P / 1024" using assms(1) P u1 by simp
  have "P / 1048576 * (1 - 1 / 1000000) - 1 / 1000000 \<le> y"
    unfolding y_def by (rule rnd64_near(1)) (use P0 u1 in linarith)
  then have y: "94 / 100 * u \<le> y * 1024" using P0 u1 by simp
  have c: "119 / 100 \<le> c" using rnd64_near(1) [of "12 / 10"] by (simp add: c_def)
  have y0: "0 \<le> y" using y u1 by linarith
  define z where "z = y * c"
  have z: "y * (119 / 100) \<le> z" unfolding z_def using y0 c by (intro mult_left_mono)
  then have "0 \<le> z" using y0 by (simp add: z_def c_def rnd64_nonneg)
  then have "z * (1 - 1 / 1000000) - 1 / 1000000 \<le> rnd64 z" by (rule rnd64_near(1))
  then have "u < rnd64 (y * c) * 1024" unfolding z_def [symmetric] using z y u1 by simp
  also have "rnd64 (y * c) = fval (of_u64 p / kib_per_gib * fl (12 / 10))"
    by (simp add: fval_arith y_def P_def c_def)
  also have "\<dots> \<le> fval (roundGB (of_u64 p / kib_per_gib * fl (12 / 10)))"
    using math_ceil_ge [of "of_u64 p / kib_per_gib * fl (12 / 10)"] by (simp add: roundGB_def f64_le_iff)
  finally show ?thesis unfolding u_def by simp
qed

text \<open>
  The reduction that \<open>classifySQL\<close> suggests is never one: the branch requires Total Server Memory
  above 95 % of the limit, and the suggestion is the peak of Total Server Memory plus 20 %, so the
  whole suggested range lies above the max server memory that is configured.
\<close>

theorem sql_suggestion_exceeds_limit:
  assumes "sqr_Category (analyzeSQLInstance word h iv hr) = CatPossibleRightsizing"
  shows "\<exists>c. sqr_SuggestedMaxMemGB (analyzeSQLInstance word h iv hr) = Some c \<and>
    of_int (uint (si_MaxServerMemoryMB iv)) < fval (cr_MinRAMGB c) * 1024"
proof -
  let ?ss = "samples_of h (si_InstanceKey iv)"
  let ?m = "measured_sql word h iv hr ?ss (sql_identity h iv hr)"
  let ?t = "sq_TotalServerMemoryKB (last ?ss)"
  have A: "analyzeSQLInstance word h iv hr = classifySQL ?m h iv hr" and ne: "?ss \<noteq> []"
    using assms by (auto simp: analyzeSQLInstance_def Let_def cat_defs split: if_splits)
  have "sqr_SuggestedMaxMemGB ?m = None" by simp
  from classifySQL_cases [OF this, of h iv hr] assms obtain c where ev: "sql_evidence ?m h iv hr"
    and c: "sqr_SuggestedMaxMemGB (classifySQL ?m h iv hr) = Some c"
      "(cr_MinRAMGB c, cr_MaxRAMGB c) = reduced_range h (si_InstanceKey iv)"
    by (auto simp: A)
  have pos: "0 < si_MaxServerMemoryMB iv" and pct: "fl 95 < pct_of_max ?t (si_MaxServerMemoryMB iv)"
    using ev by (auto simp: sql_evidence_def measured_sql_def Let_def pct_of_max_def f64_less_iff
        split: if_splits)
  have "?t \<le> max_total_kb 0 ?ss" using ne by (intro max_total_ge(2)) simp
  from suggestion_above [OF total_near_limit [OF pct pos] this pos] c A show ?thesis
    by (auto simp: reduced_range_def Let_def maxTotalServerMemGB_def)
qed

text \<open>One instance at its limit: the peak is the limit, and the suggestion is 2 GB for a limit of 1000 MB.\<close>

definition full_sample :: sql_sample where
  "full_sample = \<lparr>m_Kind = KindSQLSample, m_Schema = SchemaVersion, m_TS = 1, sq_InstanceKey = ''A'',
     sq_PhysicalMemoryInUseKB = 1100000, sq_LockedPageAllocKB = 0, sq_LargePageAllocKB = 0,
     sq_MemoryUtilizationPct = 100, sq_ProcessPhysicalMemoryLow = False, sq_ProcessVirtualMemoryLow = False,
     sq_TotalServerMemoryKB = 1024000, sq_TargetServerMemoryKB = 1024000, sq_DatabaseCacheKB = 900000,
     sq_StolenServerMemoryKB = 0, sq_FreeMemoryKB = 0, sq_MemoryGrantsPending = 0, sq_MemoryGrantsActive = 0,
     sq_PLESeconds = 5000, sq_MemoryClerksTopKB = [], sq_BatchRequestsPS = 0, sq_CompilationsPS = 0,
     sq_RecompilationsPS = 0, sq_SQLProcessCPUPct = fl 10, sq_PageReadsPS = 0, sq_PageWritesPS = 0,
     sq_LazyWritesPS = 0, sq_CheckpointPagesPS = 0, sq_WaitDeltas = [], sq_BlockedSessions = 0, sq_FileIO = [],
     sq_TempdbUsedMB = 0, sq_TempdbTotalMB = 0\<rparr>"

definition full_inv :: sql_inventory where
  "full_inv = (ag_inventory ''A'' [])\<lparr>si_MaxServerMemoryMB := 1000, si_UptimeS := 345600,
     si_HA := \<lparr>ha_Mode = ''none'', ha_AGs = []\<rparr>\<rparr>"

definition full_host :: host_data where
  "full_host = (new_host ''h'')\<lparr>hd_SQLInv := [(''A'', full_inv)], hd_SQLSamples := [(''A'', [full_sample])]\<rparr>"

definition full_report :: host_report where
  "full_report = (base_report (new_host ''h''))\<lparr>hr_AllocRAMGB := fl 16\<rparr>"

lemma full_ple: "go_trunc (Quantile (sort [of_go_int 5000]) (fl (5 / 100))) = 5000"
  by code_simp

lemma full_grants: "go_trunc (su_Max (Summarize [of_go_int 0])) = 0"
  by code_simp

lemma full_cpu: "round1 (su_P95 (Summarize [fl 10])) < fl 40"
  by code_simp

lemma full_pct: "fl 95 < round1 (of_u64 1024000 / fl 1024 / of_u64 1000 * fl 100)"
  by code_simp

lemma full_uptime: "fl 3 \<le> round1 (of_u64 345600 / fl 86400)"
  by code_simp

lemma full_target: "fl (95 / 100) * of_u64 1024000 \<le> of_u64 1024000"
  by code_simp

lemma full_ple_high: "fl 3600 < of_go_int 5000"
  by code_simp

lemma full_evidence:
  "sql_evidence (measured_sql (\<lambda>ws. ws) full_host full_inv full_report [full_sample] (sql_identity full_host full_inv full_report))
     full_host full_inv full_report"
proof -
  have "hr_PagingEvidence full_report = False"
    by (simp add: full_report_def base_report_def Let_def new_host_def)
  then have "pressure_signals full_sample full_report 5000 0 = []"
    by (simp add: pressure_signals_def full_sample_def Let_def)
  moreover have "target_reached full_host (si_InstanceKey full_inv)"
    using full_target
    by (simp add: target_reached_def latestSample_def samples_of_def full_host_def full_sample_def full_inv_def
        ag_inventory_def Let_def)
  ultimately show ?thesis
    using full_ple full_grants full_cpu full_pct full_uptime full_ple_high
    by (simp add: sql_evidence_def measured_sql_def sql_identity_def Let_def full_inv_def ag_inventory_def
        full_sample_def [THEN arg_cong, of sq_PLESeconds, simplified]
        full_sample_def [THEN arg_cong, of sq_MemoryGrantsPending, simplified]
        full_sample_def [THEN arg_cong, of sq_SQLProcessCPUPct, simplified]
        full_sample_def [THEN arg_cong, of sq_TotalServerMemoryKB, simplified])
qed

lemma evidence_possible:
  "sql_evidence r h iv hr \<Longrightarrow> length (hd_SQLInv h) \<le> 1 \<Longrightarrow>
   sqr_Category (classifySQL r h iv hr) = CatPossibleRightsizing"
  by (auto simp: classifySQL_def Let_def sql_evidence_def)

lemma full_possible: "sqr_Category (analyzeSQLInstance (\<lambda>ws. ws) full_host full_inv full_report) = CatPossibleRightsizing"
proof -
  have "samples_of full_host (si_InstanceKey full_inv) = [full_sample]" "si_CollectionLevel full_inv \<noteq> SQLLevelProcessOnly"
    by (simp_all add: samples_of_def full_host_def full_inv_def ag_inventory_def SQLLevelDeep_def SQLLevelProcessOnly_def)
  moreover have "length (hd_SQLInv full_host) \<le> 1" by (simp add: full_host_def)
  ultimately show ?thesis
    using evidence_possible [OF full_evidence] by (simp add: analyzeSQLInstance_def Let_def)
qed

theorem sql_suggestion_exceeds_limit_witness:
  "\<exists>c. sqr_SuggestedMaxMemGB (analyzeSQLInstance (\<lambda>ws. ws) full_host full_inv full_report) = Some c \<and>
    1000 < fval (cr_MinRAMGB c) * 1024"
  using sql_suggestion_exceeds_limit [OF full_possible] by (simp add: full_inv_def)

theorem sql_reduction_needs_evidence_witness:
  "sqr_ValidationRequired (analyzeSQLInstance (\<lambda>ws. ws) full_host full_inv full_report) \<and>
   sql_evidence (measured_sql (\<lambda>ws. ws) full_host full_inv full_report (samples_of full_host (si_InstanceKey full_inv))
     (sql_identity full_host full_inv full_report)) full_host full_inv full_report"
  using sql_reduction_needs_evidence [OF refl, of "\<lambda>ws. ws" full_host full_inv full_report] full_possible
  by (simp add: Let_def)

end
