(* ===== verification/FleetFacts.thy ===== *)
theory FleetFacts
  imports FleetReport SqlFacts
begin

text \<open>
  The fleet summary against the host reports it is computed from, the bounds of the indicative
  reductions, and what of the report depends on the iteration order of the maps.
\<close>

section \<open>Totals\<close>

definition key_count :: "(string, int) go_map \<Rightarrow> string \<Rightarrow> int" where
  "key_count m k = (case map_of m k of Some n \<Rightarrow> n | None \<Rightarrow> 0)"

lemma key_count_count_key: "key_count (count_key m k) k' = key_count m k' + (if k = k' then 1 else 0)"
  by (simp add: key_count_def count_key_def go_map.lookup_upd split: option.split)

lemma fold_add_host:
  "fs_Hosts (fold add_host hrs fs) = fs_Hosts fs + int (length hrs) \<and>
   fs_TotalAllocVCPU (fold add_host hrs fs) = fs_TotalAllocVCPU fs + sum_list (map hr_AllocVCPU hrs) \<and>
   fs_SpikeEvents (fold add_host hrs fs) = fs_SpikeEvents fs + sum_list (map hr_SpikeCount hrs) \<and>
   fs_PotentialVCPU (fold add_host hrs fs) = fs_PotentialVCPU fs + sum_list (map potential_vcpu hrs) \<and>
   fs_PotentialRAMGB (fold add_host hrs fs) = fold add_potential_ram hrs (fs_PotentialRAMGB fs) \<and>
   (\<forall>c. key_count (fs_Categories (fold add_host hrs fs)) c =
      key_count (fs_Categories fs) c + int (length (filter (\<lambda>hr. hr_Category hr = c) hrs)))"
  by (induction hrs arbitrary: fs) (simp_all add: add_host_def key_count_count_key)

lemma Build_simps:
  "rp_Hosts (Build ord word now ds) = map (analyzeHost ord) (hosts_in_order ds)"
  "rp_SQLInstances (Build ord word now ds) = concat (map (\<lambda>h. host_sql word h (analyzeHost ord h)) (hosts_in_order ds))"
  "rp_Spikes (Build ord word now ds) = sort_key spe_StartTS
     (concat (map (\<lambda>h. host_spikes ord h (analyzeHost ord h)) (hosts_in_order ds)))"
  "rp_Fleet (Build ord word now ds) = (fold add_host (map (analyzeHost ord) (hosts_in_order ds)) empty_fleet)
     \<lparr>fs_SQLInstances := int (length (rp_SQLInstances (Build ord word now ds)))\<rparr>"
  "rp_HAGroups (Build ord word now ds) = buildHAGroups ds"
  by (simp_all add: Build_def build_hosts_fold Let_def empty_fleet_def)

lemma host_spikes_length: "length (host_spikes ord h hr) = length (hd_Spikes h)"
  by (simp add: host_spikes_def Let_def)

lemma step_keeps [simp]:
  "hr_SpikeCount (add_rationale rs r) = hr_SpikeCount r" "hr_SpikeCount (conclude cat rec r) = hr_SpikeCount r"
  "hr_AllocVCPU (add_rationale rs r) = hr_AllocVCPU r" "hr_AllocVCPU (conclude cat rec r) = hr_AllocVCPU r"
  "hr_AllocRAMGB (add_rationale rs r) = hr_AllocRAMGB r" "hr_AllocRAMGB (conclude cat rec r) = hr_AllocRAMGB r"
  by (simp_all add: add_rationale_def conclude_def)

lemma ladder_keeps [simp]:
  "hr_SpikeCount (classify_ladder r ha conf) = hr_SpikeCount r"
  "hr_AllocVCPU (classify_ladder r ha conf) = hr_AllocVCPU r"
  "hr_AllocRAMGB (classify_ladder r ha conf) = hr_AllocRAMGB r"
  by (auto simp: classify_ladder_def Let_def)

lemma classifyHost_keeps [simp]:
  "hr_SpikeCount (classifyHost r h) = hr_SpikeCount r" "hr_AllocVCPU (classifyHost r h) = hr_AllocVCPU r"
  "hr_AllocRAMGB (classifyHost r h) = hr_AllocRAMGB r"
  by (simp_all add: classifyHost_def add_rationale_def Let_def)

lemma measured_keeps [simp]:
  "hr_SpikeCount (measured_report ord h) = int (length (hd_Spikes h))"
  "hr_AllocVCPU (measured_report ord h) = hr_AllocVCPU (base_report h)"
  "hr_AllocRAMGB (measured_report ord h) = hr_AllocRAMGB (base_report h)"
  by (simp_all add: measured_report_def Let_def)

lemma base_keeps [simp]: "hr_SpikeCount (base_report h) = 0" "hr_Suggested (base_report h) = None"
  by (simp_all add: base_report_def Let_def split: option.split)

lemma hr_SpikeCount_analyze:
  "hr_SpikeCount (analyzeHost ord h) = (if hd_Minutes h = [] then 0 else int (length (hd_Spikes h)))"
  by (simp add: analyzeHost_def)


section \<open>Indicative reductions\<close>

lemma ladder_suggests:
  assumes "hr_Suggested r = None" "hr_Suggested (classify_ladder r ha conf) = Some c"
  shows "\<exists>c'. suggestCapacity r = Some c' \<and> cr_MinVCPU c = cr_MinVCPU c' \<and> cr_MaxVCPU c = cr_MaxVCPU c'"
  using assms by (auto simp: classify_ladder_def Let_def split: if_splits)

lemma suggested_vcpu:
  assumes "hr_Suggested (analyzeHost ord h) = Some c"
  shows "2 \<le> cr_MinVCPU c \<and> cr_MinVCPU c < cr_MaxVCPU c \<and> cr_MaxVCPU c \<le> hr_AllocVCPU (analyzeHost ord h)"
proof -
  have ne: "hd_Minutes h \<noteq> []" using assms by (auto simp: analyzeHost_def)
  let ?r = "measured_report ord h"
  let ?r' = "?r\<lparr>hr_ValidationRequired := True, hr_Confidence := confidenceFrom (hr_ObservedDays ?r) (hr_CoveragePct ?r)\<rparr>"
  have "hr_Suggested (classify_ladder ?r' (localHARole h) (confidenceFrom (hr_ObservedDays ?r) (hr_CoveragePct ?r))) = Some c"
    using assms ne by (simp add: analyzeHost_def classifyHost_eq)
  from ladder_suggests [OF _ this] obtain c' where c': "suggestCapacity ?r' = Some c'" "cr_MinVCPU c = cr_MinVCPU c'" "cr_MaxVCPU c = cr_MaxVCPU c'"
    by auto
  from suggestCapacity_vcpu [OF c'(1)] c'(2,3) ne show ?thesis by (simp add: analyzeHost_def minVCPU_def)
qed

lemma potential_vcpu_range:
  assumes "0 \<le> hr_AllocVCPU (analyzeHost ord h)"
  shows "0 \<le> potential_vcpu (analyzeHost ord h) \<and> potential_vcpu (analyzeHost ord h) \<le> hr_AllocVCPU (analyzeHost ord h)"
  using assms suggested_vcpu [of ord h] by (auto simp: potential_vcpu_def split: option.split)

lemma add_potential_ram_ge: "acc \<le> add_potential_ram hr acc"
proof -
  have "acc \<le> acc + (a - b)" if "b < a" for a b :: f64
  proof -
    have "0 \<le> a - b" using that by (simp add: f64_le_iff fval_arith f64_less_iff rnd64_nonneg)
    then have "fval acc \<le> fval acc + fval (a - b)" by (simp add: f64_zero_le)
    then have "rnd64 (fval acc) \<le> rnd64 (fval acc + fval (a - b))" by (rule rnd64_mono)
    then show ?thesis by (simp add: f64_le_iff fval_arith)
  qed
  then show ?thesis by (simp add: add_potential_ram_def split: option.split)
qed

lemma fold_potential_ram: "acc \<le> fold add_potential_ram hrs acc"
  by (induction hrs arbitrary: acc) (auto intro: order_trans [OF add_potential_ram_ge])

text \<open>
  C26. The indicative reductions of the fleet summary are plausible bounds: the number of vCPUs that
  could be given back is neither negative nor more than what is allocated, and leaves every host it
  counts at least three; the memory that could be given back is not negative.
\<close>

theorem potential_bounds:
  assumes "\<forall>h \<in> set (hosts_in_order ds). 0 \<le> hr_AllocVCPU (analyzeHost ord h)"
  shows "0 \<le> fs_PotentialVCPU (rp_Fleet (Build ord word now ds)) \<and>
    fs_PotentialVCPU (rp_Fleet (Build ord word now ds)) \<le> fs_TotalAllocVCPU (rp_Fleet (Build ord word now ds)) \<and>
    0 \<le> fs_PotentialRAMGB (rp_Fleet (Build ord word now ds)) \<and>
    (\<forall>hr \<in> set (rp_Hosts (Build ord word now ds)). 0 < potential_vcpu hr \<longrightarrow> 3 \<le> hr_AllocVCPU hr - potential_vcpu hr)"
proof -
  let ?hs = "hosts_in_order ds"
  let ?hrs = "map (analyzeHost ord) ?hs"
  have r: "0 \<le> potential_vcpu hr \<and> potential_vcpu hr \<le> hr_AllocVCPU hr" if "hr \<in> set ?hrs" for hr
    using that assms potential_vcpu_range by auto
  have "0 \<le> sum_list (map potential_vcpu ?hrs)" using r by (intro sum_list_nonneg) auto
  moreover have "sum_list (map potential_vcpu ?hrs) \<le> sum_list (map hr_AllocVCPU ?hrs)"
    using r by (intro sum_list_mono) auto
  moreover have "0 \<le> fold add_potential_ram ?hrs 0" by (rule fold_potential_ram)
  moreover have "3 \<le> hr_AllocVCPU (analyzeHost ord h) - potential_vcpu (analyzeHost ord h)"
    if "0 < potential_vcpu (analyzeHost ord h)" for h
    using that suggested_vcpu [of ord h] by (auto simp: potential_vcpu_def split: option.splits if_splits)
  ultimately show ?thesis
    using fold_add_host [of ?hrs empty_fleet] by (auto simp: Build_simps empty_fleet_def simp del: fold_map)
qed

theorem potential_bounds_witness:
  "0 \<le> fs_PotentialVCPU (rp_Fleet (Build id (\<lambda>ws. ws) 5 \<lparr>ds_Hosts = [(''idle'', idle_host)], ds_Warnings = [],
     ds_Bundles = 1, ds_OKBundles = 1, ds_PartialBundles = 0, ds_RejectedBundles = 0\<rparr>))"
proof -
  let ?ds = "\<lparr>ds_Hosts = [(''idle'', idle_host)], ds_Warnings = [], ds_Bundles = 1, ds_OKBundles = 1,
    ds_PartialBundles = 0, ds_RejectedBundles = 0\<rparr>"
  have "hr_AllocVCPU (analyzeHost id idle_host) = 0"
    by (simp add: analyzeHost_def idle_fields base_report_def Let_def)
  then have "\<forall>h \<in> set (hosts_in_order ?ds). 0 \<le> hr_AllocVCPU (analyzeHost id h)"
    by (simp add: hosts_in_order_def)
  from potential_bounds [OF this, of "\<lambda>ws. ws" 5] show ?thesis by blast
qed

section \<open>The order of the maps\<close>

text \<open>
  C27. The iteration order of the map of hosts does not show in the report, except in the groups: two
  datasets with the same hosts under different orders give the same hosts, instances, spikes, totals
  and data-quality notes.
\<close>

theorem report_order_irrelevant:
  assumes "distinct (map fst (ds_Hosts ds))" "mset (ds_Hosts ds) = mset hosts"
  shows "Build ord word now (ds\<lparr>ds_Hosts := hosts\<rparr>) =
    (Build ord word now ds)\<lparr>rp_HAGroups := buildHAGroups (ds\<lparr>ds_Hosts := hosts\<rparr>)\<rparr>"
proof -
  have m: "mset (map fst (ds_Hosts ds)) = mset (map fst hosts)" using assms(2) by simp
  then have d: "distinct (map fst hosts)" using assms(1) mset_eq_imp_distinct_iff by blast
  have "set (ds_Hosts ds) = set hosts" using assms(2) by (metis set_mset_mset)
  then have "map_of (ds_Hosts ds) = map_of hosts" using assms(1) d by (simp add: map_of_inject_set)
  moreover have "sort (map fst (ds_Hosts ds)) = sort (map fst hosts)" using m by (rule sort_eq_iff_mset)
  ultimately have "hosts_in_order (ds\<lparr>ds_Hosts := hosts\<rparr>) = hosts_in_order ds" by (simp add: hosts_in_order_def)
  then show ?thesis by (simp add: Build_def Let_def)
qed

theorem report_order_irrelevant_witness:
  "rp_Hosts (Build id (\<lambda>ws. ws) 5 \<lparr>ds_Hosts = [(''b'', new_host ''b''), (''a'', new_host ''a'')], ds_Warnings = [],
     ds_Bundles = 0, ds_OKBundles = 0, ds_PartialBundles = 0, ds_RejectedBundles = 0\<rparr>) =
   rp_Hosts (Build id (\<lambda>ws. ws) 5 \<lparr>ds_Hosts = [(''a'', new_host ''a''), (''b'', new_host ''b'')], ds_Warnings = [],
     ds_Bundles = 0, ds_OKBundles = 0, ds_PartialBundles = 0, ds_RejectedBundles = 0\<rparr>)"
  using report_order_irrelevant [of "\<lparr>ds_Hosts = [(''a'', new_host ''a''), (''b'', new_host ''b'')], ds_Warnings = [],
     ds_Bundles = 0, ds_OKBundles = 0, ds_PartialBundles = 0, ds_RejectedBundles = 0\<rparr>"
     "[(''b'', new_host ''b''), (''a'', new_host ''a'')]" id "\<lambda>ws. ws" 5]
  by simp

text \<open>The partner replicas of a group are listed in the order the runtime visits the hosts.\<close>

definition replica_host :: "string \<Rightarrow> string \<Rightarrow> host_data" where
  "replica_host key partner = (new_host key)\<lparr>hd_SQLInv := [(key, (ag_inventory key ''PRIMARY'')\<lparr>si_HA :=
     \<lparr>ha_Mode = ''ag'', ha_AGs = [\<lparr>ag_AGName = ''AG'', ag_Role = ''PRIMARY'', ag_SyncState = [],
       ag_ReadableSecondary = [], ag_PartnerReplicas = [partner]\<rparr>]\<rparr>\<rparr>)]\<rparr>"

lemma replicas_depend_on_order:
  "map hg_Replicas (buildHAGroups \<lparr>ds_Hosts = [(''a'', replica_host ''a'' ''x''), (''b'', replica_host ''b'' ''y'')],
     ds_Warnings = [], ds_Bundles = 0, ds_OKBundles = 0, ds_PartialBundles = 0, ds_RejectedBundles = 0\<rparr>) = [[''x'', ''y'']]"
  "map hg_Replicas (buildHAGroups \<lparr>ds_Hosts = [(''b'', replica_host ''b'' ''y''), (''a'', replica_host ''a'' ''x'')],
     ds_Warnings = [], ds_Bundles = 0, ds_OKBundles = 0, ds_PartialBundles = 0, ds_RejectedBundles = 0\<rparr>) = [[''y'', ''x'']]"
  by (simp_all add: buildHAGroups_def group_map_def replica_host_def ag_inventory_def group_add_def new_group_def
      appendUnique_def Let_def)

end
