(* ===== verification/Bundle.thy ===== *)
theory Bundle
  imports SpoolRuns
begin

text \<open>
  The encrypted export format of \<open>internal/bundle/bundle.go\<close>. A bundle is the list of its tar items: an
  encrypted manifest, then one encrypted file per closed segment. What is not the repository's own code
  is one argument, the record \<open>codec\<close>: the age encryption of the wrappers in \<open>internal/crypt\<close>, SHA-256,
  the JSON codec of the manifest, the bytes of a segment file, and what the spool's reader needs. Every
  step of \<open>Export\<close> that can fail asks the argument \<open>fails\<close>.
\<close>

section \<open>Parameters and state\<close>

record codec =
  cd_enc :: "string \<Rightarrow> string \<Rightarrow> string \<Rightarrow> string"
  cd_dec :: "string \<Rightarrow> string + string"
  cd_sha :: "string \<Rightarrow> string"
  cd_ser :: "manifest \<Rightarrow> string"
  cd_par :: "string \<Rightarrow> string + manifest"
  cd_gz :: "chunk list \<Rightarrow> string"
  cd_ungz :: "string \<Rightarrow> chunk list"
  cd_junk :: "chunk list \<Rightarrow> string"
  cd_valid :: "string \<Rightarrow> bool"

datatype tar_item =
    Entry string string
  | BrokenEntry string
  | TarError string

record export_input =
  in_Recipient :: string
  in_HostID :: string
  in_Hostname :: string
  in_Timezone :: string
  in_ConfigHash :: string
  in_Health :: health_summary
  in_RemoveAfter :: bool

datatype export_stage =
    MkdirOut | OpenTmp | MakeTempDir | EncryptSeg string | HashSeg string | EncryptManifest
  | ReadBack string | WriteEntry string | CloseTar | SyncTmp | CloseTmp | RenameTmp

datatype export_error =
    RotateFailed spool_error
  | NothingToExport
  | StageFailed export_stage

definition manifestName :: string where
  "manifestName = ''manifest.json.age''"

definition entry_name :: "string \<Rightarrow> string" where
  "entry_name n = ''segments/'' @ n @ ''.age''"

section \<open>Export\<close>

definition encrypted_segment :: "codec \<Rightarrow> string \<Rightarrow> disk \<Rightarrow> segment_info \<Rightarrow> string" where
  "encrypted_segment c recipient d seg =
     cd_enc c recipient (sg_Name seg) (cd_gz c (case map_of (dk_closed d) (sg_Name seg) of Some f \<Rightarrow> f | None \<Rightarrow> []))"

definition add_segment :: "codec \<Rightarrow> string \<Rightarrow> disk \<Rightarrow> manifest \<Rightarrow> segment_info \<Rightarrow> manifest" where
  "add_segment c recipient d m seg =
     (let ct = encrypted_segment c recipient d seg in
      m\<lparr>mf_Segments := mf_Segments m @
          [\<lparr>sm_Name = entry_name (sg_Name seg), sm_Kind = sg_Kind seg, sm_SHA256 = cd_sha c ct,
            sm_SizeBytes = int (length ct), sm_Records = sg_Records seg, sm_MinTS = sg_MinTS seg,
            sm_MaxTS = sg_MaxTS seg\<rparr>],
        mf_PeriodStart := (if is_zero_time (mf_PeriodStart m) \<or>
            (\<not> is_zero_time (sg_MinTS seg) \<and> sg_MinTS seg < mf_PeriodStart m)
          then sg_MinTS seg else mf_PeriodStart m),
        mf_PeriodEnd := (if sg_MaxTS seg > mf_PeriodEnd m then sg_MaxTS seg else mf_PeriodEnd m)\<rparr>)"

definition new_manifest :: "export_input \<Rightarrow> string \<Rightarrow> time \<Rightarrow> manifest" where
  "new_manifest inp bundleID now =
     \<lparr>mf_SchemaVersion = SchemaVersion, mf_AgentVersion = AgentVersion, mf_BundleID = bundleID,
      mf_HostID = in_HostID inp, mf_Hostname = in_Hostname inp, mf_Timezone = in_Timezone inp,
      mf_CreatedAt = now, mf_PeriodStart = 0, mf_PeriodEnd = 0, mf_ConfigHash = in_ConfigHash inp,
      mf_Segments = [], mf_Health = in_Health inp\<rparr>"

definition build_manifest :: "codec \<Rightarrow> export_input \<Rightarrow> string \<Rightarrow> time \<Rightarrow> disk \<Rightarrow> segment_info list \<Rightarrow> manifest" where
  "build_manifest c inp bundleID now d segs =
     foldl (add_segment c (in_Recipient inp) d) (new_manifest inp bundleID now) segs"

definition bundle_items :: "codec \<Rightarrow> export_input \<Rightarrow> disk \<Rightarrow> manifest \<Rightarrow> segment_info list \<Rightarrow> tar_item list" where
  "bundle_items c inp d m segs =
     Entry manifestName (cd_enc c (in_Recipient inp) manifestName (cd_ser c m)) #
     map (\<lambda>seg. Entry (entry_name (sg_Name seg)) (encrypted_segment c (in_Recipient inp) d seg)) segs"

text \<open>The steps in the order of the code; the first that fails ends the export.\<close>

definition export_stages :: "segment_info list \<Rightarrow> export_stage list" where
  "export_stages segs =
     [MkdirOut, OpenTmp, MakeTempDir] @
     concat (map (\<lambda>seg. [EncryptSeg (sg_Name seg), HashSeg (sg_Name seg)]) segs) @
     [EncryptManifest, WriteEntry manifestName] @
     concat (map (\<lambda>seg. [ReadBack (sg_Name seg), WriteEntry (sg_Name seg)]) segs) @
     [CloseTar, SyncTmp, CloseTmp, RenameTmp]"

definition first_failure :: "(export_stage \<Rightarrow> bool) \<Rightarrow> export_stage list \<Rightarrow> export_stage option" where
  "first_failure fails stages = (case filter fails stages of [] \<Rightarrow> None | st # rest \<Rightarrow> Some st)"

definition remove_exported :: "segment_info list \<Rightarrow> store \<Rightarrow> store" where
  "remove_exported segs s = s\<lparr>s_disk := foldl (\<lambda>d seg. fst (Remove (sg_Name seg) d)) (s_disk s) segs\<rparr>"

text \<open>\<open>rot\<close> is \<open>Store.Rotate\<close> with the outcomes of its system calls.\<close>

definition Export :: "codec \<Rightarrow> (store \<Rightarrow> store \<times> spool_error option) \<Rightarrow> (export_stage \<Rightarrow> bool) \<Rightarrow> string \<Rightarrow> time
    \<Rightarrow> export_input \<Rightarrow> store \<Rightarrow> store \<times> (export_error + tar_item list)" where
  "Export c rot fails bundleID now inp s =
     (case rot s of
        (s, Some e) \<Rightarrow> (s, Inl (RotateFailed e))
      | (s, None) \<Rightarrow>
        let segs = ListClosed (s_disk s) in
        if segs = [] then (s, Inl NothingToExport)
        else (case first_failure fails (export_stages segs) of
            Some st \<Rightarrow> (s, Inl (StageFailed st))
          | None \<Rightarrow>
            let m = build_manifest c inp bundleID now (s_disk s) segs in
            (if in_RemoveAfter inp then remove_exported segs s else s,
             Inr (bundle_items c inp (s_disk s) m segs))))"

section \<open>Import\<close>

record segment_result =
  sr_Meta :: segment_meta
  sr_Status :: string
  sr_Records :: "string list"
  sr_Err :: string

record import_result =
  ir_Path :: string
  ir_Manifest :: "manifest option"
  ir_Segments :: "segment_result list"
  ir_Fatal :: string

definition Ok :: "import_result \<Rightarrow> bool" where
  "Ok r \<longleftrightarrow> ir_Fatal r = [] \<and>
     list_ex (\<lambda>s. sr_Status s = ''ok'' \<or> sr_Status s = ''truncated_records'') (ir_Segments r)"

text \<open>\<open>filepath.ToSlash(filepath.Clean(name))\<close>: the lexical rules of package path.\<close>

definition clean_step :: "bool \<Rightarrow> string list \<Rightarrow> string \<Rightarrow> string list" where
  "clean_step rooted out part =
     (if part = [] \<or> part = ''.'' then out
      else if part = ''..'' then
        (if out \<noteq> [] \<and> last out \<noteq> ''..'' then butlast out else if rooted then out else out @ [part])
      else out @ [part])"

definition clean_path :: "string \<Rightarrow> string" where
  "clean_path name =
     (let rooted = (name \<noteq> [] \<and> hd name = CHR ''/'');
          out = foldl (clean_step rooted) [] (split_on (CHR ''/'') name)
      in if rooted then CHR ''/'' # concat (map (\<lambda>i. if i = 0 then out ! i else CHR ''/'' # out ! i) [0..<length out])
         else if out = [] then ''.''
         else concat (map (\<lambda>i. if i = 0 then out ! i else CHR ''/'' # out ! i) [0..<length out]))"

text \<open>
  The path of a new bundle: \<open>filepath.Join(OutDir, HostID-20060102T150405Z.urab)\<close>. The first definition is
  \<open>Format("20060102T1504")\<close>.
\<close>

definition fmt_minute :: "time \<Rightarrow> string" where
  "fmt_minute t = fmt_date t @ ''T'' @ fmt_0d 2 (hour_of_day t) @ fmt_0d 2 (minute_of_hour t)"

definition bundle_path :: "string \<Rightarrow> string \<Rightarrow> time \<Rightarrow> string" where
  "bundle_path outDir hostID now =
     (let name = hostID @ ''-'' @ fmt_minute now @ fmt_0d 2 ((now div seconds 1) mod 60) @ ''Z.urab''
      in clean_path (if outDir = [] then name else outDir @ ''/'' @ name))"

fun has_dotdot :: "string \<Rightarrow> bool" where
  "has_dotdot (a # b # cs) = (a = CHR ''.'' \<and> b = CHR ''.'' \<or> has_dotdot (b # cs))"
| "has_dotdot _ = False"

definition maxEntry :: nat where
  "maxEntry = 2 ^ 30"

text \<open>The loop over the tar items: the files read, and the text of a fatal error.\<close>

fun read_tar :: "tar_item list \<Rightarrow> (string, string) go_map \<Rightarrow> (string, string) go_map \<times> string" where
  "read_tar [] files = (files, [])"
| "read_tar (TarError e # items) files = (files, ''read tar: '' @ e)"
| "read_tar (BrokenEntry name # items) files = read_tar items files"
| "read_tar (Entry name b # items) files =
     (let name = clean_path name in
      if has_dotdot name then read_tar items files
      else read_tar items (AList.update name (take maxEntry b) files))"

definition import_segment :: "codec \<Rightarrow> (string, string) go_map \<Rightarrow> segment_meta \<Rightarrow> segment_result" where
  "import_segment c files sm =
     (case map_of files (sm_Name sm) of
        None \<Rightarrow> \<lparr>sr_Meta = sm, sr_Status = ''missing'', sr_Records = [],
                 sr_Err = ''segment listed in manifest but absent from bundle''\<rparr>
      | Some ct \<Rightarrow>
        if cd_sha c ct \<noteq> sm_SHA256 sm then
          \<lparr>sr_Meta = sm, sr_Status = ''hash_mismatch'', sr_Records = [],
           sr_Err = ''ciphertext hash does not match manifest (tampered or substituted)''\<rparr>
        else (case cd_dec c ct of
            Inl e \<Rightarrow> \<lparr>sr_Meta = sm, sr_Status = ''decrypt_failed'', sr_Records = [],
                     sr_Err = ''authenticated decryption failed: '' @ e\<rparr>
          | Inr seg \<Rightarrow>
            (case ReadSegment (cd_junk c) (cd_valid c) (cd_ungz c seg) of
               (recs, True) \<Rightarrow> \<lparr>sr_Meta = sm, sr_Status = ''truncated_records'', sr_Records = recs,
                 sr_Err = ''segment contained a torn tail (agent crash); complete records recovered''\<rparr>
             | (recs, False) \<Rightarrow> \<lparr>sr_Meta = sm, sr_Status = ''ok'', sr_Records = recs, sr_Err = []\<rparr>)))"

definition Import :: "codec \<Rightarrow> string \<Rightarrow> string + tar_item list \<Rightarrow> import_result" where
  "Import c path opened =
     (let res = \<lparr>ir_Path = path, ir_Manifest = None, ir_Segments = [], ir_Fatal = []\<rparr> in
      case opened of
        Inl e \<Rightarrow> res\<lparr>ir_Fatal := ''open: '' @ e\<rparr>
      | Inr items \<Rightarrow>
        (case read_tar items [] of (files, fatal) \<Rightarrow>
         let res = res\<lparr>ir_Fatal := fatal\<rparr> in
         case map_of files manifestName of
           None \<Rightarrow> res\<lparr>ir_Fatal := ''manifest missing''\<rparr>
         | Some mb \<Rightarrow>
           (case cd_dec c mb of
              Inl e \<Rightarrow> res\<lparr>ir_Fatal := ''manifest decrypt failed (wrong key or tampered): '' @ e\<rparr>
            | Inr plain \<Rightarrow>
              (case cd_par c plain of
                 Inl e \<Rightarrow> res\<lparr>ir_Fatal := ''manifest parse: '' @ e\<rparr>
               | Inr m \<Rightarrow> res\<lparr>ir_Manifest := Some m, ir_Segments := map (import_segment c files) (mf_Segments m)\<rparr>))))"

end
