(* ===== verification/Dataset.thy ===== *)
theory Dataset
  imports AnalyzerTypes Bundle
begin

text \<open>
  \<open>internal/analyzer/dataset.go\<close>: the bundles found under a directory are imported one after the other,
  every record is decoded into the data of its host, and at the end each host is normalised. The JSON
  decoders are one argument, the record \<open>decoders\<close>; the result of importing a path is the argument
  \<open>imp\<close>, which is \<open>Import\<close> of the theory \<open>Bundle\<close> on the file at that path.
\<close>

section \<open>Decoding\<close>

record decoders =
  dc_kind :: "string \<Rightarrow> string option"
  dc_inventory :: "string \<Rightarrow> inventory option"
  dc_minute :: "string \<Rightarrow> host_minute option"
  dc_spike :: "string \<Rightarrow> spike_event option"
  dc_proctop :: "string \<Rightarrow> proc_top option"
  dc_sched :: "string \<Rightarrow> sched_snapshot option"
  dc_sqlinv :: "string \<Rightarrow> sql_inventory option"
  dc_sqlsample :: "string \<Rightarrow> sql_sample option"
  dc_sqlspike :: "string \<Rightarrow> sql_spike_context option"
  dc_health :: "string \<Rightarrow> health option"

definition appended_to :: "'a list \<Rightarrow> 'a option \<Rightarrow> 'a list" where
  "appended_to xs v = (case v of Some x \<Rightarrow> xs @ [x] | None \<Rightarrow> xs)"

definition latest_inventory :: "inventory option \<Rightarrow> inventory option \<Rightarrow> inventory option" where
  "latest_inventory cur new = (case new of None \<Rightarrow> cur
     | Some v \<Rightarrow> (case cur of None \<Rightarrow> Some v | Some c \<Rightarrow> if m_TS v > m_TS c then Some v else Some c))"

definition put_sql_inventory :: "(string, sql_inventory) go_map \<Rightarrow> sql_inventory option \<Rightarrow> (string, sql_inventory) go_map" where
  "put_sql_inventory m new = (case new of None \<Rightarrow> m
     | Some v \<Rightarrow> (case map_of m (si_InstanceKey v) of None \<Rightarrow> AList.update (si_InstanceKey v) v m
         | Some c \<Rightarrow> if m_TS v > m_TS c then AList.update (si_InstanceKey v) v m else m))"

definition put_sql_sample :: "(string, sql_sample list) go_map \<Rightarrow> sql_sample option \<Rightarrow> (string, sql_sample list) go_map" where
  "put_sql_sample m new = (case new of None \<Rightarrow> m
     | Some v \<Rightarrow> AList.update (sq_InstanceKey v)
         ((case map_of m (sq_InstanceKey v) of Some ss \<Rightarrow> ss | None \<Rightarrow> []) @ [v]) m)"

definition decodeInto :: "decoders \<Rightarrow> host_data \<Rightarrow> string \<Rightarrow> host_data" where
  "decodeInto dc h raw =
     (case dc_kind dc raw of None \<Rightarrow> h
      | Some kind \<Rightarrow>
        if kind = KindInventory then h\<lparr>hd_Inventory := latest_inventory (hd_Inventory h) (dc_inventory dc raw)\<rparr>
        else if kind = KindHostMinute then h\<lparr>hd_Minutes := appended_to (hd_Minutes h) (dc_minute dc raw)\<rparr>
        else if kind = KindSpike then h\<lparr>hd_Spikes := appended_to (hd_Spikes h) (dc_spike dc raw)\<rparr>
        else if kind = KindProcTop then h\<lparr>hd_ProcTops := appended_to (hd_ProcTops h) (dc_proctop dc raw)\<rparr>
        else if kind = KindSched then h\<lparr>hd_Sched := appended_to (hd_Sched h) (dc_sched dc raw)\<rparr>
        else if kind = KindSQLInventory then h\<lparr>hd_SQLInv := put_sql_inventory (hd_SQLInv h) (dc_sqlinv dc raw)\<rparr>
        else if kind = KindSQLSample then h\<lparr>hd_SQLSamples := put_sql_sample (hd_SQLSamples h) (dc_sqlsample dc raw)\<rparr>
        else if kind = KindSQLSpike then h\<lparr>hd_SQLSpikes := appended_to (hd_SQLSpikes h) (dc_sqlspike dc raw)\<rparr>
        else if kind = KindHealth then h\<lparr>hd_Health := appended_to (hd_Health h) (dc_health dc raw)\<rparr>
        else h)"

section \<open>Normalising\<close>

text \<open>
  The deduplication of the minutes compacts the slice in place: \<open>i\<close> reads, \<open>k\<close> counts what was kept
  and is where the next kept element is written, in the array that is being read.
\<close>

function compact_minutes :: "host_minute list \<Rightarrow> nat \<Rightarrow> nat \<Rightarrow> host_minute list" where
  "compact_minutes a i k =
     (if i \<ge> length a then take k a
      else if i > 0 \<and> m_TS (a ! i) = m_TS (a ! (i - 1)) then compact_minutes a (i + 1) k
      else compact_minutes (a[k := a ! i]) (i + 1) (k + 1))"
  by pat_completeness auto
termination
  by (relation "measure (\<lambda>(a, i, k). length a - i)") auto

declare compact_minutes.simps [simp del]

fun dedup_spikes :: "string list \<Rightarrow> spike_event list \<Rightarrow> spike_event list" where
  "dedup_spikes seen [] = []"
| "dedup_spikes seen (s # ss) =
     (if ev_EventID s \<noteq> [] \<and> ev_EventID s \<in> set seen then dedup_spikes seen ss
      else s # dedup_spikes (ev_EventID s # seen) ss)"

definition normalizeHost :: "host_data \<Rightarrow> host_data" where
  "normalizeHost h = h
     \<lparr>hd_Minutes := compact_minutes (sort_key m_TS (hd_Minutes h)) 0 0,
      hd_Spikes := dedup_spikes [] (sort_key ev_StartTS (hd_Spikes h)),
      hd_SQLSamples := map (\<lambda>(k, ss). (k, sort_key m_TS ss)) (hd_SQLSamples h),
      hd_Health := sort_key m_TS (hd_Health h)\<rparr>"

section \<open>Loading\<close>

definition path_base :: "string \<Rightarrow> string" where
  "path_base p = last (split_on (CHR ''/'') p)"

definition segment_step :: "decoders \<Rightarrow> host_data \<times> bool \<Rightarrow> segment_result \<Rightarrow> host_data \<times> bool" where
  "segment_step dc acc seg =
     (case acc of (h, partial) \<Rightarrow>
      if sr_Status seg = ''ok'' then (foldl (decodeInto dc) h (sr_Records seg), partial)
      else if sr_Status seg = ''truncated_records'' then
        (foldl (decodeInto dc)
           (h\<lparr>hd_Problems := hd_Problems h @ [''segment '' @ sm_Name (sr_Meta seg) @ '': '' @ sr_Err seg]\<rparr>)
           (sr_Records seg), True)
      else
        (h\<lparr>hd_Problems := hd_Problems h @ [''segment '' @ sm_Name (sr_Meta seg) @ '' '' @ sr_Status seg @ '': '' @
             sr_Err seg @ '' (records lost: ~'' @ fmt_d (sm_Records (sr_Meta seg)) @ '')'']\<rparr>, True))"

definition add_bundle :: "decoders \<Rightarrow> string \<Rightarrow> manifest \<Rightarrow> segment_result list \<Rightarrow> dataset \<Rightarrow> dataset" where
  "add_bundle dc p m segs ds =
     (let hostID = mf_HostID m;
          h = (case map_of (ds_Hosts ds) hostID of Some h \<Rightarrow> h | None \<Rightarrow> new_host hostID);
          (h, partial) = foldl (segment_step dc) (h\<lparr>hd_Manifests := hd_Manifests h @ [m]\<rparr>, False) segs;
          ds = ds\<lparr>ds_Hosts := AList.update hostID h (ds_Hosts ds)\<rparr>
      in if partial then
           ds\<lparr>ds_PartialBundles := ds_PartialBundles ds + 1,
              ds_Warnings := ds_Warnings ds @ [''bundle '' @ path_base p @ '' imported with damaged segments (host '' @
                hostID @ '')'']\<rparr>
         else ds\<lparr>ds_OKBundles := ds_OKBundles ds + 1\<rparr>)"

definition load_step :: "decoders \<Rightarrow> (string \<Rightarrow> import_result) \<Rightarrow> dataset \<Rightarrow> string \<Rightarrow> dataset" where
  "load_step dc imp ds p =
     (let ds = ds\<lparr>ds_Bundles := ds_Bundles ds + 1\<rparr>; res = imp p in
      case ir_Manifest res of
        Some m \<Rightarrow>
          if ir_Fatal res \<noteq> [] then
            ds\<lparr>ds_RejectedBundles := ds_RejectedBundles ds + 1,
               ds_Warnings := ds_Warnings ds @ [''bundle '' @ path_base p @ '' rejected: '' @ ir_Fatal res]\<rparr>
          else add_bundle dc p m (ir_Segments res) ds
      | None \<Rightarrow>
          ds\<lparr>ds_RejectedBundles := ds_RejectedBundles ds + 1,
             ds_Warnings := ds_Warnings ds @ [''bundle '' @ path_base p @ '' rejected: '' @ ir_Fatal res]\<rparr>)"

definition is_urab :: "string \<Rightarrow> bool" where
  "is_urab p \<longleftrightarrow> length p \<ge> 5 \<and> drop (length p - 5) p = ''.urab''"

definition LoadBundles :: "decoders \<Rightarrow> (string \<Rightarrow> import_result) \<Rightarrow> string \<Rightarrow> string list \<Rightarrow> string + dataset" where
  "LoadBundles dc imp dir found =
     (let paths = filter is_urab found in
      if paths = [] then Inl (''no .urab bundles found under '' @ dir)
      else
        let ds = foldl (load_step dc imp)
              \<lparr>ds_Hosts = [], ds_Warnings = [], ds_Bundles = 0, ds_OKBundles = 0, ds_PartialBundles = 0,
               ds_RejectedBundles = 0\<rparr> (sort paths)
        in Inr (ds\<lparr>ds_Hosts := map (\<lambda>(k, h). (k, normalizeHost h)) (ds_Hosts ds)\<rparr>))"

end
