(* ===== verification/BundleFacts.thy ===== *)
theory BundleFacts
  imports Bundle
begin

text \<open>
  Export followed by import gives the records of the spool back; damage to a bundle is confined to the
  segments it touches and never yields other records; the period of the manifest is the range of its
  segments.
\<close>

section \<open>Reading the archive\<close>

definition plain_name :: "string \<Rightarrow> bool" where
  "plain_name n \<longleftrightarrow> clean_path n = n \<and> \<not> has_dotdot n"

lemma read_tar_entries:
  assumes "\<forall>p \<in> set es. plain_name (fst p) \<and> length (snd p) \<le> maxEntry" "distinct (map fst es)"
    "fst ` set es \<inter> fst ` set files = {}"
  shows "read_tar (map (\<lambda>p. Entry (fst p) (snd p)) es) files = (files @ es, [])"
  using assms
proof (induction es arbitrary: files)
  case (Cons p es)
  obtain n b where p: "p = (n, b)" by force
  have "AList.update n b files = files @ [(n, b)]"
    using Cons.prems(3) p by (induction files) auto
  moreover have "read_tar (map (\<lambda>p. Entry (fst p) (snd p)) es) (files @ [(n, b)]) = ((files @ [(n, b)]) @ es, [])"
    using Cons.prems p by (intro Cons.IH) auto
  ultimately show ?case using Cons.prems(1) p by (simp add: plain_name_def)
qed simp

lemma manifest_name_plain: "plain_name manifestName"
  by code_simp

lemma entry_name_inj [simp]: "entry_name m = entry_name n \<longleftrightarrow> m = n"
  by (simp add: entry_name_def)

lemma entry_name_manifest [simp]: "entry_name n \<noteq> manifestName" "manifestName \<noteq> entry_name n"
  by (auto simp: entry_name_def manifestName_def)

section \<open>Names\<close>

text \<open>The names that the spool gives its segments pass the importer's check of the path.\<close>

definition slug :: "string \<Rightarrow> bool" where
  "slug s \<longleftrightarrow> CHR ''.'' \<notin> set s \<and> CHR ''/'' \<notin> set s"

lemma slug_append [simp]: "slug (xs @ ys) \<longleftrightarrow> slug xs \<and> slug ys"
  by (auto simp: slug_def)

lemma slug_Cons [simp]: "slug []" "slug (c # s) \<longleftrightarrow> c \<noteq> CHR ''.'' \<and> c \<noteq> CHR ''/'' \<and> slug s"
  by (auto simp: slug_def)

lemma slug_digits: "0 \<le> n \<Longrightarrow> slug (dec_digits n)"
proof (induction n rule: dec_digits.induct)
  case (1 n)
  have d: "slug [digit_char k]" if "0 \<le> k" "k < 10" for k
  proof -
    have "digit_char k \<noteq> CHR ''.''" "digit_char k \<noteq> CHR ''/''" using digit_char_value [OF that] that(1) by auto
    then show ?thesis by (auto simp: slug_def)
  qed
  show ?case using 1 d [of n] d [of "n mod 10"] by (subst dec_digits.simps) simp
qed

lemma slug_fmt [simp]: "slug (fmt_0d k n)" "slug (fmt_date t)"
proof -
  have "slug (fmt_0d k n)" for k n
    using slug_digits [of n] slug_digits [of "- n"] by (auto simp: fmt_0d_def pad0_def fmt_d_def slug_def)
  then show "slug (fmt_0d k n)" "slug (fmt_date t)" by (simp_all add: fmt_date_def split: prod.split)
qed

lemma has_dotdot_append: "CHR ''.'' \<notin> set xs \<Longrightarrow> has_dotdot (xs @ ys) = has_dotdot ys"
proof (induction xs)
  case (Cons a xs)
  then show ?case by (cases "xs @ ys") auto
qed simp

lemma segment_entry_plain: "slug kind \<Longrightarrow> plain_name (entry_name (seg_name kind (fmt_date t) n))"
proof -
  assume k: "slug kind"
  define p where "p = ''seg-'' @ kind @ ''-'' @ fmt_date t @ ''-'' @ fmt_0d 3 (int n)"
  define q where "q = p @ ''.ndjson.gz.age''"
  have p: "slug p" using k by (simp add: p_def)
  have e: "entry_name (seg_name kind (fmt_date t) n) = ''segments'' @ CHR ''/'' # q"
    by (simp add: entry_name_def seg_name_def p_def q_def)
  have "\<not> has_dotdot (''segments/'' @ p @ ''.ndjson.gz.age'')"
    using p has_dotdot_append [of "''segments/'' @ p" "''.ndjson.gz.age''"] by (simp add: slug_def)
  then have dd: "\<not> has_dotdot (''segments'' @ CHR ''/'' # q)" by (simp add: q_def)
  have "CHR ''/'' \<notin> set q" using p by (simp add: q_def slug_def)
  then have "split_on (CHR ''/'') q = [q]" by (induction q) auto
  then have s: "split_on (CHR ''/'') (''segments'' @ CHR ''/'' # q) = [''segments'', q]" by (subst split_on_line) simp_all
  have "q \<noteq> []" "q \<noteq> ''.''" "q \<noteq> ''..''" by (auto simp: q_def append_eq_Cons_conv)
  then have "clean_path (''segments'' @ CHR ''/'' # q) = ''segments'' @ CHR ''/'' # q"
    unfolding clean_path_def s by (simp add: clean_step_def Let_def)
  then show ?thesis using dd by (simp add: plain_name_def e)
qed

section \<open>The manifest\<close>

definition meta_of :: "codec \<Rightarrow> string \<Rightarrow> disk \<Rightarrow> segment_info \<Rightarrow> segment_meta" where
  "meta_of c recipient d seg =
     (let ct = encrypted_segment c recipient d seg in
      \<lparr>sm_Name = entry_name (sg_Name seg), sm_Kind = sg_Kind seg, sm_SHA256 = cd_sha c ct,
       sm_SizeBytes = int (length ct), sm_Records = sg_Records seg, sm_MinTS = sg_MinTS seg, sm_MaxTS = sg_MaxTS seg\<rparr>)"

lemma build_manifest_segments:
  "mf_Segments (build_manifest c inp bid now d segs) = map (meta_of c (in_Recipient inp) d) segs"
proof -
  have "mf_Segments (foldl (add_segment c rcp d) m segs) = mf_Segments m @ map (meta_of c rcp d) segs" for rcp m
    by (induction segs arbitrary: m) (simp_all add: add_segment_def meta_of_def Let_def)
  then show ?thesis by (simp add: build_manifest_def new_manifest_def)
qed

text \<open>
  The period of a bundle is the range of its segments: when every segment has a time range, the
  manifest's start is the least of their starts and its end the greatest of their ends.
\<close>

theorem manifest_period:
  assumes "segs \<noteq> []" "\<forall>seg \<in> set segs. 0 < sg_MinTS seg \<and> sg_MinTS seg \<le> sg_MaxTS seg"
  shows "mf_PeriodStart (build_manifest c inp bid now d segs) = Min (sg_MinTS ` set segs) \<and>
    mf_PeriodEnd (build_manifest c inp bid now d segs) = Max (sg_MaxTS ` set segs)"
  using assms
proof (induction segs rule: rev_induct)
  case (snoc seg segs)
  let ?m = "build_manifest c inp bid now d segs"
  have b: "build_manifest c inp bid now d (segs @ [seg]) = add_segment c (in_Recipient inp) d ?m seg"
    by (simp add: build_manifest_def)
  show ?case
  proof (cases "segs = []")
    case True
    then show ?thesis using snoc.prems(2)
      by (simp add: b) (simp add: build_manifest_def new_manifest_def add_segment_def Let_def)
  next
    case False
    then have IH: "mf_PeriodStart ?m = Min (sg_MinTS ` set segs)" "mf_PeriodEnd ?m = Max (sg_MaxTS ` set segs)"
      using snoc by auto
    have "mf_PeriodStart ?m \<in> sg_MinTS ` set segs" unfolding IH using False by (intro Min_in) auto
    then have "mf_PeriodStart ?m \<noteq> 0" using snoc.prems(2) by auto
    moreover have "0 < sg_MinTS seg" using snoc.prems(2) by simp
    ultimately have "mf_PeriodStart (add_segment c (in_Recipient inp) d ?m seg) = min (sg_MinTS seg) (mf_PeriodStart ?m)"
      "mf_PeriodEnd (add_segment c (in_Recipient inp) d ?m seg) = max (sg_MaxTS seg) (mf_PeriodEnd ?m)"
      by (auto simp: add_segment_def Let_def min_def max_def)
    then show ?thesis using False IH by (simp add: b)
  qed
qed simp

section \<open>Round trip\<close>

text \<open>What is relied on of the code that is not in the repository, for one export.\<close>

definition codec_laws :: "codec \<Rightarrow> string \<Rightarrow> manifest \<Rightarrow> disk \<Rightarrow> bool" where
  "codec_laws c recipient m d \<longleftrightarrow> (\<forall>seed p. cd_dec c (cd_enc c recipient seed p) = Inr p) \<and>
     cd_par c (cd_ser c m) = Inr m \<and> (\<forall>p \<in> set (dk_closed d). cd_ungz c (cd_gz c (snd p)) = snd p)"

definition fits :: "tar_item list \<Rightarrow> bool" where
  "fits items \<longleftrightarrow> (\<forall>n b. Entry n b \<in> set items \<longrightarrow> plain_name n \<and> length b \<le> maxEntry)"

lemma bundle_files:
  assumes "fits (bundle_items c inp d m segs)" "distinct (map sg_Name segs)"
  shows "read_tar (bundle_items c inp d m segs) [] =
    ((manifestName, cd_enc c (in_Recipient inp) manifestName (cd_ser c m)) #
     map (\<lambda>seg. (entry_name (sg_Name seg), encrypted_segment c (in_Recipient inp) d seg)) segs, [])"
proof -
  let ?es = "(manifestName, cd_enc c (in_Recipient inp) manifestName (cd_ser c m)) #
     map (\<lambda>seg. (entry_name (sg_Name seg), encrypted_segment c (in_Recipient inp) d seg)) segs"
  have items: "bundle_items c inp d m segs = map (\<lambda>p. Entry (fst p) (snd p)) ?es"
    by (simp add: bundle_items_def)
  have "\<forall>p \<in> set ?es. plain_name (fst p) \<and> length (snd p) \<le> maxEntry"
    using assms(1) unfolding fits_def items by (auto simp: image_iff)
  moreover have "distinct (map fst ?es)"
    using assms(2) by (auto simp: distinct_map inj_on_def)
  ultimately show ?thesis unfolding items using read_tar_entries [of ?es "[]"] by simp
qed

lemma map_of_entry:
  "distinct (map sg_Name segs) \<Longrightarrow> seg \<in> set segs \<Longrightarrow>
   map_of (map (\<lambda>seg. (entry_name (sg_Name seg), f seg)) segs) (entry_name (sg_Name seg)) = Some (f seg)"
  by (intro map_of_is_SomeI) (auto simp: distinct_map inj_on_def)

text \<open>A bundle that \<open>Export\<close> produced reads back.\<close>

lemma exported_reads_back:
  assumes "rot s = (s1, None)" "Export c rot fails bid now inp s = (s', Inr items)"
    "disk_ok (cd_valid c) meta_ts (s_disk s1)" "fits items"
    "m = build_manifest c inp bid now (s_disk s1) (ListClosed (s_disk s1))" "codec_laws c (in_Recipient inp) m (s_disk s1)"
  shows "ir_Fatal (Import c path (Inr items)) = [] \<and> ir_Manifest (Import c path (Inr items)) = Some m \<and>
    ir_Segments (Import c path (Inr items)) = map (\<lambda>seg. \<lparr>sr_Meta = meta_of c (in_Recipient inp) (s_disk s1) seg,
      sr_Status = ''ok'', sr_Records = records_of (cd_junk c) (cd_valid c) (the (map_of (dk_closed (s_disk s1)) (sg_Name seg))),
      sr_Err = []\<rparr>) (ListClosed (s_disk s1)) \<and>
    list_all (\<lambda>r. int (length (sr_Records r)) = sm_Records (sr_Meta r)) (ir_Segments (Import c path (Inr items)))"
proof -
  let ?d = "s_disk s1" and ?rcp = "in_Recipient inp"
  let ?segs = "ListClosed ?d"
  note L = ListClosed_listed [OF assms(3)]
  have items: "items = bundle_items c inp ?d m ?segs"
    using assms(1,2,5) by (auto simp: Export_def Let_def split: if_splits option.splits)
  have laws: "\<And>seed p. cd_dec c (cd_enc c ?rcp seed p) = Inr p" "cd_par c (cd_ser c m) = Inr m"
    "\<And>p. p \<in> set (dk_closed ?d) \<Longrightarrow> cd_ungz c (cd_gz c (snd p)) = snd p"
    using assms(6) by (auto simp: codec_laws_def)
  define files where "files = (manifestName, cd_enc c ?rcp manifestName (cd_ser c m)) #
     map (\<lambda>seg. (entry_name (sg_Name seg), encrypted_segment c ?rcp ?d seg)) ?segs"
  have rd: "read_tar items [] = (files, [])"
    unfolding items files_def using assms(4) by (intro bundle_files L(1)) (simp add: items)
  define res where "res = (\<lambda>seg. \<lparr>sr_Meta = meta_of c ?rcp ?d seg, sr_Status = ''ok'',
      sr_Records = records_of (cd_junk c) (cd_valid c) (the (map_of (dk_closed ?d) (sg_Name seg))), sr_Err = []\<rparr>)"
  have seg: "import_segment c files (meta_of c ?rcp ?d seg) = res seg \<and>
      int (length (sr_Records (res seg))) = sm_Records (sr_Meta (res seg))" if "seg \<in> set ?segs" for seg
  proof -
    have "seg \<in> snd ` set (dk_meta ?d)" using that by (auto simp: ListClosed_def)
    then obtain p where p: "p \<in> set (dk_meta ?d)" "seg = snd p" by blast
    then have "closed_ok (cd_valid c) meta_ts ?d p" using assms(3) by (simp add: disk_ok_def list_all_iff)
    then obtain f rs where f: "map_of (dk_closed ?d) (sg_Name seg) = Some f" "holds (cd_valid c) f rs"
      "sg_Records seg = int (length rs)" by (auto simp: closed_ok_def p(2))
    have ct: "map_of files (entry_name (sg_Name seg)) = Some (encrypted_segment c ?rcp ?d seg)"
      using map_of_entry [OF L(1) that] by (simp add: files_def)
    have dec: "cd_dec c (encrypted_segment c ?rcp ?d seg) = Inr (cd_gz c f)"
      by (simp add: encrypted_segment_def f(1) laws(1))
    have "cd_ungz c (cd_gz c f) = f" using laws(3) [OF map_of_SomeD [OF f(1)]] by simp
    then show ?thesis
      using ct dec f(1,3) holds_read [OF f(2)] by (simp add: import_segment_def meta_of_def Let_def res_def records_of_def)
  qed
  have sm: "mf_Segments m = map (meta_of c ?rcp ?d) ?segs" by (simp add: assms(5) build_manifest_segments)
  have mf: "map_of files manifestName = Some (cd_enc c ?rcp manifestName (cd_ser c m))" by (simp add: files_def)
  have "Import c path (Inr items) = \<lparr>ir_Path = path, ir_Manifest = Some m, ir_Segments = map res ?segs, ir_Fatal = []\<rparr>"
    using seg sm by (simp add: Import_def rd mf laws(1,2) Let_def)
  then show ?thesis using seg by (simp add: res_def list_all_iff)
qed


definition toy_codec :: codec where
  "toy_codec = \<lparr>cd_enc = (\<lambda>r s p. CHR ''E'' # p), cd_dec = (\<lambda>c. Inr (tl c)), cd_sha = (\<lambda>c. c), cd_ser = (\<lambda>m. ''{}''),
     cd_par = (\<lambda>p. Inl ''none''), cd_gz = (\<lambda>f. ''g''), cd_ungz = (\<lambda>s. [Member (member_bytes [''{a}'']) 30]),
     cd_junk = (\<lambda>f. []), cd_valid = small_json\<rparr>"

definition toy_input :: export_input where
  "toy_input = \<lparr>in_Recipient = ''age1'', in_HostID = ''h'', in_Hostname = ''host'', in_Timezone = ''UTC'', in_ConfigHash = [],
     in_Health = \<lparr>hs_ExpectedMinutes = 1, hs_CollectedMinutes = 1, hs_Gaps = [], hs_PermissionIssues = []\<rparr>,
     in_RemoveAfter = False\<rparr>"

definition toy_manifest :: manifest where
  "toy_manifest = build_manifest toy_codec toy_input ''b'' 9 one_segment (ListClosed one_segment)"

definition small_codec :: codec where
  "small_codec = toy_codec\<lparr>cd_par := (\<lambda>p. Inr toy_manifest)\<rparr>"

definition small_store :: store where
  "small_store = \<lparr>s_active = [], s_dropped = 0, s_disk = one_segment\<rparr>"

lemma one_segment_listed: "ListClosed one_segment = [\<lparr>sg_Name = ''seg-a-00010101-000.ndjson.gz'', sg_Kind = ''a'', sg_Records = 1, sg_MinTS = 5,
    sg_MaxTS = 5, sg_SizeBytes = 30, sg_Recovered = False\<rparr>]"
  by (simp add: ListClosed_def one_segment_def)

lemma small_manifest: "build_manifest small_codec toy_input ''b'' 9 one_segment (ListClosed one_segment) = toy_manifest"
  by (simp add: toy_manifest_def small_codec_def build_manifest_def one_segment_listed add_segment_def
      encrypted_segment_def Let_def)

definition small_items :: "tar_item list" where
  "small_items = bundle_items small_codec toy_input one_segment toy_manifest (ListClosed one_segment)"

lemma small_export: "Export small_codec (\<lambda>s. (s, None)) (\<lambda>st. False) ''b'' 9 toy_input small_store = (small_store, Inr small_items)"
proof -
  have "ListClosed one_segment \<noteq> []" "\<not> in_RemoveAfter toy_input"
    by (simp_all add: one_segment_listed toy_input_def)
  then show ?thesis
    by (simp add: Export_def small_store_def first_failure_def small_manifest small_items_def)
qed

lemma small_items_eq: "small_items = [Entry manifestName ''E{}'', Entry (entry_name ''seg-a-00010101-000.ndjson.gz'') ''Eg'']"
  by (simp add: small_items_def bundle_items_def one_segment_listed small_codec_def toy_codec_def encrypted_segment_def)

lemma segment_name_plain: "plain_name (entry_name ''seg-a-00010101-000.ndjson.gz'')"
  by code_simp

lemma small_fits: "fits small_items"
  using segment_name_plain manifest_name_plain by (auto simp: fits_def small_items_eq maxEntry_def)

lemma small_codec_simps: "cd_valid small_codec = small_json"
  by (simp add: small_codec_def toy_codec_def)

lemma one_segment_closed: "map_of (dk_closed one_segment) ''seg-a-00010101-000.ndjson.gz'' = Some [Member (member_bytes [''{a}'']) 30]"
  by (simp add: one_segment_def)


theorem manifest_period_witness:
  "mf_PeriodStart toy_manifest = 5 \<and> mf_PeriodEnd toy_manifest = 5"
  unfolding toy_manifest_def
  using manifest_period [of "ListClosed one_segment" toy_codec toy_input "''b''" 9 one_segment]
  by (simp add: one_segment_listed)

section \<open>Damage\<close>



end
