(* ===== verification/DatasetFacts.thy ===== *)
theory DatasetFacts
  imports Dataset BundleFacts
begin

text \<open>
  The in-place deduplication computes what it is meant to, normalising is idempotent, the bundle counts
  add up, and a damaged end of an archive costs the whole bundle although every segment was read.
\<close>

section \<open>The in-place loop\<close>

text \<open>The reference: drop an element whose timestamp is that of its predecessor.\<close>

fun runs :: "host_minute option \<Rightarrow> host_minute list \<Rightarrow> host_minute list" where
  "runs p [] = []"
| "runs p (x # xs) = (if map_option m_TS p = Some (m_TS x) then runs (Some x) xs else x # runs (Some x) xs)"

lemma compact_minutes_runs:
  assumes "k \<le> i" "i \<le> length a"
  shows "compact_minutes a i k = take k a @ runs (if i = 0 then None else Some (a ! (i - 1))) (drop i a)"
  using assms
proof (induction a i k rule: compact_minutes.induct)
  case (1 a i k)
  show ?case
  proof (cases "i \<ge> length a")
    case True
    with "1.prems" show ?thesis by (subst compact_minutes.simps) simp
  next
    case False
    then have d: "drop i a = a ! i # drop (Suc i) a" by (simp add: Cons_nth_drop_Suc)
    show ?thesis
    proof (cases "i > 0 \<and> m_TS (a ! i) = m_TS (a ! (i - 1))")
      case True
      have "compact_minutes a i k = compact_minutes a (i + 1) k" using True False by (simp add: compact_minutes.simps [of a i k])
      also have "\<dots> = take k a @ runs (Some (a ! i)) (drop (Suc i) a)"
        using "1.IH"(1) [OF False True] "1.prems" False by simp
      finally show ?thesis using True by (simp add: d)
    next
      case skip: False
      let ?a = "a[k := a ! i]"
      have "compact_minutes a i k = compact_minutes ?a (i + 1) (k + 1)" using skip False by (auto simp: compact_minutes.simps [of a i k])
      also have "\<dots> = take (k + 1) ?a @ runs (Some (?a ! i)) (drop (Suc i) ?a)"
        using "1.IH"(2) [OF False skip] "1.prems" False by simp
      also have "take (k + 1) ?a = take k a @ [a ! i]"
        using "1.prems" False by (simp add: take_Suc_conv_app_nth)
      also have "?a ! i = a ! i" using "1.prems" False by (simp add: nth_list_update)
      also have "drop (Suc i) ?a = drop (Suc i) a" using "1.prems" by simp
      finally show ?thesis using skip by (auto simp: d)
    qed
  qed
qed

lemma compact_minutes_eq_runs: "compact_minutes a 0 0 = runs None a"
  using compact_minutes_runs [of 0 0 a] by simp

lemma runs_subset: "set (runs p xs) \<subseteq> set xs"
  by (induction p xs rule: runs.induct) auto

lemma runs_strict:
  "sorted (map m_TS (p # xs)) \<Longrightarrow> sorted_wrt (<) (m_TS p # map m_TS (runs (Some p) xs)) \<and>
    insert (m_TS p) (m_TS ` set (runs (Some p) xs)) = insert (m_TS p) (m_TS ` set xs)"
proof (induction xs arbitrary: p)
  case (Cons x xs)
  then have IH: "sorted_wrt (<) (m_TS x # map m_TS (runs (Some x) xs))"
    "insert (m_TS x) (m_TS ` set (runs (Some x) xs)) = insert (m_TS x) (m_TS ` set xs)" by auto
  show ?case
  proof (cases "m_TS p = m_TS x")
    case True
    with IH show ?thesis by auto
  next
    case False
    with Cons.prems have "m_TS p < m_TS x" "\<forall>y \<in> set xs. m_TS x \<le> m_TS y" by auto
    with IH show ?thesis by force
  qed
qed simp

lemma runs_sorted:
  assumes "sorted (map m_TS xs)"
  shows "map m_TS (runs None xs) = sorted_list_of_set (m_TS ` set xs)"
proof (cases xs)
  case (Cons x ys)
  have "sorted_wrt (<) (map m_TS (runs None xs))" "set (map m_TS (runs None xs)) = m_TS ` set xs"
    using runs_strict [of x ys] assms by (simp_all add: Cons)
  then show ?thesis by (metis sorted_list_of_set.idem_if_sorted_distinct strict_sorted_iff)
qed simp

lemma runs_id:
  "sorted_wrt (<) (map m_TS xs) \<Longrightarrow> \<forall>x \<in> set xs. map_option m_TS p \<noteq> Some (m_TS x) \<Longrightarrow> runs p xs = xs"
proof (induction xs arbitrary: p)
  case (Cons a xs)
  have "runs (Some a) xs = xs" using Cons.prems by (intro Cons.IH) auto
  then show ?case using Cons.prems by auto
qed simp

section \<open>Spikes\<close>

lemma dedup_spikes_ids:
  "distinct (filter (\<lambda>i. i \<noteq> []) (map ev_EventID (dedup_spikes seen ss))) \<and>
   (\<forall>s \<in> set (dedup_spikes seen ss). ev_EventID s \<noteq> [] \<longrightarrow> ev_EventID s \<notin> set seen) \<and>
   ev_EventID ` set ss \<subseteq> ev_EventID ` set (dedup_spikes seen ss) \<union> set seen \<and>
   set (dedup_spikes seen ss) \<subseteq> set ss"
proof (induction seen ss rule: dedup_spikes.induct)
  case (2 seen s ss)
  then show ?case by (cases "ev_EventID s \<noteq> [] \<and> ev_EventID s \<in> set seen") (auto split: if_splits)
qed simp

lemma dedup_spikes_sorted:
  "sorted (map ev_StartTS ss) \<Longrightarrow> sorted (map ev_StartTS (dedup_spikes seen ss))"
proof (induction seen ss rule: dedup_spikes.induct)
  case (2 seen s ss)
  then show ?case using dedup_spikes_ids [of "ev_EventID s # seen" ss] by auto
qed simp

lemma dedup_spikes_id:
  "distinct (filter (\<lambda>i. i \<noteq> []) (map ev_EventID ss)) \<Longrightarrow> \<forall>s \<in> set ss. ev_EventID s \<noteq> [] \<longrightarrow> ev_EventID s \<notin> set seen \<Longrightarrow>
   dedup_spikes seen ss = ss"
proof (induction ss arbitrary: seen)
  case (Cons s ss)
  have "dedup_spikes (ev_EventID s # seen) ss = ss"
    using Cons.prems by (intro Cons.IH) (auto split: if_splits, metis image_eqI)
  then show ?case using Cons.prems by auto
qed simp

lemma sort_key_idem [simp]: "sort_key f (sort_key f xs) = sort_key f xs"
  by (rule sort_key_id_if_sorted) simp

text \<open>
  C14. Normalising a host does what overlapping exports need: exactly one minute is left for every
  timestamp that occurs, in strictly increasing order, every remaining minute is one of the imported
  ones, the spikes are ordered with no identifier twice and none lost, and normalising again changes
  nothing.
\<close>

theorem normalize_spec:
  "map m_TS (hd_Minutes (normalizeHost h)) = sorted_list_of_set (m_TS ` set (hd_Minutes h)) \<and>
   set (hd_Minutes (normalizeHost h)) \<subseteq> set (hd_Minutes h) \<and>
   sorted (map ev_StartTS (hd_Spikes (normalizeHost h))) \<and>
   distinct (filter (\<lambda>i. i \<noteq> []) (map ev_EventID (hd_Spikes (normalizeHost h)))) \<and>
   ev_EventID ` set (hd_Spikes (normalizeHost h)) = ev_EventID ` set (hd_Spikes h) \<and>
   normalizeHost (normalizeHost h) = normalizeHost h"
proof -
  let ?ms = "runs None (sort_key m_TS (hd_Minutes h))" and ?ss = "dedup_spikes [] (sort_key ev_StartTS (hd_Spikes h))"
  have ms: "map m_TS ?ms = sorted_list_of_set (m_TS ` set (hd_Minutes h))" by (simp add: runs_sorted)
  have strict: "sorted_wrt (<) (map m_TS ?ms)" unfolding ms by simp
  have ss: "distinct (filter (\<lambda>i. i \<noteq> []) (map ev_EventID ?ss))" "sorted (map ev_StartTS ?ss)"
    using dedup_spikes_ids [of "[]" "sort_key ev_StartTS (hd_Spikes h)"] by (simp_all add: dedup_spikes_sorted)
  have ids: "ev_EventID ` set ?ss = ev_EventID ` set (hd_Spikes h)"
    using dedup_spikes_ids [of "[]" "sort_key ev_StartTS (hd_Spikes h)"] by auto
  have "sort_key m_TS ?ms = ?ms" using strict by (intro sort_key_id_if_sorted) (simp add: strict_sorted_imp_sorted)
  moreover have "runs None ?ms = ?ms" by (rule runs_id [OF strict]) auto
  moreover have "sort_key ev_StartTS ?ss = ?ss" by (rule sort_key_id_if_sorted [OF ss(2)])
  moreover have "dedup_spikes [] ?ss = ?ss" by (rule dedup_spikes_id [OF ss(1)]) simp
  ultimately have "normalizeHost (normalizeHost h) = normalizeHost h"
    by (simp add: normalizeHost_def compact_minutes_eq_runs split_def)
  then show ?thesis
    using ms ss ids runs_subset [of None "sort_key m_TS (hd_Minutes h)"] by (simp add: normalizeHost_def compact_minutes_eq_runs)
qed

section \<open>Counts\<close>

lemma add_bundle_counts:
  "ds_Bundles (add_bundle dc p m segs ds) = ds_Bundles ds \<and>
   ds_RejectedBundles (add_bundle dc p m segs ds) = ds_RejectedBundles ds \<and>
   ds_OKBundles (add_bundle dc p m segs ds) + ds_PartialBundles (add_bundle dc p m segs ds) =
     ds_OKBundles ds + ds_PartialBundles ds + 1 \<and>
   int (length (ds_Warnings (add_bundle dc p m segs ds))) - ds_PartialBundles (add_bundle dc p m segs ds) =
     int (length (ds_Warnings ds)) - ds_PartialBundles ds"
  by (simp add: add_bundle_def Let_def split: prod.split)

definition counted :: "dataset \<Rightarrow> bool" where
  "counted ds \<longleftrightarrow> ds_Bundles ds = ds_OKBundles ds + ds_PartialBundles ds + ds_RejectedBundles ds \<and>
     int (length (ds_Warnings ds)) = ds_PartialBundles ds + ds_RejectedBundles ds"

lemma load_step_counts: "counted ds \<Longrightarrow> counted (load_step dc imp ds p) \<and> ds_Bundles (load_step dc imp ds p) = ds_Bundles ds + 1"
  using add_bundle_counts [of dc p _ "ir_Segments (imp p)" "ds\<lparr>ds_Bundles := ds_Bundles ds + 1\<rparr>"]
  by (auto simp: load_step_def counted_def Let_def split: option.split) (smt (verit))+

lemma load_fold_counts:
  "counted ds \<Longrightarrow> counted (foldl (load_step dc imp) ds ps) \<and>
   ds_Bundles (foldl (load_step dc imp) ds ps) = ds_Bundles ds + int (length ps)"
  by (induction ps arbitrary: ds) (simp_all add: load_step_counts)

text \<open>
  C28. Every bundle found is accounted for: it is counted once, as good, partial or rejected, and each
  partial or rejected one leaves exactly one warning. Nothing is loaded only when there is no bundle.
\<close>

theorem load_counts:
  "case LoadBundles dc imp dir found of
     Inl e \<Rightarrow> filter is_urab found = []
   | Inr ds \<Rightarrow> ds_Bundles ds = int (length (filter is_urab found)) \<and>
       ds_Bundles ds = ds_OKBundles ds + ds_PartialBundles ds + ds_RejectedBundles ds \<and>
       int (length (ds_Warnings ds)) = ds_PartialBundles ds + ds_RejectedBundles ds"
  using load_fold_counts [of "\<lparr>ds_Hosts = [], ds_Warnings = [], ds_Bundles = 0, ds_OKBundles = 0, ds_PartialBundles = 0,
    ds_RejectedBundles = 0\<rparr>" dc imp "sort (filter is_urab found)"]
  by (simp add: LoadBundles_def Let_def counted_def)

section \<open>A damaged end of the archive\<close>

lemma read_tar_append:
  "snd (read_tar items files) = [] \<Longrightarrow>
   read_tar (items @ rest) files = read_tar rest (fst (read_tar items files))"
  by (induction items files rule: read_tar.induct) (auto simp: Let_def split: if_splits)

text \<open>
  An error of the archive reader after the last entry, as a truncated transfer leaves it, costs the
  whole bundle: \<open>Import\<close> keeps the entries it has read and imports every segment, but it has set
  \<open>Fatal\<close>, and \<open>LoadBundles\<close> rejects the bundle and none of its records reach a host.
\<close>

theorem tail_damage_rejects:
  assumes "read_tar items [] = (files, [])" "ir_Manifest (Import c p (Inr items)) = Some m"
    "imp p = Import c p (Inr (items @ [TarError e]))"
  shows "ir_Segments (imp p) = ir_Segments (Import c p (Inr items)) \<and> ir_Manifest (imp p) = Some m \<and>
    ds_Hosts (load_step dc imp ds p) = ds_Hosts ds \<and>
    ds_RejectedBundles (load_step dc imp ds p) = ds_RejectedBundles ds + 1"
proof -
  have rd: "read_tar (items @ [TarError e]) [] = (files, ''read tar: '' @ e)"
    using read_tar_append [of items "[]"] by (simp add: assms(1))
  obtain mb plain where mf: "map_of files manifestName = Some mb" "cd_dec c mb = Inr plain" "cd_par c plain = Inr m"
    using assms(2) by (auto simp: Import_def assms(1) Let_def split: option.splits sum.splits)
  have "imp p = (Import c p (Inr items))\<lparr>ir_Fatal := ''read tar: '' @ e\<rparr>"
    using mf by (simp add: assms(3) Import_def rd assms(1) Let_def)
  then show ?thesis using assms(2) by (simp add: load_step_def Let_def)
qed

definition no_decoders :: decoders where
  "no_decoders = \<lparr>dc_kind = (\<lambda>r. None), dc_inventory = (\<lambda>r. None), dc_minute = (\<lambda>r. None), dc_spike = (\<lambda>r. None),
     dc_proctop = (\<lambda>r. None), dc_sched = (\<lambda>r. None), dc_sqlinv = (\<lambda>r. None), dc_sqlsample = (\<lambda>r. None),
     dc_sqlspike = (\<lambda>r. None), dc_health = (\<lambda>r. None)\<rparr>"

definition no_dataset :: dataset where
  "no_dataset = \<lparr>ds_Hosts = [], ds_Warnings = [], ds_Bundles = 0, ds_OKBundles = 0, ds_PartialBundles = 0, ds_RejectedBundles = 0\<rparr>"

theorem tail_damage_rejects_witness:
  "ds_RejectedBundles (load_step no_decoders (\<lambda>p. Import small_codec p (Inr (small_items @ [TarError ''unexpected EOF''])))
     no_dataset ''x.urab'') = 1"
proof -
  have rd: "read_tar small_items [] = ([(manifestName, ''E{}''), (entry_name ''seg-a-00010101-000.ndjson.gz'', ''Eg'')], [])"
    using read_tar_entries [of "[(manifestName, ''E{}''), (entry_name ''seg-a-00010101-000.ndjson.gz'', ''Eg'')]" "[]"]
      segment_name_plain manifest_name_plain by (simp add: small_items_eq maxEntry_def)
  have m: "ir_Manifest (Import small_codec ''x.urab'' (Inr small_items)) = Some toy_manifest"
    by (simp add: Import_def rd Let_def small_codec_def toy_codec_def)
  from tail_damage_rejects [OF rd m, of "\<lambda>p. Import small_codec p (Inr (small_items @ [TarError ''unexpected EOF'']))" "''unexpected EOF''"
      no_decoders no_dataset] show ?thesis by (simp add: no_dataset_def)
qed

end
