(* ===== verification/GoStrings.thy ===== *)
theory GoStrings
  imports UraPrelude
begin

text \<open>
  The parts of the packages \<open>strings\<close>, \<open>strconv\<close> and \<open>path/filepath\<close> that the collectors use, on byte
  strings. White space and letter case are those of ASCII; the inputs they are applied to (crontabs,
  \<open>/proc\<close> files, process names, SQL Server property names) are ASCII.
\<close>

section \<open>Splitting\<close>

definition is_space :: "char \<Rightarrow> bool" where
  "is_space c \<longleftrightarrow> c \<in> {CHR 9, CHR 10, CHR 11, CHR 12, CHR 13, CHR '' ''}"

text \<open>\<open>strings.Fields\<close>: the maximal runs without white space.\<close>

fun words_from :: "string \<Rightarrow> string \<Rightarrow> string list" where
  "words_from w [] = (if w = [] then [] else [w])"
| "words_from w (c # cs) =
     (if is_space c then (if w = [] then words_from [] cs else w # words_from [] cs)
      else words_from (w @ [c]) cs)"

definition go_fields :: "string \<Rightarrow> string list" where
  "go_fields s = words_from [] s"

lemma fields_from_words:
  "list_all (\<lambda>c. \<not> is_space c) w \<Longrightarrow> f \<in> set (words_from w s) \<Longrightarrow> f \<noteq> [] \<and> list_all (\<lambda>c. \<not> is_space c) f"
  by (induction w s rule: words_from.induct) (auto split: if_splits)

lemma fields_words: "f \<in> set (go_fields s) \<Longrightarrow> f \<noteq> [] \<and> list_all (\<lambda>c. \<not> is_space c) f"
  using fields_from_words [of "[]"] by (simp add: go_fields_def)

definition trim_left :: "string \<Rightarrow> string" where
  "trim_left s = dropWhile is_space s"

definition trim_space :: "string \<Rightarrow> string" where
  "trim_space s = rev (trim_left (rev (trim_left s)))"

fun join :: "string \<Rightarrow> string list \<Rightarrow> string" where
  "join sep [] = []"
| "join sep [w] = w"
| "join sep (w # ws) = w @ sep @ join sep ws"

text \<open>The text before the first \<open>c\<close> and, when there is one, the text after it (\<open>IndexByte\<close>, \<open>SplitN(s, c, 2)\<close>).\<close>

definition cut :: "char \<Rightarrow> string \<Rightarrow> string \<times> string option" where
  "cut c s = (takeWhile (\<lambda>x. x \<noteq> c) s,
     (case dropWhile (\<lambda>x. x \<noteq> c) s of [] \<Rightarrow> None | x # rest \<Rightarrow> Some rest))"

section \<open>Comparing\<close>

definition has_suffix :: "string \<Rightarrow> string \<Rightarrow> bool" where
  "has_suffix s t \<longleftrightarrow> suffix t s"

definition trim_suffix :: "string \<Rightarrow> string \<Rightarrow> string" where
  "trim_suffix s t = (if suffix t s then take (length s - length t) s else s)"

definition lower_char :: "char \<Rightarrow> char" where
  "lower_char c = (let n = of_char c :: nat in if 65 \<le> n \<and> n \<le> 90 then char_of (n + 32) else c)"

definition to_lower :: "string \<Rightarrow> string" where
  "to_lower s = map lower_char s"

fun contains :: "string \<Rightarrow> string \<Rightarrow> bool" where
  "contains [] t = (t = [])"
| "contains (c # cs) t = (prefix t (c # cs) \<or> contains cs t)"

lemma contains_sublist: "contains s t \<longleftrightarrow> sublist t s"
proof (induction s)
  case (Cons c cs)
  then show ?case by (simp add: sublist_Cons_right)
qed simp

section \<open>Numbers\<close>

definition is_digit :: "char \<Rightarrow> bool" where
  "is_digit c = (let n = of_char c :: nat in 48 \<le> n \<and> n \<le> 57)"

definition digits_value :: "string \<Rightarrow> int" where
  "digits_value s = dec_value s"

text \<open>\<open>strconv.Atoi\<close>: an optional sign and digits, in the range of \<open>int64\<close>.\<close>

definition atoi :: "string \<Rightarrow> int option" where
  "atoi s =
     (let neg = (s \<noteq> [] \<and> hd s = CHR ''-'');
          ds = (if s \<noteq> [] \<and> (hd s = CHR ''-'' \<or> hd s = CHR ''+'') then tl s else s);
          v = (if neg then - digits_value ds else digits_value ds)
      in if ds = [] \<or> \<not> list_all is_digit ds \<or> v < - (2 ^ 63) \<or> v \<ge> 2 ^ 63 then None else Some v)"

text \<open>\<open>strconv.ParseUint(s, 10, 64)\<close>; the second form is \<open>v, _ := ...\<close>, which ignores the error.\<close>

definition parse_uint :: "string \<Rightarrow> u64 option" where
  "parse_uint s = (if s = [] \<or> \<not> list_all is_digit s \<or> digits_value s \<ge> 2 ^ 64 then None
     else Some (word_of_int (digits_value s)))"

definition parse_uint_or :: "string \<Rightarrow> u64" where
  "parse_uint_or s = (if s = [] \<or> \<not> list_all is_digit s then 0
     else if digits_value s \<ge> 2 ^ 64 then - 1 else word_of_int (digits_value s))"

section \<open>Paths\<close>

text \<open>\<open>filepath.Base\<close> with the separator \<open>/\<close>.\<close>

definition file_base :: "string \<Rightarrow> string" where
  "file_base p =
     (let q = rev (dropWhile (\<lambda>c. c = CHR ''/'') (rev p)) in
      if p = [] then ''.'' else if q = [] then ''/'' else last (split_on (CHR ''/'') q))"

end
