(* ===== verification/Sched.thy ===== *)
theory Sched
  imports Records GoStrings
begin

text \<open>
  \<open>internal/sched\<close>: the snapshot of the scheduled work of a host on Linux (crontabs and systemd timers)
  and \<open>MatchesTime\<close>, which says whether a cron expression fires near a given time. The files, the output
  of \<open>systemctl\<close> and \<open>time.Parse\<close> are arguments.
\<close>

section \<open>Matching cron expressions\<close>

text \<open>The range and the step a part of a field stands for; \<open>None\<close> when a number does not parse.\<close>

definition part_step :: "string option \<Rightarrow> int" where
  "part_step st = (case st of None \<Rightarrow> 1
     | Some s \<Rightarrow> (case atoi s of Some n \<Rightarrow> if n > 0 then n else 1 | None \<Rightarrow> 1))"

definition part_bounds :: "string \<Rightarrow> int \<Rightarrow> int \<Rightarrow> (int \<times> int) option" where
  "part_bounds expr mn mx =
     (if expr = ''*'' \<or> expr = [] then Some (mn, mx)
      else case cut (CHR ''-'') expr of
        (a, Some b) \<Rightarrow>
          (case (atoi a, atoi b) of (Some lo, Some hi) \<Rightarrow> Some (lo, hi) | _ \<Rightarrow> None)
      | (a, None) \<Rightarrow> (case atoi expr of Some n \<Rightarrow> Some (n, n) | None \<Rightarrow> None))"

definition part_match :: "string \<Rightarrow> int \<Rightarrow> int \<Rightarrow> int \<Rightarrow> bool" where
  "part_match part v mn mx =
     (case cut (CHR ''/'') part of (expr, st) \<Rightarrow>
      (case part_bounds expr mn mx of
         None \<Rightarrow> False
       | Some (lo, hi) \<Rightarrow> v \<ge> lo \<and> v \<le> hi \<and> (v - lo) smod part_step st = 0))"

definition cronFieldMatch :: "string \<Rightarrow> int \<Rightarrow> int \<Rightarrow> int \<Rightarrow> bool" where
  "cronFieldMatch field v mn mx = list_ex (\<lambda>part. part_match part v mn mx) (split_on (CHR '','') field)"

definition month_of :: "time \<Rightarrow> int" where
  "month_of t = fst (snd (civil (day_number t)))"

definition day_of_month :: "time \<Rightarrow> int" where
  "day_of_month t = snd (snd (civil (day_number t)))"

text \<open>The five conditions the loop tests at one instant.\<close>

definition cron_fires :: "string list \<Rightarrow> time \<Rightarrow> bool" where
  "cron_fires fs tt \<longleftrightarrow>
     cronFieldMatch (fs ! 0) (minute_of_hour tt) 0 59 \<and>
     cronFieldMatch (fs ! 1) (hour_of_day tt) 0 23 \<and>
     cronFieldMatch (fs ! 2) (day_of_month tt) 1 31 \<and>
     cronFieldMatch (fs ! 3) (month_of tt) 1 12 \<and>
     cronFieldMatch (fs ! 4) (weekday tt) 0 6"

function offset_loop :: "string list \<Rightarrow> time \<Rightarrow> duration \<Rightarrow> duration \<Rightarrow> bool" where
  "offset_loop fs t tolerance off =
     (if off > tolerance then False
      else if cron_fires fs (t + off) then True
      else offset_loop fs t tolerance (off + minutes 1))"
  by pat_completeness auto
termination
  by (relation "measure (\<lambda>(fs, t, tol, off). nat (tol - off + 1))") (auto simp: minutes_def)

declare offset_loop.simps [simp del]

definition MatchesTime :: "string \<Rightarrow> time \<Rightarrow> duration \<Rightarrow> bool" where
  "MatchesTime cronExpr t tolerance =
     (let fs = go_fields cronExpr in
      if length fs < 5 then False else offset_loop fs t tolerance (- tolerance))"

section \<open>Crontabs\<close>

text \<open>One line of a crontab; \<open>system\<close> says that the file has a user column.\<close>

definition skip_line :: "string \<Rightarrow> bool" where
  "skip_line line \<longleftrightarrow> line = [] \<or> prefix ''#'' line \<or>
     (CHR ''='' \<in> set line \<and> \<not> prefix ''*'' line \<and> \<not> prefix ''@'' line \<and> length (go_fields line) < 6)"

definition cron_name :: "bool \<Rightarrow> string list \<Rightarrow> string" where
  "cron_name system fs =
     (let cmdIdx = (if system then 6 else 5) in
      if length fs > cmdIdx then file_base (fs ! cmdIdx)
      else if length fs > 5 then file_base (fs ! 5) else [])"

definition cron_line :: "bool \<Rightarrow> string \<Rightarrow> sched_entry option" where
  "cron_line system raw =
     (let line = trim_space raw in
      if skip_line line then None
      else
        let fs = go_fields line in
        if length fs < 6 \<or> prefix ''@'' (fs ! 0) then None
        else Some \<lparr>se_Source = ''cron'', se_Name = cron_name system fs, se_Schedule = join '' '' (take 5 fs),
               se_Unit = [], se_LastRun = 0, se_NextRun = 0\<rparr>)"

text \<open>The user crontabs: listed, not readable, or absent.\<close>

datatype spool_dir = SpoolFiles "string list" | SpoolDenied | SpoolAbsent

definition cron_system :: "string \<Rightarrow> bool" where
  "cron_system p \<longleftrightarrow> p = ''/etc/crontab'' \<or> prefix ''/etc/cron.d/'' p"

definition cron_paths :: "string list \<Rightarrow> spool_dir \<Rightarrow> string list \<times> (string \<times> string) list" where
  "cron_paths cron_d spool =
     (let base = ''/etc/crontab'' # cron_d in
      case spool of
        SpoolFiles fs \<Rightarrow> (base @ map (\<lambda>f. ''/var/spool/cron/crontabs/'' @ f) fs, [])
      | SpoolDenied \<Rightarrow> (base, [(''sched.cron'', ''user crontabs unreadable (needs root); system crontabs only'')])
      | SpoolAbsent \<Rightarrow> (base, []))"

definition crontab_entries :: "string \<Rightarrow> string \<Rightarrow> sched_entry list" where
  "crontab_entries p content = List.map_filter (cron_line (cron_system p)) (split_on (CHR 10) content)"

definition cronEntries :: "(string \<Rightarrow> string option) \<Rightarrow> string list \<Rightarrow> spool_dir
    \<Rightarrow> sched_entry list \<times> (string \<times> string) list" where
  "cronEntries read_file cron_d spool =
     (case cron_paths cron_d spool of (paths, iss) \<Rightarrow>
      (concat (map (\<lambda>p. case read_file p of None \<Rightarrow> [] | Some b \<Rightarrow> crontab_entries p b) paths), iss))"

section \<open>Systemd timers\<close>

text \<open>One line of \<open>systemctl list-timers\<close>: the scan over its fields, with the index.\<close>

fun timer_scan :: "(string \<Rightarrow> time option) \<Rightarrow> string list \<Rightarrow> nat \<Rightarrow> string list \<Rightarrow> string \<times> string \<times> time
    \<Rightarrow> string \<times> string \<times> time" where
  "timer_scan parse fs i [] acc = acc"
| "timer_scan parse fs i (f # rest) (timer, unit, next_run) =
     timer_scan parse fs (i + 1) rest
       (if has_suffix f ''.timer'' \<and> timer = [] then
          (f, unit, if i \<ge> 3 then (case parse (join '' '' (take 4 fs)) of Some ts \<Rightarrow> ts | None \<Rightarrow> next_run) else next_run)
        else if has_suffix f ''.service'' then (timer, f, next_run)
        else (timer, unit, next_run))"

definition timer_line :: "(string \<Rightarrow> time option) \<Rightarrow> string \<Rightarrow> sched_entry option" where
  "timer_line parse line =
     (let fs = go_fields line in
      if length fs < 2 then None
      else case timer_scan parse fs 0 fs ([], [], 0) of (timer, unit, next_run) \<Rightarrow>
        if timer = [] then None
        else Some \<lparr>se_Source = ''systemd_timer'', se_Name = timer, se_Schedule = [], se_Unit = unit,
               se_LastRun = 0, se_NextRun = next_run\<rparr>)"

definition systemdTimerEntries :: "(string \<Rightarrow> time option) \<Rightarrow> string + string
    \<Rightarrow> sched_entry list \<times> (string \<times> string) list" where
  "systemdTimerEntries parse output =
     (case output of
        Inl e \<Rightarrow> ([], [(''sched.timers'', ''systemctl list-timers unavailable: '' @ e)])
      | Inr b \<Rightarrow> (List.map_filter (timer_line parse) (split_on (CHR 10) b), []))"

section \<open>Snapshot\<close>

record sched_env =
  sv_read :: "string \<Rightarrow> string option"
  sv_cron_d :: "string list"
  sv_spool :: spool_dir
  sv_systemctl :: "string + string"
  sv_parse :: "string \<Rightarrow> time option"

definition platformEntries :: "sched_env \<Rightarrow> sched_entry list \<times> (string \<times> string) list" where
  "platformEntries env =
     (case cronEntries (sv_read env) (sv_cron_d env) (sv_spool env) of (cr, is1) \<Rightarrow>
      (case systemdTimerEntries (sv_parse env) (sv_systemctl env) of (ti, is2) \<Rightarrow> (cr @ ti, is1 @ is2)))"

definition Snapshot :: "sched_env \<Rightarrow> time \<Rightarrow> sched_snapshot \<times> (string \<times> string) list" where
  "Snapshot env now =
     (case platformEntries env of (es, iss) \<Rightarrow> (meta.extend (NewMeta KindSched now) \<lparr>ss_Entries = es\<rparr>, iss))"

end
