(* ===== verification/SchedFacts.thy ===== *)
theory SchedFacts
  imports Sched
begin

text \<open>
  \<open>MatchesTime\<close> against the set of minutes a cron expression denotes, and what a crontab line
  contributes to the snapshot.
\<close>

section \<open>Fields of a line\<close>

lemma fields_from_space_end: "is_space c \<Longrightarrow> words_from w (s @ [c]) = words_from w s"
  by (induction w s rule: words_from.induct) auto

lemma fields_append_spaces: "list_all is_space ws \<Longrightarrow> words_from w (s @ ws) = words_from w s"
proof (induction ws rule: rev_induct)
  case (snoc c ws)
  then show ?case using fields_from_space_end [of c w "s @ ws"] by simp
qed simp

lemma fields_trim_left: "words_from [] (trim_left s) = words_from [] s"
  by (induction s) (simp_all add: trim_left_def)

lemma trim_right_split: "\<exists>ws. list_all is_space ws \<and> s = rev (trim_left (rev s)) @ ws"
proof -
  have "s = rev (trim_left (rev s)) @ rev (takeWhile is_space (rev s))"
    unfolding trim_left_def by (metis rev_append rev_rev_ident takeWhile_dropWhile_id)
  moreover have "list_all is_space (rev (takeWhile is_space (rev s)))"
    by (auto simp: list_all_iff dest: set_takeWhileD)
  ultimately show ?thesis by blast
qed

lemma fields_trim [simp]: "go_fields (trim_space s) = go_fields s"
proof -
  obtain ws where "list_all is_space ws" "trim_left s = rev (trim_left (rev (trim_left s))) @ ws"
    using trim_right_split by blast
  then have "words_from [] (trim_space s) = words_from [] (trim_left s)"
    unfolding trim_space_def using fields_append_spaces by metis
  then show ?thesis by (simp add: go_fields_def fields_trim_left)
qed

lemma fields_from_word: "w \<noteq> [] \<Longrightarrow> \<exists>v fs. words_from w s = (w @ v) # fs"
  by (induction w s rule: words_from.induct) auto

lemma trim_space_hd: "trim_space s = c # cs \<Longrightarrow> \<not> is_space c"
proof -
  assume t: "trim_space s = c # cs"
  obtain ws where "trim_left s = trim_space s @ ws"
    unfolding trim_space_def using trim_right_split by blast
  then have "hd (trim_left s) = c" "trim_left s \<noteq> []" using t by auto
  then show ?thesis using hd_dropWhile [of is_space s] by (simp add: trim_left_def)
qed

lemma trim_space_first_field:
  assumes "trim_space s = c # cs"
  shows "\<exists>v fs. go_fields s = (c # v) # fs"
proof -
  have "go_fields s = words_from [] (c # cs)" using assms fields_trim [of s] by (simp add: go_fields_def)
  also have "\<dots> = words_from [c] cs" using trim_space_hd [OF assms] by simp
  finally show ?thesis using fields_from_word [of "[c]" cs] by auto
qed

lemma trim_space_empty: "trim_space s = [] \<Longrightarrow> go_fields s = []"
  using fields_trim [of s] by (simp add: go_fields_def)

section \<open>Privacy of the crontab snapshot\<close>

text \<open>A line with enough words is skipped or not by its first word only.\<close>

lemma skip_line_words:
  assumes "6 \<le> length (go_fields s)"
  shows "skip_line (trim_space s) \<longleftrightarrow> prefix ''#'' (hd (go_fields s))"
proof (cases "trim_space s")
  case Nil
  then show ?thesis using assms trim_space_empty [OF Nil] by simp
next
  case (Cons c cs)
  obtain v fs where f: "go_fields s = (c # v) # fs" using trim_space_first_field [OF Cons] by blast
  have "go_fields (c # cs) = go_fields s" using fields_trim [of s] by (simp add: Cons)
  then show ?thesis using assms by (simp add: skip_line_def Cons f)
qed

text \<open>
  Arguments of a scheduled command never reach the snapshot, as they may hold credentials: two
  crontab lines that agree up to the command word yield the same entry, whatever follows, and the name
  that is kept is the base name of a word without a slash or white space.
\<close>

theorem cron_arguments_dropped:
  assumes "k = (if system then 6 else 5)" "k < length (go_fields l1)" "k < length (go_fields l2)"
    "take (Suc k) (go_fields l1) = take (Suc k) (go_fields l2)"
  shows "cron_line system l1 = cron_line system l2"
proof -
  have n: "6 \<le> length (go_fields l1)" "6 \<le> length (go_fields l2)" using assms(1-3) by (auto split: if_splits)
  have eq: "go_fields l1 ! i = go_fields l2 ! i" if "i \<le> k" for i
    using arg_cong [OF assms(4), of "\<lambda>xs. xs ! i"] that by simp
  have hd: "hd (go_fields l1) = hd (go_fields l2)" using eq [of 0] n by (metis hd_conv_nth length_0_conv not_numeral_le_zero zero_le)
  have t5: "take 5 (go_fields l1) = take 5 (go_fields l2)"
    using arg_cong [OF assms(4), of "take 5"] assms(1) by (simp add: min_def split: if_splits)
  have nm: "cron_name system (go_fields l1) = cron_name system (go_fields l2)"
    using assms(1-3) eq [of k] by (simp add: cron_name_def split: if_splits)
  show ?thesis
    using skip_line_words [OF n(1)] skip_line_words [OF n(2)] hd eq [of 0] n nm t5 by (simp add: cron_line_def Let_def)
qed

theorem cron_arguments_dropped_witness:
  "cron_line False ''0 2 * * * /opt/b.sh --password=x'' = cron_line False ''0 2 * * * /opt/b.sh''"
  by (rule cron_arguments_dropped [OF refl]) code_simp+

section \<open>The meaning of cron expressions\<close>

definition field_values :: "string \<Rightarrow> int \<Rightarrow> int \<Rightarrow> int set" where
  "field_values field mn mx =
     {v. \<exists>part \<in> set (split_on (CHR '','') field). \<exists>lo hi. part_bounds (fst (cut (CHR ''/'') part)) mn mx = Some (lo, hi) \<and>
        lo \<le> v \<and> v \<le> hi \<and> part_step (snd (cut (CHR ''/'') part)) dvd (v - lo)}"

lemma part_step_pos: "0 < part_step st"
  by (simp add: part_step_def split: option.split)

lemma smod_dvd: "0 < b \<Longrightarrow> (a smod b = 0) = (b dvd a)" for a b :: int
  by (cases "a = 0") (simp_all add: signed_modulo_int_def sgn_0_0 dvd_eq_mod_eq_0 [symmetric])

lemma cronFieldMatch_values: "cronFieldMatch field v mn mx \<longleftrightarrow> v \<in> field_values field mn mx"
proof -
  have "part_match part v mn mx \<longleftrightarrow> (\<exists>lo hi. part_bounds (fst (cut (CHR ''/'') part)) mn mx = Some (lo, hi) \<and>
        lo \<le> v \<and> v \<le> hi \<and> part_step (snd (cut (CHR ''/'') part)) dvd (v - lo))" for part
    by (auto simp: part_match_def smod_dvd part_step_pos split: prod.split option.split)
  then show ?thesis by (simp add: cronFieldMatch_def field_values_def list_ex_iff)
qed

text \<open>A minute fires when each of its five components is in the set its field denotes.\<close>

definition fires_at :: "string list \<Rightarrow> time \<Rightarrow> bool" where
  "fires_at fs m \<longleftrightarrow> minute_of_hour m \<in> field_values (fs ! 0) 0 59 \<and> hour_of_day m \<in> field_values (fs ! 1) 0 23 \<and>
     day_of_month m \<in> field_values (fs ! 2) 1 31 \<and> month_of m \<in> field_values (fs ! 3) 1 12 \<and>
     weekday m \<in> field_values (fs ! 4) 0 6"

lemma cron_fires_at: "cron_fires fs t \<longleftrightarrow> fires_at fs t"
  by (simp add: cron_fires_def fires_at_def cronFieldMatch_values)

lemma truncate_minute_div: "truncate_minute t div minutes 1 = t div minutes 1"
  by (simp add: truncate_minute_def minutes_def minus_mod_eq_mult_div)

lemma truncate_minute_units [simp]:
  "minute_of_hour (truncate_minute t) = minute_of_hour t" "hour_of_day (truncate_minute t) = hour_of_day t"
  "day_number (truncate_minute t) = day_number t"
proof -
  have "s div hours 1 = s div minutes 1 div 60" "s div hours 24 = s div minutes 1 div 1440" for s
    by (simp_all add: minutes_def hours_def zdiv_zmult2_eq [symmetric])
  then show "minute_of_hour (truncate_minute t) = minute_of_hour t" "hour_of_day (truncate_minute t) = hour_of_day t"
    "day_number (truncate_minute t) = day_number t"
    by (simp_all add: minute_of_hour_def hour_of_day_def day_number_def truncate_minute_div)
qed

lemma fires_at_truncate: "fires_at fs (truncate_minute t) = fires_at fs t"
  by (simp add: fires_at_def day_of_month_def month_of_def weekday_def)

lemma offset_loop_iff:
  "offset_loop fs t tol off \<longleftrightarrow> (\<exists>k::nat. off + minutes (int k) \<le> tol \<and> cron_fires fs (t + off + minutes (int k)))"
proof (induction fs t tol off rule: offset_loop.induct)
  case (1 fs t tol off)
  have m: "minutes (int (Suc k)) = minutes 1 + minutes (int k)" for k by (simp add: minutes_def)
  have m0: "minutes (int 0) = 0" by (simp add: minutes_def)
  have split: "(\<exists>k. P k) \<longleftrightarrow> P 0 \<or> (\<exists>k. P (Suc k))" for P :: "nat \<Rightarrow> bool" by (metis not0_implies_Suc)
  show ?case
  proof (cases "off > tol")
    case True
    then show ?thesis by (subst offset_loop.simps) (auto simp: minutes_def)
  next
    case False
    have IH: "offset_loop fs t tol (off + minutes 1) \<longleftrightarrow> (\<exists>k::nat. off + minutes (int (Suc k)) \<le> tol \<and>
        cron_fires fs (t + off + minutes (int (Suc k))))" if "\<not> cron_fires fs (t + off)"
      using "1.IH" [OF False that] by (simp only: m add.assoc)
    show ?thesis
    proof (cases "cron_fires fs (t + off)")
      case True
      then show ?thesis using False m0 by (subst offset_loop.simps, subst split) simp
    next
      case no: False
      then show ?thesis using False IH [OF no] by (subst offset_loop.simps, subst split) (simp only: m0, simp)
    qed
  qed
qed

lemma truncate_minute_shift: "truncate_minute (t + minutes k) = truncate_minute t + minutes k"
  by (simp add: truncate_minute_def minutes_def)

text \<open>
  C29. \<open>MatchesTime\<close> decides exactly whether the expression fires in one of the minutes from \<open>n\<close> before
  to \<open>n\<close> after the minute of \<open>t\<close>, where a minute fires when its minute, hour, day, month and weekday are
  in the sets the five fields denote; an expression with fewer than five fields never fires. The loop
  over the offsets misses no minute and tests none outside.
\<close>

theorem MatchesTime_spec:
  assumes "0 \<le> n"
  shows "MatchesTime e t (minutes n) \<longleftrightarrow> 5 \<le> length (go_fields e) \<and>
    (\<exists>m. m mod minutes 1 = 0 \<and> \<bar>m - truncate_minute t\<bar> \<le> minutes n \<and> fires_at (go_fields e) m)"
proof -
  let ?fs = "go_fields e"
  have "offset_loop ?fs t (minutes n) (- minutes n) \<longleftrightarrow>
      (\<exists>k::nat. - minutes n + minutes (int k) \<le> minutes n \<and> fires_at ?fs (truncate_minute t + minutes (int k - n)))"
  proof -
    have "fires_at ?fs (t + - minutes n + minutes (int k)) = fires_at ?fs (truncate_minute t + minutes (int k - n))" for k
    proof -
      have "t + - minutes n + minutes (int k) = t + minutes (int k - n)" by (simp add: minutes_def algebra_simps)
      then show ?thesis using fires_at_truncate [of ?fs "t + minutes (int k - n)"] by (simp only: truncate_minute_shift)
    qed
    then show ?thesis by (simp add: offset_loop_iff cron_fires_at)
  qed
  also have "\<dots> \<longleftrightarrow> (\<exists>m. m mod minutes 1 = 0 \<and> \<bar>m - truncate_minute t\<bar> \<le> minutes n \<and> fires_at ?fs m)" (is "?L = ?R")
  proof
    assume ?L
    then obtain k :: nat where k: "- minutes n + minutes (int k) \<le> minutes n" "fires_at ?fs (truncate_minute t + minutes (int k - n))"
      by blast
    have "(truncate_minute t + minutes (int k - n)) mod minutes 1 = 0" by (simp add: truncate_minute_def minutes_def mod_eq_0_iff_dvd)
    moreover have "\<bar>minutes (int k - n)\<bar> \<le> minutes n" using k(1) assms by (simp add: minutes_def)
    ultimately show ?R using k(2) by (intro exI [of _ "truncate_minute t + minutes (int k - n)"]) simp
  next
    assume ?R
    then obtain m where m: "m mod minutes 1 = 0" "\<bar>m - truncate_minute t\<bar> \<le> minutes n" "fires_at ?fs m"
      by (elim exE conjE)
    have "minutes 1 dvd m - truncate_minute t" using m(1) by (simp add: truncate_minute_def minutes_def mod_eq_0_iff_dvd)
    then obtain j where j: "m - truncate_minute t = minutes j" by (auto simp: minutes_def dvd_def)
    have "\<bar>j\<bar> \<le> n" using m(2) by (simp add: j minutes_def)
    then have "- minutes n + minutes (int (nat (j + n))) \<le> minutes n" "int (nat (j + n)) - n = j" by (auto simp: minutes_def)
    moreover have "m = truncate_minute t + minutes j" using j by simp
    ultimately show ?L using m(3) using \<open>\<bar>j\<bar> \<le> n\<close>
      by (intro exI [of _ "nat (j + n)"]) (simp add: minutes_def)
  qed
  finally show ?thesis by (auto simp: MatchesTime_def Let_def)
qed

theorem MatchesTime_spec_witness:
  "\<exists>m. \<bar>m - truncate_minute (minutes 148)\<bar> \<le> minutes 3 \<and> fires_at (go_fields ''30 2 * * *'') m"
proof -
  have "MatchesTime ''30 2 * * *'' (minutes 148) (minutes 3)" by code_simp
  then show ?thesis using MatchesTime_spec [of 3 "''30 2 * * *''" "minutes 148"] by auto
qed

text \<open>Sunday written as 7, as cron allows, is never matched: the weekday of the code is 0 to 6.\<close>

lemma sunday_as_seven_never_matches: "\<not> MatchesTime ''0 2 * * 7'' t tol"
proof -
  have fs: "go_fields ''0 2 * * 7'' = [''0'', ''2'', ''*'', ''*'', ''7'']" by code_simp
  have "part_bounds ''7'' 0 6 = Some (7, 7)" "split_on (CHR '','') ''7'' = [''7'']" "cut (CHR ''/'') ''7'' = (''7'', None)"
    by code_simp+
  then have "field_values ''7'' 0 6 \<subseteq> {7}" by (auto simp: field_values_def)
  moreover have "weekday u \<noteq> 7" for u using pos_mod_bound [of 7 "day_number u + 1"] by (simp add: weekday_def)
  ultimately have "\<not> cron_fires [''0'', ''2'', ''*'', ''*'', ''7''] u" for u
    by (auto simp: cron_fires_at fires_at_def)
  then show ?thesis by (simp add: MatchesTime_def fs Let_def offset_loop_iff)
qed

text \<open>A setting with six or more words is taken for a job, and a word of its value is exported.\<close>

lemma cron_setting_leaks:
  "map_option se_Name (cron_line False ''OPTS = -u root -p secret'') = Some ''secret''"
  by code_simp

end
