(* ===== verification/Attribution.thy ===== *)
theory Attribution
  imports Sched GoMap
begin

text \<open>
  \<open>internal/agent/attribution.go\<close>: a completed spike event is correlated with the process snapshots, the
  scheduled jobs and the SQL Server processes of the host. The code ranges over two maps, the processes
  by PID and the core-seconds by process name; their iteration orders are the arguments \<open>pids\<close> and
  \<open>names\<close>. The sort of the processes is stable after \<open>pids\<close>, which stands for any order of equal keys.
\<close>

section \<open>Helpers\<close>

definition isSQLProcess :: "string \<Rightarrow> bool" where
  "isSQLProcess name \<longleftrightarrow> to_lower (trim_suffix name ''.exe'') = ''sqlservr''"

text \<open>Negating the least \<open>int64\<close> gives itself.\<close>

definition absDur :: "duration \<Rightarrow> duration" where
  "absDur d = (if d < 0 then (if d = - (2 ^ 63) then d else - d) else d)"

definition suffixIf :: "bool \<Rightarrow> string \<Rightarrow> string" where
  "suffixIf cond s = (if cond then s else [])"

definition fmtBytes :: "u64 \<Rightarrow> string" where
  "fmtBytes b =
     (if b \<ge> 2 ^ 30 then fmt_f 1 (of_u64 b / of_go_int (2 ^ 30)) @ '' GiB''
      else if b \<ge> 2 ^ 20 then fmt_f 0 (of_u64 b / of_go_int (2 ^ 20)) @ '' MiB''
      else fmt_d (uint b) @ '' B'')"

definition sameTimeOfDay :: "time \<Rightarrow> time \<Rightarrow> duration \<Rightarrow> bool" where
  "sameTimeOfDay a b tol =
     (let am = hour_of_day a * 60 + minute_of_hour a;
          bm = hour_of_day b * 60 + minute_of_hour b;
          d = am - bm;
          d = (if d < 0 then - d else d);
          d = (if d > 720 then 1440 - d else d)
      in minutes d \<le> tol)"

definition entry_matches :: "time \<Rightarrow> sched_entry \<Rightarrow> bool" where
  "entry_matches start e \<longleftrightarrow>
     (let tol = minutes 10 in
      (se_Schedule e \<noteq> [] \<and> MatchesTime (se_Schedule e) start tol) \<or>
      (\<not> is_zero_time (se_NextRun e) \<and> sameTimeOfDay (se_NextRun e) start tol) \<or>
      (\<not> is_zero_time (se_LastRun e) \<and> absDur (time_sub start (se_LastRun e)) \<le> tol))"

fun matchSchedule :: "sched_entry list \<Rightarrow> time \<Rightarrow> string" where
  "matchSchedule [] start = []"
| "matchSchedule (e # es) start =
     (if entry_matches start e then se_Source e @ '':'' @ se_Name e else matchSchedule es start)"

section \<open>Ranking the processes\<close>

record proc_acc =
  pc_s :: proc_sample
  pc_firstCPUs :: f64
  pc_lastCPUs :: f64
  pc_maxCPUPct :: f64
  pc_maxRSS :: u64
  pc_maxIOps :: f64

definition new_acc :: "proc_sample \<Rightarrow> proc_acc" where
  "new_acc p = \<lparr>pc_s = p, pc_firstCPUs = ps_CPUTimeS p, pc_lastCPUs = 0, pc_maxCPUPct = 0, pc_maxRSS = 0, pc_maxIOps = 0\<rparr>"

definition acc_cpu :: "proc_sample \<Rightarrow> proc_acc \<Rightarrow> proc_acc" where
  "acc_cpu p a = (if ps_CPUPct p > pc_maxCPUPct a
     then a\<lparr>pc_maxCPUPct := ps_CPUPct p, pc_s := (pc_s a)\<lparr>ps_CPUPct := ps_CPUPct p\<rparr>\<rparr> else a)"

definition acc_rss :: "proc_sample \<Rightarrow> proc_acc \<Rightarrow> proc_acc" where
  "acc_rss p a = (if ps_RSSBytes p > pc_maxRSS a
     then a\<lparr>pc_maxRSS := ps_RSSBytes p, pc_s := (pc_s a)\<lparr>ps_RSSBytes := ps_RSSBytes p\<rparr>\<rparr> else a)"

definition acc_io :: "proc_sample \<Rightarrow> proc_acc \<Rightarrow> proc_acc" where
  "acc_io p a =
     (let io = ps_ReadBytesPS p + ps_WriteBytesPS p in
      if io > pc_maxIOps a
      then a\<lparr>pc_maxIOps := io, pc_s := (pc_s a)\<lparr>ps_ReadBytesPS := ps_ReadBytesPS p, ps_WriteBytesPS := ps_WriteBytesPS p\<rparr>\<rparr>
      else a)"

definition acc_unit :: "proc_sample \<Rightarrow> proc_acc \<Rightarrow> proc_acc" where
  "acc_unit p a = (if ps_ServiceUnit p \<noteq> [] then a\<lparr>pc_s := (pc_s a)\<lparr>ps_ServiceUnit := ps_ServiceUnit p\<rparr>\<rparr> else a)"

definition merge_sample :: "proc_acc \<Rightarrow> proc_sample \<Rightarrow> proc_acc" where
  "merge_sample a p = acc_unit p (acc_io p (acc_rss p (acc_cpu p (a\<lparr>pc_lastCPUs := ps_CPUTimeS p\<rparr>))))"

definition put_sample :: "(int, proc_acc) go_map \<Rightarrow> proc_sample \<Rightarrow> (int, proc_acc) go_map" where
  "put_sample m p =
     AList.update (ps_PID p) (merge_sample (case map_of m (ps_PID p) of Some a \<Rightarrow> a | None \<Rightarrow> new_acc p) p) m"

definition by_pid :: "proc_top list \<Rightarrow> (int, proc_acc) go_map" where
  "by_pid snapshots = foldl put_sample [] (concat (map pt_Procs snapshots))"

definition add_core_seconds :: "(string, f64) go_map \<Rightarrow> proc_acc \<Rightarrow> (string, f64) go_map" where
  "add_core_seconds m a =
     (let cs = pc_lastCPUs a - pc_firstCPUs a; name = ps_Name (pc_s a) in
      if cs > 0 then AList.update name ((case map_of m name of Some v \<Rightarrow> v | None \<Rightarrow> 0) + round2f cs) m else m)"

type_synonym pid_order = "(int, proc_acc) go_map \<Rightarrow> (int, proc_acc) go_map"
type_synonym name_order = "(string, f64) go_map \<Rightarrow> (string, f64) go_map"

definition rank_sort :: "string \<Rightarrow> (string, f64) go_map \<Rightarrow> proc_sample list \<Rightarrow> proc_sample list" where
  "rank_sort resource cs out =
     (if resource = ResMemory \<or> resource = ResPaging then sort_key (\<lambda>p. - uint (ps_RSSBytes p)) out
      else if resource = ResDiskIO \<or> resource = ResDiskLatency \<or> resource = ResDiskQueue
      then sort_key (\<lambda>p. - (ps_ReadBytesPS p + ps_WriteBytesPS p)) out
      else sort_key (\<lambda>p. - (case map_of cs (ps_Name p) of Some v \<Rightarrow> v | None \<Rightarrow> 0)) out)"

definition rankProcesses :: "pid_order \<Rightarrow> spike_event \<Rightarrow> proc_top list \<Rightarrow> spike_event \<times> proc_sample list" where
  "rankProcesses pids ev snapshots =
     (let accs = map snd (pids (by_pid snapshots));
          coreSeconds = foldl add_core_seconds [] accs;
          ev = (if coreSeconds \<noteq> [] then ev\<lparr>ev_CoreSecondsByProc := coreSeconds\<rparr> else ev)
      in (ev, take 10 (rank_sort (ev_Resource ev) coreSeconds (map pc_s accs))))"

section \<open>Attribution\<close>

definition evidence :: "string \<Rightarrow> spike_event \<Rightarrow> spike_event" where
  "evidence s ev = ev\<lparr>ev_AttributionEvidence := ev_AttributionEvidence ev @ [s]\<rparr>"

definition top_core_seconds :: "name_order \<Rightarrow> string \<Rightarrow> (string, f64) go_map \<Rightarrow> f64 \<times> f64" where
  "top_core_seconds names tp m =
     foldl (\<lambda>(tot, t) (n, cs). (tot + cs, if n = tp then cs else t)) (0, 0) (names m)"

definition att_dominance :: "name_order \<Rightarrow> proc_sample \<Rightarrow> spike_event \<times> f64 \<Rightarrow> spike_event \<times> f64" where
  "att_dominance names tp acc =
     (case acc of (ev, conf) \<Rightarrow>
      if ev_Resource ev = ResCPU \<and> ev_CoreSecondsByProc ev \<noteq> [] then
        (case top_core_seconds names (ps_Name tp) (ev_CoreSecondsByProc ev) of (tot, topCS) \<Rightarrow>
         if tot > 0 \<and> topCS / tot > fl (1 / 2) then
           (evidence (ps_Name tp @ '' consumed '' @ fmt_f 0 (topCS / tot * fl 100) @
              ''% of process CPU core-seconds during the event ('' @ fmt_f 1 topCS @ '' of '' @ fmt_f 1 tot @ '' core-s)'') ev,
            conf + fl (2 / 10))
         else (ev, conf))
      else (ev, conf))"

definition att_service :: "proc_sample \<Rightarrow> spike_event \<times> f64 \<Rightarrow> spike_event \<times> f64" where
  "att_service tp acc =
     (case acc of (ev, conf) \<Rightarrow>
      if ps_ServiceUnit tp \<noteq> [] then
        (evidence (''process belongs to service/unit '' @ ps_ServiceUnit tp)
           (ev\<lparr>ev_CorrelatedServiceOrJob := ps_ServiceUnit tp\<rparr>), conf + fl (15 / 100))
      else (ev, conf))"

definition att_schedule :: "sched_entry list \<Rightarrow> spike_event \<times> f64 \<Rightarrow> spike_event \<times> f64" where
  "att_schedule entries acc =
     (case acc of (ev, conf) \<Rightarrow>
      let job = matchSchedule entries (ev_StartTS ev) in
      if job \<noteq> [] then
        (evidence (''scheduled job matches event start time: '' @ job)
           (if ev_CorrelatedServiceOrJob ev = [] then ev\<lparr>ev_CorrelatedServiceOrJob := job\<rparr> else ev), conf + fl (2 / 10))
      else (ev, conf))"

definition att_sql :: "(int \<Rightarrow> string option) \<Rightarrow> proc_sample \<Rightarrow> spike_event \<Rightarrow> spike_event" where
  "att_sql sqlPIDs tp ev =
     (if sqlPIDs (ps_PID tp) \<noteq> None \<or> isSQLProcess (ps_Name tp) then
        evidence ''top process is a SQL Server engine process''
          ((case sqlPIDs (ps_PID tp) of Some i \<Rightarrow> ev\<lparr>ev_SQLInstance := i\<rparr> | None \<Rightarrow> ev)\<lparr>ev_SQLCorrelated := True\<rparr>)
      else ev)"

definition attribute :: "pid_order \<Rightarrow> name_order \<Rightarrow> spike_event \<Rightarrow> proc_top list \<Rightarrow> sched_entry list
    \<Rightarrow> (int \<Rightarrow> string option) \<Rightarrow> spike_event" where
  "attribute pids names ev snapshots schedEntries sqlPIDs =
     (let ev = ev\<lparr>ev_ValidationRequired := True, ev_AttributionConfidence := 0\<rparr> in
      case rankProcesses pids ev snapshots of
        (ev, []) \<Rightarrow> evidence ''no overlapping process snapshots''
            (ev\<lparr>ev_ProbableCause := ''no process telemetry captured during event''\<rparr>)
      | (ev, tp # rest) \<Rightarrow>
          let ev = ev\<lparr>ev_TopProcs := tp # rest, ev_CorrelatedProcess := ps_Name tp\<rparr>;
              ev = evidence (''top process during event: '' @ ps_Name tp @ '' (pid '' @ fmt_d (ps_PID tp) @ '', '' @
                fmt_f 1 (ps_CPUPct tp) @ ''% CPU, '' @ fmtBytes (ps_RSSBytes tp) @ '' RSS)'') ev;
              (ev, conf) = att_schedule schedEntries (att_service tp (att_dominance names tp (ev, fl (3 / 10))));
              ev = att_sql sqlPIDs tp ev;
              conf = (if conf > fl (9 / 10) then fl (9 / 10) else conf)
          in ev\<lparr>ev_AttributionConfidence := round2f conf,
                ev_ProbableCause := ''probably caused by '' @ ps_Name tp @
                  suffixIf (ev_CorrelatedServiceOrJob ev \<noteq> []) ('' via '' @ ev_CorrelatedServiceOrJob ev) @
                  '' (temporal correlation; validate with owner)''\<rparr>)"

end
