(* ===== verification/AttributionFacts.thy ===== *)
theory AttributionFacts
  imports Attribution SchedFacts
begin

text \<open>
  The attribution of a spike never claims more than a probable cause, its processes are the ones that
  used most of the resource, and where the choice depends on the iteration order of a map.
\<close>

section \<open>Merging the snapshots\<close>

lemma merge_sample_simps [simp]:
  "pc_maxRSS (merge_sample a p) = max (pc_maxRSS a) (ps_RSSBytes p)"
  "pc_lastCPUs (merge_sample a p) = ps_CPUTimeS p"
  "pc_firstCPUs (merge_sample a p) = pc_firstCPUs a"
  "ps_PID (pc_s (merge_sample a p)) = ps_PID (pc_s a)"
  "ps_Name (pc_s (merge_sample a p)) = ps_Name (pc_s a)"
  "ps_RSSBytes (pc_s (merge_sample a p)) =
     (if pc_maxRSS a < ps_RSSBytes p then ps_RSSBytes p else ps_RSSBytes (pc_s a))"
  by (auto simp: merge_sample_def acc_unit_def acc_io_def acc_rss_def acc_cpu_def Let_def max_def)

text \<open>What the map holds for a PID, in terms of the samples of that PID.\<close>

definition merged_ok :: "proc_sample list \<Rightarrow> int \<Rightarrow> proc_acc \<Rightarrow> bool" where
  "merged_ok ps pid a \<longleftrightarrow>
     (let mine = filter (\<lambda>p. ps_PID p = pid) ps in
      mine \<noteq> [] \<and> ps_PID (pc_s a) = pid \<and> ps_Name (pc_s a) = ps_Name (hd mine) \<and>
      pc_firstCPUs a = ps_CPUTimeS (hd mine) \<and> pc_lastCPUs a = ps_CPUTimeS (last mine) \<and>
      pc_maxRSS a = Max (ps_RSSBytes ` set mine) \<and> ps_RSSBytes (pc_s a) = Max (ps_RSSBytes ` set mine))"

definition samples_of_all :: "proc_top list \<Rightarrow> proc_sample list" where
  "samples_of_all snapshots = concat (map pt_Procs snapshots)"

lemma merged_ok_first: "merged_ok [p] (ps_PID p) (merge_sample (new_acc p) p)"
  by (simp add: merged_ok_def new_acc_def max_def)

lemma merged_ok_other: "ps_PID p \<noteq> pid \<Longrightarrow> merged_ok (ps @ [p]) pid a = merged_ok ps pid a"
  by (simp add: merged_ok_def)

lemma merged_ok_more:
  assumes "merged_ok ps (ps_PID p) a"
  shows "merged_ok (ps @ [p]) (ps_PID p) (merge_sample a p)"
proof -
  define mine where "mine = filter (\<lambda>q. ps_PID q = ps_PID p) ps"
  have ne: "mine \<noteq> []" using assms by (simp add: merged_ok_def Let_def mine_def)
  define M where "M = Max (ps_RSSBytes ` set mine)"
  have "Max (ps_RSSBytes ` set (mine @ [p])) = max (ps_RSSBytes p) M"
    using ne by (simp add: M_def)
  moreover have "filter (\<lambda>q. ps_PID q = ps_PID p) (ps @ [p]) = mine @ [p]" by (simp add: mine_def)
  ultimately show ?thesis using assms ne unfolding merged_ok_def Let_def mine_def [symmetric]
    by (simp only: merge_sample_simps M_def [symmetric]) (auto simp: max_def not_less not_le)
qed

definition acc_ok :: "proc_sample list \<Rightarrow> (int, proc_acc) go_map \<Rightarrow> bool" where
  "acc_ok ps m \<longleftrightarrow> distinct (map fst m) \<and> (\<forall>pid. map_of m pid = None \<longrightarrow> pid \<notin> ps_PID ` set ps) \<and>
     (\<forall>pid a. map_of m pid = Some a \<longrightarrow> merged_ok ps pid a)"

lemma acc_ok_put:
  assumes "acc_ok ps m"
  shows "acc_ok (ps @ [p]) (put_sample m p)"
proof -
  let ?a = "case map_of m (ps_PID p) of Some a \<Rightarrow> a | None \<Rightarrow> new_acc p"
  have mine: "merged_ok (ps @ [p]) (ps_PID p) (merge_sample ?a p)"
  proof (cases "map_of m (ps_PID p)")
    case None
    then have "filter (\<lambda>q. ps_PID q = ps_PID p) ps = []"
      using assms by (force simp: acc_ok_def filter_empty_conv)
    then have "merged_ok (ps @ [p]) (ps_PID p) a = merged_ok [p] (ps_PID p) a" for a
      unfolding merged_ok_def filter_append by (simp only: append_Nil)
    then show ?thesis using None merged_ok_first by simp
  next
    case (Some a)
    then show ?thesis using assms merged_ok_more by (simp add: acc_ok_def)
  qed
  have lk: "map_of (put_sample m p) pid = (if pid = ps_PID p then Some (merge_sample ?a p) else map_of m pid)" for pid
    by (simp add: put_sample_def go_map.lookup_upd)
  show ?thesis unfolding acc_ok_def
  proof (intro conjI allI impI)
    show "distinct (map fst (put_sample m p))"
      using assms by (simp add: acc_ok_def put_sample_def update_distinct_keys)
    show "pid \<notin> ps_PID ` set (ps @ [p])" if "map_of (put_sample m p) pid = None" for pid
      using assms that by (auto simp: acc_ok_def lk split: if_splits)
    show "merged_ok (ps @ [p]) pid a" if "map_of (put_sample m p) pid = Some a" for pid a
      using assms that mine by (auto simp: acc_ok_def lk merged_ok_other split: if_splits)
  qed
qed

lemma acc_ok_fold: "acc_ok ps m \<Longrightarrow> acc_ok (ps @ qs) (foldl put_sample m qs)"
proof (induction qs arbitrary: ps m)
  case (Cons q qs)
  show ?case using Cons.IH [OF acc_ok_put [OF Cons.prems, of q]] by simp
qed simp

lemma by_pid_ok: "acc_ok (samples_of_all snapshots) (by_pid snapshots)"
  using acc_ok_fold [of "[]" "[]" "samples_of_all snapshots"] by (simp add: by_pid_def samples_of_all_def acc_ok_def)

lemma by_pid_entry: "(pid, a) \<in> set (by_pid snapshots) \<Longrightarrow> merged_ok (samples_of_all snapshots) pid a"
  using by_pid_ok [of snapshots] by (simp add: acc_ok_def)

lemma by_pid_covers:
  assumes "p \<in> set (samples_of_all snapshots)"
  shows "\<exists>a. (ps_PID p, a) \<in> set (by_pid snapshots) \<and> ps_RSSBytes p \<le> ps_RSSBytes (pc_s a)"
proof -
  obtain a where a: "map_of (by_pid snapshots) (ps_PID p) = Some a"
    using by_pid_ok [of snapshots] assms by (cases "map_of (by_pid snapshots) (ps_PID p)") (auto simp: acc_ok_def)
  then have "merged_ok (samples_of_all snapshots) (ps_PID p) a" using by_pid_ok [of snapshots] by (simp add: acc_ok_def)
  then have "ps_RSSBytes p \<le> ps_RSSBytes (pc_s a)" using assms by (simp add: merged_ok_def Let_def)
  then show ?thesis using map_of_SomeD [OF a] by blast
qed

section \<open>The processes of a memory spike\<close>

definition pid_order_ok :: "pid_order \<Rightarrow> bool" where
  "pid_order_ok pids \<longleftrightarrow> (\<forall>m. mset (pids m) = mset m)"

lemma rank_event:
  "rankProcesses pids ev snapshots = (ev', ps) \<Longrightarrow> ev_Resource ev' = ev_Resource ev \<and>
   ps = take 10 (rank_sort (ev_Resource ev) (foldl add_core_seconds [] (map snd (pids (by_pid snapshots))))
     (map pc_s (map snd (pids (by_pid snapshots)))))"
  by (auto simp: rankProcesses_def Let_def split: if_splits)

lemma set_rank_sort [simp]: "set (rank_sort r cs out) = set out" "length (rank_sort r cs out) = length out"
  by (simp_all add: rank_sort_def)

lemma distinct_rank_sort [simp]: "distinct (map ps_PID (rank_sort r cs out)) = distinct (map ps_PID out)"
proof -
  have "mset (rank_sort r cs out) = mset out" by (simp add: rank_sort_def)
  then show ?thesis by (metis mset_eq_imp_distinct_iff mset_map)
qed

lemma evidence_simps [simp]:
  "ev_TopProcs (evidence s ev) = ev_TopProcs ev" "ev_Resource (evidence s ev) = ev_Resource ev"
  "ev_ValidationRequired (evidence s ev) = ev_ValidationRequired ev"
  "ev_AttributionConfidence (evidence s ev) = ev_AttributionConfidence ev"
  "ev_ProbableCause (evidence s ev) = ev_ProbableCause ev"
  by (simp_all add: evidence_def)

lemma att_keeps [simp]:
  "ev_TopProcs (fst (att_dominance names tp x)) = ev_TopProcs (fst x)"
  "ev_TopProcs (fst (att_service tp x)) = ev_TopProcs (fst x)"
  "ev_TopProcs (fst (att_schedule es x)) = ev_TopProcs (fst x)"
  "ev_TopProcs (att_sql sqlPIDs tp ev) = ev_TopProcs ev"
  "ev_ValidationRequired (fst (att_dominance names tp x)) = ev_ValidationRequired (fst x)"
  "ev_ValidationRequired (fst (att_service tp x)) = ev_ValidationRequired (fst x)"
  "ev_ValidationRequired (fst (att_schedule es x)) = ev_ValidationRequired (fst x)"
  "ev_ValidationRequired (att_sql sqlPIDs tp ev) = ev_ValidationRequired ev"
  by (auto simp: att_dominance_def att_service_def att_schedule_def att_sql_def Let_def split: prod.split option.split)

lemma attribute_cases:
  fixes pids names ev snapshots es sqlPIDs
  defines "ev0 \<equiv> ev\<lparr>ev_ValidationRequired := True, ev_AttributionConfidence := 0\<rparr>"
  defines "r \<equiv> attribute pids names ev snapshots es sqlPIDs"
  shows "snd (rankProcesses pids ev0 snapshots) = [] \<Longrightarrow> ev_AttributionConfidence r = 0 \<and> ev_ValidationRequired r \<and>
      ev_ProbableCause r = ''no process telemetry captured during event''"
    "snd (rankProcesses pids ev0 snapshots) = tp # rest \<Longrightarrow> ev_TopProcs r = tp # rest \<and> ev_ValidationRequired r \<and>
      prefix ''probably caused by '' (ev_ProbableCause r) \<and>
      (\<exists>x. ev_AttributionConfidence r = round2f (min (fl (9 / 10))
        (snd (att_schedule es (att_service tp (att_dominance names tp (x, fl (3 / 10))))))))"
proof -
  obtain ev1 ps where rk: "rankProcesses pids ev0 snapshots = (ev1, ps)" by force
  have ev1: "ev_AttributionConfidence ev1 = 0" "ev_ValidationRequired ev1"
    using rk by (auto simp: rankProcesses_def Let_def ev0_def split: if_splits)
  show "snd (rankProcesses pids ev0 snapshots) = [] \<Longrightarrow> ev_AttributionConfidence r = 0 \<and> ev_ValidationRequired r \<and>
      ev_ProbableCause r = ''no process telemetry captured during event''"
    using rk ev1 by (simp add: r_def attribute_def Let_def ev0_def evidence_def)
  assume "snd (rankProcesses pids ev0 snapshots) = tp # rest"
  then have ps: "ps = tp # rest" using rk by simp
  define ev2 where "ev2 = evidence (''top process during event: '' @ ps_Name tp @ '' (pid '' @ fmt_d (ps_PID tp) @ '', '' @
                fmt_f 1 (ps_CPUPct tp) @ ''% CPU, '' @ fmtBytes (ps_RSSBytes tp) @ '' RSS)'')
       (ev1\<lparr>ev_TopProcs := tp # rest, ev_CorrelatedProcess := ps_Name tp\<rparr>)"
  obtain ev3 conf where x: "att_schedule es (att_service tp (att_dominance names tp (ev2, fl (3 / 10)))) = (ev3, conf)" by force
  have r: "r = (att_sql sqlPIDs tp ev3)\<lparr>ev_AttributionConfidence := round2f (if conf > fl (9 / 10) then fl (9 / 10) else conf),
      ev_ProbableCause := ''probably caused by '' @ ps_Name tp @
        suffixIf (ev_CorrelatedServiceOrJob (att_sql sqlPIDs tp ev3) \<noteq> [])
          ('' via '' @ ev_CorrelatedServiceOrJob (att_sql sqlPIDs tp ev3)) @
        '' (temporal correlation; validate with owner)''\<rparr>"
    using x rk ps unfolding r_def attribute_def Let_def ev0_def ev2_def by (simp only: prod.case list.case)
  let ?x = "att_schedule es (att_service tp (att_dominance names tp (ev2, fl (3 / 10))))"
  have "ev_TopProcs (fst ?x) = ev_TopProcs ev2" "ev_ValidationRequired (fst ?x) = ev_ValidationRequired ev2" by simp_all
  then have "ev_TopProcs ev3 = tp # rest" "ev_ValidationRequired ev3" unfolding x using ev1 by (simp_all add: ev2_def)
  then show "ev_TopProcs r = tp # rest \<and> ev_ValidationRequired r \<and>
      prefix ''probably caused by '' (ev_ProbableCause r) \<and>
      (\<exists>x. ev_AttributionConfidence r = round2f (min (fl (9 / 10))
        (snd (att_schedule es (att_service tp (att_dominance names tp (x, fl (3 / 10))))))))"
    using x by (auto simp: r min_def intro!: exI [of _ ev2])
qed

lemma sorted_desc_hd:
  fixes f :: "'a \<Rightarrow> int"
  assumes "xs = sort_key (\<lambda>x. - f x) ys" "y \<in> set ys"
  shows "hd xs \<in> set ys \<and> f y \<le> f (hd xs)"
proof -
  have s: "sorted (map (\<lambda>x. - f x) xs)" "set xs = set ys" using assms(1) by auto
  then obtain x xs' where x: "xs = x # xs'" using assms(2) by (cases xs) auto
  then show ?thesis using s assms(2) by auto
qed

lemma drop_sorted_desc:
  fixes f :: "'a \<Rightarrow> int"
  assumes "sorted (map (\<lambda>x. - f x) xs)" "y \<in> set xs" "y \<notin> set (take n xs)" "x \<in> set (take n xs)"
  shows "f y \<le> f x"
proof -
  have "y \<in> set (drop n xs)" using assms(2,3) by (metis Un_iff append_take_drop_id set_append)
  moreover have "sorted (map (\<lambda>x. - f x) (take n xs) @ map (\<lambda>x. - f x) (drop n xs))"
    using assms(1) by (metis append_take_drop_id map_append)
  ultimately show ?thesis using assms(4) by (auto simp: sorted_append)
qed

text \<open>The merged processes, in any iteration order of the map.\<close>

lemma merged_processes:
  fixes pids snapshots
  assumes "pid_order_ok pids"
  defines "accs \<equiv> map snd (pids (by_pid snapshots))"
  shows "distinct (map ps_PID (map pc_s accs))"
    "q \<in> set (samples_of_all snapshots) \<Longrightarrow> \<exists>p \<in> set (map pc_s accs). ps_PID p = ps_PID q \<and> ps_RSSBytes q \<le> ps_RSSBytes p"
    "p \<in> set (map pc_s accs) \<Longrightarrow>
      ps_RSSBytes p = Max (ps_RSSBytes ` {q \<in> set (samples_of_all snapshots). ps_PID q = ps_PID p})"
    "p \<in> set (map pc_s accs) \<Longrightarrow> ps_PID p \<in> ps_PID ` set (samples_of_all snapshots)"
proof -
  have perm: "mset (pids (by_pid snapshots)) = mset (by_pid snapshots)" using assms(1) by (simp add: pid_order_ok_def)
  then have set_pids: "set (pids (by_pid snapshots)) = set (by_pid snapshots)" by (rule mset_eq_setD)
  have entry: "merged_ok (samples_of_all snapshots) (fst e) (snd e)" if "e \<in> set (pids (by_pid snapshots))" for e
    using that by_pid_entry [of "fst e" "snd e"] by (simp add: set_pids)
  have pid_eq: "map ps_PID (map pc_s accs) = map fst (pids (by_pid snapshots))"
    using entry by (auto simp: accs_def merged_ok_def Let_def)
  have "distinct (map fst (by_pid snapshots))" using by_pid_ok by (simp add: acc_ok_def)
  then show "distinct (map ps_PID (map pc_s accs))" unfolding pid_eq using perm by (metis mset_eq_imp_distinct_iff mset_map)
  show "\<exists>p \<in> set (map pc_s accs). ps_PID p = ps_PID q \<and> ps_RSSBytes q \<le> ps_RSSBytes p"
    if q: "q \<in> set (samples_of_all snapshots)"
    using by_pid_covers [OF q] entry by (force simp: accs_def set_pids merged_ok_def Let_def)
  show "p \<in> set (map pc_s accs) \<Longrightarrow>
      ps_RSSBytes p = Max (ps_RSSBytes ` {q \<in> set (samples_of_all snapshots). ps_PID q = ps_PID p})"
    using entry by (auto simp: accs_def merged_ok_def Let_def)
  show "p \<in> set (map pc_s accs) \<Longrightarrow> ps_PID p \<in> ps_PID ` set (samples_of_all snapshots)"
    using entry by (force simp: accs_def merged_ok_def Let_def filter_empty_conv)
qed

text \<open>
  For a memory or paging spike the processes attached to the event are the ones with the largest
  resident memory: each appears once, with the largest value any snapshot of the window shows for its
  PID, in decreasing order, at most ten; the first has the largest value of all samples, and no process
  that was left out ever used more than one that is listed. This holds for every iteration order of the
  map of processes.
\<close>

theorem memory_spike_processes:
  assumes "pid_order_ok pids" "ev_Resource ev = ResMemory \<or> ev_Resource ev = ResPaging" "samples_of_all snapshots \<noteq> []"
    "ps = ev_TopProcs (attribute pids names ev snapshots es sqlPIDs)"
  shows "ps \<noteq> [] \<and> length ps \<le> 10 \<and> distinct (map ps_PID ps) \<and> sorted (rev (map (uint \<circ> ps_RSSBytes) ps)) \<and>
    ps_RSSBytes (hd ps) = Max (ps_RSSBytes ` set (samples_of_all snapshots)) \<and>
    (\<forall>p \<in> set ps. ps_RSSBytes p = Max (ps_RSSBytes ` {q \<in> set (samples_of_all snapshots). ps_PID q = ps_PID p})) \<and>
    (\<forall>q \<in> set (samples_of_all snapshots). ps_PID q \<notin> ps_PID ` set ps \<longrightarrow> (\<forall>p \<in> set ps. ps_RSSBytes q \<le> ps_RSSBytes p))"
proof -
  let ?all = "samples_of_all snapshots" and ?ev0 = "ev\<lparr>ev_ValidationRequired := True, ev_AttributionConfidence := 0\<rparr>"
  define procs where "procs = map pc_s (map snd (pids (by_pid snapshots)))"
  define out where "out = sort_key (\<lambda>p. - uint (ps_RSSBytes p)) procs"
  note M = merged_processes [OF assms(1), where snapshots = snapshots, folded procs_def]
  have ne: "procs \<noteq> []" using M(2) assms(3) by (cases ?all) force+
  obtain ev1 qs where rk: "rankProcesses pids ?ev0 snapshots = (ev1, qs)" by force
  have qs: "qs = take 10 out" using rank_event [OF rk] assms(2) by (auto simp: rank_sort_def out_def procs_def)
  have srt: "sorted (map (\<lambda>p. - uint (ps_RSSBytes p)) out)" and set_out: "set out = set procs" by (simp_all add: out_def)
  have out: "out \<noteq> []" using set_out ne by (metis set_empty)
  then have "qs \<noteq> []" by (simp add: qs)
  then obtain tp rest where tp: "qs = tp # rest" by (meson list.exhaust)
  have ps: "ps = take 10 out"
    using attribute_cases(2) [of pids ev snapshots tp rest] rk tp qs assms(4) by simp
  have d: "distinct (map ps_PID ps)"
    using M(1) mset_eq_imp_distinct_iff [of "map ps_PID out" "map ps_PID procs"]
    by (simp add: ps out_def take_map [symmetric] distinct_take)
  have s: "sorted (rev (map (uint \<circ> ps_RSSBytes) ps))"
    using srt sorted_wrt_take [of "(\<le>)" "map (\<lambda>p. - uint (ps_RSSBytes p)) out" 10]
    by (simp add: ps take_map sorted_wrt_map sorted_wrt_rev)
  have sub: "set ps \<subseteq> set procs" using set_take_subset [of 10 out] by (simp add: ps set_out)
  have left_out: "ps_RSSBytes q \<le> ps_RSSBytes p" if a: "q \<in> set ?all" "ps_PID q \<notin> ps_PID ` set ps" "p \<in> set ps" for q p
  proof -
    obtain p' where p': "p' \<in> set procs" "ps_PID p' = ps_PID q" "ps_RSSBytes q \<le> ps_RSSBytes p'" using M(2) [OF a(1)] by blast
    then have "p' \<notin> set ps" using a(2) by (metis imageI)
    then have "uint (ps_RSSBytes p') \<le> uint (ps_RSSBytes p)"
      using drop_sorted_desc [OF srt, of p' 10 p] a(3) p'(1) by (simp add: ps set_out)
    then show ?thesis using p'(3) by (simp add: word_le_def)
  qed
  have "ps_RSSBytes (hd ps) = Max (ps_RSSBytes ` set ?all)"
  proof (rule Max_eqI [symmetric])
    show "y \<le> ps_RSSBytes (hd ps)" if "y \<in> ps_RSSBytes ` set ?all" for y
    proof -
      obtain q where "q \<in> set ?all" "y = ps_RSSBytes q" using \<open>y \<in> ps_RSSBytes ` set ?all\<close> by blast
      then obtain p where p: "p \<in> set procs" "y \<le> ps_RSSBytes p" using M(2) by blast
      then have "uint (ps_RSSBytes p) \<le> uint (ps_RSSBytes (hd out))" using sorted_desc_hd [OF out_def p(1)] by simp
      then show ?thesis using p(2) by (simp add: ps hd_take word_le_def)
    qed
    have "hd ps \<in> set procs" using out by (simp add: ps hd_take flip: set_out)
    then have "ps_RSSBytes (hd ps) = Max (ps_RSSBytes ` {q \<in> set ?all. ps_PID q = ps_PID (hd ps)})" "ps_PID (hd ps) \<in> ps_PID ` set ?all"
      using M(3,4) by blast+
    moreover from this(2) have "ps_RSSBytes ` {q \<in> set ?all. ps_PID q = ps_PID (hd ps)} \<noteq> {}" by force
    ultimately show "ps_RSSBytes (hd ps) \<in> ps_RSSBytes ` set ?all"
      using Max_in [of "ps_RSSBytes ` {q \<in> set ?all. ps_PID q = ps_PID (hd ps)}"] by (simp add: image_iff) metis
  qed simp
  then show ?thesis
    using d s left_out sub M(3) out by (auto simp: ps)
qed

definition small_proc :: "int \<Rightarrow> string \<Rightarrow> u64 \<Rightarrow> proc_sample" where
  "small_proc pid name rss = \<lparr>ps_PID = pid, ps_PPID = 1, ps_Name = name, ps_Exe = [], ps_ExeSHA256 = [], ps_ServiceUnit = [],
     ps_CPUPct = 0, ps_CPUTimeS = 0, ps_RSSBytes = rss, ps_PrivateBytes = 0, ps_ReadBytesPS = 0, ps_WriteBytesPS = 0,
     ps_StartTime = 0\<rparr>"

definition small_snapshot :: "proc_sample list \<Rightarrow> proc_top" where
  "small_snapshot ps = meta.extend (NewMeta KindProcTop 1) \<lparr>pt_Procs = ps\<rparr>"

definition small_event :: "string \<Rightarrow> spike_event" where
  "small_event r = meta.extend (NewMeta KindSpike 5)
     \<lparr>ev_EventID = ''e'', ev_Resource = r, ev_Device = [], ev_StartTS = 5, ev_EndTS = 9, ev_DurationS = 0, ev_Baseline = 0,
      ev_Peak = 0, ev_Threshold = 0, ev_Trigger = [], ev_PreSamples = [], ev_DuringSamples = [], ev_PostSamples = [],
      ev_TopProcs = [], ev_CoreSecondsByProc = [], ev_ProbableCause = ''unattributed'', ev_CorrelatedProcess = [],
      ev_CorrelatedServiceOrJob = [], ev_AttributionConfidence = 0, ev_AttributionEvidence = [], ev_ValidationRequired = True,
      ev_SQLCorrelated = False, ev_SQLInstance = []\<rparr>"

theorem memory_spike_processes_witness:
  "ps_RSSBytes (hd (ev_TopProcs (attribute rev id (small_event ResMemory)
     [small_snapshot [small_proc 1 ''a'' 5, small_proc 2 ''b'' 7]] [] (\<lambda>p. None)))) = 7"
proof -
  have "pid_order_ok rev" by (simp add: pid_order_ok_def)
  moreover have "ev_Resource (small_event ResMemory) = ResMemory \<or> ev_Resource (small_event ResMemory) = ResPaging"
    by (simp add: small_event_def meta.defs NewMeta_def)
  moreover have all: "samples_of_all [small_snapshot [small_proc 1 ''a'' 5, small_proc 2 ''b'' 7]] = [small_proc 1 ''a'' 5, small_proc 2 ''b'' 7]"
    by (simp add: samples_of_all_def small_snapshot_def meta.defs NewMeta_def)
  ultimately show ?thesis
    using memory_spike_processes [of rev "small_event ResMemory" "[small_snapshot [small_proc 1 ''a'' 5, small_proc 2 ''b'' 7]]", OF _ _ _ refl]
    by (simp add: small_proc_def)
qed

section \<open>How sure an attribution is\<close>

lemma att_conf:
  "snd (att_dominance names tp (ev, c)) \<in> {c, c + fl (2 / 10)}"
  "snd (att_service tp (ev, c)) \<in> {c, c + fl (15 / 100)}"
  "snd (att_schedule es (ev, c)) \<in> {c, c + fl (2 / 10)}"
  by (auto simp: att_dominance_def att_service_def att_schedule_def Let_def split: prod.split)

text \<open>The sums the code can reach, and what its truncation to two decimals makes of them.\<close>

lemma half_sum: "fl (3 / 10) + fl (2 / 10) = fl (1 / 2)"
  by code_simp

lemma truncated_30: "round2f (fl (3 / 10)) = fl (30 / 100)"
  by code_simp

lemma truncated_50: "round2f (fl (3 / 10) + fl (2 / 10)) = fl (50 / 100)"
  unfolding half_sum by code_simp

lemma truncated_44: "round2f (fl (3 / 10) + fl (15 / 100)) = fl (44 / 100)"
  by code_simp

lemma truncated_65: "round2f (fl (3 / 10) + fl (2 / 10) + fl (15 / 100)) = fl (65 / 100)"
  unfolding half_sum by code_simp

lemma truncated_64: "round2f (fl (3 / 10) + fl (15 / 100) + fl (2 / 10)) = fl (64 / 100)"
  by code_simp

lemma truncated_70: "round2f (fl (3 / 10) + fl (2 / 10) + fl (2 / 10)) = fl (70 / 100)"
  unfolding half_sum by code_simp

lemma truncated_85: "round2f (fl (3 / 10) + fl (2 / 10) + fl (15 / 100) + fl (2 / 10)) = fl (85 / 100)"
  unfolding half_sum by code_simp

lemmas confidence_values = truncated_30 truncated_50 truncated_44 truncated_65 truncated_64 truncated_70 truncated_85

lemma f64_le_add: "0 \<le> d \<Longrightarrow> c \<le> c + d" for c d :: f64
  using f64_add_mono [of c c 0 d] by (simp add: f64_le_iff fval_arith)

lemma confidence_cap:
  "fl (3 / 10) \<le> fl (9 / 10)" "fl (3 / 10) + fl (2 / 10) \<le> fl (9 / 10)" "fl (3 / 10) + fl (15 / 100) \<le> fl (9 / 10)"
  "fl (3 / 10) + fl (2 / 10) + fl (15 / 100) \<le> fl (9 / 10)" "fl (3 / 10) + fl (15 / 100) + fl (2 / 10) \<le> fl (9 / 10)"
  "fl (3 / 10) + fl (2 / 10) + fl (2 / 10) \<le> fl (9 / 10)"
  "fl (3 / 10) + fl (2 / 10) + fl (15 / 100) + fl (2 / 10) \<le> fl (9 / 10)"
proof -
  have nn: "0 \<le> fl (2 / 10)" "0 \<le> fl (15 / 100)" using fl_mono [of 0] by simp_all
  note le = f64_le_add [OF nn(1)] f64_le_add [OF nn(2)] and mono = f64_add_mono [OF _ order_refl]
  have all: "fl (1 / 2) + fl (15 / 100) + fl (2 / 10) \<le> fl (9 / 10)" by code_simp
  then show 7: "fl (3 / 10) + fl (2 / 10) + fl (15 / 100) + fl (2 / 10) \<le> fl (9 / 10)" by (simp only: half_sum)
  show "fl (3 / 10) + fl (15 / 100) + fl (2 / 10) \<le> fl (9 / 10)"
    by (rule order_trans [OF mono [OF mono [OF le(1)]] 7])
  then show 3: "fl (3 / 10) + fl (15 / 100) \<le> fl (9 / 10)" by (rule order_trans [OF le(1)])
  then show "fl (3 / 10) \<le> fl (9 / 10)" by (rule order_trans [OF le(2)])
  show 4: "fl (3 / 10) + fl (2 / 10) + fl (15 / 100) \<le> fl (9 / 10)" by (rule order_trans [OF le(1) 7])
  then show "fl (3 / 10) + fl (2 / 10) \<le> fl (9 / 10)" by (rule order_trans [OF le(2)])
  show "fl (3 / 10) + fl (2 / 10) + fl (2 / 10) \<le> fl (9 / 10)" by (rule order_trans [OF mono [OF le(2)] 7])
qed

lemma attribution_sum:
  "snd (att_schedule es (att_service tp (att_dominance names tp (ev, fl (3 / 10))))) \<in>
     {fl (3 / 10), fl (3 / 10) + fl (2 / 10), fl (3 / 10) + fl (15 / 100), fl (3 / 10) + fl (2 / 10) + fl (15 / 100),
      fl (3 / 10) + fl (15 / 100) + fl (2 / 10), fl (3 / 10) + fl (2 / 10) + fl (2 / 10),
      fl (3 / 10) + fl (2 / 10) + fl (15 / 100) + fl (2 / 10)}"
  using att_conf(1) [of names tp ev "fl (3 / 10)"]
    att_conf(2) [of tp "fst (att_dominance names tp (ev, fl (3 / 10)))" "snd (att_dominance names tp (ev, fl (3 / 10)))"]
    att_conf(3) [of es "fst (att_service tp (att_dominance names tp (ev, fl (3 / 10))))"
      "snd (att_service tp (att_dominance names tp (ev, fl (3 / 10))))"]
  by (simp only: prod.collapse insert_iff empty_iff) metis

text \<open>
  C30. An attribution stays a hypothesis: every event is marked for validation, its cause is worded as
  probable or as unknown, and its confidence is 0 without process telemetry and otherwise one of seven
  values, at most 0.85, so that the cap of 0.9 is never reached. Two of the values are 0.44 and 0.64:
  the sums 0.3 + 0.15 and 0.3 + 0.15 + 0.2 are truncated, not rounded.
\<close>

theorem attribution_hedged:
  assumes "r = attribute pids names ev snapshots es sqlPIDs"
  shows "ev_ValidationRequired r \<and>
    (ev_AttributionConfidence r = 0 \<and> ev_ProbableCause r = ''no process telemetry captured during event'' \<or>
     fval (ev_AttributionConfidence r) \<in> fval ` {fl (30 / 100), fl (44 / 100), fl (50 / 100), fl (64 / 100), fl (65 / 100), fl (70 / 100), fl (85 / 100)} \<and>
     prefix ''probably caused by '' (ev_ProbableCause r))"
proof (cases "snd (rankProcesses pids (ev\<lparr>ev_ValidationRequired := True, ev_AttributionConfidence := 0\<rparr>) snapshots)")
  case Nil
  then show ?thesis using attribute_cases(1) [OF Nil, of names es sqlPIDs] by (simp add: assms)
next
  case (Cons tp rest)
  from attribute_cases(2) [OF Cons, of names es sqlPIDs] obtain x where
    r: "ev_ValidationRequired r" "prefix ''probably caused by '' (ev_ProbableCause r)"
      "ev_AttributionConfidence r = round2f (min (fl (9 / 10))
        (snd (att_schedule es (att_service tp (att_dominance names tp (x, fl (3 / 10)))))))"
    unfolding assms by blast
  have "ev_AttributionConfidence r \<in> {fl (30 / 100), fl (44 / 100), fl (50 / 100), fl (64 / 100), fl (65 / 100), fl (70 / 100), fl (85 / 100)}"
    using attribution_sum [of es tp names x] unfolding r(3)
    by (elim insertE emptyE) (simp_all only: min_absorb2 confidence_cap confidence_values insert_iff simp_thms)
  then show ?thesis using r(1,2) by blast
qed

theorem attribution_hedged_witness:
  "ev_ValidationRequired (attribute id id (small_event ResCPU) [] [] (\<lambda>p. None))"
  using attribution_hedged [OF refl, of id id "small_event ResCPU" "[]" "[]" "\<lambda>p. None"] by blast

section \<open>Order of the process map\<close>

text \<open>
  Two SQL Server instances on one host have the same process name, and the ranking by core-seconds
  adds the instances of a name up: which instance the spike is attributed to depends on the order in
  which the runtime ranges over the map of processes.
\<close>

theorem sql_instance_depends_on_order:
  defines "snap \<equiv> small_snapshot [small_proc 10 ''sqlservr.exe'' 5, small_proc 20 ''sqlservr.exe'' 7]"
  defines "insts \<equiv> (\<lambda>p::int. if p = 10 then Some ''PROD'' else if p = 20 then Some ''TEST'' else None)"
  shows "ev_SQLInstance (attribute id id (small_event ResCPU) [snap] [] insts) = ''PROD'' \<and>
    ev_SQLInstance (attribute rev id (small_event ResCPU) [snap] [] insts) = ''TEST''"
  unfolding snap_def insts_def by code_simp

end
