(* ===== verification/HealthTracker.thy ===== *)
theory HealthTracker
  imports Records GoMap GoStrings
begin

text \<open>
  Collection health (\<open>internal/agent/health.go\<close>): the tracker every collector reports its problems to, and
  the health record built from it. The mutex serialises the operations, so each is one step on the
  state. The clock and the figures of the agent's own process are arguments.
\<close>

definition maxRecentErrors :: nat where
  "maxRecentErrors = 50"

record health_tracker =
  ht_start :: time
  ht_collected :: u64
  ht_statuses :: "(string, string) go_map"
  ht_permIssues :: "(string, bool) go_map"
  ht_errs :: "collector_error list"
  ht_errSeen :: "(string, bool) go_map"
  ht_selfProc :: bool
  ht_prevCPU :: f64
  ht_prevCPUTS :: time

definition newHealthTracker :: "time \<Rightarrow> bool \<Rightarrow> health_tracker" where
  "newHealthTracker now self = \<lparr>ht_start = now, ht_collected = 0, ht_statuses = [], ht_permIssues = [], ht_errs = [],
     ht_errSeen = [], ht_selfProc = self, ht_prevCPU = 0, ht_prevCPUTS = 0\<rparr>"

section \<open>Text\<close>

text \<open>The comparison of \<open>indexFold\<close> at one position, and its loop.\<close>

definition fold_match :: "string \<Rightarrow> string \<Rightarrow> nat \<Rightarrow> bool" where
  "fold_match s sub i = list_all (\<lambda>j. lower_char (s ! (i + j)) = lower_char (sub ! j)) [0..<length sub]"

function index_from :: "string \<Rightarrow> string \<Rightarrow> nat \<Rightarrow> int" where
  "index_from s sub i =
     (if i + length sub \<le> length s then (if fold_match s sub i then int i else index_from s sub (i + 1)) else - 1)"
  by pat_completeness auto
termination
  by (relation "measure (\<lambda>(s, sub, i). Suc (length s) - i)") auto

declare index_from.simps [simp del]

definition indexFold :: "string \<Rightarrow> string \<Rightarrow> int" where
  "indexFold s sub = index_from s sub 0"

definition containsFold :: "string \<Rightarrow> string \<Rightarrow> bool" where
  "containsFold s sub \<longleftrightarrow> length s \<ge> length sub \<and> indexFold s sub \<ge> 0"

definition isPermissionError :: "string \<Rightarrow> bool" where
  "isPermissionError s = list_ex (containsFold s)
     [''permission'', ''denied'', ''access is denied'', ''VIEW SERVER STATE'', ''privilege'']"

definition ellipsis :: string where
  "ellipsis = [CHR 0xE2, CHR 0x80, CHR 0xA6]"

definition truncate_text :: "string \<Rightarrow> nat \<Rightarrow> string" where
  "truncate_text s n = (if length s \<le> n then s else take n s @ ellipsis)"

section \<open>Reporting\<close>

definition Issue :: "time \<Rightarrow> string \<Rightarrow> string \<Rightarrow> health_tracker \<Rightarrow> health_tracker" where
  "Issue now collector err h =
     (let key = collector @ ''|'' @ err in
      if map_of (ht_errSeen h) key = Some True then h
      else
        let h = h\<lparr>ht_errSeen := AList.update key True (ht_errSeen h)\<rparr>;
            h = (if isPermissionError err
                 then h\<lparr>ht_permIssues := AList.update (collector @ '': '' @ err) True (ht_permIssues h),
                        ht_statuses := AList.update collector ''degraded:permission'' (ht_statuses h)\<rparr>
                 else h\<lparr>ht_statuses := AList.update collector (''degraded:'' @ truncate_text err 120) (ht_statuses h)\<rparr>)
        in if length (ht_errs h) < maxRecentErrors
           then h\<lparr>ht_errs := ht_errs h @ [\<lparr>ce_TS = now, ce_Collector = collector, ce_Error = truncate_text err 300\<rparr>]\<rparr>
           else h)"

definition MarkOK :: "string \<Rightarrow> health_tracker \<Rightarrow> health_tracker" where
  "MarkOK collector h =
     (case map_of (ht_statuses h) collector of
        None \<Rightarrow> h\<lparr>ht_statuses := AList.update collector ''ok'' (ht_statuses h)\<rparr>
      | Some s \<Rightarrow> h)"

definition Unavailable :: "string \<Rightarrow> string \<Rightarrow> health_tracker \<Rightarrow> health_tracker" where
  "Unavailable collector why h =
     h\<lparr>ht_statuses := AList.update collector (''unavailable:'' @ why) (ht_statuses h)\<rparr>"

definition AddSamples :: "u64 \<Rightarrow> health_tracker \<Rightarrow> health_tracker" where
  "AddSamples n h = h\<lparr>ht_collected := ht_collected h + n\<rparr>"

definition PermissionIssues :: "health_tracker \<Rightarrow> string list" where
  "PermissionIssues h = sort (map fst (ht_permIssues h))"

section \<open>The health record\<close>

text \<open>What the process library reports of the agent itself: the resident memory, the CPU seconds.\<close>

record self_stats =
  ss_RSS :: "u64 option"
  ss_CPU :: "f64 option"

definition self_cpu :: "time \<Rightarrow> f64 \<Rightarrow> health_tracker \<Rightarrow> f64" where
  "self_cpu now cpu h =
     (if \<not> is_zero_time (ht_prevCPUTS h) then
        let el = dur_seconds (time_sub now (ht_prevCPUTS h)) in
        if el > 0 then (cpu - ht_prevCPU h) / el * fl 100 else 0
      else 0)"

definition HealthSnapshot :: "time \<Rightarrow> self_stats \<Rightarrow> u64 \<Rightarrow> u64 \<Rightarrow> health_tracker \<Rightarrow> health_tracker \<times> health" where
  "HealthSnapshot now self dropped spoolBytes h =
     (let cpu = (if ht_selfProc h then ss_CPU self else None);
          rec = meta.extend (NewMeta KindHealth now)
            \<lparr>he_AgentVersion = AgentVersion,
             he_AgentUptimeS = word_of_int (go_trunc (dur_seconds (time_sub now (ht_start h)))),
             he_SamplesCollected = ht_collected h, he_SamplesDropped = dropped,
             he_CollectorStatus = ht_statuses h, he_PermissionIssues = PermissionIssues h,
             he_RecentErrors = ht_errs h, he_SpoolBytes = spoolBytes,
             he_SelfRSSBytes = (case if ht_selfProc h then ss_RSS self else None of Some r \<Rightarrow> r | None \<Rightarrow> 0),
             he_SelfCPUPct = (case cpu of Some c \<Rightarrow> self_cpu now c h | None \<Rightarrow> 0)\<rparr>
      in (case cpu of Some c \<Rightarrow> h\<lparr>ht_prevCPU := c, ht_prevCPUTS := now\<rparr> | None \<Rightarrow> h, rec))"

section \<open>Matching regardless of case\<close>

lemma fold_match_iff:
  assumes "i + length sub \<le> length s"
  shows "fold_match s sub i \<longleftrightarrow> to_lower (take (length sub) (drop i s)) = to_lower sub"
proof -
  have "fold_match s sub i \<longleftrightarrow> (\<forall>j < length sub. lower_char (s ! (i + j)) = lower_char (sub ! j))"
    by (auto simp: fold_match_def list_all_iff)
  also have "\<dots> \<longleftrightarrow> map lower_char (take (length sub) (drop i s)) = map lower_char sub"
    using assms by (simp add: list_eq_iff_nth_eq)
  finally show ?thesis by (simp add: to_lower_def)
qed

lemma index_from_iff:
  "0 \<le> index_from s sub i \<longleftrightarrow> (\<exists>k \<ge> i. k + length sub \<le> length s \<and> fold_match s sub k)"
proof (induction s sub i rule: index_from.induct)
  case (1 s sub i)
  show ?case
  proof (cases "i + length sub \<le> length s \<and> \<not> fold_match s sub i")
    case True
    then have "(\<exists>k \<ge> i. k + length sub \<le> length s \<and> fold_match s sub k) \<longleftrightarrow>
        (\<exists>k \<ge> i + 1. k + length sub \<le> length s \<and> fold_match s sub k)"
      by (metis Suc_eq_plus1 Suc_leD le_antisym not_less_eq_eq)
    then show ?thesis using True "1.IH" by (subst index_from.simps) simp
  next
    case False
    then show ?thesis by (subst index_from.simps) (auto intro: exI [of _ i])
  qed
qed

text \<open>
  \<open>containsFold\<close>, by which permission problems are told from other errors, is the substring test on
  the strings in lower case: its nested loops find a match exactly when there is one, and never read
  outside the strings.
\<close>

theorem containsFold_spec: "containsFold s sub \<longleftrightarrow> sublist (to_lower sub) (to_lower s)"
proof -
  have "sublist (to_lower sub) (to_lower s) \<longleftrightarrow>
      (\<exists>k. k + length sub \<le> length s \<and> to_lower (take (length sub) (drop k s)) = to_lower sub)"
  proof
    assume "sublist (to_lower sub) (to_lower s)"
    then obtain ps ss where s: "to_lower s = ps @ to_lower sub @ ss" by (auto simp: sublist_def)
    have len: "length s = length ps + length sub + length ss"
      using arg_cong [OF s, of length] by (simp add: to_lower_def)
    have "to_lower (take (length sub) (drop (length ps) s)) = take (length sub) (drop (length ps) (to_lower s))"
      by (simp add: to_lower_def take_map drop_map)
    also have "\<dots> = to_lower sub" by (simp add: s) (simp add: to_lower_def)
    finally show "\<exists>k. k + length sub \<le> length s \<and> to_lower (take (length sub) (drop k s)) = to_lower sub"
      using len by (intro exI [of _ "length ps"]) simp
  next
    assume "\<exists>k. k + length sub \<le> length s \<and> to_lower (take (length sub) (drop k s)) = to_lower sub"
    then obtain k where k: "to_lower (take (length sub) (drop k s)) = to_lower sub" by blast
    have "to_lower s = to_lower (take k s) @ to_lower (take (length sub) (drop k s)) @ to_lower (drop (length sub) (drop k s))"
      unfolding to_lower_def map_append [symmetric] append_take_drop_id ..
    then show "sublist (to_lower sub) (to_lower s)" unfolding k sublist_def by blast
  qed
  then show ?thesis
    by (simp add: containsFold_def indexFold_def index_from_iff) (metis add_leD2 fold_match_iff)
qed

section \<open>The life of a status\<close>

datatype health_op = OpIssue time string string | OpOK string | OpUnavailable string string | OpAdd u64

fun run_op :: "health_op \<Rightarrow> health_tracker \<Rightarrow> health_tracker" where
  "run_op (OpIssue now c e) h = Issue now c e h"
| "run_op (OpOK c) h = MarkOK c h"
| "run_op (OpUnavailable c w) h = Unavailable c w h"
| "run_op (OpAdd n) h = AddSamples n h"

definition run_ops :: "health_op list \<Rightarrow> health_tracker \<Rightarrow> health_tracker" where
  "run_ops ops h = fold run_op ops h"

fun complains :: "string \<Rightarrow> health_op \<Rightarrow> bool" where
  "complains c (OpIssue now c' e) = (c' = c)"
| "complains c (OpUnavailable c' w) = (c' = c)"
| "complains c op = False"

text \<open>Collector names without a bar: then the key of the deduplication determines collector and error.\<close>

fun clean_name :: "health_op \<Rightarrow> bool" where
  "clean_name (OpIssue now c e) = (CHR ''|'' \<notin> set c)"
| "clean_name op = True"

lemma key_inj: "CHR ''|'' \<notin> set c \<Longrightarrow> CHR ''|'' \<notin> set c' \<Longrightarrow> c @ ''|'' @ e = c' @ ''|'' @ e' \<Longrightarrow> c = c'"
proof (induction c arbitrary: c')
  case Nil
  then show ?case by (cases c') auto
next
  case (Cons x c)
  then show ?case by (cases c') auto
qed

fun issue_key :: "health_op \<Rightarrow> string option" where
  "issue_key (OpIssue now c e) = Some (c @ ''|'' @ e)"
| "issue_key op = None"

text \<open>The invariant: what has been seen, the recent errors, and which statuses are \<open>ok\<close>.\<close>

definition status_ok :: "health_op list \<Rightarrow> health_tracker \<Rightarrow> bool" where
  "status_ok ops h \<longleftrightarrow> (\<forall>c. case map_of (ht_statuses h) c of
       None \<Rightarrow> OpOK c \<notin> set ops \<and> \<not> list_ex (complains c) ops
     | Some s \<Rightarrow> if s = ''ok'' then OpOK c \<in> set ops \<and> \<not> list_ex (complains c) ops else list_ex (complains c) ops)"

definition tracker_ok :: "health_op list \<Rightarrow> health_tracker \<Rightarrow> bool" where
  "tracker_ok ops h \<longleftrightarrow> length (ht_errs h) \<le> maxRecentErrors \<and> distinct (map fst (ht_permIssues h)) \<and>
     (\<forall>key. map_of (ht_errSeen h) key = Some True \<longrightarrow> Some key \<in> issue_key ` set ops) \<and> status_ok ops h"

lemma issue_key_Some: "issue_key op = Some k \<longleftrightarrow> (\<exists>now c e. op = OpIssue now c e \<and> k = c @ ''|'' @ e)"
  by (cases op) auto

lemma seen_complains:
  assumes "tracker_ok ops h" "list_all clean_name (OpIssue now c e # ops)" "map_of (ht_errSeen h) (c @ ''|'' @ e) = Some True"
  shows "list_ex (complains c) ops"
proof -
  obtain op where op: "op \<in> set ops" "issue_key op = Some (c @ ''|'' @ e)"
    using assms(1,3) unfolding tracker_ok_def by force
  then obtain now' c' e' where o: "op = OpIssue now' c' e'" "c @ ''|'' @ e = c' @ ''|'' @ e'"
    unfolding issue_key_Some by blast
  then have "c = c'" using assms(2) op(1) by (intro key_inj [of c c' e e']) (auto simp: list_all_iff)
  then have "complains c op" by (simp add: o(1))
  then show ?thesis using op(1) unfolding list_ex_iff by blast
qed

text \<open>A problem, a success, or anything else for a collector.\<close>

lemma status_complain:
  assumes "status_ok ops h" "complains c op" "s \<noteq> ''ok''" "\<And>c'. c' \<noteq> c \<Longrightarrow> \<not> complains c' op \<and> op \<noteq> OpOK c'"
    "ht_statuses h' = AList.update c s (ht_statuses h)"
  shows "status_ok (ops @ [op]) h'"
  unfolding status_ok_def
proof
  fix d
  show "case map_of (ht_statuses h') d of
       None \<Rightarrow> OpOK d \<notin> set (ops @ [op]) \<and> \<not> list_ex (complains d) (ops @ [op])
     | Some s \<Rightarrow> if s = ''ok'' then OpOK d \<in> set (ops @ [op]) \<and> \<not> list_ex (complains d) (ops @ [op])
        else list_ex (complains d) (ops @ [op])"
    using assms(1) [unfolded status_ok_def, rule_format, of d] assms(2,3,5) assms(4) [of d]
    by (cases "d = c") (auto simp: update_conv' split: option.splits)
qed

lemma status_same:
  assumes "status_ok ops h" "\<And>c. complains c op \<Longrightarrow> list_ex (complains c) ops" "\<And>c. op = OpOK c \<Longrightarrow> map_of (ht_statuses h) c \<noteq> None"
    "ht_statuses h' = ht_statuses h"
  shows "status_ok (ops @ [op]) h'"
  unfolding status_ok_def
proof
  fix d
  show "case map_of (ht_statuses h') d of
       None \<Rightarrow> OpOK d \<notin> set (ops @ [op]) \<and> \<not> list_ex (complains d) (ops @ [op])
     | Some s \<Rightarrow> if s = ''ok'' then OpOK d \<in> set (ops @ [op]) \<and> \<not> list_ex (complains d) (ops @ [op])
        else list_ex (complains d) (ops @ [op])"
    using assms(1) [unfolded status_ok_def, rule_format, of d] assms(2,3) [of d] assms(4)
    by (auto split: option.splits)
qed

lemma status_first_ok:
  assumes "status_ok ops h" "map_of (ht_statuses h) c = None" "ht_statuses h' = AList.update c ''ok'' (ht_statuses h)"
  shows "status_ok (ops @ [OpOK c]) h'"
  unfolding status_ok_def
proof
  fix d
  show "case map_of (ht_statuses h') d of
       None \<Rightarrow> OpOK d \<notin> set (ops @ [OpOK c]) \<and> \<not> list_ex (complains d) (ops @ [OpOK c])
     | Some s \<Rightarrow> if s = ''ok'' then OpOK d \<in> set (ops @ [OpOK c]) \<and> \<not> list_ex (complains d) (ops @ [OpOK c])
        else list_ex (complains d) (ops @ [OpOK c])"
    using assms(1) [unfolded status_ok_def, rule_format, of d] assms(2,3)
    by (cases "d = c") (auto simp: update_conv' split: option.splits)
qed

lemma tracker_ok_issue:
  assumes "tracker_ok ops h" "list_all clean_name (OpIssue now c e # ops)"
  shows "tracker_ok (ops @ [OpIssue now c e]) (Issue now c e h)"
proof (cases "map_of (ht_errSeen h) (c @ ''|'' @ e) = Some True")
  case True
  then have "Issue now c e h = h" by (simp add: Issue_def)
  moreover have "status_ok (ops @ [OpIssue now c e]) h"
    using assms(1) seen_complains [OF assms True] by (intro status_same [of ops h]) (auto simp: tracker_ok_def)
  ultimately show ?thesis using assms(1) by (auto simp: tracker_ok_def)
next
  case False
  have "status_ok (ops @ [OpIssue now c e]) (Issue now c e h)"
    using assms(1) False
    by (intro status_complain [of ops h c _ "if isPermissionError e then ''degraded:permission'' else ''degraded:'' @ truncate_text e 120"])
      (auto simp: tracker_ok_def Issue_def Let_def)
  then show ?thesis using assms(1) False unfolding tracker_ok_def
    by (auto simp: Issue_def Let_def update_conv' distinct_update)
qed

lemma tracker_ok_step:
  assumes "tracker_ok ops h" "list_all clean_name (op # ops)"
  shows "tracker_ok (ops @ [op]) (run_op op h)"
proof (cases op)
  case (OpIssue now c e)
  then show ?thesis using tracker_ok_issue assms by simp
next
  case (OpOK c)
  have "status_ok (ops @ [OpOK c]) (MarkOK c h)"
  proof (cases "map_of (ht_statuses h) c")
    case None
    then show ?thesis using assms(1) by (intro status_first_ok [of ops h]) (auto simp: tracker_ok_def MarkOK_def)
  next
    case (Some s)
    then show ?thesis using assms(1) by (intro status_same [of ops h]) (auto simp: tracker_ok_def MarkOK_def)
  qed
  then show ?thesis using assms(1) OpOK by (auto simp: tracker_ok_def MarkOK_def split: option.splits)
next
  case (OpUnavailable c w)
  have "status_ok (ops @ [OpUnavailable c w]) (Unavailable c w h)"
    using assms(1) by (intro status_complain [of ops h c _ "''unavailable:'' @ w"]) (auto simp: tracker_ok_def Unavailable_def)
  then show ?thesis using assms(1) OpUnavailable by (auto simp: tracker_ok_def Unavailable_def)
next
  case (OpAdd n)
  have "status_ok (ops @ [OpAdd n]) (AddSamples n h)"
    using assms(1) by (intro status_same [of ops h]) (auto simp: tracker_ok_def AddSamples_def)
  then show ?thesis using assms(1) OpAdd by (auto simp: tracker_ok_def AddSamples_def)
qed

lemma tracker_ok_run:
  "tracker_ok done h \<Longrightarrow> list_all clean_name (done @ ops) \<Longrightarrow> tracker_ok (done @ ops) (run_ops ops h)"
proof (induction ops arbitrary: "done" h)
  case (Cons op ops)
  then show ?case using tracker_ok_step [of "done" h op] Cons.IH [of "done @ [op]" "run_op op h"]
    by (simp add: run_ops_def)
qed (simp add: run_ops_def)

text \<open>
  C31. What a health record can say after any sequence of reports: at most fifty recent errors are kept,
  each permission problem is listed once, and a collector is \<open>ok\<close> exactly when it has reported success
  and never a problem: one problem, however old, keeps it degraded for the life of the agent, although
  \<open>OK\<close> is called on every successful cycle.
\<close>

theorem status_ok_iff_never_degraded:
  assumes "list_all clean_name ops" "h = run_ops ops (newHealthTracker start self)"
  shows "length (ht_errs h) \<le> 50 \<and> distinct (PermissionIssues h) \<and> sorted (PermissionIssues h) \<and>
    (map_of (ht_statuses h) c = Some ''ok'' \<longleftrightarrow> OpOK c \<in> set ops \<and> \<not> list_ex (complains c) ops)"
proof -
  have "tracker_ok [] (newHealthTracker start self)" by (simp add: tracker_ok_def status_ok_def newHealthTracker_def)
  from tracker_ok_run [OF this, of ops] have ok: "tracker_ok ops h" using assms by simp
  have "map_of (ht_statuses h) c = Some ''ok'' \<longleftrightarrow> OpOK c \<in> set ops \<and> \<not> list_ex (complains c) ops"
    using ok [unfolded tracker_ok_def status_ok_def, THEN conjunct2, THEN conjunct2, THEN conjunct2, rule_format, of c]
    by (auto split: option.splits if_splits)
  then show ?thesis using ok by (simp add: tracker_ok_def maxRecentErrors_def PermissionIssues_def)
qed

theorem status_ok_iff_never_degraded_witness:
  "map_of (ht_statuses (run_ops [OpIssue 5 ''host'' ''i/o timeout'', OpOK ''host'', OpOK ''host''] (newHealthTracker 1 True)))
     ''host'' \<noteq> Some ''ok''"
  using status_ok_iff_never_degraded [OF _ refl, of "[OpIssue 5 ''host'' ''i/o timeout'', OpOK ''host'', OpOK ''host'']" 1 True "''host''"]
  by simp

end
