(* ===== verification/HostId.thy ===== *)
theory HostId
  imports GoStrings
begin

text \<open>
  The host identifier (\<open>internal/hostid\<close>): generated once, kept in the file \<open>host.id\<close> of the data
  directory. The state is that file; random bytes and the outcomes of the system calls are arguments.
\<close>

datatype id_error = CorruptID | RandFailed | DirFailed | IDWriteFailed | IDRenameFailed

record id_env =
  ie_read_ok :: bool
  ie_random :: "nat list option"
  ie_mkdir_ok :: bool
  ie_write_ok :: bool
  ie_rename_ok :: bool

definition hex_digit :: "nat \<Rightarrow> char" where
  "hex_digit n = (if n < 10 then char_of (48 + n) else char_of (87 + n))"

text \<open>\<open>hex.EncodeToString\<close> of bytes.\<close>

definition hex_encode :: "nat list \<Rightarrow> string" where
  "hex_encode bs = concat (map (\<lambda>b. [hex_digit (b div 16), hex_digit (b mod 16)]) bs)"

text \<open>\<open>Load\<close>: an unreadable file is taken for a missing one.\<close>

definition LoadID :: "id_env \<Rightarrow> string option \<Rightarrow> string option \<times> (id_error + string)" where
  "LoadID env content =
     (case if ie_read_ok env then content else None of
        Some b \<Rightarrow>
          let ident = trim_space b in
          if prefix ''ura-'' ident \<and> length ident = 4 + 32 then (content, Inr ident) else (content, Inl CorruptID)
      | None \<Rightarrow>
        (case ie_random env of None \<Rightarrow> (content, Inl RandFailed)
         | Some raw \<Rightarrow>
             let ident = ''ura-'' @ hex_encode raw in
             if \<not> ie_mkdir_ok env then (content, Inl DirFailed)
             else if \<not> ie_write_ok env then (content, Inl IDWriteFailed)
             else if \<not> ie_rename_ok env then (content, Inl IDRenameFailed)
             else (Some (ident @ [CHR 10]), Inr ident)))"

section \<open>Stability\<close>

text \<open>The source of randomness gives sixteen bytes.\<close>

definition random_ok :: "id_env \<Rightarrow> bool" where
  "random_ok env \<longleftrightarrow> (case ie_random env of None \<Rightarrow> True | Some raw \<Rightarrow> length raw = 16 \<and> list_all (\<lambda>b. b < 256) raw)"

lemma hex_digit_no_space: "n < 16 \<Longrightarrow> \<not> is_space (hex_digit n)"
proof -
  have "list_all (\<lambda>n. \<not> is_space (hex_digit n)) [0..<16]" by code_simp
  then show "n < 16 \<Longrightarrow> \<not> is_space (hex_digit n)" by (simp add: list_all_iff)
qed

lemma hex_encode_length [simp]: "length (hex_encode bs) = 2 * length bs"
  by (induction bs) (simp_all add: hex_encode_def)

lemma hex_encode_no_space: "list_all (\<lambda>b. b < 256) bs \<Longrightarrow> c \<in> set (hex_encode bs) \<Longrightarrow> \<not> is_space c"
proof -
  assume "list_all (\<lambda>b. b < 256) bs" "c \<in> set (hex_encode bs)"
  then obtain b where "b < 256" "c = hex_digit (b div 16) \<or> c = hex_digit (b mod 16)"
    by (auto simp: hex_encode_def list_all_iff)
  moreover have "b div 16 < 16" "b mod 16 < 16" using \<open>b < 256\<close> by (simp_all add: less_mult_imp_div_less)
  ultimately show ?thesis using hex_digit_no_space by auto
qed

lemma trim_line: "s \<noteq> [] \<Longrightarrow> \<forall>c \<in> set s. \<not> is_space c \<Longrightarrow> trim_space (s @ [CHR 10]) = s"
proof -
  assume s: "s \<noteq> []" "\<forall>c \<in> set s. \<not> is_space c"
  have drop: "trim_left t = t" if "t \<noteq> []" "\<not> is_space (hd t)" for t
    using that by (cases t) (simp_all add: trim_left_def)
  have l: "trim_left (s @ [CHR 10]) = s @ [CHR 10]" using s by (intro drop) (auto simp: hd_append)
  have "trim_left (rev (s @ [CHR 10])) = trim_left (rev s)" by (simp add: trim_left_def is_space_def)
  also have "\<dots> = rev s" using s by (intro drop) (auto simp: hd_rev)
  finally show ?thesis by (simp add: trim_space_def l)
qed

text \<open>
  C32. The identifier is stable: once \<open>Load\<close> has returned an identifier, every later \<open>Load\<close> that can read
  the file returns the same one and leaves the file alone, whatever else fails.
\<close>

theorem host_id_stable:
  assumes "LoadID env content = (content', Inr ident)" "random_ok env" "ie_read_ok env'"
  shows "LoadID env' content' = (content', Inr ident) \<and> prefix ''ura-'' ident \<and> length ident = 36"
proof (cases "if ie_read_ok env then content else None")
  case (Some b)
  then have "content = Some b" by (simp split: if_splits)
  then show ?thesis using assms Some by (auto simp: LoadID_def Let_def split: if_splits)
next
  case None
  then obtain raw where raw: "ie_random env = Some raw" "content' = Some (ident @ [CHR 10])" "ident = ''ura-'' @ hex_encode raw"
    using assms(1) by (auto simp: LoadID_def Let_def split: option.splits if_splits)
  have bytes: "length raw = 16" "list_all (\<lambda>b. b < 256) raw" using assms(2) raw(1) by (simp_all add: random_ok_def)
  have "\<forall>c \<in> set ''ura-''. \<not> is_space c" by (simp add: is_space_def)
  then have "\<forall>c \<in> set ident. \<not> is_space c" using hex_encode_no_space [OF bytes(2)] by (auto simp: raw(3))
  then have "trim_space (ident @ [CHR 10]) = ident" using raw(3) by (intro trim_line) auto
  then show ?thesis using assms(3) raw(2,3) bytes(1) by (simp add: LoadID_def Let_def)
qed

definition working :: id_env where
  "working = \<lparr>ie_read_ok = True, ie_random = Some (replicate 16 171), ie_mkdir_ok = True, ie_write_ok = True, ie_rename_ok = True\<rparr>"

lemma working_ok: "random_ok working" "ie_read_ok working"
  by code_simp+

theorem host_id_stable_witness:
  "snd (LoadID working (fst (LoadID working None))) = Inr ''ura-abababababababababababababababab''"
proof -
  have first: "LoadID working None = (Some (''ura-abababababababababababababababab'' @ [CHR 10]), Inr ''ura-abababababababababababababababab'')"
    by code_simp
  from host_id_stable [OF first working_ok] show ?thesis unfolding first by simp
qed

text \<open>A file that exists but cannot be read is replaced: the host gets a new identifier.\<close>

lemma unreadable_id_is_replaced:
  "LoadID (working\<lparr>ie_read_ok := False\<rparr>) (Some ''ura-00000000000000000000000000000000'') =
     (Some (''ura-abababababababababababababababab'' @ [CHR 10]), Inr ''ura-abababababababababababababababab'')"
  by code_simp

end
