(* ===== verification/ProcTop.thy ===== *)
theory ProcTop
  imports Records GoMap GoStrings
begin

text \<open>
  Process telemetry (\<open>internal/proctop/proctop.go\<close>): each snapshot reads every process, computes rates
  against the previous one, and keeps the union of the top processes by CPU and by resident memory. What
  the process library says of a process is an argument; so are the order \<open>sort.Slice\<close> gives to equal
  keys and the iteration order of the map of picked processes.
\<close>

section \<open>State\<close>

record prev_proc =
  pv_cpuSeconds :: f64
  pv_readBytes :: u64
  pv_writeBytes :: u64
  pv_seenAt :: time

record collector =
  co_topN :: int
  co_mapper :: bool
  co_prev :: "(int, prev_proc) go_map"
  co_history :: "proc_top list"
  co_histCap :: nat

definition NewCollector :: "int \<Rightarrow> bool \<Rightarrow> collector" where
  "NewCollector topN mapper = \<lparr>co_topN = topN, co_mapper = mapper, co_prev = [], co_history = [], co_histCap = 30\<rparr>"

text \<open>What can be read of one process; \<open>IOAbsent\<close> is a nil result without an error.\<close>

datatype io_result = IOCounters u64 u64 | IOAbsent | IODenied

record proc_info =
  pi_Pid :: int
  pi_Times :: "(f64 \<times> f64) option"
  pi_Name :: "string option"
  pi_Ppid :: "int option"
  pi_RSS :: "u64 option"
  pi_IO :: io_result
  pi_CreateMS :: "int option"

record scored =
  sc_s :: proc_sample
  sc_cpu :: f64

section \<open>Sampling one process\<close>

definition deltaU64 :: "u64 \<Rightarrow> u64 \<Rightarrow> f64" where
  "deltaU64 cur prev = (if cur < prev then 0 else of_u64 (cur - prev))"

definition cpu_pct :: "time \<Rightarrow> int \<Rightarrow> f64 \<Rightarrow> prev_proc option \<Rightarrow> f64" where
  "cpu_pct now numCPU cpuSec pp =
     (case pp of None \<Rightarrow> 0
      | Some p \<Rightarrow>
          let elapsed = dur_seconds (time_sub now (pv_seenAt p)) in
          if elapsed > 0 \<and> numCPU > 0 then
            let pct = (cpuSec - pv_cpuSeconds p) / elapsed / of_go_int numCPU * fl 100 in
            if pct < 0 then 0 else pct
          else 0)"

definition io_rates :: "time \<Rightarrow> io_result \<Rightarrow> prev_proc option \<Rightarrow> f64 \<times> f64" where
  "io_rates now io pp =
     (case (io, pp) of
        (IOCounters r w, Some p) \<Rightarrow>
          let elapsed = dur_seconds (time_sub now (pv_seenAt p)) in
          if elapsed > 0 then (round2f (deltaU64 r (pv_readBytes p) / elapsed), round2f (deltaU64 w (pv_writeBytes p) / elapsed))
          else (0, 0)
      | _ \<Rightarrow> (0, 0))"

definition unix_epoch :: time where
  "unix_epoch = 62135596800000000000"

definition sample_proc :: "time \<Rightarrow> int \<Rightarrow> (int, prev_proc) go_map \<Rightarrow> proc_info \<Rightarrow> (scored \<times> prev_proc) option" where
  "sample_proc now numCPU prev p =
     (case pi_Times p of None \<Rightarrow> None
      | Some (user, sys) \<Rightarrow>
          let cpuSec = user + sys;
              pp = map_of prev (pi_Pid p);
              pct = cpu_pct now numCPU cpuSec pp;
              rates = io_rates now (pi_IO p) pp;
              (rd, wr) = (case pi_IO p of IOCounters r w \<Rightarrow> (r, w) | _ \<Rightarrow> (0, 0))
          in Some (\<lparr>sc_s = \<lparr>ps_PID = pi_Pid p, ps_PPID = (case pi_Ppid p of Some q \<Rightarrow> q | None \<Rightarrow> 0),
               ps_Name = (case pi_Name p of Some n \<Rightarrow> n | None \<Rightarrow> []), ps_Exe = [], ps_ExeSHA256 = [], ps_ServiceUnit = [],
               ps_CPUPct = round2f pct, ps_CPUTimeS = round2f cpuSec,
               ps_RSSBytes = (case pi_RSS p of Some r \<Rightarrow> r | None \<Rightarrow> 0), ps_PrivateBytes = 0,
               ps_ReadBytesPS = fst rates, ps_WriteBytesPS = snd rates,
               ps_StartTime = (case pi_CreateMS p of Some ms \<Rightarrow> unix_epoch + ms * 1000000 | None \<Rightarrow> 0)\<rparr>, sc_cpu = pct\<rparr>,
             \<lparr>pv_cpuSeconds = cpuSec, pv_readBytes = rd, pv_writeBytes = wr, pv_seenAt = now\<rparr>))"

definition io_denied :: "proc_info \<Rightarrow> bool" where
  "io_denied p \<longleftrightarrow> pi_Times p \<noteq> None \<and> pi_IO p = IODenied"

section \<open>The snapshot\<close>

text \<open>\<open>take\<close>: walk the list until \<open>topN\<close> processes have been added that were not picked before.\<close>

fun take_top :: "int \<Rightarrow> int \<Rightarrow> scored list \<Rightarrow> (int, proc_sample) go_map \<Rightarrow> (int, proc_sample) go_map" where
  "take_top topN n [] pick = pick"
| "take_top topN n (sc # rest) pick =
     (if n \<ge> topN then pick
      else if map_of pick (ps_PID (sc_s sc)) = None
        then take_top topN (n + 1) rest (AList.update (ps_PID (sc_s sc)) (sc_s sc) pick)
      else take_top topN n rest pick)"

record snap_orders =
  so_cpu :: "scored list \<Rightarrow> scored list"
  so_rss :: "scored list \<Rightarrow> scored list"
  so_pick :: "(int, proc_sample) go_map \<Rightarrow> (int, proc_sample) go_map"

definition pick_top :: "snap_orders \<Rightarrow> int \<Rightarrow> scored list \<Rightarrow> (int, proc_sample) go_map" where
  "pick_top ord topN all =
     take_top topN 0 (sort_key (\<lambda>sc. - uint (ps_RSSBytes (sc_s sc))) (so_rss ord all))
       (take_top topN 0 (sort_key (\<lambda>sc. - sc_cpu sc) (so_cpu ord all)) [])"

text \<open>The service unit and the executable are looked up for the picked processes only.\<close>

definition enrich :: "collector \<Rightarrow> (int \<Rightarrow> string) \<Rightarrow> (int \<Rightarrow> string option) \<Rightarrow> proc_sample \<Rightarrow> proc_sample" where
  "enrich c service_for exe_of s =
     (let s = (if co_mapper c then s\<lparr>ps_ServiceUnit := service_for (ps_PID s)\<rparr> else s)
      in case exe_of (ps_PID s) of Some e \<Rightarrow> s\<lparr>ps_Exe := e\<rparr> | None \<Rightarrow> s)"

definition push_history :: "collector \<Rightarrow> proc_top \<Rightarrow> collector" where
  "push_history c t =
     (let h = co_history c @ [t] in
      c\<lparr>co_history := (if length h > co_histCap c then drop (length h - co_histCap c) h else h)\<rparr>)"

definition TakeSnapshot :: "snap_orders \<Rightarrow> (int \<Rightarrow> string) \<Rightarrow> (int \<Rightarrow> string option) \<Rightarrow> time \<Rightarrow> int
    \<Rightarrow> string + proc_info list \<Rightarrow> collector \<Rightarrow> collector \<times> proc_top \<times> (string \<times> string) list" where
  "TakeSnapshot ord service_for exe_of now numCPU procs c =
     (case procs of
        Inl e \<Rightarrow> (c, meta.extend (NewMeta KindProcTop now) \<lparr>pt_Procs = []\<rparr>, [(''proc.list'', e)])
      | Inr ps \<Rightarrow>
          let taken = List.map_filter (\<lambda>p. map_option (\<lambda>(s, np). (pi_Pid p, s, np)) (sample_proc now numCPU (co_prev c) p)) ps;
              c = c\<lparr>co_prev := foldl (\<lambda>m (pid, s, np). AList.update pid np m) [] taken\<rparr>;
              iss = (if list_ex io_denied ps then [(''proc.io'', ''per-process I/O counters unavailable for some processes (insufficient privileges); process disk attribution degraded'')] else []);
              pick = so_pick ord (pick_top ord (co_topN c) (map (\<lambda>(pid, s, np). s) taken));
              t = meta.extend (NewMeta KindProcTop now)
                \<lparr>pt_Procs = sort_key (\<lambda>s. - ps_CPUPct s) (map (enrich c service_for exe_of \<circ> snd) pick)\<rparr>
          in (push_history c t, t, iss))"

definition History :: "time \<Rightarrow> time \<Rightarrow> collector \<Rightarrow> proc_top list" where
  "History from_ts to_ts c = filter (\<lambda>h. \<not> m_TS h < from_ts \<and> \<not> m_TS h > to_ts) (co_history c)"

section \<open>Systemd units\<close>

text \<open>\<open>UnitFromCgroup\<close> (\<open>servicemap_linux.go\<close>): \<open>SplitN(line, ":", 3)\<close> has three parts.\<close>

definition cgroup_path :: "string \<Rightarrow> string option" where
  "cgroup_path line =
     (case cut (CHR '':'') line of (_, None) \<Rightarrow> None
      | (_, Some rest) \<Rightarrow> snd (cut (CHR '':'') rest))"

definition unit_segment :: "string \<Rightarrow> bool" where
  "unit_segment seg \<longleftrightarrow> has_suffix seg ''.service'' \<or> has_suffix seg ''.scope''"

fun unit_of_lines :: "string list \<Rightarrow> string" where
  "unit_of_lines [] = []"
| "unit_of_lines (line # ls) =
     (case cgroup_path line of None \<Rightarrow> unit_of_lines ls
      | Some path \<Rightarrow> (case filter unit_segment (split_on (CHR ''/'') path) of
           seg # _ \<Rightarrow> seg | [] \<Rightarrow> unit_of_lines ls))"

definition UnitFromCgroup :: "string \<Rightarrow> string" where
  "UnitFromCgroup content = unit_of_lines (split_on (CHR 10) content)"

definition ServiceFor :: "(int \<Rightarrow> string option) \<Rightarrow> int \<Rightarrow> string" where
  "ServiceFor cgroup_file pid = (case cgroup_file pid of Some b \<Rightarrow> UnitFromCgroup b | None \<Rightarrow> [])"

end
