(* ===== verification/ProcTopFacts.thy ===== *)
theory ProcTopFacts
  imports ProcTop
begin

text \<open>
  Which processes a snapshot keeps, and that neither the history nor the counters of the previous
  snapshot grow without bound.
\<close>

section \<open>Taking the top of a list\<close>

abbreviation pid_of :: "scored \<Rightarrow> int" where
  "pid_of sc \<equiv> ps_PID (sc_s sc)"

definition entry_of :: "scored \<Rightarrow> int \<times> proc_sample" where
  "entry_of sc = (pid_of sc, sc_s sc)"

lemma update_append: "k \<notin> fst ` set m \<Longrightarrow> AList.update k v m = m @ [(k, v)]"
  by (induction m) auto

lemma take_top_eq:
  assumes "distinct (map pid_of xs)" "0 \<le> n"
  shows "take_top N n xs pick =
    pick @ map entry_of (take (nat (N - n)) (filter (\<lambda>sc. pid_of sc \<notin> fst ` set pick) xs))"
  using assms
proof (induction xs arbitrary: n pick)
  case (Cons sc xs)
  show ?case
  proof (cases "n \<ge> N \<or> pid_of sc \<in> fst ` set pick")
    case True
    then show ?thesis using Cons by (auto simp: map_of_eq_None_iff)
  next
    case False
    have new: "map_of pick (pid_of sc) = None" using False by (simp add: map_of_eq_None_iff)
    have nat: "nat (N - n) = Suc (nat (N - (n + 1)))"
      using False Suc_nat_eq_nat_zadd1 [of "N - (n + 1)"] by simp
    have "filter (\<lambda>x. pid_of x \<notin> fst ` set (pick @ [entry_of sc])) xs = filter (\<lambda>x. pid_of x \<notin> fst ` set pick) xs"
      using Cons.prems(1) by (intro filter_cong) (auto simp: entry_of_def, metis image_eqI)
    then show ?thesis using Cons False new nat by (simp add: update_append entry_of_def)
  qed
qed simp

definition orders_ok :: "snap_orders \<Rightarrow> bool" where
  "orders_ok ord \<longleftrightarrow> (\<forall>xs. mset (so_cpu ord xs) = mset xs) \<and> (\<forall>xs. mset (so_rss ord xs) = mset xs) \<and>
     (\<forall>m. mset (so_pick ord m) = mset m)"

text \<open>The first \<open>N\<close> of a list in decreasing order of \<open>f\<close>: what is not among them is no larger.\<close>

lemma first_n_dominate:
  fixes f :: "'a \<Rightarrow> 'k::linorder"
  assumes "sorted_wrt (\<lambda>a b. f a \<ge> f b) xs" "x \<in> set xs" "x \<notin> set (take n xs)"
  shows "n \<le> length xs \<and> (\<forall>y \<in> set (take n xs). f y \<ge> f x)"
proof -
  have "x \<in> set (drop n xs)" using assms(2,3) by (metis Un_iff append_take_drop_id set_append)
  moreover have "sorted_wrt (\<lambda>a b. f a \<ge> f b) (take n xs @ drop n xs)" using assms(1) by simp
  ultimately show ?thesis unfolding sorted_wrt_append by (cases "n \<le> length xs") auto
qed

section \<open>The picked processes\<close>

definition top_cpu :: "snap_orders \<Rightarrow> int \<Rightarrow> scored list \<Rightarrow> scored list" where
  "top_cpu ord N all = take (nat N) (sort_key (\<lambda>sc. - sc_cpu sc) (so_cpu ord all))"

definition top_rss :: "snap_orders \<Rightarrow> int \<Rightarrow> scored list \<Rightarrow> scored list" where
  "top_rss ord N all = take (nat N) (filter (\<lambda>sc. pid_of sc \<notin> pid_of ` set (top_cpu ord N all))
     (sort_key (\<lambda>sc. - uint (ps_RSSBytes (sc_s sc))) (so_rss ord all)))"

definition orders_fit :: "snap_orders \<Rightarrow> scored list \<Rightarrow> bool" where
  "orders_fit ord all \<longleftrightarrow> orders_ok ord \<and> distinct (map pid_of all)"

lemma cpu_sorted: "sorted_wrt (\<lambda>a b. sc_cpu a \<ge> sc_cpu b) (sort_key (\<lambda>sc. - sc_cpu sc) (so_cpu ord all))"
proof -
  have "sorted (map (\<lambda>sc. - sc_cpu sc) (sort_key (\<lambda>sc. - sc_cpu sc) (so_cpu ord all)))" by simp
  then show ?thesis by (simp only: sorted_wrt_map f64_uminus_le)
qed

lemma rss_sorted:
  "sorted_wrt (\<lambda>a b. ps_RSSBytes (sc_s a) \<ge> ps_RSSBytes (sc_s b))
     (sort_key (\<lambda>sc. - uint (ps_RSSBytes (sc_s sc))) (so_rss ord all))"
proof -
  have "sorted (map (\<lambda>sc. - uint (ps_RSSBytes (sc_s sc)))
      (sort_key (\<lambda>sc. - uint (ps_RSSBytes (sc_s sc))) (so_rss ord all)))" by simp
  then show ?thesis by (simp only: sorted_wrt_map neg_le_iff_le word_le_def)
qed

lemma orders_sets:
  assumes "orders_fit ord all"
  shows "set (so_cpu ord all) = set all" "set (so_rss ord all) = set all"
    "length (so_cpu ord all) = length all" "length (so_rss ord all) = length all"
  using assms unfolding orders_fit_def orders_ok_def by (metis mset_eq_setD, metis mset_eq_setD, metis mset_eq_length, metis mset_eq_length)

lemma sorted_distinct:
  assumes "orders_fit ord all"
  shows "distinct (map pid_of (sort_key f (so_cpu ord all)))" "distinct (map pid_of (sort_key g (so_rss ord all)))"
proof -
  have "mset (sort_key f (so_cpu ord all)) = mset all" "mset (sort_key g (so_rss ord all)) = mset all" "distinct (map pid_of all)"
    using assms by (simp_all add: orders_fit_def orders_ok_def)
  then show "distinct (map pid_of (sort_key f (so_cpu ord all)))" "distinct (map pid_of (sort_key g (so_rss ord all)))"
    by (metis mset_eq_imp_distinct_iff mset_map)+
qed

lemma pick_top_eq:
  assumes "orders_fit ord all"
  shows "pick_top ord N all = map entry_of (top_cpu ord N all @ top_rss ord N all)"
proof -
  have k: "fst ` entry_of ` X = pid_of ` X" for X by (force simp: entry_of_def)
  have "take_top N 0 (sort_key (\<lambda>sc. - sc_cpu sc) (so_cpu ord all)) [] = map entry_of (top_cpu ord N all)"
    using take_top_eq [OF sorted_distinct(1) [OF assms], where n = 0 and N = N and pick = "[]"] by (simp add: top_cpu_def)
  then show ?thesis
    using take_top_eq [OF sorted_distinct(2) [OF assms], where n = 0 and N = N and pick = "map entry_of (top_cpu ord N all)"]
    by (simp add: pick_top_def top_rss_def k)
qed

lemma tops_subset:
  assumes "orders_fit ord all"
  shows "set (top_cpu ord N all) \<subseteq> set all" "set (top_rss ord N all) \<subseteq> set all"
  using orders_sets [OF assms] by (auto simp: top_cpu_def top_rss_def dest!: in_set_takeD)

lemma tops_distinct:
  assumes "orders_fit ord all"
  shows "distinct (map pid_of (top_cpu ord N all @ top_rss ord N all))"
proof -
  have "distinct (map pid_of (top_cpu ord N all))"
    using distinct_take [OF sorted_distinct(1) [OF assms]] by (simp only: top_cpu_def take_map)
  moreover have "distinct (map pid_of (top_rss ord N all))"
    unfolding top_rss_def take_map [symmetric] by (intro distinct_take distinct_map_filter sorted_distinct(2) [OF assms])
  moreover have "pid_of ` set (top_rss ord N all) \<inter> pid_of ` set (top_cpu ord N all) = {}"
    by (auto simp: top_rss_def dest!: in_set_takeD)
  ultimately show ?thesis by auto
qed

lemma tops_length:
  assumes "orders_fit ord all"
  shows "length (top_cpu ord N all @ top_rss ord N all) = min (2 * nat N) (length all)"
proof -
  let ?A = "top_cpu ord N all" and ?ys = "sort_key (\<lambda>sc. - uint (ps_RSSBytes (sc_s sc))) (so_rss ord all)"
  have inj: "inj_on pid_of (set all)" and d: "distinct all" and dy: "distinct ?ys" and dA: "distinct ?A"
    using assms sorted_distinct(2) [OF assms] tops_distinct [OF assms, of N] by (simp_all add: orders_fit_def distinct_map)
  have "set (filter (\<lambda>sc. pid_of sc \<notin> pid_of ` set ?A) ?ys) = set all - set ?A"
    using inj tops_subset(1) [OF assms, of N] orders_sets(2) [OF assms] by (auto dest: inj_onD)
  then have "length (filter (\<lambda>sc. pid_of sc \<notin> pid_of ` set ?A) ?ys) = card (set all - set ?A)"
    using dy by (metis distinct_card distinct_filter)
  also have "\<dots> = length all - length ?A"
    using tops_subset(1) [OF assms, of N] by (simp add: card_Diff_subset distinct_card [OF d] distinct_card [OF dA])
  finally have "length (top_rss ord N all) = min (nat N) (length all - length ?A)" by (simp add: top_rss_def)
  moreover have "length ?A = min (nat N) (length all)" by (simp add: top_cpu_def orders_sets [OF assms])
  ultimately show ?thesis by (simp add: min_def) arith
qed

text \<open>A process that is left out is dominated, in CPU and in memory, by as many kept ones as the limit says.\<close>

lemma left_out:
  assumes "orders_fit ord all" "p \<in> set all" "pid_of p \<notin> pid_of ` set (top_cpu ord N all @ top_rss ord N all)"
  shows "nat N = length (top_cpu ord N all) \<and> (\<forall>q \<in> set (top_cpu ord N all). sc_cpu q \<ge> sc_cpu p) \<and>
    nat N = length (top_rss ord N all) \<and> (\<forall>q \<in> set (top_rss ord N all). ps_RSSBytes (sc_s q) \<ge> ps_RSSBytes (sc_s p))"
proof -
  note os = orders_sets [OF assms(1)]
  let ?A = "top_cpu ord N all"
  let ?ys = "filter (\<lambda>sc. pid_of sc \<notin> pid_of ` set ?A) (sort_key (\<lambda>sc. - uint (ps_RSSBytes (sc_s sc))) (so_rss ord all))"
  have p: "p \<notin> set ?A" "p \<notin> set (top_rss ord N all)" "pid_of p \<notin> pid_of ` set ?A" using assms(3) by auto
  have cpu: "nat N \<le> length all \<and> (\<forall>q \<in> set ?A. sc_cpu q \<ge> sc_cpu p)"
    using first_n_dominate [OF cpu_sorted, of p ord all "nat N"] assms(2) p(1) by (simp add: top_cpu_def os)
  have "sorted_wrt (\<lambda>a b. ps_RSSBytes (sc_s a) \<ge> ps_RSSBytes (sc_s b)) ?ys"
    by (rule sorted_wrt_filter [OF rss_sorted])
  from first_n_dominate [OF this, of p "nat N"]
  have "nat N \<le> length ?ys \<and> (\<forall>q \<in> set (top_rss ord N all). ps_RSSBytes (sc_s q) \<ge> ps_RSSBytes (sc_s p))"
    using assms(2) p(2,3) by (simp add: top_rss_def os)
  then show ?thesis using cpu by (simp add: top_cpu_def top_rss_def os)
qed

section \<open>The snapshot\<close>

definition sampled :: "time \<Rightarrow> int \<Rightarrow> collector \<Rightarrow> proc_info list \<Rightarrow> scored list" where
  "sampled now numCPU c ps = List.map_filter (\<lambda>p. map_option fst (sample_proc now numCPU (co_prev c) p)) ps"

lemma map_filter_map: "map f (List.map_filter g xs) = List.map_filter (\<lambda>x. map_option f (g x)) xs"
  by (induction xs) (auto simp: List.map_filter_simps split: option.split)

lemma sample_proc_pid: "sample_proc now n prev p = Some (s, np) \<Longrightarrow> pid_of s = pi_Pid p"
  by (auto simp: sample_proc_def Let_def split: option.splits prod.splits)

lemma sampled_pids: "map pid_of (sampled now n c ps) = map pi_Pid (filter (\<lambda>p. pi_Times p \<noteq> None) ps)"
proof (induction ps)
  case (Cons p ps)
  have "pi_Times p = None \<longleftrightarrow> sample_proc now n (co_prev c) p = None"
    by (auto simp: sample_proc_def Let_def split: option.splits prod.splits)
  then show ?case using Cons sample_proc_pid [of now n "co_prev c" p]
    by (cases "sample_proc now n (co_prev c) p") (auto simp: sampled_def List.map_filter_simps)
qed (simp add: sampled_def List.map_filter_simps)

lemma enrich_keeps [simp]:
  "ps_PID (enrich c sf ex s) = ps_PID s" "ps_CPUPct (enrich c sf ex s) = ps_CPUPct s" "ps_RSSBytes (enrich c sf ex s) = ps_RSSBytes s"
  by (simp_all add: enrich_def Let_def split: option.split)

lemma enrich_prev [simp]: "enrich (c\<lparr>co_prev := m\<rparr>) sf ex = enrich c sf ex"
  by (simp add: enrich_def fun_eq_iff)

lemma count_kept:
  assumes "set X \<subseteq> set all" "distinct X" "distinct all" "pid_of ` set X \<subseteq> K" "\<forall>q \<in> set X. P q"
  shows "length X \<le> length (filter (\<lambda>q. pid_of q \<in> K \<and> P q) all)"
proof -
  have "set X \<subseteq> set (filter (\<lambda>q. pid_of q \<in> K \<and> P q) all)" using assms by auto
  then have "card (set X) \<le> card (set (filter (\<lambda>q. pid_of q \<in> K \<and> P q) all))" by (intro card_mono) auto
  then show ?thesis using assms(2,3) by (simp add: distinct_card del: set_filter)
qed

text \<open>
  C33. A snapshot is bounded and fair: with a limit \<open>N\<close> it holds each process at most once, \<open>2 * N\<close> of
  the processes that could be read or all of them, in decreasing order of CPU; whatever order the sorts
  and the map give to ties, a process that is left out has neither more CPU than \<open>N\<close> of the kept ones nor
  more memory than \<open>N\<close> of the kept ones. The history never holds more than its capacity.
\<close>

theorem top_processes_kept:
  assumes "TakeSnapshot ord sf ex now n (Inr ps) c = (c', t, iss)" "orders_ok ord" "distinct (map pi_Pid ps)"
    "all = sampled now n c ps" "kept = ps_PID ` set (pt_Procs t)"
  shows "distinct (map ps_PID (pt_Procs t)) \<and> length (pt_Procs t) = min (2 * nat (co_topN c)) (length all) \<and>
    kept \<subseteq> pid_of ` set all \<and> sorted (rev (map ps_CPUPct (pt_Procs t))) \<and>
    (\<forall>p \<in> set all. pid_of p \<in> kept \<or>
      nat (co_topN c) \<le> length (filter (\<lambda>q. pid_of q \<in> kept \<and> sc_cpu q \<ge> sc_cpu p) all) \<and>
      nat (co_topN c) \<le> length (filter (\<lambda>q. pid_of q \<in> kept \<and> ps_RSSBytes (sc_s q) \<ge> ps_RSSBytes (sc_s p)) all)) \<and>
    length (co_history c') \<le> co_histCap c"
proof -
  have "distinct (map pid_of all)" using assms(3) by (simp add: assms(4) sampled_pids distinct_map_filter)
  then have fit: "orders_fit ord all" and dall: "distinct all" using assms(2) by (simp_all add: orders_fit_def distinct_map)
  let ?A = "top_cpu ord (co_topN c) all" and ?B = "top_rss ord (co_topN c) all"
  define pick where "pick = so_pick ord (pick_top ord (co_topN c) all)"
  have t: "pt_Procs t = sort_key (\<lambda>s. - ps_CPUPct s) (map (enrich c sf ex \<circ> snd) pick)"
    and hist: "length (co_history c') \<le> co_histCap c"
    using assms(1)
    by (auto simp: TakeSnapshot_def Let_def pick_def assms(4) sampled_def map_filter_map option.map_comp comp_def split_def
        push_history_def meta.defs NewMeta_def)
  have perm: "mset pick = mset (map entry_of (?A @ ?B))"
    using assms(2) by (simp add: pick_def orders_ok_def pick_top_eq [OF fit])
  have pids: "mset (map ps_PID (pt_Procs t)) = mset (map pid_of (?A @ ?B))"
  proof -
    have "mset (map ps_PID (pt_Procs t)) = image_mset ps_PID (mset (map (enrich c sf ex \<circ> snd) pick))"
      unfolding t by (simp only: mset_map mset_sort)
    also have "\<dots> = image_mset (\<lambda>e. ps_PID (snd e)) (mset pick)" by (simp add: image_mset.compositionality comp_def)
    also have "\<dots> = mset (map pid_of (?A @ ?B))" unfolding perm by (simp add: image_mset.compositionality comp_def entry_of_def)
    finally show ?thesis .
  qed
  then have kept: "kept = pid_of ` set (?A @ ?B)" using mset_eq_setD [OF pids] by (simp add: assms(5) image_Un)
  have "distinct (map ps_PID (pt_Procs t))" using tops_distinct [OF fit] mset_eq_imp_distinct_iff [OF pids] by blast
  moreover have "length (pt_Procs t) = min (2 * nat (co_topN c)) (length all)"
    using mset_eq_length [OF pids] tops_length [OF fit] by simp
  moreover have "kept \<subseteq> pid_of ` set all" using tops_subset [OF fit, of "co_topN c"] unfolding kept by (intro image_mono) simp
  moreover have "sorted (rev (map ps_CPUPct (pt_Procs t)))"
  proof -
    have "sorted (map (\<lambda>s. - ps_CPUPct s) (pt_Procs t))" unfolding t by simp
    then show ?thesis by (simp add: sorted_wrt_map sorted_wrt_rev f64_uminus_le)
  qed
  moreover have dX: "distinct ?A" "distinct ?B" using tops_distinct [OF fit] by (simp_all add: distinct_map)
  have "pid_of p \<in> kept \<or>
      nat (co_topN c) \<le> length (filter (\<lambda>q. pid_of q \<in> kept \<and> sc_cpu q \<ge> sc_cpu p) all) \<and>
      nat (co_topN c) \<le> length (filter (\<lambda>q. pid_of q \<in> kept \<and> ps_RSSBytes (sc_s q) \<ge> ps_RSSBytes (sc_s p)) all)"
    if "p \<in> set all" for p
    using left_out [OF fit that] count_kept [OF tops_subset(1) [OF fit] dX(1) dall, where K = kept]
      count_kept [OF tops_subset(2) [OF fit] dX(2) dall, where K = kept]
    unfolding kept by fastforce
  ultimately show ?thesis using hist by blast
qed

definition plain_orders :: snap_orders where
  "plain_orders = \<lparr>so_cpu = rev, so_rss = id, so_pick = rev\<rparr>"

definition small_info :: "int \<Rightarrow> u64 \<Rightarrow> proc_info" where
  "small_info pid rss = \<lparr>pi_Pid = pid, pi_Times = Some (1, 0), pi_Name = None, pi_Ppid = None, pi_RSS = Some rss,
     pi_IO = IOAbsent, pi_CreateMS = None\<rparr>"

definition small_snap :: "collector \<times> proc_top \<times> (string \<times> string) list" where
  "small_snap = TakeSnapshot plain_orders (\<lambda>p. []) (\<lambda>p. None) 5 2 (Inr (map (\<lambda>p. small_info p (word_of_int p)) [1, 2, 3, 4]))
     (NewCollector 1 False)"

theorem top_processes_kept_witness:
  "length (pt_Procs (fst (snd small_snap))) = 2"
proof -
  have "orders_ok plain_orders" by (simp add: orders_ok_def plain_orders_def)
  moreover have "distinct (map pi_Pid (map (\<lambda>p. small_info p (word_of_int p)) [1, 2, 3, 4]))" by (simp add: small_info_def)
  moreover have "length (sampled 5 2 (NewCollector 1 False) (map (\<lambda>p. small_info p (word_of_int p)) [1, 2, 3, 4])) = 4"
    using arg_cong [OF sampled_pids, of length 5 2 "NewCollector 1 False" "map (\<lambda>p. small_info p (word_of_int p)) [1, 2, 3, 4]"]
    by (simp add: small_info_def)
  ultimately show ?thesis
    using top_processes_kept [of plain_orders "\<lambda>p. []" "\<lambda>p. None" 5 2 _ "NewCollector 1 False" "fst small_snap" "fst (snd small_snap)"
        "snd (snd small_snap)", OF _ _ _ refl refl] by (simp add: small_snap_def NewCollector_def)
qed

end
