(* ===== verification/Sampler.thy ===== *)
theory Sampler
  imports SpikeDetector GoStrings
begin

text \<open>
  Host sampling (\<open>internal/sampler\<close>): one reading of the probes with rates from counter differences, the
  points handed to the spike detector, and the aggregation of samples into minutes. What the probes
  return is one argument, the record \<open>probes\<close>; a probe that fails is an error text or \<open>None\<close>. The maps
  of devices are association lists; the orders in which \<open>emit\<close> ranges over its accumulators are
  arguments, all other loops over maps update one entry per key.
\<close>

section \<open>Data\<close>

record disk_rates =
  dr_ReadIOPS :: f64
  dr_WriteIOPS :: f64
  dr_ReadBytesPS :: f64
  dr_WriteBytesPS :: f64
  dr_ReadLatMS :: f64
  dr_WriteLatMS :: f64
  dr_QueueDepth :: f64
  dr_BusyPct :: f64

record net_rates =
  nr_RxBytesPS :: f64
  nr_TxBytesPS :: f64
  nr_RxPktsPS :: f64
  nr_TxPktsPS :: f64
  nr_ErrsPS :: f64
  nr_DropsPS :: f64
  nr_SpeedMbps :: int

record psi_sample =
  pp_CPUSome :: f64
  pp_MemSome :: f64
  pp_MemFull :: f64
  pp_IOSome :: f64
  pp_IOFull :: f64

record high_res =
  hr_TS :: time
  hr_CPUTotalPct :: f64
  hr_CPUUserPct :: f64
  hr_CPUSystemPct :: f64
  hr_CPUIOWaitPct :: f64
  hr_CPUStealPct :: f64
  hr_PerCorePct :: "f64 list"
  hr_Load1 :: f64
  hr_Load5 :: f64
  hr_CtxSwitchPS :: f64
  hr_MemUsedPct :: f64
  hr_MemUsedBytes :: u64
  hr_MemAvailBytes :: u64
  hr_MemCommitted :: u64
  hr_SwapUsedBytes :: u64
  hr_PageInPS :: f64
  hr_PageOutPS :: f64
  hr_MajorFaultPS :: f64
  hr_Disks :: "(string, disk_rates) go_map"
  hr_Net :: "(string, net_rates) go_map"
  hr_PSI :: "psi_sample option"

record cpu_times =
  ct_User :: f64
  ct_System :: f64
  ct_Idle :: f64
  ct_Nice :: f64
  ct_Iowait :: f64
  ct_Irq :: f64
  ct_Softirq :: f64
  ct_Steal :: f64

record disk_counters =
  dk_ReadCount :: u64
  dk_WriteCount :: u64
  dk_ReadBytes :: u64
  dk_WriteBytes :: u64
  dk_ReadTime :: u64
  dk_WriteTime :: u64
  dk_IoTime :: u64
  dk_WeightedIO :: u64

record nic_counters =
  nc_Name :: string
  nc_BytesRecv :: u64
  nc_BytesSent :: u64
  nc_PacketsRecv :: u64
  nc_PacketsSent :: u64
  nc_Errin :: u64
  nc_Errout :: u64
  nc_Dropin :: u64
  nc_Dropout :: u64

record vm_counters =
  vc_pageIn :: u64
  vc_pageOut :: u64
  vc_majFault :: u64
  vc_ctxSwitch :: u64

record vm_stat =
  vs_UsedPercent :: f64
  vs_Used :: u64
  vs_Available :: u64
  vs_CommittedAS :: u64

text \<open>A platform probe: a value, not supported here, or an error.\<close>

datatype 'a probe = Reading 'a | Unsupported | ProbeError string

record probes =
  pr_cpu :: "string + cpu_times list"
  pr_cores :: "cpu_times list option"
  pr_load :: "(f64 \<times> f64) option"
  pr_vm :: "string + vm_stat"
  pr_swap :: "u64 option"
  pr_counters :: "vm_counters probe"
  pr_disk :: "string + (string, disk_counters) go_map"
  pr_net :: "string + nic_counters list"
  pr_psi :: "psi_sample probe"
  pr_speed :: "string \<Rightarrow> int"

record sampler =
  sm_prevTS :: time
  sm_prevCPU :: "cpu_times list"
  sm_prevCPUCores :: "cpu_times list"
  sm_prevDisk :: "(string, disk_counters) go_map"
  sm_prevNet :: "(string, nic_counters) go_map"
  sm_prevVM :: vm_counters
  sm_prevVMOK :: bool
  sm_nicSpeeds :: "(string, int) go_map"

definition NewSampler :: sampler where
  "NewSampler = \<lparr>sm_prevTS = 0, sm_prevCPU = [], sm_prevCPUCores = [], sm_prevDisk = [], sm_prevNet = [],
     sm_prevVM = \<lparr>vc_pageIn = 0, vc_pageOut = 0, vc_majFault = 0, vc_ctxSwitch = 0\<rparr>, sm_prevVMOK = False, sm_nicSpeeds = []\<rparr>"

section \<open>Rates\<close>

definition clampPct :: "f64 \<Rightarrow> f64" where
  "clampPct v = (if v < 0 then 0 else if v > fl 100 then fl 100 else v)"

definition rate :: "u64 \<Rightarrow> u64 \<Rightarrow> f64 \<Rightarrow> f64" where
  "rate cur prev elapsed = (if cur < prev \<or> elapsed \<le> 0 then 0 else of_u64 (cur - prev) / elapsed)"

definition cpuDeltaPct :: "cpu_times \<Rightarrow> cpu_times \<Rightarrow> f64 \<times> f64 \<times> f64 \<times> f64 \<times> f64" where
  "cpuDeltaPct prev cur =
     (let dUser = ct_User cur - ct_User prev;
          dSys = ct_System cur - ct_System prev;
          dIdle = ct_Idle cur - ct_Idle prev;
          dIowait = ct_Iowait cur - ct_Iowait prev;
          dSteal = ct_Steal cur - ct_Steal prev;
          dOther = (ct_Nice cur - ct_Nice prev) + (ct_Irq cur - ct_Irq prev) + (ct_Softirq cur - ct_Softirq prev);
          busy = dUser + dSys + dSteal + dOther;
          all = busy + dIdle + dIowait;
          pct = (\<lambda>v. clampPct (v / all * fl 100))
      in if all \<le> 0 then (0, 0, 0, 0, 0) else (pct busy, pct dUser, pct dSys, pct dIowait, pct dSteal))"

definition skipDevice :: "string \<Rightarrow> bool" where
  "skipDevice dev \<longleftrightarrow> prefix ''loop'' dev \<or> prefix ''ram'' dev \<or> prefix ''zram'' dev \<or> prefix ''sr'' dev"

text \<open>The latencies divide differences of \<open>uint64\<close> counters without a test for a reset.\<close>

definition disk_delta :: "f64 \<Rightarrow> disk_counters \<Rightarrow> disk_counters \<Rightarrow> disk_rates" where
  "disk_delta elapsed prev cur =
     \<lparr>dr_ReadIOPS = rate (dk_ReadCount cur) (dk_ReadCount prev) elapsed,
      dr_WriteIOPS = rate (dk_WriteCount cur) (dk_WriteCount prev) elapsed,
      dr_ReadBytesPS = rate (dk_ReadBytes cur) (dk_ReadBytes prev) elapsed,
      dr_WriteBytesPS = rate (dk_WriteBytes cur) (dk_WriteBytes prev) elapsed,
      dr_ReadLatMS = (let dc = dk_ReadCount cur - dk_ReadCount prev in
        if dc > 0 then of_u64 (dk_ReadTime cur - dk_ReadTime prev) / of_u64 dc else 0),
      dr_WriteLatMS = (let dc = dk_WriteCount cur - dk_WriteCount prev in
        if dc > 0 then of_u64 (dk_WriteTime cur - dk_WriteTime prev) / of_u64 dc else 0),
      dr_QueueDepth = rate (dk_WeightedIO cur) (dk_WeightedIO prev) elapsed / fl 1000,
      dr_BusyPct = clampPct (rate (dk_IoTime cur) (dk_IoTime prev) elapsed / fl 10)\<rparr>"

definition nic_delta :: "f64 \<Rightarrow> int \<Rightarrow> nic_counters \<Rightarrow> nic_counters \<Rightarrow> net_rates" where
  "nic_delta elapsed speed prev n =
     \<lparr>nr_RxBytesPS = rate (nc_BytesRecv n) (nc_BytesRecv prev) elapsed,
      nr_TxBytesPS = rate (nc_BytesSent n) (nc_BytesSent prev) elapsed,
      nr_RxPktsPS = rate (nc_PacketsRecv n) (nc_PacketsRecv prev) elapsed,
      nr_TxPktsPS = rate (nc_PacketsSent n) (nc_PacketsSent prev) elapsed,
      nr_ErrsPS = rate (nc_Errin n + nc_Errout n) (nc_Errin prev + nc_Errout prev) elapsed,
      nr_DropsPS = rate (nc_Dropin n + nc_Dropout n) (nc_Dropin prev + nc_Dropout prev) elapsed,
      nr_SpeedMbps = speed\<rparr>"

section \<open>Sampling\<close>

type_synonym sample_state = "sampler \<times> high_res \<times> (string \<times> string) list"

definition sample_cpu :: "probes \<Rightarrow> bool \<Rightarrow> sample_state \<Rightarrow> sample_state" where
  "sample_cpu p first st =
     (case st of (s, hr, iss) \<Rightarrow>
      case pr_cpu p of
        Inl e \<Rightarrow> (s, hr, iss @ [(''cpu.times'', e)])
      | Inr [tot] \<Rightarrow>
          (s\<lparr>sm_prevCPU := [tot]\<rparr>,
           (case sm_prevCPU s of
              [prev] \<Rightarrow> if first then hr else
                (case cpuDeltaPct prev tot of (t, u, sy, io, stl) \<Rightarrow>
                 hr\<lparr>hr_CPUTotalPct := t, hr_CPUUserPct := u, hr_CPUSystemPct := sy, hr_CPUIOWaitPct := io, hr_CPUStealPct := stl\<rparr>)
            | _ \<Rightarrow> hr), iss)
      | Inr _ \<Rightarrow> (s, hr, iss))"

definition sample_cores :: "probes \<Rightarrow> bool \<Rightarrow> sample_state \<Rightarrow> sample_state" where
  "sample_cores p first st =
     (case st of (s, hr, iss) \<Rightarrow>
      case pr_cores p of None \<Rightarrow> (s, hr, iss)
      | Some cores \<Rightarrow>
          (s\<lparr>sm_prevCPUCores := cores\<rparr>,
           (if \<not> first \<and> length (sm_prevCPUCores s) = length cores
            then hr\<lparr>hr_PerCorePct := map (\<lambda>(prev, cur). fst (cpuDeltaPct prev cur)) (zip (sm_prevCPUCores s) cores)\<rparr>
            else hr), iss))"

definition sample_mem :: "probes \<Rightarrow> sample_state \<Rightarrow> sample_state" where
  "sample_mem p st =
     (case st of (s, hr, iss) \<Rightarrow>
      let hr = (case pr_load p of Some (l1, l5) \<Rightarrow> hr\<lparr>hr_Load1 := l1, hr_Load5 := l5\<rparr> | None \<Rightarrow> hr);
          (hr, iss) = (case pr_vm p of
              Inr vm \<Rightarrow> (hr\<lparr>hr_MemUsedPct := vs_UsedPercent vm, hr_MemUsedBytes := vs_Used vm,
                  hr_MemAvailBytes := vs_Available vm, hr_MemCommitted := vs_CommittedAS vm\<rparr>, iss)
            | Inl e \<Rightarrow> (hr, iss @ [(''mem.virtual'', e)]));
          hr = (case pr_swap p of Some u \<Rightarrow> hr\<lparr>hr_SwapUsedBytes := u\<rparr> | None \<Rightarrow> hr)
      in (s, hr, iss))"

definition sample_vm :: "probes \<Rightarrow> bool \<Rightarrow> f64 \<Rightarrow> sample_state \<Rightarrow> sample_state" where
  "sample_vm p first elapsed st =
     (case st of (s, hr, iss) \<Rightarrow>
      case pr_counters p of
        Reading vc \<Rightarrow>
          (s\<lparr>sm_prevVM := vc, sm_prevVMOK := True\<rparr>,
           (if \<not> first \<and> sm_prevVMOK s \<and> elapsed > 0 then
              hr\<lparr>hr_PageInPS := rate (vc_pageIn vc) (vc_pageIn (sm_prevVM s)) elapsed,
                 hr_PageOutPS := rate (vc_pageOut vc) (vc_pageOut (sm_prevVM s)) elapsed,
                 hr_MajorFaultPS := rate (vc_majFault vc) (vc_majFault (sm_prevVM s)) elapsed,
                 hr_CtxSwitchPS := rate (vc_ctxSwitch vc) (vc_ctxSwitch (sm_prevVM s)) elapsed\<rparr>
            else hr), iss)
      | Unsupported \<Rightarrow> (s, hr, iss)
      | ProbeError e \<Rightarrow> (s, hr, iss @ [(''vmstat'', e)]))"

definition sample_disk :: "probes \<Rightarrow> bool \<Rightarrow> f64 \<Rightarrow> sample_state \<Rightarrow> sample_state" where
  "sample_disk p first elapsed st =
     (case st of (s, hr, iss) \<Rightarrow>
      case pr_disk p of
        Inl e \<Rightarrow> (s, hr, iss @ [(''disk.io'', e)])
      | Inr io \<Rightarrow>
          (s\<lparr>sm_prevDisk := io\<rparr>,
           (if \<not> first \<and> elapsed > 0 then
              hr\<lparr>hr_Disks := foldl (\<lambda>m (dev, cur). if skipDevice dev then m else
                  (case map_of (sm_prevDisk s) dev of None \<Rightarrow> m
                   | Some prev \<Rightarrow> AList.update dev (disk_delta elapsed prev cur) m)) (hr_Disks hr) io\<rparr>
            else hr), iss))"

definition loopback :: "string \<Rightarrow> bool" where
  "loopback name \<longleftrightarrow> name = ''lo'' \<or> prefix ''Loopback'' name"

definition nic_step :: "probes \<Rightarrow> bool \<Rightarrow> f64 \<Rightarrow> (string, nic_counters) go_map
    \<Rightarrow> (string, nic_counters) go_map \<times> (string, int) go_map \<times> (string, net_rates) go_map \<Rightarrow> nic_counters
    \<Rightarrow> (string, nic_counters) go_map \<times> (string, int) go_map \<times> (string, net_rates) go_map" where
  "nic_step p first elapsed prevNet acc n =
     (case acc of (cur, speeds, net) \<Rightarrow>
      if loopback (nc_Name n) then (cur, speeds, net)
      else
        let cur = AList.update (nc_Name n) n cur in
        if \<not> first \<and> elapsed > 0 then
          (case map_of prevNet (nc_Name n) of None \<Rightarrow> (cur, speeds, net)
           | Some prev \<Rightarrow>
               let (sp, speeds) = (case map_of speeds (nc_Name n) of Some v \<Rightarrow> (v, speeds)
                   | None \<Rightarrow> (pr_speed p (nc_Name n), AList.update (nc_Name n) (pr_speed p (nc_Name n)) speeds))
               in (cur, speeds, AList.update (nc_Name n) (nic_delta elapsed sp prev n) net))
        else (cur, speeds, net))"

definition sample_net :: "probes \<Rightarrow> bool \<Rightarrow> f64 \<Rightarrow> sample_state \<Rightarrow> sample_state" where
  "sample_net p first elapsed st =
     (case st of (s, hr, iss) \<Rightarrow>
      case pr_net p of
        Inl e \<Rightarrow> (s, hr, iss @ [(''net.io'', e)])
      | Inr nics \<Rightarrow>
          (case foldl (nic_step p first elapsed (sm_prevNet s)) ([], sm_nicSpeeds s, hr_Net hr) nics of
             (cur, speeds, net) \<Rightarrow> (s\<lparr>sm_prevNet := cur, sm_nicSpeeds := speeds\<rparr>, hr\<lparr>hr_Net := net\<rparr>, iss)))"

definition sample_psi :: "probes \<Rightarrow> sample_state \<Rightarrow> sample_state" where
  "sample_psi p st =
     (case st of (s, hr, iss) \<Rightarrow>
      case pr_psi p of
        Reading x \<Rightarrow> (s, hr\<lparr>hr_PSI := Some x\<rparr>, iss)
      | Unsupported \<Rightarrow> (s, hr, iss)
      | ProbeError e \<Rightarrow> (s, hr, iss @ [(''psi'', e)]))"

definition empty_hr :: "time \<Rightarrow> high_res" where
  "empty_hr now = \<lparr>hr_TS = now, hr_CPUTotalPct = 0, hr_CPUUserPct = 0, hr_CPUSystemPct = 0, hr_CPUIOWaitPct = 0,
     hr_CPUStealPct = 0, hr_PerCorePct = [], hr_Load1 = 0, hr_Load5 = 0, hr_CtxSwitchPS = 0, hr_MemUsedPct = 0,
     hr_MemUsedBytes = 0, hr_MemAvailBytes = 0, hr_MemCommitted = 0, hr_SwapUsedBytes = 0, hr_PageInPS = 0,
     hr_PageOutPS = 0, hr_MajorFaultPS = 0, hr_Disks = [], hr_Net = [], hr_PSI = None\<rparr>"

text \<open>The first call primes the counters and returns nothing.\<close>

definition Sample :: "time \<Rightarrow> probes \<Rightarrow> sampler \<Rightarrow> sampler \<times> high_res option \<times> (string \<times> string) list" where
  "Sample now p s =
     (let elapsed = dur_seconds (time_sub now (sm_prevTS s));
          first = is_zero_time (sm_prevTS s);
          st = sample_psi p (sample_net p first elapsed (sample_disk p first elapsed (sample_vm p first elapsed
            (sample_mem p (sample_cores p first (sample_cpu p first (s, empty_hr now, [])))))))
      in case st of (s, hr, iss) \<Rightarrow> (s\<lparr>sm_prevTS := now\<rparr>, (if first then None else Some hr), iss))"

definition SpikePoint :: "high_res \<Rightarrow> point" where
  "SpikePoint hr =
     \<lparr>pt_TS = hr_TS hr,
      pt_Values = foldl (\<lambda>m (dev, d). AList.update \<lparr>k_Resource = ResDiskIO, k_Device = dev\<rparr> (dr_BusyPct d)
           (AList.update \<lparr>k_Resource = ResDiskQueue, k_Device = dev\<rparr> (dr_QueueDepth d)
           (AList.update \<lparr>k_Resource = ResDiskLatency, k_Device = dev\<rparr> (max (dr_ReadLatMS d) (dr_WriteLatMS d)) m)))
        [(\<lparr>k_Resource = ResCPU, k_Device = []\<rparr>, hr_CPUTotalPct hr),
         (\<lparr>k_Resource = ResMemory, k_Device = []\<rparr>, hr_MemUsedPct hr),
         (\<lparr>k_Resource = ResPaging, k_Device = []\<rparr>, hr_PageInPS hr + hr_PageOutPS hr + hr_MajorFaultPS hr)]
        (hr_Disks hr)\<rparr>"

end
