(* ===== verification/MinuteAgg.thy ===== *)
theory MinuteAgg
  imports Sampler
begin

text \<open>
  The aggregation of samples into minutes (\<open>MinuteAgg\<close> of \<open>sampler.go\<close>), \<open>AttachFS\<close>, and the Linux probes of
  \<open>platform_linux.go\<close>, whose files and \<open>strconv.ParseFloat\<close> are arguments.
\<close>

section \<open>Accumulating\<close>

definition zero_cpu :: cpu_agg where
  "zero_cpu = \<lparr>ca_AvgPct = 0, ca_MaxPct = 0, ca_UserPct = 0, ca_SystemPct = 0, ca_IOWaitPct = 0, ca_StealPct = 0,
     ca_PerCoreMax = [], ca_Load1 = 0, ca_Load5 = 0, ca_RunQueue = 0, ca_CtxSwitchPS = 0\<rparr>"

definition zero_mem :: mem_agg where
  "zero_mem = \<lparr>ma_UsedPctAvg = 0, ma_UsedPctMax = 0, ma_UsedBytesAvg = 0, ma_AvailBytesMin = 0, ma_CommittedBytes = 0,
     ma_SwapUsedBytes = 0, ma_PageInPS = 0, ma_PageOutPS = 0, ma_MajorFaultPS = 0\<rparr>"

definition zero_disk :: "string \<Rightarrow> disk_agg" where
  "zero_disk dev = \<lparr>da_Device = dev, da_ReadIOPS = 0, da_WriteIOPS = 0, da_ReadBytesPS = 0, da_WriteBytesPS = 0,
     da_ReadLatMS = 0, da_WriteLatMS = 0, da_QueueDepth = 0, da_BusyPct = 0\<rparr>"

definition zero_net :: "string \<Rightarrow> net_agg" where
  "zero_net name = \<lparr>na_Name = name, na_RxBytesPS = 0, na_TxBytesPS = 0, na_RxPktsPS = 0, na_TxPktsPS = 0, na_ErrsPS = 0,
     na_DropsPS = 0, na_UtilPct = 0\<rparr>"

definition zero_psi :: psi_agg where
  "zero_psi = \<lparr>psi_CPUSomeAvg = 0, psi_MemSomeAvg = 0, psi_MemFullAvg = 0, psi_IOSomeAvg = 0, psi_IOFullAvg = 0,
     psi_MemSomeMax = 0, psi_IOSomeMax = 0\<rparr>"

text \<open>The maximum per core; the slice gets its length from the first sample that has cores.\<close>

definition core_max :: "f64 list \<Rightarrow> f64 list \<Rightarrow> f64 list" where
  "core_max acc cores =
     (if cores = [] then acc
      else
        let acc = (if acc = [] then replicate (length cores) 0 else acc)
        in map (\<lambda>i. if i < length cores then max (acc ! i) (cores ! i) else acc ! i) [0..<length acc])"

definition add_cpu :: "f64 \<Rightarrow> high_res \<Rightarrow> cpu_agg \<Rightarrow> cpu_agg" where
  "add_cpu n s c = c\<lparr>
     ca_AvgPct := ca_AvgPct c + hr_CPUTotalPct s / n,
     ca_MaxPct := max (ca_MaxPct c) (hr_CPUTotalPct s),
     ca_UserPct := ca_UserPct c + hr_CPUUserPct s / n,
     ca_SystemPct := ca_SystemPct c + hr_CPUSystemPct s / n,
     ca_IOWaitPct := ca_IOWaitPct c + hr_CPUIOWaitPct s / n,
     ca_StealPct := ca_StealPct c + hr_CPUStealPct s / n,
     ca_Load1 := ca_Load1 c + hr_Load1 s / n,
     ca_Load5 := ca_Load5 c + hr_Load5 s / n,
     ca_CtxSwitchPS := ca_CtxSwitchPS c + hr_CtxSwitchPS s / n,
     ca_PerCoreMax := core_max (ca_PerCoreMax c) (hr_PerCorePct s)\<rparr>"

definition add_mem :: "f64 \<Rightarrow> high_res \<Rightarrow> mem_agg \<Rightarrow> mem_agg" where
  "add_mem n s m = m\<lparr>
     ma_UsedPctAvg := ma_UsedPctAvg m + hr_MemUsedPct s / n,
     ma_UsedPctMax := max (ma_UsedPctMax m) (hr_MemUsedPct s),
     ma_UsedBytesAvg := ma_UsedBytesAvg m + word_of_int (go_trunc (of_u64 (hr_MemUsedBytes s) / n)),
     ma_AvailBytesMin := (if ma_AvailBytesMin m = 0 \<or> hr_MemAvailBytes s < ma_AvailBytesMin m
       then hr_MemAvailBytes s else ma_AvailBytesMin m),
     ma_CommittedBytes := (if hr_MemCommitted s > ma_CommittedBytes m then hr_MemCommitted s else ma_CommittedBytes m),
     ma_SwapUsedBytes := (if hr_SwapUsedBytes s > ma_SwapUsedBytes m then hr_SwapUsedBytes s else ma_SwapUsedBytes m),
     ma_PageInPS := ma_PageInPS m + hr_PageInPS s / n,
     ma_PageOutPS := ma_PageOutPS m + hr_PageOutPS s / n,
     ma_MajorFaultPS := ma_MajorFaultPS m + hr_MajorFaultPS s / n\<rparr>"

text \<open>An accumulator of a device and the number of samples in it.\<close>

definition add_disk :: "(string, disk_agg \<times> f64) go_map \<Rightarrow> string \<times> disk_rates \<Rightarrow> (string, disk_agg \<times> f64) go_map" where
  "add_disk m p =
     (case p of (dev, d) \<Rightarrow>
      case (case map_of m dev of Some x \<Rightarrow> x | None \<Rightarrow> (zero_disk dev, 0)) of (a, c) \<Rightarrow>
      AList.update dev
        (a\<lparr>da_ReadIOPS := da_ReadIOPS a + dr_ReadIOPS d, da_WriteIOPS := da_WriteIOPS a + dr_WriteIOPS d,
           da_ReadBytesPS := da_ReadBytesPS a + dr_ReadBytesPS d, da_WriteBytesPS := da_WriteBytesPS a + dr_WriteBytesPS d,
           da_ReadLatMS := da_ReadLatMS a + dr_ReadLatMS d, da_WriteLatMS := da_WriteLatMS a + dr_WriteLatMS d,
           da_QueueDepth := da_QueueDepth a + dr_QueueDepth d, da_BusyPct := da_BusyPct a + dr_BusyPct d\<rparr>, c + 1) m)"

definition util_pct :: "net_rates \<Rightarrow> f64" where
  "util_pct nn = clampPct ((nr_RxBytesPS nn + nr_TxBytesPS nn) * fl 8 / fl 1000000 / of_go_int (nr_SpeedMbps nn) * fl 100)"

definition add_net :: "(string, net_agg \<times> f64) go_map \<Rightarrow> string \<times> net_rates \<Rightarrow> (string, net_agg \<times> f64) go_map" where
  "add_net m p =
     (case p of (name, nn) \<Rightarrow>
      case (case map_of m name of Some x \<Rightarrow> x | None \<Rightarrow> (zero_net name, 0)) of (a, c) \<Rightarrow>
      AList.update name
        (a\<lparr>na_RxBytesPS := na_RxBytesPS a + nr_RxBytesPS nn, na_TxBytesPS := na_TxBytesPS a + nr_TxBytesPS nn,
           na_RxPktsPS := na_RxPktsPS a + nr_RxPktsPS nn, na_TxPktsPS := na_TxPktsPS a + nr_TxPktsPS nn,
           na_ErrsPS := na_ErrsPS a + nr_ErrsPS nn, na_DropsPS := na_DropsPS a + nr_DropsPS nn,
           na_UtilPct := (if nr_SpeedMbps nn > 0 then max (na_UtilPct a) (util_pct nn) else na_UtilPct a)\<rparr>, c + 1) m)"

definition add_psi :: "high_res \<Rightarrow> psi_agg \<times> f64 \<Rightarrow> psi_agg \<times> f64" where
  "add_psi s acc =
     (case acc of (p, c) \<Rightarrow>
      case hr_PSI s of None \<Rightarrow> (p, c)
      | Some x \<Rightarrow>
          (p\<lparr>psi_CPUSomeAvg := psi_CPUSomeAvg p + pp_CPUSome x, psi_MemSomeAvg := psi_MemSomeAvg p + pp_MemSome x,
             psi_MemFullAvg := psi_MemFullAvg p + pp_MemFull x, psi_IOSomeAvg := psi_IOSomeAvg p + pp_IOSome x,
             psi_IOFullAvg := psi_IOFullAvg p + pp_IOFull x, psi_MemSomeMax := max (psi_MemSomeMax p) (pp_MemSome x),
             psi_IOSomeMax := max (psi_IOSomeMax p) (pp_IOSome x)\<rparr>, c + 1))"

section \<open>Averages\<close>

definition avg_disk :: "disk_agg \<times> f64 \<Rightarrow> disk_agg" where
  "avg_disk x = (case x of (a, c) \<Rightarrow> a
     \<lparr>da_ReadIOPS := round2 (da_ReadIOPS a / c), da_WriteIOPS := round2 (da_WriteIOPS a / c),
      da_ReadBytesPS := round2 (da_ReadBytesPS a / c), da_WriteBytesPS := round2 (da_WriteBytesPS a / c),
      da_ReadLatMS := round2 (da_ReadLatMS a / c), da_WriteLatMS := round2 (da_WriteLatMS a / c),
      da_QueueDepth := round2 (da_QueueDepth a / c), da_BusyPct := round2 (da_BusyPct a / c)\<rparr>)"

definition avg_net :: "net_agg \<times> f64 \<Rightarrow> net_agg" where
  "avg_net x = (case x of (a, c) \<Rightarrow> a
     \<lparr>na_RxBytesPS := round2 (na_RxBytesPS a / c), na_TxBytesPS := round2 (na_TxBytesPS a / c),
      na_RxPktsPS := round2 (na_RxPktsPS a / c), na_TxPktsPS := round2 (na_TxPktsPS a / c),
      na_ErrsPS := round2 (na_ErrsPS a / c), na_DropsPS := round2 (na_DropsPS a / c)\<rparr>)"

definition avg_psi :: "psi_agg \<times> f64 \<Rightarrow> psi_agg option" where
  "avg_psi x = (case x of (p, c) \<Rightarrow> if c > 0 then Some (p
     \<lparr>psi_CPUSomeAvg := round2 (psi_CPUSomeAvg p / c), psi_MemSomeAvg := round2 (psi_MemSomeAvg p / c),
      psi_MemFullAvg := round2 (psi_MemFullAvg p / c), psi_IOSomeAvg := round2 (psi_IOSomeAvg p / c),
      psi_IOFullAvg := round2 (psi_IOFullAvg p / c)\<rparr>) else None)"

definition round_cpu :: "cpu_agg \<Rightarrow> cpu_agg" where
  "round_cpu c = c
     \<lparr>ca_AvgPct := round2 (ca_AvgPct c), ca_MaxPct := round2 (ca_MaxPct c), ca_UserPct := round2 (ca_UserPct c),
      ca_SystemPct := round2 (ca_SystemPct c), ca_IOWaitPct := round2 (ca_IOWaitPct c), ca_StealPct := round2 (ca_StealPct c),
      ca_Load1 := round2 (ca_Load1 c), ca_Load5 := round2 (ca_Load5 c), ca_CtxSwitchPS := round2 (ca_CtxSwitchPS c),
      ca_PerCoreMax := map round2 (ca_PerCoreMax c)\<rparr>"

definition round_mem :: "mem_agg \<Rightarrow> mem_agg" where
  "round_mem m = m
     \<lparr>ma_UsedPctAvg := round2 (ma_UsedPctAvg m), ma_UsedPctMax := round2 (ma_UsedPctMax m),
      ma_PageInPS := round2 (ma_PageInPS m), ma_PageOutPS := round2 (ma_PageOutPS m),
      ma_MajorFaultPS := round2 (ma_MajorFaultPS m)\<rparr>"

definition roundAggs :: "host_minute \<Rightarrow> host_minute" where
  "roundAggs hm = hm\<lparr>hm_CPU := round_cpu (hm_CPU hm), hm_Mem := round_mem (hm_Mem hm)\<rparr>"

section \<open>Minutes\<close>

record emit_orders =
  eo_disk :: "(string, disk_agg \<times> f64) go_map \<Rightarrow> (string, disk_agg \<times> f64) go_map"
  eo_net :: "(string, net_agg \<times> f64) go_map \<Rightarrow> (string, net_agg \<times> f64) go_map"

record minute_agg =
  ag_minute :: time
  ag_samples :: "high_res list"

definition emit :: "emit_orders \<Rightarrow> minute_agg \<Rightarrow> host_minute" where
  "emit ord m =
     (let samples = ag_samples m; n = of_go_int (int (length samples)) in
      roundAggs (meta.extend (NewMeta KindHostMinute (ag_minute m))
        \<lparr>hm_Samples = int (length samples),
         hm_CPU = foldl (\<lambda>c s. add_cpu n s c) zero_cpu samples,
         hm_Mem = foldl (\<lambda>a s. add_mem n s a) zero_mem samples,
         hm_Disks = map (avg_disk \<circ> snd) (eo_disk ord (foldl add_disk [] (concat (map hr_Disks samples)))),
         hm_FS = [],
         hm_Net = map (avg_net \<circ> snd) (eo_net ord (foldl add_net [] (concat (map hr_Net samples)))),
         hm_PSI = avg_psi (foldl (\<lambda>p s. add_psi s p) (zero_psi, 0) samples)\<rparr>))"

definition AddSample :: "emit_orders \<Rightarrow> high_res \<Rightarrow> minute_agg \<Rightarrow> minute_agg \<times> host_minute option" where
  "AddSample ord hr m =
     (let mn = truncate_minute (hr_TS hr);
          out = (if \<not> is_zero_time (ag_minute m) \<and> mn \<noteq> ag_minute m \<and> ag_samples m \<noteq> [] then Some (emit ord m) else None);
          m = (if is_zero_time (ag_minute m) \<or> mn \<noteq> ag_minute m then m\<lparr>ag_minute := mn, ag_samples := []\<rparr> else m)
      in (m\<lparr>ag_samples := ag_samples m @ [hr]\<rparr>, out))"

definition FlushPartial :: "emit_orders \<Rightarrow> minute_agg \<Rightarrow> minute_agg \<times> host_minute option" where
  "FlushPartial ord m =
     (if ag_samples m = [] then (m, None) else (m\<lparr>ag_samples := []\<rparr>, Some (emit ord m)))"

section \<open>Filesystems\<close>

definition pseudo_fs :: "string list" where
  "pseudo_fs = [''tmpfs'', ''devtmpfs'', ''proc'', ''sysfs'', ''cgroup'', ''cgroup2'', ''overlay'', ''squashfs'', ''ramfs'',
     ''devfs'', ''autofs'', ''debugfs'', ''tracefs'', ''fusectl'', ''configfs'', ''securityfs'', ''pstore'', ''bpf'',
     ''hugetlbfs'', ''mqueue'', ''efivarfs'']"

definition isPseudoFS :: "string \<Rightarrow> bool" where
  "isPseudoFS fstype \<longleftrightarrow> to_lower fstype \<in> set pseudo_fs"

text \<open>Partitions are mount points with their types; \<open>usage\<close> is the total and free bytes of a mount point.\<close>

definition AttachFS :: "(string \<times> string) list option \<Rightarrow> (string \<Rightarrow> (u64 \<times> u64) option) \<Rightarrow> host_minute \<Rightarrow> host_minute" where
  "AttachFS parts usage hm =
     (case parts of None \<Rightarrow> hm
      | Some ps \<Rightarrow> hm\<lparr>hm_FS := hm_FS hm @ List.map_filter (\<lambda>(mount, fstype).
          if isPseudoFS fstype then None
          else map_option (\<lambda>(t, f). \<lparr>fu_Mount = mount, fu_TotalBytes = t, fu_AvailBytes = f\<rparr>) (usage mount)) ps\<rparr>)"

section \<open>Linux probes\<close>

definition vm_line :: "vm_counters \<Rightarrow> string \<Rightarrow> vm_counters" where
  "vm_line vc line =
     (case go_fields line of
        [k, v] \<Rightarrow>
          if k = ''pswpin'' then vc\<lparr>vc_pageIn := parse_uint_or v\<rparr>
          else if k = ''pswpout'' then vc\<lparr>vc_pageOut := parse_uint_or v\<rparr>
          else if k = ''pgmajfault'' then vc\<lparr>vc_majFault := parse_uint_or v\<rparr>
          else vc
      | _ \<Rightarrow> vc)"

definition ctxt_of :: "string list \<Rightarrow> vm_counters \<Rightarrow> vm_counters" where
  "ctxt_of lines vc =
     (case filter (prefix ''ctxt '') lines of [] \<Rightarrow> vc
      | line # _ \<Rightarrow> (case go_fields line of [k, v] \<Rightarrow> vc\<lparr>vc_ctxSwitch := parse_uint_or v\<rparr> | _ \<Rightarrow> vc))"

text \<open>The lines of \<open>/proc/vmstat\<close>, or the error of opening it, and those of \<open>/proc/stat\<close>.\<close>

definition readVMCounters :: "string + string list \<Rightarrow> string list option \<Rightarrow> vm_counters probe" where
  "readVMCounters vmstat stat =
     (case vmstat of Inl e \<Rightarrow> ProbeError e
      | Inr lines \<Rightarrow>
          let vc = foldl vm_line \<lparr>vc_pageIn = 0, vc_pageOut = 0, vc_majFault = 0, vc_ctxSwitch = 0\<rparr> lines
          in Reading (case stat of Some ls \<Rightarrow> ctxt_of ls vc | None \<Rightarrow> vc))"

definition psi_value :: "(string \<Rightarrow> f64) \<Rightarrow> string list \<Rightarrow> f64" where
  "psi_value parse_float fs =
     foldl (\<lambda>v f. if prefix ''avg10='' f then parse_float (drop 6 f) else v) 0 fs"

definition psi_line :: "(string \<Rightarrow> f64) \<Rightarrow> f64 \<times> f64 \<Rightarrow> string \<Rightarrow> f64 \<times> f64" where
  "psi_line parse_float acc line =
     (case go_fields line of
        k # f # rest \<Rightarrow>
          let v = psi_value parse_float (f # rest) in
          if k = ''some'' then (v, snd acc) else if k = ''full'' then (fst acc, v) else acc
      | _ \<Rightarrow> acc)"

definition psiFile :: "(string \<Rightarrow> f64) \<Rightarrow> string option \<Rightarrow> (f64 \<times> f64) option" where
  "psiFile parse_float file_text =
     map_option (\<lambda>b. foldl (psi_line parse_float) (0, 0) (split_on (CHR 10) b)) file_text"

text \<open>An unreadable memory or I/O file counts as zero pressure, an unreadable CPU file as unsupported.\<close>

definition readPSI :: "(string \<Rightarrow> f64) \<Rightarrow> string option \<Rightarrow> string option \<Rightarrow> string option \<Rightarrow> psi_sample probe" where
  "readPSI parse_float cpu mem io =
     (case psiFile parse_float cpu of None \<Rightarrow> Unsupported
      | Some (cpuSome, _) \<Rightarrow>
          let m = (case psiFile parse_float mem of Some x \<Rightarrow> x | None \<Rightarrow> (0, 0));
              i = (case psiFile parse_float io of Some x \<Rightarrow> x | None \<Rightarrow> (0, 0))
          in Reading \<lparr>pp_CPUSome = cpuSome, pp_MemSome = fst m, pp_MemFull = snd m, pp_IOSome = fst i, pp_IOFull = snd i\<rparr>)"

definition nicSpeedMbps :: "string option \<Rightarrow> int" where
  "nicSpeedMbps file_text =
     (case file_text of None \<Rightarrow> 0
      | Some b \<Rightarrow> (case atoi (trim_space b) of Some v \<Rightarrow> if v < 0 then 0 else v | None \<Rightarrow> 0))"

end
