(* ===== verification/MinuteFacts.thy ===== *)
theory MinuteFacts
  imports MinuteAgg
begin

text \<open>
  The minutes the agent stores partition the samples by UTC minute, their percentages stay between 0 and
  100, and what the sampler makes of counters that wrap and of a minimum that is zero.
\<close>

section \<open>Minutes partition the samples\<close>

fun feed :: "emit_orders \<Rightarrow> high_res list \<Rightarrow> minute_agg \<Rightarrow> minute_agg \<times> host_minute list" where
  "feed ord [] m = (m, [])"
| "feed ord (s # ss) m =
     (case AddSample ord s m of (m, out) \<Rightarrow>
      case feed ord ss m of (m, outs) \<Rightarrow> (m, (case out of Some hm \<Rightarrow> hm # outs | None \<Rightarrow> outs)))"

text \<open>All the samples of a life of the agent, with the flush at shutdown.\<close>

definition all_minutes :: "emit_orders \<Rightarrow> high_res list \<Rightarrow> minute_agg \<Rightarrow> host_minute list" where
  "all_minutes ord ss m =
     (case feed ord ss m of (m, outs) \<Rightarrow> outs @ (case FlushPartial ord m of (_, Some hm) \<Rightarrow> [hm] | (_, None) \<Rightarrow> []))"

definition minute_of :: "high_res \<Rightarrow> time" where
  "minute_of s = truncate_minute (hr_TS s)"

text \<open>The maximal runs of consecutive samples of one minute.\<close>

fun minute_runs :: "high_res list \<Rightarrow> high_res list list" where
  "minute_runs [] = []"
| "minute_runs (s # ss) =
     (case minute_runs ss of [] \<Rightarrow> [[s]]
      | r # rs \<Rightarrow> if minute_of (hd r) = minute_of s then (s # r) # rs else [s] # r # rs)"

definition emit_run :: "emit_orders \<Rightarrow> high_res list \<Rightarrow> host_minute" where
  "emit_run ord r = emit ord \<lparr>ag_minute = minute_of (hd r), ag_samples = r\<rparr>"

lemma concat_minute_runs [simp]: "concat (minute_runs ss) = ss"
  by (induction ss) (auto split: list.splits)

lemma minute_runs_nonempty: "r \<in> set (minute_runs ss) \<Longrightarrow> r \<noteq> []"
  by (induction ss arbitrary: r) (auto split: list.splits if_splits)

lemma minute_runs_hd: "ss \<noteq> [] \<Longrightarrow> \<exists>r rs. minute_runs ss = r # rs \<and> minute_of (hd r) = minute_of (hd ss)"
  by (induction ss) (auto split: list.splits)

lemma minute_runs_same:
  assumes "xs \<noteq> []" "\<forall>x \<in> set xs. minute_of x = mn" "ss = [] \<or> minute_of (hd ss) \<noteq> mn"
  shows "minute_runs (xs @ ss) = xs # minute_runs ss"
  using assms
proof (induction xs)
  case (Cons x xs)
  show ?case
  proof (cases "xs = []")
    case True
    then show ?thesis using Cons.prems minute_runs_hd [of ss] by (cases "ss = []") auto
  next
    case False
    then have "minute_runs (xs @ ss) = xs # minute_runs ss" using Cons by simp
    moreover have "minute_of (hd xs) = minute_of x" using Cons.prems False by simp
    ultimately show ?thesis by simp
  qed
qed simp

lemma all_minutes_from:
  assumes "xs \<noteq> []" "\<forall>x \<in> set xs. minute_of x = mn" "mn \<noteq> 0" "\<forall>s \<in> set ss. minute_of s \<noteq> 0"
  shows "all_minutes ord ss \<lparr>ag_minute = mn, ag_samples = xs\<rparr> = map (emit_run ord) (minute_runs (xs @ ss))"
  using assms
proof (induction ss arbitrary: xs mn)
  case Nil
  then have "minute_runs xs = [xs]" using minute_runs_same [of xs mn "[]"] by simp
  moreover have "minute_of (hd xs) = mn" using Nil.prems(1,2) by simp
  ultimately show ?case using Nil.prems(1) by (simp add: all_minutes_def FlushPartial_def emit_run_def)
next
  case (Cons s ss)
  show ?case
  proof (cases "minute_of s = mn")
    case True
    have "all_minutes ord ss \<lparr>ag_minute = mn, ag_samples = xs @ [s]\<rparr> = map (emit_run ord) (minute_runs ((xs @ [s]) @ ss))"
      using Cons.prems True by (intro Cons.IH) auto
    then show ?thesis using True Cons.prems(3) by (simp add: all_minutes_def AddSample_def Let_def minute_of_def split_def)
  next
    case False
    have "all_minutes ord ss \<lparr>ag_minute = minute_of s, ag_samples = [s]\<rparr> = map (emit_run ord) (minute_runs ([s] @ ss))"
      using Cons.prems(4) by (intro Cons.IH) auto
    moreover have "minute_runs (xs @ s # ss) = xs # minute_runs (s # ss)"
      using Cons.prems False by (intro minute_runs_same) auto
    moreover have "minute_of (hd xs) = mn" using Cons.prems(1,2) by simp
    ultimately show ?thesis using False Cons.prems(1,3)
      by (simp add: all_minutes_def AddSample_def Let_def minute_of_def split_def emit_run_def)
  qed
qed

lemma minute_runs_sorted:
  "sorted (map hr_TS ss) \<Longrightarrow> sorted_wrt (<) (map (\<lambda>r. minute_of (hd r)) (minute_runs ss))"
proof (induction ss)
  case (Cons s ss)
  have mono: "minute_of a \<le> minute_of b" if "hr_TS a \<le> hr_TS b" for a b
    using that by (simp add: minute_of_def truncate_minute_def minutes_def minus_mod_eq_mult_div zdiv_mono1)
  show ?case
  proof (cases "minute_runs ss")
    case (Cons r rs)
    have IH: "sorted_wrt (<) (map (\<lambda>r. minute_of (hd r)) (r # rs))" using Cons.IH Cons.prems Cons by simp
    have "hd r \<in> set ss" using Cons concat_minute_runs [of ss] minute_runs_nonempty [of r ss]
      by (metis Un_iff concat.simps(2) hd_in_set list.set_intros(1) set_append)
    then have "minute_of s \<le> minute_of (hd r)" using Cons.prems by (intro mono) auto
    then show ?thesis using IH Cons by auto
  qed simp
qed simp

lemma emit_simps [simp]: "m_TS (emit ord m) = ag_minute m" "hm_Samples (emit ord m) = int (length (ag_samples m))"
  by (simp_all add: emit_def Let_def roundAggs_def meta.defs NewMeta_def)

lemma sum_int: "(\<Sum>x\<leftarrow>xs. int (f x)) = int (\<Sum>x\<leftarrow>xs. f x)"
  by (induction xs) simp_all

lemma all_minutes_runs:
  assumes "\<forall>s \<in> set ss. minutes 1 \<le> hr_TS s"
  shows "all_minutes ord ss \<lparr>ag_minute = 0, ag_samples = []\<rparr> = map (emit_run ord) (minute_runs ss)"
proof (cases ss)
  case Nil
  then show ?thesis by (simp add: all_minutes_def FlushPartial_def)
next
  case (Cons s rest)
  have nz: "\<forall>s \<in> set ss. minute_of s \<noteq> 0"
    using assms by (auto simp: minute_of_def truncate_minute_def minutes_def mod_eq_dvd_iff zmod_eq_0_iff)
  have "all_minutes ord rest \<lparr>ag_minute = minute_of s, ag_samples = [s]\<rparr> = map (emit_run ord) (minute_runs ([s] @ rest))"
    using nz Cons by (intro all_minutes_from) auto
  then show ?thesis by (simp add: Cons all_minutes_def AddSample_def Let_def minute_of_def split_def)
qed

text \<open>
  C34. No sample is lost, counted twice or put into the wrong minute: over the life of the agent, with the
  flush at shutdown, the stored minutes are the aggregates of the maximal runs of samples of one UTC
  minute, in order; the sample counts add up; and when the clock does not go back each minute occurs
  once and the timestamps increase.
\<close>

theorem minutes_partition_samples:
  assumes "\<forall>s \<in> set ss. minutes 1 \<le> hr_TS s"
  shows "all_minutes ord ss \<lparr>ag_minute = 0, ag_samples = []\<rparr> = map (emit_run ord) (minute_runs ss) \<and>
    concat (minute_runs ss) = ss \<and>
    sum_list (map hm_Samples (all_minutes ord ss \<lparr>ag_minute = 0, ag_samples = []\<rparr>)) = int (length ss) \<and>
    (sorted (map hr_TS ss) \<longrightarrow> sorted_wrt (<) (map m_TS (all_minutes ord ss \<lparr>ag_minute = 0, ag_samples = []\<rparr>)))"
proof -
  note eq = all_minutes_runs [OF assms]
  have "sum_list (map hm_Samples (map (emit_run ord) (minute_runs ss))) = int (length (concat (minute_runs ss)))"
    by (simp add: emit_run_def comp_def length_concat sum_int del: concat_minute_runs)
  moreover have "map m_TS (map (emit_run ord) (minute_runs ss)) = map (\<lambda>r. minute_of (hd r)) (minute_runs ss)"
    by (simp add: emit_run_def)
  ultimately show ?thesis unfolding eq using minute_runs_sorted [of ss] by (auto simp only: concat_minute_runs)
qed

definition small_hr :: "time \<Rightarrow> high_res" where
  "small_hr t = empty_hr t"

lemma small_hr_TS [simp]: "hr_TS (small_hr t) = t"
  by (simp add: small_hr_def empty_hr_def)

theorem minutes_partition_samples_witness:
  "sum_list (map hm_Samples (all_minutes \<lparr>eo_disk = id, eo_net = id\<rparr>
     (map small_hr [minutes 1, minutes 1 + seconds 10, minutes 3]) \<lparr>ag_minute = 0, ag_samples = []\<rparr>)) = 3"
  using minutes_partition_samples [of "map small_hr [minutes 1, minutes 1 + seconds 10, minutes 3]" "\<lparr>eo_disk = id, eo_net = id\<rparr>",
      THEN conjunct2, THEN conjunct2, THEN conjunct1]
  by (simp add: minutes_def seconds_def)

section \<open>Percentages\<close>

definition pct_range :: "f64 \<Rightarrow> bool" where
  "pct_range v \<longleftrightarrow> 0 \<le> v \<and> v \<le> fl 100"

lemma clampPct_range [simp]: "pct_range (clampPct v)"
  using fl_mono [of 0 100] by (auto simp: pct_range_def clampPct_def)

lemma pct_range_0 [simp]: "pct_range 0"
  using fl_mono [of 0 100] by (simp add: pct_range_def)

lemma cpuDeltaPct_range:
  "cpuDeltaPct prev cur = (a, b, c, d, e) \<Longrightarrow> pct_range a \<and> pct_range b \<and> pct_range c \<and> pct_range d \<and> pct_range e"
  by (auto simp: cpuDeltaPct_def Let_def split: if_splits)

definition pct_ok :: "high_res \<Rightarrow> bool" where
  "pct_ok hr \<longleftrightarrow> pct_range (hr_CPUTotalPct hr) \<and> pct_range (hr_CPUUserPct hr) \<and> pct_range (hr_CPUSystemPct hr) \<and>
     pct_range (hr_CPUIOWaitPct hr) \<and> pct_range (hr_CPUStealPct hr) \<and> list_all pct_range (hr_PerCorePct hr) \<and>
     list_all (\<lambda>p. pct_range (dr_BusyPct (snd p))) (hr_Disks hr)"

lemma pct_ok_steps:
  "pct_ok hr \<Longrightarrow> pct_ok (fst (snd (sample_cpu p first (s, hr, iss))))"
  "pct_ok hr \<Longrightarrow> pct_ok (fst (snd (sample_cores p first (s, hr, iss))))"
  "pct_ok hr \<Longrightarrow> pct_ok (fst (snd (sample_mem p (s, hr, iss))))"
  "pct_ok hr \<Longrightarrow> pct_ok (fst (snd (sample_vm p first el (s, hr, iss))))"
  "pct_ok hr \<Longrightarrow> pct_ok (fst (snd (sample_net p first el (s, hr, iss))))"
  "pct_ok hr \<Longrightarrow> pct_ok (fst (snd (sample_psi p (s, hr, iss))))"
proof -
  show "pct_ok hr \<Longrightarrow> pct_ok (fst (snd (sample_cpu p first (s, hr, iss))))"
    by (auto simp: pct_ok_def sample_cpu_def split: sum.split list.split prod.split dest: cpuDeltaPct_range)
  have "pct_range (fst (cpuDeltaPct a b))" for a b
    by (cases "cpuDeltaPct a b") (auto dest: cpuDeltaPct_range)
  then show "pct_ok hr \<Longrightarrow> pct_ok (fst (snd (sample_cores p first (s, hr, iss))))"
    by (auto simp: pct_ok_def sample_cores_def list_all_iff split: option.split)
  show "pct_ok hr \<Longrightarrow> pct_ok (fst (snd (sample_mem p (s, hr, iss))))"
    by (auto simp: pct_ok_def sample_mem_def Let_def split: sum.split option.split prod.split)
  show "pct_ok hr \<Longrightarrow> pct_ok (fst (snd (sample_vm p first el (s, hr, iss))))"
    by (auto simp: pct_ok_def sample_vm_def split: probe.split)
  show "pct_ok hr \<Longrightarrow> pct_ok (fst (snd (sample_net p first el (s, hr, iss))))"
    by (auto simp: pct_ok_def sample_net_def split: sum.split prod.split)
  show "pct_ok hr \<Longrightarrow> pct_ok (fst (snd (sample_psi p (s, hr, iss))))"
    by (auto simp: pct_ok_def sample_psi_def split: probe.split)
qed

lemma disk_fold_range:
  "list_all (\<lambda>p. pct_range (dr_BusyPct (snd p))) m \<Longrightarrow>
   list_all (\<lambda>p. pct_range (dr_BusyPct (snd p))) (foldl (\<lambda>m (dev, cur). if skipDevice dev then m else
     (case map_of prevs dev of None \<Rightarrow> m | Some prev \<Rightarrow> AList.update dev (disk_delta el prev cur) m)) m io)"
proof (induction io arbitrary: m)
  case (Cons x io)
  have "list_all (\<lambda>p. pct_range (dr_BusyPct (snd p))) (AList.update k (disk_delta el prev cur) m)" for k prev cur
    using Cons.prems set_update_values [of k "disk_delta el prev cur" m]
    by (fastforce simp: list_all_iff disk_delta_def Let_def)
  then show ?case using Cons by (cases x) (auto split: option.split)
qed simp

lemma pct_ok_disk: "pct_ok hr \<Longrightarrow> pct_ok (fst (snd (sample_disk p first el (s, hr, iss))))"
  by (auto simp: pct_ok_def sample_disk_def disk_fold_range split: sum.split)

lemma Sample_pct_ok: "Sample now p s = (s', Some hr, iss) \<Longrightarrow> pct_ok hr"
proof -
  define el where "el = dur_seconds (time_sub now (sm_prevTS s))"
  define first where "first = is_zero_time (sm_prevTS s)"
  note defs = el_def [symmetric] first_def [symmetric]
  have e: "pct_ok (empty_hr now)" by (simp add: pct_ok_def empty_hr_def)
  have eta: "x = (fst x, fst (snd x), snd (snd x))" for x :: sample_state by simp
  note step = pct_ok_steps pct_ok_disk
  have "pct_ok (fst (snd (sample_psi p (sample_net p first el (sample_disk p first el (sample_vm p first el
      (sample_mem p (sample_cores p first (sample_cpu p first (s, empty_hr now, []))))))))))"
    by (subst eta [of "sample_net p first el _"], rule step(6), subst eta [of "sample_disk p first el _"], rule step(5),
        subst eta [of "sample_vm p first el _"], rule step(7), subst eta [of "sample_mem p _"], rule step(4),
        subst eta [of "sample_cores p first _"], rule step(3), subst eta [of "sample_cpu p first _"], rule step(2),
        rule step(1), rule e)
  moreover assume "Sample now p s = (s', Some hr, iss)"
  ultimately show ?thesis unfolding Sample_def Let_def defs by (auto split: prod.splits if_splits)
qed

section \<open>Bounds of a minute\<close>

lemma round2_100: "round2 (fl 100) = fl 100"
  by code_simp

lemma round2_range: "pct_range v \<Longrightarrow> pct_range (round2 v)"
  using round2_mono [of v "fl 100"] by (simp add: pct_range_def round2_nonneg round2_100)

lemma of_go_int_Suc:
  assumes "0 \<le> k" "k + 1 \<le> 2 ^ 53"
  shows "of_go_int k + 1 = of_go_int (k + 1)"
proof -
  have "fval (of_go_int k) = of_int k" using assms by (intro fval_of_go_int) simp
  then have "fval (of_go_int k + 1) = rnd64 (of_int (k + 1))" by (simp add: fval_arith)
  also have "\<dots> = fval (of_go_int (k + 1))" by (simp add: of_go_int_def fl.rep_eq)
  finally show ?thesis by simp
qed

text \<open>The accumulator of a device after \<open>k\<close> samples.\<close>

definition busy_ok :: "nat \<Rightarrow> disk_agg \<times> f64 \<Rightarrow> bool" where
  "busy_ok n x \<longleftrightarrow> (\<exists>k. 1 \<le> k \<and> k \<le> int n \<and> snd x = of_go_int k \<and> 0 \<le> da_BusyPct (fst x) \<and> da_BusyPct (fst x) \<le> of_go_int (100 * k))"

lemma busy_ok_more: "busy_ok n x \<Longrightarrow> busy_ok (Suc n) x"
  by (force simp: busy_ok_def)

lemma busy_step:
  assumes "0 \<le> b" "b \<le> of_go_int (100 * k)" "pct_range d" "0 \<le> k" "100 * (k + 1) \<le> 2 ^ 53"
  shows "0 \<le> b + d \<and> b + d \<le> of_go_int (100 * (k + 1))"
proof -
  have "b + d \<le> of_go_int (100 * k) + fl 100" using assms(2,3) by (intro f64_add_mono) (auto simp: pct_range_def)
  also have "\<dots> = of_go_int (100 * (k + 1))"
  proof -
    have "fval (fl 100) = 100" using fval_of_go_int [of 100] by (simp add: of_go_int_def)
    moreover have "fval (of_go_int (100 * k)) = of_int (100 * k)" using assms(4,5) by (intro fval_of_go_int) simp
    ultimately have "fval (of_go_int (100 * k) + fl 100) = rnd64 (of_int (100 * (k + 1)))" by (simp add: fval_arith)
    also have "\<dots> = fval (of_go_int (100 * (k + 1)))" by (simp add: of_go_int_def fl.rep_eq)
    finally show ?thesis by simp
  qed
  finally have "b + d \<le> of_go_int (100 * (k + 1))" .
  moreover have "0 + 0 \<le> b + d" using assms(1,3) by (intro f64_add_mono) (auto simp: pct_range_def)
  ultimately show ?thesis by (simp add: f64_le_iff fval_arith)
qed

lemma add_disk_ok:
  assumes "\<forall>x \<in> snd ` set m. busy_ok n x" "pct_range (dr_BusyPct d)" "100 * (int n + 1) \<le> 2 ^ 53"
  shows "\<forall>x \<in> snd ` set (add_disk m (dev, d)). busy_ok (Suc n) x"
proof -
  obtain a c where ac: "(case map_of m dev of Some x \<Rightarrow> x | None \<Rightarrow> (zero_disk dev, 0)) = (a, c)" by force
  have "\<exists>k. 0 \<le> k \<and> k \<le> int n \<and> c = of_go_int k \<and> 0 \<le> da_BusyPct a \<and> da_BusyPct a \<le> of_go_int (100 * k)"
  proof (cases "map_of m dev")
    case None
    then have "c = of_go_int 0" "da_BusyPct a = 0" using ac by (auto simp: zero_disk_def of_go_int_def)
    then show ?thesis by (intro exI [of _ 0]) (simp add: of_go_int_def)
  next
    case (Some x)
    then have "busy_ok n (a, c)" using ac assms(1) map_of_SomeD [OF Some] by force
    then obtain k where "1 \<le> k" "k \<le> int n" "c = of_go_int k" "0 \<le> da_BusyPct a" "da_BusyPct a \<le> of_go_int (100 * k)"
      by (auto simp: busy_ok_def)
    then show ?thesis by (intro exI [of _ k]) simp
  qed
  then obtain k where k: "0 \<le> k" "k \<le> int n" "c = of_go_int k" "0 \<le> da_BusyPct a" "da_BusyPct a \<le> of_go_int (100 * k)" by blast
  have "0 \<le> da_BusyPct a + dr_BusyPct d \<and> da_BusyPct a + dr_BusyPct d \<le> of_go_int (100 * (k + 1))"
    using k assms(2,3) by (intro busy_step) auto
  moreover have "c + 1 = of_go_int (k + 1)" using k(1,2) assms(3) by (simp add: k(3) of_go_int_Suc)
  ultimately have "busy_ok (Suc n) (a\<lparr>da_BusyPct := da_BusyPct a + dr_BusyPct d\<rparr>, c + 1)"
    unfolding busy_ok_def using k(1,2) by (intro exI [of _ "k + 1"]) simp
  then have new: "busy_ok (Suc n) (a', c + 1)" if "da_BusyPct a' = da_BusyPct a + dr_BusyPct d" for a'
    using that by (simp add: busy_ok_def)
  obtain a' where up: "add_disk m (dev, d) = AList.update dev (a', c + 1) m" "da_BusyPct a' = da_BusyPct a + dr_BusyPct d"
    by (auto simp: add_disk_def ac)
  show ?thesis
  proof
    fix x assume "x \<in> snd ` set (add_disk m (dev, d))"
    then have "x = (a', c + 1) \<or> x \<in> snd ` set m"
      using set_update_values [of dev "(a', c + 1)" m] unfolding up(1) by blast
    then show "busy_ok (Suc n) x"
    proof
      assume "x = (a', c + 1)"
      then show ?thesis using new [OF up(2)] by simp
    next
      assume "x \<in> snd ` set m"
      then show ?thesis using assms(1) busy_ok_more by blast
    qed
  qed
qed

lemma add_disks_ok:
  "\<forall>x \<in> snd ` set m. busy_ok n x \<Longrightarrow> \<forall>p \<in> set ps. pct_range (dr_BusyPct (snd p)) \<Longrightarrow> 100 * (int n + int (length ps)) \<le> 2 ^ 53 \<Longrightarrow>
   \<forall>x \<in> snd ` set (foldl add_disk m ps). busy_ok (n + length ps) x"
proof (induction ps arbitrary: m n)
  case (Cons p ps)
  obtain dev d where p: "p = (dev, d)" by force
  have "\<forall>x \<in> snd ` set (add_disk m p). busy_ok (Suc n) x"
    unfolding p using Cons.prems p by (intro add_disk_ok) auto
  from Cons.IH [OF this] Cons.prems show ?case by simp
qed simp

lemma avg_busy_range:
  assumes "busy_ok n x" "100 * int n \<le> 2 ^ 53"
  shows "pct_range (da_BusyPct (avg_disk x))"
proof -
  obtain a c where x: "x = (a, c)" by force
  obtain k where k: "1 \<le> k" "k \<le> int n" "c = of_go_int k" "0 \<le> da_BusyPct a" "da_BusyPct a \<le> of_go_int (100 * k)"
    using assms(1) by (auto simp: busy_ok_def x)
  have fk: "fval (of_go_int k) = of_int k" "fval (of_go_int (100 * k)) = of_int (100 * k)"
    using k(1,2) assms(2) by (simp_all add: fval_of_go_int)
  have c0: "0 \<le> c" using k(1,3) by (simp add: of_go_int_nonneg)
  have "da_BusyPct a / c \<le> of_go_int (100 * k) / c" using k(5) c0 by (rule f64_divide_mono)
  also have "of_go_int (100 * k) / c = fl 100"
    using k(1) by (simp add: k(3) fk fval_arith fl.rep_eq flip: fval_inject')
  finally have "da_BusyPct a / c \<le> fl 100" .
  moreover have "0 / c \<le> da_BusyPct a / c" using k(4) c0 by (rule f64_divide_mono)
  ultimately have "pct_range (da_BusyPct a / c)" by (simp add: pct_range_def f64_le_iff fval_arith)
  then show ?thesis by (simp add: avg_disk_def x round2_range)
qed

definition emit_orders_ok :: "emit_orders \<Rightarrow> bool" where
  "emit_orders_ok ord \<longleftrightarrow> (\<forall>m. mset (eo_disk ord m) = mset m) \<and> (\<forall>m. mset (eo_net ord m) = mset m)"

lemma add_net_util:
  "\<forall>x \<in> snd ` set m. pct_range (na_UtilPct (fst x)) \<Longrightarrow> \<forall>x \<in> snd ` set (foldl add_net m ps). pct_range (na_UtilPct (fst x))"
proof (induction ps arbitrary: m)
  case (Cons p ps)
  obtain name nn where p: "p = (name, nn)" by force
  obtain a c where ac: "(case map_of m name of Some x \<Rightarrow> x | None \<Rightarrow> (zero_net name, 0)) = (a, c)" by force
  have a: "pct_range (na_UtilPct a)"
  proof (cases "map_of m name")
    case None
    then have "a = zero_net name" using ac by simp
    then show ?thesis by (simp add: zero_net_def)
  next
    case (Some x)
    have "x = (a, c)" using ac Some by simp
    then have "(a, c) \<in> snd ` set m" using map_of_SomeD [OF Some] by force
    then show ?thesis using Cons.prems by (metis fst_conv)
  qed
  then have mx: "pct_range (max (na_UtilPct a) (util_pct nn))" by (simp add: util_pct_def max_def)
  obtain a' where up: "add_net m p = AList.update name (a', c + 1) m" "pct_range (na_UtilPct a')"
    using a mx by (simp add: add_net_def p ac)
  have "pct_range (na_UtilPct (fst x))" if "x \<in> snd ` set (add_net m p)" for x
  proof -
    have "x = (a', c + 1) \<or> x \<in> snd ` set m"
      using that set_update_values [of name "(a', c + 1)" m] unfolding up(1) by blast
    then show ?thesis using up(2) Cons.prems by (metis fst_conv)
  qed
  then have "\<forall>x \<in> snd ` set (add_net m p). pct_range (na_UtilPct (fst x))" by blast
  from Cons.IH [OF this] show ?case by (simp only: foldl.simps)
qed simp

lemma add_cpu_max:
  "pct_range (ca_MaxPct c) \<Longrightarrow> \<forall>s \<in> set ss. pct_range (hr_CPUTotalPct s) \<Longrightarrow>
   pct_range (ca_MaxPct (foldl (\<lambda>c s. add_cpu n s c) c ss)) \<and>
   (\<forall>s \<in> set ss. hr_CPUTotalPct s \<le> ca_MaxPct (foldl (\<lambda>c s. add_cpu n s c) c ss)) \<and>
   ca_MaxPct c \<le> ca_MaxPct (foldl (\<lambda>c s. add_cpu n s c) c ss)"
proof (induction ss arbitrary: c)
  case (Cons s ss)
  have "pct_range (ca_MaxPct (add_cpu n s c))" using Cons.prems by (simp add: add_cpu_def max_def)
  moreover have "ca_MaxPct c \<le> ca_MaxPct (add_cpu n s c)" "hr_CPUTotalPct s \<le> ca_MaxPct (add_cpu n s c)"
    by (simp_all add: add_cpu_def)
  moreover note Cons.IH [of "add_cpu n s c"]
  ultimately show ?case using Cons.prems(2) by (simp only: foldl.simps list.set ball_simps) (meson order_trans)
qed simp

text \<open>
  C35. Percentages stay percentages: in a minute of samples that the sampler produced, whatever the
  probes returned, the CPU maximum is between 0 and 100 and not below any sample (to two decimals), and
  the busy time of every disk and the utilisation of every network interface are between 0 and 100,
  in spite of the roundings of the sums and averages.
\<close>

theorem minute_percentages:
  assumes "\<forall>s \<in> set (ag_samples m). \<exists>now p st st' iss. Sample now p st = (st', Some s, iss)"
    "100 * (\<Sum>s\<leftarrow>ag_samples m. length (hr_Disks s)) \<le> 2 ^ 53" "emit_orders_ok ord"
  shows "pct_range (ca_MaxPct (hm_CPU (emit ord m))) \<and>
    (\<forall>s \<in> set (ag_samples m). round2 (hr_CPUTotalPct s) \<le> ca_MaxPct (hm_CPU (emit ord m))) \<and>
    (\<forall>d \<in> set (hm_Disks (emit ord m)). pct_range (da_BusyPct d)) \<and>
    (\<forall>n \<in> set (hm_Net (emit ord m)). pct_range (na_UtilPct n))"
proof -
  have ok: "pct_ok s" if "s \<in> set (ag_samples m)" for s using assms(1) that Sample_pct_ok by blast
  let ?ds = "concat (map hr_Disks (ag_samples m))" and ?ns = "concat (map hr_Net (ag_samples m))"
  have len: "length ?ds = (\<Sum>s\<leftarrow>ag_samples m. length (hr_Disks s))" by (simp add: length_concat comp_def)
  have lim: "100 * int (length ?ds) \<le> 2 ^ 53" unfolding len using assms(2) by simp
  have "\<forall>p \<in> set ?ds. pct_range (dr_BusyPct (snd p))" using ok by (auto simp: pct_ok_def list_all_iff)
  then have disks: "\<forall>x \<in> snd ` set (foldl add_disk [] ?ds). busy_ok (length ?ds) x"
    using add_disks_ok [of "[]" 0 ?ds] lim by simp
  have sets: "set (eo_disk ord x) = set x" "set (eo_net ord y) = set y" for x y
    using assms(3) by (metis emit_orders_ok_def mset_eq_setD)+
  have cpu: "hm_CPU (emit ord m) = round_cpu (foldl (\<lambda>c s. add_cpu (of_go_int (int (length (ag_samples m)))) s c) zero_cpu (ag_samples m))"
    "hm_Disks (emit ord m) = map (avg_disk \<circ> snd) (eo_disk ord (foldl add_disk [] ?ds))"
    "hm_Net (emit ord m) = map (avg_net \<circ> snd) (eo_net ord (foldl add_net [] ?ns))"
    by (simp_all add: emit_def Let_def roundAggs_def meta.defs NewMeta_def)
  have z: "pct_range (ca_MaxPct zero_cpu)" by (simp add: zero_cpu_def)
  have "\<forall>s \<in> set (ag_samples m). pct_range (hr_CPUTotalPct s)" using ok by (simp add: pct_ok_def)
  note mx = add_cpu_max [OF z this, of "of_go_int (int (length (ag_samples m)))"]
  have "\<forall>x \<in> snd ` set (foldl add_net [] ?ns). pct_range (na_UtilPct (fst x))" by (rule add_net_util) simp
  then have "\<forall>n \<in> set (hm_Net (emit ord m)). pct_range (na_UtilPct n)"
    by (auto simp: cpu(3) sets avg_net_def split: prod.split)
  moreover have "\<forall>d \<in> set (hm_Disks (emit ord m)). pct_range (da_BusyPct d)"
    using disks avg_busy_range [OF _ lim] by (auto simp: cpu(2) sets)
  moreover have "pct_range (ca_MaxPct (hm_CPU (emit ord m)))" using mx by (simp add: cpu(1) round_cpu_def round2_range)
  moreover have "\<forall>s \<in> set (ag_samples m). round2 (hr_CPUTotalPct s) \<le> ca_MaxPct (hm_CPU (emit ord m))"
    using mx by (simp add: cpu(1) round_cpu_def round2_mono)
  ultimately show ?thesis by blast
qed

theorem minute_percentages_witness:
  "\<exists>m. pct_range (ca_MaxPct (hm_CPU (emit \<lparr>eo_disk = id, eo_net = id\<rparr> m))) \<and> length (ag_samples m) = 1"
proof -
  define prev where "prev = \<lparr>ct_User = 0, ct_System = 0, ct_Idle = 0, ct_Nice = 0, ct_Iowait = 0, ct_Irq = 0, ct_Softirq = 0, ct_Steal = 0\<rparr>"
  define p where "p = \<lparr>pr_cpu = Inr [prev\<lparr>ct_User := 1, ct_Idle := 1\<rparr>], pr_cores = None, pr_load = None, pr_vm = Inl [],
    pr_swap = None, pr_counters = Unsupported, pr_disk = Inl [], pr_net = Inl [], pr_psi = Unsupported, pr_speed = (\<lambda>_. 0)\<rparr>"
  define s where "s = NewSampler\<lparr>sm_prevTS := 1, sm_prevCPU := [prev]\<rparr>"
  obtain st' hr iss where s: "Sample 5 p s = (st', Some hr, iss)" "hr_Disks hr = []"
    by (auto simp: Sample_def p_def s_def NewSampler_def sample_cpu_def sample_cores_def sample_mem_def sample_vm_def
      sample_disk_def sample_net_def sample_psi_def empty_hr_def Let_def prev_def split: prod.splits)
  have ex: "\<exists>now p st st' iss. Sample now p st = (st', Some hr, iss)" by (intro exI) (rule s(1))
  let ?m = "\<lparr>ag_minute = 0, ag_samples = [hr]\<rparr>"
  have "pct_range (ca_MaxPct (hm_CPU (emit \<lparr>eo_disk = id, eo_net = id\<rparr> ?m)))"
  proof (rule minute_percentages [THEN conjunct1])
    show "\<forall>s \<in> set (ag_samples ?m). \<exists>now p st st' iss. Sample now p st = (st', Some s, iss)" using ex by simp
  qed (simp_all add: s(2) emit_orders_ok_def)
  then show ?thesis by (intro exI [of _ ?m]) simp
qed

section \<open>Counters that wrap, and minima of zero\<close>

text \<open>
  A disk whose kernel counter of read milliseconds wraps at 32 bits between two samples gets a read
  latency above \<open>10 ^ 17\<close> milliseconds: the latency is a quotient of differences of \<open>uint64\<close> counters
  without the test for a reset that every rate has.
\<close>

theorem disk_latency_wraps:
  "fl (10 ^ 17) < dr_ReadLatMS (disk_delta (fl 5)
     \<lparr>dk_ReadCount = 1000, dk_WriteCount = 0, dk_ReadBytes = 0, dk_WriteBytes = 0, dk_ReadTime = 4294967290,
      dk_WriteTime = 0, dk_IoTime = 0, dk_WeightedIO = 0\<rparr>
     \<lparr>dk_ReadCount = 1010, dk_WriteCount = 0, dk_ReadBytes = 0, dk_WriteBytes = 0, dk_ReadTime = 10,
      dk_WriteTime = 0, dk_IoTime = 0, dk_WeightedIO = 0\<rparr>)"
  by code_simp

text \<open>The minimum of the available memory of a minute starts at zero, so a minimum of zero does not last.\<close>

lemma avail_min_zero_lost:
  "ma_AvailBytesMin m = 0 \<Longrightarrow> ma_AvailBytesMin (add_mem n s m) = hr_MemAvailBytes s"
  by (simp add: add_mem_def)

end
