(* ===== verification/SqlRows.thy ===== *)
theory SqlRows
  imports Records GoStrings
begin

text \<open>
  Rows of SQL Server queries and the tolerant reading of their values (\<open>internal/sqlserver/querier.go\<close>). A
  cell holds what \<open>database/sql\<close> scans into an interface value. Three pieces of the standard library are
  one argument, the record \<open>sql_lib\<close>: scanning a float with \<open>%g\<close>, printing any value with \<open>%v\<close>, and
  \<open>time.Parse\<close>.
\<close>

datatype cell =
    CNull
  | CStr string
  | CBytes string
  | CInt64 int
  | CIntN int
  | CFloat64 f64
  | CFloat32 f64
  | CBool bool
  | CTime time

type_synonym row = "(string, cell) go_map"

text \<open>Rows and an error: both can be there, when the error comes after some rows.\<close>

type_synonym query_result = "row list \<times> string option"
type_synonym querier = "string \<Rightarrow> query_result"

record sql_lib =
  sl_float :: "string \<Rightarrow> f64"
  sl_show :: "cell \<Rightarrow> string"
  sl_time :: "string \<Rightarrow> string \<Rightarrow> time option"

section \<open>Queries\<close>

text \<open>The outcome of a statement at the driver; a row that fails to scan is an error text.\<close>

datatype statement =
    QueryFailed string
  | ColumnsFailed string
  | ResultSet "string list" "(string + cell list) list" "string option"

definition make_row :: "string list \<Rightarrow> cell list \<Rightarrow> row" where
  "make_row cols vals = foldl (\<lambda>r (c, v). AList.update (to_lower c) v r) [] (zip cols vals)"

fun scan_rows :: "string list \<Rightarrow> (string + cell list) list \<Rightarrow> string option \<Rightarrow> row list \<Rightarrow> query_result" where
  "scan_rows cols [] err out = (out, err)"
| "scan_rows cols (Inl e # rest) err out = ([], Some e)"
| "scan_rows cols (Inr vals # rest) err out = scan_rows cols rest err (out @ [make_row cols vals])"

fun dbQuery :: "string \<Rightarrow> statement \<Rightarrow> query_result" where
  "dbQuery name (QueryFailed e) = ([], Some (name @ '': '' @ e))"
| "dbQuery name (ColumnsFailed e) = ([], Some e)"
| "dbQuery name (ResultSet cols rows err) = scan_rows cols rows err []"

section \<open>Values\<close>

definition cell_of :: "row \<Rightarrow> string \<Rightarrow> cell" where
  "cell_of r col = (case map_of r (to_lower col) of Some c \<Rightarrow> c | None \<Rightarrow> CNull)"

definition row_str :: "sql_lib \<Rightarrow> row \<Rightarrow> string \<Rightarrow> string" where
  "row_str lib r col =
     (case cell_of r col of CStr s \<Rightarrow> s | CBytes s \<Rightarrow> s | CNull \<Rightarrow> [] | c \<Rightarrow> sl_show lib c)"

text \<open>\<open>Sscanf\<close> with \<open>%d\<close>: spaces but no newline, a sign, digits; anything else leaves 0.\<close>

definition scan_token :: "string \<Rightarrow> string" where
  "scan_token s =
     (let t = dropWhile (\<lambda>c. is_space c \<and> c \<noteq> CHR 10) s;
          sgn = (if t \<noteq> [] \<and> (hd t = CHR ''-'' \<or> hd t = CHR ''+'') then [hd t] else [])
      in sgn @ takeWhile is_digit (drop (length sgn) t))"

definition scan_int :: "string \<Rightarrow> int" where
  "scan_int s = (case atoi (scan_token s) of Some v \<Rightarrow> v | None \<Rightarrow> 0)"

text \<open>\<open>int64(v)\<close> of a float; out of range the result is that of the processor (amd64).\<close>

definition int64_of_f64 :: "f64 \<Rightarrow> int" where
  "int64_of_f64 v = (let n = go_trunc v in if n < - (2 ^ 63) \<or> n \<ge> 2 ^ 63 then - (2 ^ 63) else n)"

definition row_i64 :: "row \<Rightarrow> string \<Rightarrow> int" where
  "row_i64 r col =
     (case cell_of r col of
        CInt64 n \<Rightarrow> n | CIntN n \<Rightarrow> n | CFloat64 v \<Rightarrow> int64_of_f64 v | CBytes s \<Rightarrow> scan_int s | CStr s \<Rightarrow> scan_int s | _ \<Rightarrow> 0)"

definition row_u64 :: "row \<Rightarrow> string \<Rightarrow> u64" where
  "row_u64 r col = (let v = row_i64 r col in if v < 0 then 0 else word_of_int v)"

definition row_f64 :: "sql_lib \<Rightarrow> row \<Rightarrow> string \<Rightarrow> f64" where
  "row_f64 lib r col =
     (case cell_of r col of
        CFloat64 v \<Rightarrow> v | CFloat32 v \<Rightarrow> v | CInt64 n \<Rightarrow> of_go_int n | CBytes s \<Rightarrow> sl_float lib s | CStr s \<Rightarrow> sl_float lib s | _ \<Rightarrow> 0)"

definition row_boolean :: "row \<Rightarrow> string \<Rightarrow> bool" where
  "row_boolean r col =
     (case cell_of r col of
        CBool b \<Rightarrow> b
      | CInt64 n \<Rightarrow> n \<noteq> 0
      | CBytes s \<Rightarrow> s \<noteq> [] \<and> (hd s = CHR ''1'' \<or> hd s = CHR ''t'')
      | CStr s \<Rightarrow> s = ''1'' \<or> to_lower s = ''true''
      | _ \<Rightarrow> False)"

definition time_layouts :: "string list" where
  "time_layouts = [''2006-01-02T15:04:05Z07:00'', ''2006-01-02T15:04:05.999999999'', ''2006-01-02 15:04:05'']"

definition row_time :: "sql_lib \<Rightarrow> row \<Rightarrow> string \<Rightarrow> time" where
  "row_time lib r col =
     (case cell_of r col of
        CTime t \<Rightarrow> t
      | CStr s \<Rightarrow> (case List.map_filter (\<lambda>l. sl_time lib l s) time_layouts of t # _ \<Rightarrow> t | [] \<Rightarrow> 0)
      | _ \<Rightarrow> 0)"

section \<open>Facts\<close>

lemma atoi_range: "atoi s = Some v \<Longrightarrow> - (2 ^ 63) \<le> v \<and> v < 2 ^ 63"
  by (auto simp: atoi_def Let_def split: if_splits)

lemma scan_int_range: "- (2 ^ 63) \<le> scan_int s \<and> scan_int s < 2 ^ 63"
  using atoi_range [of "scan_token s"] by (cases "atoi (scan_token s)") (auto simp: scan_int_def)

text \<open>An unsigned value is the signed one clamped at zero, whatever the driver returned.\<close>

definition cell_ok :: "cell \<Rightarrow> bool" where
  "cell_ok c = (case c of CInt64 n \<Rightarrow> - (2 ^ 63) \<le> n \<and> n < 2 ^ 63 | CIntN n \<Rightarrow> - (2 ^ 63) \<le> n \<and> n < 2 ^ 63 | _ \<Rightarrow> True)"

lemma row_i64_range: "cell_ok (cell_of r col) \<Longrightarrow> - (2 ^ 63) \<le> row_i64 r col \<and> row_i64 r col < 2 ^ 63"
  by (cases "cell_of r col") (auto simp: row_i64_def cell_ok_def int64_of_f64_def Let_def scan_int_range [simplified])

lemma row_u64_value:
  assumes "cell_ok (cell_of r col)"
  shows "uint (row_u64 r col) = max 0 (row_i64 r col)"
  using row_i64_range [OF assms] by (simp add: row_u64_def Let_def uint_word_of_int)

end
