(* ===== verification/SqlCollect.thy ===== *)
theory SqlCollect
  imports SqlRows
begin

text \<open>
  Detection of SQL Server instances and their telemetry (\<open>internal/sqlserver\<close>: \<open>detect.go\<close>,
  \<open>detect_linux.go\<close>, \<open>collect.go\<close>). A querier maps the name of a query to rows and an error; each name is
  asked at most once per collection, and the statement text is fixed by the name. The issues a
  collection reports are returned as a list.
\<close>

type_synonym issues = "(string \<times> string) list"

text \<open>Differences of \<open>int64\<close> values wrap.\<close>

definition wrap64 :: "int \<Rightarrow> int" where
  "wrap64 n = signed_take_bit 63 n"

section \<open>Instances\<close>

record sql_instance =
  in_Name :: string
  in_PID :: int
  in_Port :: int
  in_OS :: string
  in_LinuxMemoryLimitMB :: u64

definition no_instance :: "string \<Rightarrow> sql_instance" where
  "no_instance name = \<lparr>in_Name = name, in_PID = 0, in_Port = 0, in_OS = [], in_LinuxMemoryLimitMB = 0\<rparr>"

text \<open>\<open>memorylimitmb\<close> of the section \<open>[memory]\<close> of \<open>mssql.conf\<close>: the first line that parses.\<close>

fun conf_limit :: "bool \<Rightarrow> string list \<Rightarrow> u64" where
  "conf_limit inMemory [] = 0"
| "conf_limit inMemory (raw # rest) =
     (let line = trim_space raw in
      if prefix ''['' line then conf_limit (line = ''[memory]'') rest
      else if inMemory \<and> prefix ''memorylimitmb'' line then
        (case cut (CHR ''='') line of
           (_, Some v) \<Rightarrow> (case parse_uint (trim_space v) of Some n \<Rightarrow> n | None \<Rightarrow> conf_limit inMemory rest)
         | (_, None) \<Rightarrow> conf_limit inMemory rest)
      else conf_limit inMemory rest)"

definition linuxMemoryLimitMB :: "string option \<Rightarrow> u64" where
  "linuxMemoryLimitMB conf = (case conf of None \<Rightarrow> 0 | Some b \<Rightarrow> conf_limit False (split_on (CHR 10) b))"

definition is_sqlservr :: "string \<Rightarrow> bool" where
  "is_sqlservr name \<longleftrightarrow> to_lower (trim_suffix name ''.exe'') = ''sqlservr''"

definition sql_processes :: "(int \<times> string option) list option \<Rightarrow> (int, sql_instance) go_map" where
  "sql_processes procs =
     (case procs of None \<Rightarrow> []
      | Some ps \<Rightarrow> foldl (\<lambda>m (pid, name). case name of None \<Rightarrow> m
          | Some nm \<Rightarrow> if is_sqlservr nm then AList.update pid ((no_instance ''MSSQLSERVER'')\<lparr>in_PID := pid\<rparr>) m else m) [] ps)"

type_synonym instance_order = "(int, sql_instance) go_map \<Rightarrow> (int, sql_instance) go_map"

definition platformResolve :: "instance_order \<Rightarrow> string option \<Rightarrow> (int, sql_instance) go_map \<Rightarrow> sql_instance list" where
  "platformResolve ord conf byPID =
     map (\<lambda>(pid, inst). inst\<lparr>in_OS := ''linux'', in_Port := 1433, in_LinuxMemoryLimitMB := linuxMemoryLimitMB conf\<rparr>) (ord byPID)"

definition DetectInstances :: "instance_order \<Rightarrow> string option \<Rightarrow> (int \<times> string option) list option \<Rightarrow> sql_instance list" where
  "DetectInstances ord conf procs = platformResolve ord conf (sql_processes procs)"

section \<open>Query groups\<close>

text \<open>
  The two shapes of a metric group: a query that must return a row to be used, and one whose rows are
  ranged over. A failed query is reported and changes nothing.
\<close>

definition with_first :: "querier \<Rightarrow> string \<Rightarrow> (row \<Rightarrow> 'a \<Rightarrow> 'a) \<Rightarrow> 'a \<times> issues \<Rightarrow> 'a \<times> issues" where
  "with_first q name f acc =
     (case acc of (x, iss) \<Rightarrow>
      case q name of
        (rows, None) \<Rightarrow> (case rows of [] \<Rightarrow> (x, iss) | r # _ \<Rightarrow> (f r x, iss))
      | (_, Some e) \<Rightarrow> (x, iss @ [(name, e)]))"

definition with_rows :: "querier \<Rightarrow> string \<Rightarrow> (row list \<Rightarrow> 'a \<Rightarrow> 'a) \<Rightarrow> 'a \<times> issues \<Rightarrow> 'a \<times> issues" where
  "with_rows q name f acc =
     (case acc of (x, iss) \<Rightarrow>
      case q name of
        (rows, None) \<Rightarrow> (f rows x, iss)
      | (_, Some e) \<Rightarrow> (x, iss @ [(name, e)]))"

section \<open>Inventory\<close>

definition int32_of :: "int \<Rightarrow> int" where
  "int32_of n = signed_take_bit 31 n"

definition set_props :: "sql_lib \<Rightarrow> string \<Rightarrow> row \<Rightarrow> sql_inventory \<Rightarrow> sql_inventory" where
  "set_props lib hostID r si =
     si\<lparr>si_MachineName := row_str lib r ''machine_name'',
         si_InstanceName := row_str lib r ''instance_name'',
         si_IsDefault := (row_str lib r ''instance_name'' = ''MSSQLSERVER''),
         si_Version := row_str lib r ''version'',
         si_ProductLevel := row_str lib r ''product_level'',
         si_Edition := row_str lib r ''edition'',
         si_InstanceKey := hostID @ ''|'' @ row_str lib r ''instance_name'',
         si_HA := (si_HA si)\<lparr>ha_Mode := (if row_i64 r ''is_clustered'' = 1 then ''fci'' else ''standalone'')\<rparr>\<rparr>"

definition set_sys_info :: "sql_lib \<Rightarrow> time \<Rightarrow> row \<Rightarrow> sql_inventory \<Rightarrow> sql_inventory" where
  "set_sys_info lib now r si =
     (let start = row_time lib r ''sqlserver_start_time'' in
      si\<lparr>si_CPUCountVisible := row_i64 r ''cpu_count'',
          si_SchedulerCount := row_i64 r ''scheduler_count'',
          si_PhysMemVisibleKB := row_u64 r ''physical_memory_kb'',
          si_StartTime := start,
          si_UptimeS := (if \<not> is_zero_time start then word_of_int (go_trunc (dur_seconds (time_sub now start))) else si_UptimeS si)\<rparr>)"

definition set_config :: "sql_lib \<Rightarrow> sql_inventory \<Rightarrow> row \<Rightarrow> sql_inventory" where
  "set_config lib si r =
     (let v = row_i64 r ''value_in_use''; n = row_str lib r ''name'' in
      if n = ''max server memory (MB)'' then
        si\<lparr>si_MaxServerMemoryMB := word_of_int v, si_MaxMemoryUnlimitedDefault := (v \<ge> 2147483647)\<rparr>
      else if n = ''min server memory (MB)'' then si\<lparr>si_MinServerMemoryMB := word_of_int v\<rparr>
      else if n = ''max degree of parallelism'' then si\<lparr>si_MaxDOP := v\<rparr>
      else if n = ''cost threshold for parallelism'' then si\<lparr>si_CostThreshold := v\<rparr>
      else si)"

definition set_service :: "sql_lib \<Rightarrow> row \<Rightarrow> sql_inventory \<Rightarrow> sql_inventory" where
  "set_service lib r si =
     (let pid = row_i64 r ''process_id'' in
      si\<lparr>si_ServiceAccount := row_str lib r ''service_account'',
          si_PID := (if pid > 0 \<and> si_PID si = 0 then int32_of pid else si_PID si)\<rparr>)"

definition set_lock_pages :: "row \<Rightarrow> sql_inventory \<Rightarrow> sql_inventory" where
  "set_lock_pages r si =
     si\<lparr>si_LockPagesInMemory := (if row_u64 r ''locked_page_allocations_kb'' > 0 then ''detected'' else ''not_detected'')\<rparr>"

definition add_databases :: "sql_lib \<Rightarrow> row list \<Rightarrow> sql_inventory \<Rightarrow> sql_inventory" where
  "add_databases lib rows si =
     si\<lparr>si_Databases := si_Databases si @ map (\<lambda>r. \<lparr>sd_Name = row_str lib r ''name'', sd_SizeMB = row_f64 lib r ''data_mb'',
         sd_LogSizeMB = row_f64 lib r ''log_mb'', sd_State = []\<rparr>) rows\<rparr>"

text \<open>The groups by name; the map is ranged over, then its values are sorted by name.\<close>

definition empty_ag :: "string \<Rightarrow> ag_info" where
  "empty_ag name = \<lparr>ag_AGName = name, ag_Role = [], ag_SyncState = [], ag_ReadableSecondary = [], ag_PartnerReplicas = []\<rparr>"

definition ag_step :: "sql_lib \<Rightarrow> (string, ag_info) go_map \<Rightarrow> row \<Rightarrow> (string, ag_info) go_map" where
  "ag_step lib m r =
     (let name = row_str lib r ''ag_name'';
          ag = (case map_of m name of Some a \<Rightarrow> a | None \<Rightarrow> empty_ag name)
      in AList.update name
        (if row_boolean r ''is_local'' then
           ag\<lparr>ag_Role := row_str lib r ''role_desc'', ag_SyncState := row_str lib r ''sync_health'',
              ag_ReadableSecondary := row_str lib r ''readable_secondary''\<rparr>
         else ag\<lparr>ag_PartnerReplicas := ag_PartnerReplicas ag @ [row_str lib r ''replica_server_name'']\<rparr>) m)"

type_synonym ag_order = "(string, ag_info) go_map \<Rightarrow> (string, ag_info) go_map"

definition set_groups :: "ag_order \<Rightarrow> sql_lib \<Rightarrow> row list \<Rightarrow> sql_inventory \<Rightarrow> sql_inventory" where
  "set_groups ord lib rows si =
     (if rows = [] then si
      else si\<lparr>si_HA := \<lparr>ha_Mode = ''alwayson_ag'',
         ha_AGs = sort_key ag_AGName (ha_AGs (si_HA si) @ map snd (ord (foldl (ag_step lib) [] rows)))\<rparr>\<rparr>)"

definition new_inventory :: "time \<Rightarrow> sql_instance \<Rightarrow> sql_inventory" where
  "new_inventory now inst = meta.extend (NewMeta KindSQLInventory now)
     \<lparr>si_InstanceKey = [], si_MachineName = [], si_InstanceName = [], si_IsDefault = False, si_Version = [], si_Build = [],
      si_ProductLevel = [], si_Edition = [], si_StartTime = 0, si_UptimeS = 0, si_CPUCountVisible = 0, si_SchedulerCount = 0,
      si_PhysMemVisibleKB = 0, si_PID = in_PID inst, si_ServiceAccount = [], si_MaxDOP = 0, si_CostThreshold = 0,
      si_MinServerMemoryMB = 0, si_MaxServerMemoryMB = 0, si_MaxMemoryUnlimitedDefault = False,
      si_LockPagesInMemory = ''unknown'', si_LinuxMemoryLimitMB = in_LinuxMemoryLimitMB inst,
      si_HA = \<lparr>ha_Mode = [], ha_AGs = []\<rparr>, si_Databases = [], si_CollectionLevel = SQLLevelDeep, si_CollectionNote = []\<rparr>"

definition CollectInventory :: "sql_lib \<Rightarrow> ag_order \<Rightarrow> time \<Rightarrow> querier \<Rightarrow> sql_instance \<Rightarrow> string
    \<Rightarrow> (string + sql_inventory) \<times> issues" where
  "CollectInventory lib ord now q inst hostID =
     (case q ''server_props'' of
        (rows, Some e) \<Rightarrow> (Inl (''server properties unreachable: '' @ e), [])
      | ([], None) \<Rightarrow> (Inl ''server properties unreachable: <nil>'', [])
      | (r # _, None) \<Rightarrow>
          let st = (set_props lib hostID r (new_inventory now inst), []);
              st = with_first q ''sys_info'' (set_sys_info lib now) st;
              st = with_rows q ''configurations'' (\<lambda>rows si. foldl (set_config lib) si rows) st;
              st = with_first q ''server_services'' (set_service lib) st;
              st = with_first q ''process_memory'' set_lock_pages st;
              st = with_rows q ''databases'' (add_databases lib) st;
              st = (if row_i64 r ''is_hadr'' = 1 then with_rows q ''ag_replicas'' (set_groups ord lib) st else st)
          in (Inr (fst st), snd st))"

section \<open>Samples\<close>

text \<open>The cumulative counters between samples; a file has reads, writes and two stall times.\<close>

record sample_counters =
  sc_TS :: time
  sc_Counters :: "(string, int) go_map"
  sc_Waits :: "(string, int \<times> int) go_map"
  sc_FileIO :: "(string, int \<times> int \<times> int \<times> int) go_map"

definition new_sample :: "time \<Rightarrow> string \<Rightarrow> sql_sample" where
  "new_sample now key = meta.extend (NewMeta KindSQLSample now)
     \<lparr>sq_InstanceKey = key, sq_PhysicalMemoryInUseKB = 0, sq_LockedPageAllocKB = 0, sq_LargePageAllocKB = 0,
      sq_MemoryUtilizationPct = 0, sq_ProcessPhysicalMemoryLow = False, sq_ProcessVirtualMemoryLow = False,
      sq_TotalServerMemoryKB = 0, sq_TargetServerMemoryKB = 0, sq_DatabaseCacheKB = 0, sq_StolenServerMemoryKB = 0,
      sq_FreeMemoryKB = 0, sq_MemoryGrantsPending = 0, sq_MemoryGrantsActive = 0, sq_PLESeconds = 0, sq_MemoryClerksTopKB = [],
      sq_BatchRequestsPS = 0, sq_CompilationsPS = 0, sq_RecompilationsPS = 0, sq_SQLProcessCPUPct = 0, sq_PageReadsPS = 0,
      sq_PageWritesPS = 0, sq_LazyWritesPS = 0, sq_CheckpointPagesPS = 0, sq_WaitDeltas = [], sq_BlockedSessions = 0,
      sq_FileIO = [], sq_TempdbUsedMB = 0, sq_TempdbTotalMB = 0\<rparr>"

definition set_memory :: "row \<Rightarrow> sql_sample \<times> sample_counters \<Rightarrow> sql_sample \<times> sample_counters" where
  "set_memory r x =
     (case x of (s, c) \<Rightarrow>
      (s\<lparr>sq_PhysicalMemoryInUseKB := row_u64 r ''physical_memory_in_use_kb'',
         sq_LockedPageAllocKB := row_u64 r ''locked_page_allocations_kb'',
         sq_LargePageAllocKB := row_u64 r ''large_page_allocations_kb'',
         sq_MemoryUtilizationPct := row_i64 r ''memory_utilization_percentage'',
         sq_ProcessPhysicalMemoryLow := row_boolean r ''process_physical_memory_low'',
         sq_ProcessVirtualMemoryLow := row_boolean r ''process_virtual_memory_low''\<rparr>, c))"

definition set_level :: "string \<Rightarrow> int \<Rightarrow> sql_sample \<Rightarrow> sql_sample" where
  "set_level name v s =
     (if name = ''Total Server Memory (KB)'' then s\<lparr>sq_TotalServerMemoryKB := word_of_int v\<rparr>
      else if name = ''Target Server Memory (KB)'' then s\<lparr>sq_TargetServerMemoryKB := word_of_int v\<rparr>
      else if name = ''Database Cache Memory (KB)'' then s\<lparr>sq_DatabaseCacheKB := word_of_int v\<rparr>
      else if name = ''Stolen Server Memory (KB)'' then s\<lparr>sq_StolenServerMemoryKB := word_of_int v\<rparr>
      else if name = ''Free Memory (KB)'' then s\<lparr>sq_FreeMemoryKB := word_of_int v\<rparr>
      else if name = ''Memory Grants Pending'' then s\<lparr>sq_MemoryGrantsPending := v\<rparr>
      else if name = ''Memory Grants Outstanding'' then s\<lparr>sq_MemoryGrantsActive := v\<rparr>
      else if name = ''Page life expectancy'' then s\<lparr>sq_PLESeconds := v\<rparr>
      else s)"

definition counter_step :: "sql_lib \<Rightarrow> sql_sample \<times> sample_counters \<Rightarrow> row \<Rightarrow> sql_sample \<times> sample_counters" where
  "counter_step lib x r =
     (case x of (s, c) \<Rightarrow>
      let name = trim_space (row_str lib r ''counter_name''); v = row_i64 r ''cntr_value''
      in (set_level name v s, c\<lparr>sc_Counters := AList.update name v (sc_Counters c)\<rparr>))"

text \<open>The rate of a cumulative counter: zero when a value is missing or the counter went back.\<close>

definition counter_rate :: "(string, int) go_map \<Rightarrow> (string, int) go_map \<Rightarrow> f64 \<Rightarrow> string \<Rightarrow> f64" where
  "counter_rate cur prev elapsed name =
     (case (map_of cur name, map_of prev name) of
        (Some c, Some p) \<Rightarrow> if c < p then 0 else of_go_int (wrap64 (c - p)) / elapsed
      | _ \<Rightarrow> 0)"

definition set_rates :: "(string \<Rightarrow> f64) \<Rightarrow> sql_sample \<Rightarrow> sql_sample" where
  "set_rates d s =
     s\<lparr>sq_BatchRequestsPS := d ''Batch Requests/sec'', sq_CompilationsPS := d ''SQL Compilations/sec'',
       sq_RecompilationsPS := d ''SQL Re-Compilations/sec'', sq_PageReadsPS := d ''Page reads/sec'',
       sq_PageWritesPS := d ''Page writes/sec'', sq_LazyWritesPS := d ''Lazy writes/sec'',
       sq_CheckpointPagesPS := d ''Checkpoint pages/sec''\<rparr>"

definition set_counters :: "sql_lib \<Rightarrow> sample_counters option \<Rightarrow> f64 \<Rightarrow> row list
    \<Rightarrow> sql_sample \<times> sample_counters \<Rightarrow> sql_sample \<times> sample_counters" where
  "set_counters lib prev elapsed rows x =
     (case foldl (counter_step lib) x rows of (s, c) \<Rightarrow>
      (case prev of
         Some p \<Rightarrow> if elapsed > 0 then (set_rates (counter_rate (sc_Counters c) (sc_Counters p) elapsed) s, c) else (s, c)
       | None \<Rightarrow> (s, c)))"

definition set_clerks :: "sql_lib \<Rightarrow> row list \<Rightarrow> sql_sample \<times> sample_counters \<Rightarrow> sql_sample \<times> sample_counters" where
  "set_clerks lib rows x =
     (case x of (s, c) \<Rightarrow>
      (s\<lparr>sq_MemoryClerksTopKB := foldl (\<lambda>m r. AList.update (row_str lib r ''type'') (row_u64 r ''kb'') m) [] rows\<rparr>, c))"

definition wait_step :: "sql_lib \<Rightarrow> sample_counters option \<Rightarrow> sql_sample \<times> sample_counters \<Rightarrow> row
    \<Rightarrow> sql_sample \<times> sample_counters" where
  "wait_step lib prev x r =
     (case x of (s, c) \<Rightarrow>
      let wt = row_str lib r ''wait_type'';
          ms = row_i64 r ''wait_time_ms''; n = row_i64 r ''waiting_tasks_count'';
          c = c\<lparr>sc_Waits := AList.update wt (ms, n) (sc_Waits c)\<rparr>
      in case (case prev of None \<Rightarrow> None | Some p \<Rightarrow> map_of (sc_Waits p) wt) of
           Some (pms, pn) \<Rightarrow>
             if ms \<ge> pms \<and> wrap64 (ms - pms) > 0 then
               (s\<lparr>sq_WaitDeltas := AList.update wt \<lparr>wd_WaitMS = of_go_int (wrap64 (ms - pms)), wd_Count = of_go_int (wrap64 (n - pn))\<rparr>
                  (sq_WaitDeltas s)\<rparr>, c)
             else (s, c)
         | None \<Rightarrow> (s, c))"

definition set_waits :: "sql_lib \<Rightarrow> sample_counters option \<Rightarrow> row list
    \<Rightarrow> sql_sample \<times> sample_counters \<Rightarrow> sql_sample \<times> sample_counters" where
  "set_waits lib prev rows x =
     (case x of (s, c) \<Rightarrow> foldl (wait_step lib prev) (s\<lparr>sq_WaitDeltas := []\<rparr>, c) rows)"

text \<open>The difference of two readings of a file; unlike the counters there is no test for a reset.\<close>

definition file_delta :: "string \<Rightarrow> string \<Rightarrow> f64 \<Rightarrow> int \<times> int \<times> int \<times> int \<Rightarrow> int \<times> int \<times> int \<times> int \<Rightarrow> db_file_io" where
  "file_delta db ft elapsed cur prev =
     (case (cur, prev) of ((r, w, sr, sw), (pr, pw, psr, psw)) \<Rightarrow>
      let dr = wrap64 (r - pr); dw = wrap64 (w - pw) in
      \<lparr>io_Database = db, io_FileType = ft,
       io_ReadLatMS = (if dr > 0 then of_go_int (wrap64 (sr - psr)) / of_go_int dr else 0),
       io_WriteLatMS = (if dw > 0 then of_go_int (wrap64 (sw - psw)) / of_go_int dw else 0),
       io_ReadPS = of_go_int dr / elapsed, io_WritePS = of_go_int dw / elapsed\<rparr>)"

definition file_step :: "sql_lib \<Rightarrow> sample_counters option \<Rightarrow> f64 \<Rightarrow> sql_sample \<times> sample_counters \<Rightarrow> row
    \<Rightarrow> sql_sample \<times> sample_counters" where
  "file_step lib prev elapsed x r =
     (case x of (s, c) \<Rightarrow>
      let db = row_str lib r ''db''; ft = row_str lib r ''file_type''; key = db @ ''|'' @ ft;
          cur = (row_i64 r ''reads'', row_i64 r ''writes'', row_i64 r ''stall_read_ms'', row_i64 r ''stall_write_ms'');
          c = c\<lparr>sc_FileIO := AList.update key cur (sc_FileIO c)\<rparr>
      in case prev of
           None \<Rightarrow> (s, c)
         | Some p \<Rightarrow>
             if elapsed \<le> 0 then (s, c)
             else (case map_of (sc_FileIO p) key of
                 None \<Rightarrow> (s, c)
               | Some pv \<Rightarrow>
                   let d = file_delta db ft elapsed cur pv in
                   if io_ReadPS d > fl (1 / 10) \<or> io_WritePS d > fl (1 / 10) then (s\<lparr>sq_FileIO := sq_FileIO s @ [d]\<rparr>, c)
                   else (s, c)))"

definition set_grants :: "querier \<Rightarrow> (sql_sample \<times> sample_counters) \<times> issues \<Rightarrow> (sql_sample \<times> sample_counters) \<times> issues" where
  "set_grants q acc =
     (case acc of ((s, c), iss) \<Rightarrow>
      case q ''memory_grants'' of
        (r # _, None) \<Rightarrow> ((if sq_MemoryGrantsActive s = 0 then s\<lparr>sq_MemoryGrantsActive := row_i64 r ''active''\<rparr> else s, c), iss)
      | _ \<Rightarrow> ((s, c), iss))"

definition CollectSample :: "sql_lib \<Rightarrow> time \<Rightarrow> querier \<Rightarrow> string \<Rightarrow> sample_counters option
    \<Rightarrow> (sql_sample \<times> sample_counters) \<times> issues" where
  "CollectSample lib now q key prev =
     (let elapsed = (case prev of Some p \<Rightarrow> dur_seconds (time_sub now (sc_TS p)) | None \<Rightarrow> 0);
          st = ((new_sample now key, \<lparr>sc_TS = now, sc_Counters = [], sc_Waits = [], sc_FileIO = []\<rparr>), []);
          st = with_first q ''process_memory'' set_memory st;
          st = with_rows q ''perf_counters'' (set_counters lib prev elapsed) st;
          st = with_rows q ''memory_clerks'' (set_clerks lib) st;
          st = with_rows q ''wait_stats'' (set_waits lib prev) st;
          st = with_rows q ''file_io'' (\<lambda>rows x. foldl (file_step lib prev elapsed) x rows) st;
          st = set_grants q st;
          st = with_first q ''blocked'' (\<lambda>r (s, c). (s\<lparr>sq_BlockedSessions := row_i64 r ''blocked''\<rparr>, c)) st
      in with_first q ''tempdb'' (\<lambda>r (s, c). (s\<lparr>sq_TempdbUsedMB := row_f64 lib r ''used_mb'', sq_TempdbTotalMB := row_f64 lib r ''total_mb''\<rparr>, c)) st)"

section \<open>The context of a spike\<close>

definition active_request :: "sql_lib \<Rightarrow> row \<Rightarrow> sql_active_request" where
  "active_request lib r =
     \<lparr>ar_SessionID = row_i64 r ''session_id'', ar_RequestID = row_i64 r ''request_id'', ar_Database = row_str lib r ''db'',
      ar_Command = row_str lib r ''command'', ar_Status = row_str lib r ''status'', ar_CPUTimeMS = row_i64 r ''cpu_time'',
      ar_ElapsedMS = row_i64 r ''total_elapsed_time'', ar_LogicalReads = row_i64 r ''logical_reads'',
      ar_PhysicalReads = row_i64 r ''reads'', ar_Writes = row_i64 r ''writes'', ar_WaitType = row_str lib r ''wait_type'',
      ar_BlockingSession = row_i64 r ''blocking_session_id'', ar_ProgramName = row_str lib r ''program_name'',
      ar_QueryHash = row_str lib r ''query_hash'', ar_PlanHash = row_str lib r ''plan_hash''\<rparr>"

definition job_run :: "sql_lib \<Rightarrow> bool \<Rightarrow> nat \<Rightarrow> row \<Rightarrow> sql_agent_job_run" where
  "job_run lib pseudonymize i r =
     (let name = (if pseudonymize then ''job-'' @ fmt_0d 3 (int i + 1) else row_str lib r ''name'');
          start = row_time lib r ''start_execution_date''; stop = row_time lib r ''stop_execution_date''
      in if is_zero_time stop
         then \<lparr>aj_JobName = name, aj_StartTime = start, aj_DurationS = 0, aj_Outcome = ''running'', aj_Running = True\<rparr>
         else \<lparr>aj_JobName = name, aj_StartTime = start, aj_DurationS = dur_seconds (time_sub stop start),
           aj_Outcome = ''completed'', aj_Running = False\<rparr>)"

definition set_requests :: "sql_lib \<Rightarrow> row list \<Rightarrow> sql_spike_context \<Rightarrow> sql_spike_context" where
  "set_requests lib rows x =
     (let rs = sx_ActiveRequests x @ map (active_request lib) rows in
      x\<lparr>sx_ActiveRequests := rs, sx_CorrelationLevel := (if rs \<noteq> [] then CorrActiveRequest else sx_CorrelationLevel x)\<rparr>)"

definition set_jobs :: "sql_lib \<Rightarrow> bool \<Rightarrow> row list \<Rightarrow> sql_spike_context \<Rightarrow> sql_spike_context" where
  "set_jobs lib pseudonymize rows x =
     (let js = sx_AgentJobs x @ map (\<lambda>(i, r). job_run lib pseudonymize i r) (enumerate 0 rows) in
      x\<lparr>sx_AgentJobs := js, sx_CorrelationLevel := (if list_ex aj_Running js then CorrAgentJob else sx_CorrelationLevel x)\<rparr>)"

definition CollectSpikeContext :: "sql_lib \<Rightarrow> time \<Rightarrow> querier \<Rightarrow> string \<Rightarrow> string \<Rightarrow> bool
    \<Rightarrow> sql_spike_context \<times> issues" where
  "CollectSpikeContext lib now q key eventID pseudonymize =
     (let x = meta.extend (NewMeta KindSQLSpike now) \<lparr>sx_EventID = eventID, sx_InstanceKey = key, sx_ActiveRequests = [],
            sx_AgentJobs = [], sx_CorrelationLevel = CorrProcessOnly\<rparr>;
          st = with_rows q ''active_requests'' (set_requests lib) (x, [])
      in with_rows q ''agent_jobs'' (set_jobs lib pseudonymize) st)"

end
