(* ===== verification/SqlCollectFacts.thy ===== *)
theory SqlCollectFacts
  imports SqlCollect GoMap
begin

text \<open>
  Partial telemetry: what a failed query costs a collection, stated once for a metric group and used for
  the inventory and the sample; the availability groups of the inventory; and what privacy mode hides.
\<close>

text \<open>A library for the examples.\<close>

definition plain_lib :: sql_lib where
  "plain_lib = \<lparr>sl_float = (\<lambda>_. 0), sl_show = (\<lambda>_. []), sl_time = (\<lambda>_ _. None)\<rparr>"

section \<open>Metric groups\<close>

definition issue_of :: "querier \<Rightarrow> string \<Rightarrow> issues" where
  "issue_of q nm = (case snd (q nm) of None \<Rightarrow> [] | Some e \<Rightarrow> [(nm, e)])"

text \<open>The querier that answers a failing query with no rows.\<close>

definition degraded :: "querier \<Rightarrow> querier" where
  "degraded q nm = (case q nm of (rows, None) \<Rightarrow> (rows, None) | (_, Some e) \<Rightarrow> ([], None))"

lemma snd_degraded [simp]: "snd (degraded q nm) = None"
  by (simp add: degraded_def split: prod.split option.split)

lemma degraded_ok: "snd (q nm) = None \<Longrightarrow> degraded q nm = q nm"
  by (cases "q nm") (auto simp: degraded_def)

lemma degraded_failed: "snd (q nm) = Some e \<Longrightarrow> degraded q nm = ([], None)"
  by (cases "q nm") (auto simp: degraded_def)

text \<open>Two runs in step: under a querier, with the issues of the groups so far, and under its degraded form.\<close>

definition tracks :: "querier \<Rightarrow> string list \<Rightarrow> 'a \<times> issues \<Rightarrow> 'a \<times> issues \<Rightarrow> bool" where
  "tracks q nms st st' \<longleftrightarrow> fst st = fst st' \<and> snd st = concat (map (issue_of q) nms) \<and> snd st' = []"

text \<open>
  The contract of one metric group: a failure is reported under the group's name and changes nothing, a
  success reports nothing, the group reads its own query only, and without rows a fresh record stays
  as it is.
\<close>

locale metric_group =
  fixes nm :: string
    and step :: "querier \<Rightarrow> 'a \<times> issues \<Rightarrow> 'a \<times> issues"
    and fresh :: "'a \<Rightarrow> bool"
  assumes failed: "snd (q nm) = Some e \<Longrightarrow> step q (x, iss) = (x, iss @ [(nm, e)])"
    and silent: "snd (q nm) = None \<Longrightarrow> step q (x, iss) = (fst (step q (x, [])), iss)"
    and own_query: "q nm = q' nm \<Longrightarrow> step q (x, iss) = step q' (x, iss)"
    and absent: "fresh x \<Longrightarrow> q nm = ([], None) \<Longrightarrow> step q (x, iss) = (x, iss)"
begin

lemma step_issues: "snd (step q (x, iss)) = iss @ issue_of q nm"
  using failed [of q] silent [of q x iss] by (cases "snd (q nm)") (simp_all add: issue_of_def)

lemma step_degraded:
  assumes "fresh x"
  shows "step (degraded q) (x, iss) = (fst (step q (x, iss')), iss)"
proof (cases "snd (q nm)")
  case None
  then have "step (degraded q) (x, iss) = step q (x, iss)" by (intro own_query degraded_ok)
  then show ?thesis using None silent [of q x iss] silent [of q x iss'] by simp
next
  case (Some e)
  then have "step (degraded q) (x, iss) = (x, iss)" using assms by (intro absent degraded_failed)
  then show ?thesis using failed [of q e x iss'] Some by simp
qed

lemma step_tracks:
  assumes "tracks q nms st st'" "fresh (fst st)"
  shows "tracks q (nms @ [nm]) (step q st) (step (degraded q) st')"
proof -
  obtain x where st: "st = (x, concat (map (issue_of q) nms))" "st' = (x, [])"
    using assms(1) by (cases st; cases st') (auto simp: tracks_def)
  have "fresh x" using assms(2) by (simp add: st)
  then have "step (degraded q) (x, []) = (fst (step q (x, concat (map (issue_of q) nms))), [])" by (rule step_degraded)
  then show ?thesis unfolding tracks_def st by (simp add: step_issues)
qed

end

text \<open>The two shapes of the code keep the contract; ranging over rows does when no rows change nothing.\<close>

interpretation first_group: metric_group nm "\<lambda>q. with_first q nm f" "\<lambda>_. True" for nm f
  by unfold_locales (auto simp: with_first_def split: prod.splits list.splits)

lemma with_rows_group:
  assumes "\<And>x. fresh x \<Longrightarrow> f [] x = x"
  shows "metric_group nm (\<lambda>q. with_rows q nm f) fresh"
  using assms by unfold_locales (auto simp: with_rows_def split: prod.splits)

interpretation config_group: metric_group "''configurations''"
    "\<lambda>q. with_rows q ''configurations'' (\<lambda>rows si. foldl (set_config lib) si rows)" "\<lambda>_. True" for lib
  by (rule with_rows_group) simp

interpretation database_group: metric_group "''databases''" "\<lambda>q. with_rows q ''databases'' (add_databases lib)" "\<lambda>_. True" for lib
  by (rule with_rows_group) (simp add: add_databases_def)

interpretation ag_group: metric_group "''ag_replicas''" "\<lambda>q. with_rows q ''ag_replicas'' (set_groups ord lib)" "\<lambda>_. True" for ord lib
  by (rule with_rows_group) (simp add: set_groups_def)

interpretation file_group: metric_group "''file_io''"
    "\<lambda>q. with_rows q ''file_io'' (\<lambda>rows x. foldl (file_step lib prev el) x rows)" "\<lambda>_. True" for lib prev el
  by (rule with_rows_group) simp

text \<open>The groups that assign a whole field need it to be empty before.\<close>

definition fresh_rates :: "sql_sample \<times> sample_counters \<Rightarrow> bool" where
  "fresh_rates x \<longleftrightarrow> set_rates (\<lambda>_. 0) (fst x) = fst x \<and> sc_Counters (snd x) = []"

interpretation counter_group: metric_group "''perf_counters''" "\<lambda>q. with_rows q ''perf_counters'' (set_counters lib prev el)" fresh_rates
    for lib prev el
proof (rule with_rows_group)
  fix x :: "sql_sample \<times> sample_counters" assume f: "fresh_rates x"
  obtain s c where x: "x = (s, c)" by force
  have "counter_rate (sc_Counters c) m el = (\<lambda>_. 0)" for m
    using f by (intro ext) (simp add: fresh_rates_def counter_rate_def x)
  then show "set_counters lib prev el [] x = x"
    using f by (simp add: set_counters_def fresh_rates_def x split: option.split)
qed

interpretation clerk_group: metric_group "''memory_clerks''" "\<lambda>q. with_rows q ''memory_clerks'' (set_clerks lib)"
    "\<lambda>x. sq_MemoryClerksTopKB (fst x) = []" for lib
  by (rule with_rows_group) (auto simp: set_clerks_def split: prod.split)

interpretation wait_group: metric_group "''wait_stats''" "\<lambda>q. with_rows q ''wait_stats'' (set_waits lib prev)"
    "\<lambda>x. sq_WaitDeltas (fst x) = []" for lib prev
  by (rule with_rows_group) (auto simp: set_waits_def split: prod.split)

section \<open>The inventory\<close>

definition inventory_groups :: "row \<Rightarrow> string list" where
  "inventory_groups r = [''sys_info'', ''configurations'', ''server_services'', ''process_memory'', ''databases''] @
     (if row_i64 r ''is_hadr'' = 1 then [''ag_replicas''] else [])"

text \<open>
  Partial permissions give a partial inventory and never a failed one: only when the server properties
  cannot be read is there no inventory. Otherwise each failed query is reported once under its name, in
  order, and the inventory is the one collected when the failing queries had returned no rows: a failure
  costs the fields of its own group and no others.
\<close>

theorem inventory_degrades:
  assumes "q ''server_props'' = (rows, err)"
  shows "if rows = [] \<or> err \<noteq> None then \<exists>e. CollectInventory lib ord now q inst host = (Inl e, [])
    else \<exists>si. CollectInventory lib ord now q inst host = (Inr si, concat (map (issue_of q) (inventory_groups (hd rows)))) \<and>
      CollectInventory lib ord now (degraded q) inst host = (Inr si, [])"
proof (cases "rows = [] \<or> err \<noteq> None")
  case True
  then show ?thesis using assms by (cases err; cases rows) (auto simp: CollectInventory_def)
next
  case False
  then obtain r rs where r: "rows = r # rs" "err = None" by (cases rows) auto
  have d: "degraded q ''server_props'' = (r # rs, None)" using assms r by (simp add: degraded_def)
  let ?x = "set_props lib host r (new_inventory now inst)"
  let ?run = "\<lambda>q. with_rows q ''databases'' (add_databases lib) (with_first q ''process_memory'' set_lock_pages
    (with_first q ''server_services'' (set_service lib) (with_rows q ''configurations'' (\<lambda>rows si. foldl (set_config lib) si rows)
    (with_first q ''sys_info'' (set_sys_info lib now) (?x, [])))))"
  have t: "tracks q ((((([] @ [''sys_info'']) @ [''configurations'']) @ [''server_services'']) @ [''process_memory'']) @ [''databases'']) (?run q) (?run (degraded q))"
    by (intro first_group.step_tracks config_group.step_tracks database_group.step_tracks TrueI) (simp add: tracks_def)
  have t': "tracks q ((((((([] @ [''sys_info'']) @ [''configurations'']) @ [''server_services'']) @ [''process_memory'']) @ [''databases'']) @ [''ag_replicas'']))
      (with_rows q ''ag_replicas'' (set_groups ord lib) (?run q)) (with_rows (degraded q) ''ag_replicas'' (set_groups ord lib) (?run (degraded q)))"
    by (intro ag_group.step_tracks t TrueI)
  show ?thesis
    using r assms d t t' by (simp add: CollectInventory_def Let_def inventory_groups_def tracks_def)
qed

definition all_fail :: querier where
  "all_fail nm = (if nm = ''server_props'' then ([[(''is_hadr'', CInt64 1)]], None) else ([], Some ''denied''))"

theorem inventory_degrades_witness:
  "\<exists>si. CollectInventory plain_lib id 5 all_fail (no_instance ''X'') ''h'' = (Inr si, map (\<lambda>nm. (nm, ''denied''))
     [''sys_info'', ''configurations'', ''server_services'', ''process_memory'', ''databases'', ''ag_replicas''])"
proof -
  have q: "all_fail ''server_props'' = ([[(''is_hadr'', CInt64 1)]], None)" by (simp add: all_fail_def)
  have hadr: "row_i64 [(''is_hadr'', CInt64 1)] ''is_hadr'' = 1" by code_simp
  from inventory_degrades [where q = all_fail and rows = "[[(''is_hadr'', CInt64 1)]]" and err = None, of plain_lib id 5 "no_instance ''X''" "''h''"] q
  show ?thesis by (auto simp: inventory_groups_def hadr issue_of_def all_fail_def)
qed

section \<open>The sample\<close>

definition sample_groups :: "string list" where
  "sample_groups = [''process_memory'', ''perf_counters'', ''memory_clerks'', ''wait_stats'', ''file_io'', ''blocked'', ''tempdb'']"

text \<open>The first groups leave the fields of the later ones as they were.\<close>

lemma sample_frames:
  "sq_MemoryClerksTopKB (set_level n v s) = sq_MemoryClerksTopKB s" "sq_WaitDeltas (set_level n v s) = sq_WaitDeltas s"
  "sq_MemoryClerksTopKB (set_rates d s) = sq_MemoryClerksTopKB s" "sq_WaitDeltas (set_rates d s) = sq_WaitDeltas s"
  by (simp_all add: set_level_def set_rates_def)

lemma counters_frame:
  "sq_MemoryClerksTopKB (fst (foldl (counter_step lib) x rows)) = sq_MemoryClerksTopKB (fst x) \<and>
   sq_WaitDeltas (fst (foldl (counter_step lib) x rows)) = sq_WaitDeltas (fst x)"
  by (induction rows arbitrary: x) (simp_all add: counter_step_def sample_frames Let_def split: prod.split)

lemma set_counters_frame:
  "sq_MemoryClerksTopKB (fst (set_counters lib prev el rows x)) = sq_MemoryClerksTopKB (fst x)"
  "sq_WaitDeltas (fst (set_counters lib prev el rows x)) = sq_WaitDeltas (fst x)"
proof -
  obtain s c where sc: "foldl (counter_step lib) x rows = (s, c)" by force
  show "sq_MemoryClerksTopKB (fst (set_counters lib prev el rows x)) = sq_MemoryClerksTopKB (fst x)"
    "sq_WaitDeltas (fst (set_counters lib prev el rows x)) = sq_WaitDeltas (fst x)"
    using counters_frame [of lib x rows] by (simp_all add: set_counters_def sc sample_frames split: option.split)
qed

lemma memory_frame:
  "fresh_rates x \<Longrightarrow> fresh_rates (set_memory r x)" "sq_MemoryClerksTopKB (fst (set_memory r x)) = sq_MemoryClerksTopKB (fst x)"
  "sq_WaitDeltas (fst (set_memory r x)) = sq_WaitDeltas (fst x)"
proof -
  obtain s c where x: "x = (s, c)" by force
  show "fresh_rates x \<Longrightarrow> fresh_rates (set_memory r x)"
    by (cases s) (simp add: x fresh_rates_def set_memory_def set_rates_def)
qed (simp_all add: set_memory_def split: prod.split)

lemma set_clerks_frame: "sq_WaitDeltas (fst (set_clerks lib rows x)) = sq_WaitDeltas (fst x)"
  by (simp add: set_clerks_def split: prod.split)

lemma grants_tracks: "tracks q nms st st' \<Longrightarrow> tracks q nms (set_grants q st) (set_grants (degraded q) st')"
  by (cases "q ''memory_grants''") (auto simp: tracks_def set_grants_def degraded_def split: prod.splits option.splits list.splits)

lemma fst_with_first: "P (fst st) \<Longrightarrow> (\<And>r x. P x \<Longrightarrow> P (f r x)) \<Longrightarrow> P (fst (with_first q nm f st))"
  by (cases st) (auto simp: with_first_def split: prod.split option.split list.split)

lemma fst_with_rows: "P (fst st) \<Longrightarrow> (\<And>rows x. P x \<Longrightarrow> P (f rows x)) \<Longrightarrow> P (fst (with_rows q nm f st))"
  by (cases st) (auto simp: with_rows_def split: prod.split option.split)

text \<open>
  Partial permissions give a partial sample: each failed query of a sample is reported once under its
  name, in order, and the sample and the counters kept for the next one are those of a collection in
  which the failing queries had returned no rows. The query \<open>memory_grants\<close> is not among the reported
  ones: its failure is silent.
\<close>

theorem sample_degrades:
  "\<exists>x. CollectSample lib now q key prev = (x, concat (map (issue_of q) sample_groups)) \<and>
     CollectSample lib now (degraded q) key prev = (x, [])"
proof -
  let ?x = "(new_sample now key, \<lparr>sc_TS = now, sc_Counters = [], sc_Waits = [], sc_FileIO = []\<rparr>)"
  define el where "el = (case prev of Some p \<Rightarrow> dur_seconds (time_sub now (sc_TS p)) | None \<Rightarrow> 0)"
  define s1 where "s1 q = with_first q ''process_memory'' set_memory (?x, [])" for q
  define s2 where "s2 q = with_rows q ''perf_counters'' (set_counters lib prev el) (s1 q)" for q
  define s3 where "s3 q = with_rows q ''memory_clerks'' (set_clerks lib) (s2 q)" for q
  define s4 where "s4 q = with_rows q ''wait_stats'' (set_waits lib prev) (s3 q)" for q
  define s5 where "s5 q = with_rows q ''file_io'' (\<lambda>rows x. foldl (file_step lib prev el) x rows) (s4 q)" for q
  let ?clear = "\<lambda>x. sq_MemoryClerksTopKB (fst x) = [] \<and> sq_WaitDeltas (fst x) = []"
  have n: "fresh_rates ?x" by (simp add: fresh_rates_def set_rates_def new_sample_def meta.defs NewMeta_def)
  have n': "?clear ?x" unfolding new_sample_def by (simp add: meta.defs NewMeta_def)
  have f1: "fresh_rates (fst (s1 q))"
    unfolding s1_def by (rule fst_with_first [where P = fresh_rates]) (simp_all add: n memory_frame)
  have c1: "?clear (fst (s1 q))"
    unfolding s1_def by (rule fst_with_first [where P = ?clear]) (use n' in \<open>simp_all add: memory_frame\<close>)
  have f2: "?clear (fst (s2 q))"
    unfolding s2_def by (rule fst_with_rows [where P = ?clear]) (simp_all add: c1 set_counters_frame)
  have f3: "sq_WaitDeltas (fst (fst (s3 q))) = []"
    unfolding s3_def by (rule fst_with_rows [where P = "\<lambda>x. sq_WaitDeltas (fst x) = []"]) (simp_all add: f2 set_clerks_frame)
  have t1: "tracks q ([] @ [''process_memory'']) (s1 q) (s1 (degraded q))"
    unfolding s1_def by (intro first_group.step_tracks TrueI) (simp add: tracks_def)
  have t2: "tracks q (([] @ [''process_memory'']) @ [''perf_counters'']) (s2 q) (s2 (degraded q))"
    unfolding s2_def by (intro counter_group.step_tracks t1 f1)
  have t3: "tracks q ((([] @ [''process_memory'']) @ [''perf_counters'']) @ [''memory_clerks'']) (s3 q) (s3 (degraded q))"
    unfolding s3_def by (intro clerk_group.step_tracks t2 f2 [THEN conjunct1])
  have t4: "tracks q (((([] @ [''process_memory'']) @ [''perf_counters'']) @ [''memory_clerks'']) @ [''wait_stats'']) (s4 q) (s4 (degraded q))"
    unfolding s4_def by (intro wait_group.step_tracks t3 f3)
  have t: "tracks q (((((([] @ [''process_memory'']) @ [''perf_counters'']) @ [''memory_clerks'']) @ [''wait_stats'']) @ [''file_io'']) @ [''blocked''] @ [''tempdb''])
      (CollectSample lib now q key prev) (CollectSample lib now (degraded q) key prev)"
    unfolding CollectSample_def Let_def el_def [symmetric] s1_def [symmetric] s2_def [symmetric] s3_def [symmetric]
      s4_def [symmetric] append_assoc [symmetric]
    by (intro first_group.step_tracks grants_tracks file_group.step_tracks t4 TrueI)
  then show ?thesis
    by (cases "CollectSample lib now q key prev"; cases "CollectSample lib now (degraded q) key prev") (simp add: tracks_def sample_groups_def)
qed

definition few_fail :: querier where
  "few_fail nm = (if nm = ''blocked'' then ([[(''blocked'', CInt64 3)]], None)
     else if nm = ''tempdb'' \<or> nm = ''memory_grants'' then ([], Some ''denied'') else ([], None))"

text \<open>One failing query is reported, the other is not, and the rest of the sample is there.\<close>

theorem sample_degrades_witness:
  "map_prod (sq_BlockedSessions \<circ> fst) id (CollectSample plain_lib 5 few_fail ''k'' None) = (3, [(''tempdb'', ''denied'')])"
proof -
  obtain x where x: "CollectSample plain_lib 5 few_fail ''k'' None = (x, concat (map (issue_of few_fail) sample_groups))"
    using sample_degrades by blast
  have "sq_BlockedSessions (fst (fst (CollectSample plain_lib 5 few_fail ''k'' None))) = 3"
    by (simp add: CollectSample_def Let_def few_fail_def with_first_def with_rows_def row_i64_def cell_of_def to_lower_def
        lower_char_def split: prod.split)
  then show ?thesis unfolding x by (simp add: sample_groups_def issue_of_def few_fail_def)
qed

section \<open>Rates that are negative\<close>

text \<open>
  After a restart of the database engine its file statistics begin again: the row of a file that has been
  written to since then is exported with a negative read rate, as only one of the two rates is tested.
\<close>

lemma file_rate_negative:
  "io_ReadPS (file_delta db ft (fl 60) (10, 5000, 20, 9000) (1000000, 4000, 500000, 8000)) < 0 \<and>
   fl (1 / 10) < io_WritePS (file_delta db ft (fl 60) (10, 5000, 20, 9000) (1000000, 4000, 500000, 8000))"
  by code_simp

section \<open>Availability groups\<close>

lemma set_update_entries: "set (AList.update k v m) \<subseteq> insert (k, v) (set m)"
  by (induction m) auto

lemma ag_fold:
  assumes "distinct (map fst m)" "\<forall>(k, a) \<in> set m. ag_AGName a = k"
  shows "distinct (map fst (foldl (ag_step lib) m rows)) \<and> (\<forall>(k, a) \<in> set (foldl (ag_step lib) m rows). ag_AGName a = k) \<and>
    set (map fst (foldl (ag_step lib) m rows)) = set (map fst m) \<union> (\<lambda>r. row_str lib r ''ag_name'') ` set rows"
  using assms
proof (induction rows arbitrary: m)
  case (Cons r rows)
  obtain a where up: "ag_step lib m r = AList.update (row_str lib r ''ag_name'') a m" "ag_AGName a = row_str lib r ''ag_name''"
  proof
    let ?n = "row_str lib r ''ag_name''"
    let ?a = "case map_of m ?n of Some a \<Rightarrow> a | None \<Rightarrow> empty_ag ?n"
    have "ag_AGName ?a = ?n" using Cons.prems(2) map_of_SomeD by (force simp: empty_ag_def split: option.split)
    then show "ag_step lib m r = AList.update ?n (if row_boolean r ''is_local'' then
           ?a\<lparr>ag_Role := row_str lib r ''role_desc'', ag_SyncState := row_str lib r ''sync_health'',
              ag_ReadableSecondary := row_str lib r ''readable_secondary''\<rparr>
         else ?a\<lparr>ag_PartnerReplicas := ag_PartnerReplicas ?a @ [row_str lib r ''replica_server_name'']\<rparr>) m"
      "ag_AGName (if row_boolean r ''is_local'' then
           ?a\<lparr>ag_Role := row_str lib r ''role_desc'', ag_SyncState := row_str lib r ''sync_health'',
              ag_ReadableSecondary := row_str lib r ''readable_secondary''\<rparr>
         else ?a\<lparr>ag_PartnerReplicas := ag_PartnerReplicas ?a @ [row_str lib r ''replica_server_name'']\<rparr>) = ?n"
      by (simp_all add: ag_step_def Let_def)
  qed
  have "distinct (map fst (ag_step lib m r))" unfolding up by (rule distinct_update) (rule Cons.prems)
  moreover have "\<forall>(k, a) \<in> set (ag_step lib m r). ag_AGName a = k"
    using Cons.prems(2) up(2) set_update_entries [of _ a m] unfolding up(1) by blast
  ultimately show ?case using Cons.IH [of "ag_step lib m r"] by (auto simp: up(1) dom_update)
qed simp

text \<open>
  The availability groups of an inventory do not depend on the map they are collected in: whatever
  order the map presents, the inventory lists one entry per group name of the rows, in strictly
  increasing order of the names.
\<close>

theorem ag_listing_order_irrelevant:
  assumes "\<forall>m. mset (ord m) = mset m" "\<forall>m. mset (ord' m) = mset m" "ha_AGs (si_HA si) = []"
  shows "set_groups ord lib rows si = set_groups ord' lib rows si \<and>
    sorted_wrt (<) (map ag_AGName (ha_AGs (si_HA (set_groups ord lib rows si)))) \<and>
    set (map ag_AGName (ha_AGs (si_HA (set_groups ord lib rows si)))) = (\<lambda>r. row_str lib r ''ag_name'') ` set rows"
proof -
  define m where "m = foldl (ag_step lib) [] rows"
  have m: "distinct (map fst m)" "\<forall>(k, a) \<in> set m. ag_AGName a = k" "fst ` set m = (\<lambda>r. row_str lib r ''ag_name'') ` set rows"
    using ag_fold [of "[]" lib rows] by (auto simp: m_def)
  have names: "map ag_AGName (map snd m) = map fst m" using m(2) by auto
  have sets: "mset (map snd (ord m)) = mset (map snd m)" "mset (map snd (ord' m)) = mset (map snd m)"
    using assms(1,2) by (simp_all add: mset_map)
  have inj: "distinct (map ag_AGName (map snd m))" unfolding names by (rule m(1))
  have srt: "sort_key ag_AGName xs = sort_key ag_AGName (map snd m)" if "mset xs = mset (map snd m)" for xs
  proof (rule sort_key_inj_key_eq)
    show "mset xs = mset (sort_key ag_AGName (map snd m))" using that by simp
    show "inj_on ag_AGName (set xs)" using inj that by (metis distinct_map mset_eq_setD)
  qed simp
  have groups: "ha_AGs (si_HA (set_groups o1 lib rows si)) = (if rows = [] then [] else sort_key ag_AGName (map snd (o1 m)))" for o1
    by (simp add: set_groups_def assms(3) m_def)
  have "set_groups ord lib rows si = set_groups ord' lib rows si"
    using srt [OF sets(1)] srt [OF sets(2)] by (simp add: set_groups_def assms(3) m_def)
  moreover have "sorted_wrt (<) (map ag_AGName (sort_key ag_AGName (map snd m)))"
  proof -
    have "mset (map ag_AGName (sort_key ag_AGName (map snd m))) = mset (map ag_AGName (map snd m))"
      by (simp only: mset_map mset_sort)
    then have "distinct (map ag_AGName (sort_key ag_AGName (map snd m)))" using inj mset_eq_imp_distinct_iff by blast
    then show ?thesis by (simp add: strict_sorted_iff)
  qed
  moreover have "set (map ag_AGName (sort_key ag_AGName (map snd m))) = (\<lambda>r. row_str lib r ''ag_name'') ` set rows"
    using arg_cong [OF names, of set] m(3) by (simp add: image_image)
  ultimately show ?thesis by (simp add: groups srt [OF sets(1)] srt [OF sets(2)])
qed

theorem ag_listing_order_irrelevant_witness:
  "set_groups rev plain_lib [[(''ag_name'', CStr ''B'')], [(''ag_name'', CStr ''A'')]] (new_inventory 5 (no_instance ''X'')) =
   set_groups id plain_lib [[(''ag_name'', CStr ''B'')], [(''ag_name'', CStr ''A'')]] (new_inventory 5 (no_instance ''X''))"
  by (rule ag_listing_order_irrelevant [THEN conjunct1]) (simp_all add: new_inventory_def meta.defs NewMeta_def)

section \<open>Spike contexts\<close>

definition differ_in_name :: "row \<Rightarrow> row \<Rightarrow> bool" where
  "differ_in_name r r' \<longleftrightarrow> (\<forall>col. to_lower col \<noteq> ''name'' \<longrightarrow> cell_of r col = cell_of r' col)"

text \<open>
  C36. In privacy mode the names of SQL Agent jobs never reach an export: two servers whose answers differ
  only in the names of the jobs give the same spike context and the same issues.
\<close>

theorem job_names_hidden:
  assumes "\<And>nm. nm \<noteq> ''agent_jobs'' \<Longrightarrow> q nm = q' nm" "snd (q ''agent_jobs'') = snd (q' ''agent_jobs'')"
    "list_all2 differ_in_name (fst (q ''agent_jobs'')) (fst (q' ''agent_jobs''))"
  shows "CollectSpikeContext lib now q key ev True = CollectSpikeContext lib now q' key ev True"
proof -
  have run: "job_run lib True i r = job_run lib True i r'" if "differ_in_name r r'" for i r r'
  proof -
    have "cell_of r c = cell_of r' c" if "c = ''start_execution_date'' \<or> c = ''stop_execution_date''" for c
      using that \<open>differ_in_name r r'\<close> by (auto simp: differ_in_name_def to_lower_def lower_char_def Let_def)
    then show ?thesis by (simp add: job_run_def row_time_def)
  qed
  obtain rows rows' err where q: "q ''agent_jobs'' = (rows, err)" "q' ''agent_jobs'' = (rows', err)"
    using assms(2) by (cases "q ''agent_jobs''"; cases "q' ''agent_jobs''") auto
  have "list_all2 differ_in_name rows rows'" using assms(3) by (simp add: q)
  then have "map (\<lambda>(i, r). job_run lib True i r) (enumerate n rows) = map (\<lambda>(i, r). job_run lib True i r) (enumerate n rows')" for n
    by (induction rows rows' arbitrary: n) (simp_all add: run)
  then have jobs: "set_jobs lib True rows x = set_jobs lib True rows' x" for x by (simp add: set_jobs_def)
  have "q ''active_requests'' = q' ''active_requests''" by (rule assms(1)) simp
  then have "with_rows q ''active_requests'' f st = with_rows q' ''active_requests'' f st" for f :: "row list \<Rightarrow> sql_spike_context \<Rightarrow> _" and st
    by (simp add: with_rows_def)
  moreover have "with_rows q ''agent_jobs'' (set_jobs lib True) st = with_rows q' ''agent_jobs'' (set_jobs lib True) st" for st
    by (simp add: with_rows_def q jobs split: prod.split option.split)
  ultimately show ?thesis by (simp add: CollectSpikeContext_def Let_def)
qed

theorem job_names_hidden_witness:
  "CollectSpikeContext plain_lib 5 (\<lambda>nm. if nm = ''agent_jobs'' then ([[(''name'', CStr ''Payroll'')]], None) else ([], None)) ''k'' ''e'' True =
   CollectSpikeContext plain_lib 5 (\<lambda>nm. if nm = ''agent_jobs'' then ([[(''name'', CStr ''Backup'')]], None) else ([], None)) ''k'' ''e'' True"
  by (rule job_names_hidden) (simp_all add: differ_in_name_def cell_of_def)

text \<open>The level of a context is the strongest evidence in it.\<close>

lemma correlation_level:
  "sx_CorrelationLevel (fst (CollectSpikeContext lib now q key ev p)) =
     (let x = fst (CollectSpikeContext lib now q key ev p) in
      if list_ex aj_Running (sx_AgentJobs x) then CorrAgentJob
      else if sx_ActiveRequests x \<noteq> [] then CorrActiveRequest else CorrProcessOnly)"
  by (auto simp: CollectSpikeContext_def with_rows_def set_requests_def set_jobs_def Let_def meta.defs NewMeta_def
      split: prod.splits option.splits)

end
