(* ===== verification/HostInventory.thy ===== *)
theory HostInventory
  imports ProcTop MinuteAgg
begin

text \<open>
  The host inventory (\<open>internal/inventory/inventory.go\<close>, \<open>speed_linux.go\<close>). What the host library answers is
  one argument, the record \<open>host_probes\<close>: a value or an error text, or \<open>None\<close> where the code ignores the
  error.
\<close>

record host_info =
  hi_Hostname :: string
  hi_OS :: string
  hi_Platform :: string
  hi_PlatformVersion :: string
  hi_KernelVersion :: string
  hi_BootTime :: u64
  hi_Uptime :: u64
  hi_VirtualizationSystem :: string
  hi_VirtualizationRole :: string

record partition_stat =
  pa_Device :: string
  pa_Mountpoint :: string
  pa_Fstype :: string

record interface_stat =
  if_Name :: string
  if_HardwareAddr :: string
  if_Flags :: "string list"
  if_Addrs :: "string list"

record host_probes =
  hp_zone :: "string \<times> int"
  hp_host :: "string + host_info"
  hp_cpu :: "string + string list"
  hp_physical :: "int option"
  hp_logical :: "string + int"
  hp_mem :: "string + u64"
  hp_swap :: "u64 option"
  hp_parts :: "string + partition_stat list"
  hp_usage :: "string \<Rightarrow> (u64 \<times> u64) option"
  hp_interfaces :: "string + interface_stat list"
  hp_speed_file :: "string \<Rightarrow> string option"

definition isLoopback :: "interface_stat \<Rightarrow> bool" where
  "isLoopback ifc \<longleftrightarrow> ''loopback'' \<in> set (if_Flags ifc) \<or> if_Name ifc = ''lo''"

definition virtualization :: "host_info \<Rightarrow> string" where
  "virtualization hi =
     (if hi_VirtualizationRole hi = ''guest'' \<and> hi_VirtualizationSystem hi \<noteq> [] then ''vm:'' @ hi_VirtualizationSystem hi
      else if hi_VirtualizationRole hi = ''guest'' then ''vm''
      else if hi_VirtualizationRole hi = ''host'' \<or> hi_VirtualizationSystem hi = [] then ''physical_or_unknown''
      else ''unknown'')"

type_synonym inventory_state = "inventory \<times> string list"

text \<open>A probe that fails adds a note and leaves its fields.\<close>

definition probe :: "string \<Rightarrow> string + 'b \<Rightarrow> ('b \<Rightarrow> inventory \<Rightarrow> inventory) \<Rightarrow> inventory_state \<Rightarrow> inventory_state" where
  "probe label r f st =
     (case st of (i, iss) \<Rightarrow> (case r of Inr v \<Rightarrow> (f v i, iss) | Inl e \<Rightarrow> (i, iss @ [label @ '': '' @ e])))"

text \<open>A probe whose error is ignored.\<close>

definition optional :: "'b option \<Rightarrow> ('b \<Rightarrow> inventory \<Rightarrow> inventory) \<Rightarrow> inventory_state \<Rightarrow> inventory_state" where
  "optional r f st = (case r of Some v \<Rightarrow> (f v (fst st), snd st) | None \<Rightarrow> st)"

definition set_host :: "host_info \<Rightarrow> inventory \<Rightarrow> inventory" where
  "set_host hi i =
     i\<lparr>inv_Hostname := hi_Hostname hi, inv_OS := hi_OS hi,
       inv_OSVersion := trim_space (hi_Platform hi @ '' '' @ hi_PlatformVersion hi),
       inv_KernelBuild := hi_KernelVersion hi, inv_BootTime := unix_epoch + seconds (sint (hi_BootTime hi)),
       inv_UptimeS := hi_Uptime hi, inv_Virtualization := virtualization hi\<rparr>"

definition add_partition :: "(string \<Rightarrow> (u64 \<times> u64) option) \<Rightarrow> inventory \<times> string list \<Rightarrow> partition_stat \<Rightarrow> inventory \<times> string list" where
  "add_partition usage acc p =
     (case acc of (i, seen) \<Rightarrow>
      if isPseudoFS (pa_Fstype p) then (i, seen)
      else
        let (i, seen) = (if pa_Device p \<notin> set seen
              then (i\<lparr>inv_Disks := inv_Disks i @ [\<lparr>di_Device = pa_Device p, di_Model = [], di_SizeBytes = 0\<rparr>]\<rparr>, pa_Device p # seen)
              else (i, seen))
        in case usage (pa_Mountpoint p) of
             Some (t, f) \<Rightarrow> (i\<lparr>inv_Filesystems := inv_Filesystems i @ [\<lparr>fi_Mount = pa_Mountpoint p, fi_Device = pa_Device p,
                 fi_FSType = pa_Fstype p, fi_TotalBytes = t, fi_AvailBytes = f\<rparr>]\<rparr>, seen)
           | None \<Rightarrow> (i, seen))"

definition add_interface :: "(string \<Rightarrow> string option) \<Rightarrow> inventory \<Rightarrow> interface_stat \<Rightarrow> inventory" where
  "add_interface speed i ifc =
     (if isLoopback ifc then i
      else i\<lparr>inv_NICs := inv_NICs i @ [\<lparr>ni_Name = if_Name ifc, ni_MAC = if_HardwareAddr ifc,
         ni_SpeedMbps = nicSpeedMbps (speed (if_Name ifc)), ni_Addrs = if_Addrs ifc\<rparr>]\<rparr>)"

definition new_host_inventory :: "host_probes \<Rightarrow> time \<Rightarrow> string \<Rightarrow> string \<Rightarrow> bool \<Rightarrow> inventory" where
  "new_host_inventory hp now hostID configHash privacy = meta.extend (NewMeta KindInventory now)
     \<lparr>inv_HostID = hostID, inv_Hostname = [], inv_OS = [], inv_OSVersion = [], inv_KernelBuild = [], inv_BootTime = 0,
      inv_UptimeS = 0, inv_Timezone = fst (hp_zone hp), inv_TZOffsetSec = snd (hp_zone hp), inv_Virtualization = [],
      inv_CPUModel = [], inv_PhysicalCores = 0, inv_LogicalCPUs = 0, inv_AllocatedVCPU = 0, inv_TotalRAMBytes = 0,
      inv_SwapTotalBytes = 0, inv_Disks = [], inv_Filesystems = [], inv_NICs = [], inv_AgentVersion = AgentVersion,
      inv_ConfigHash = configHash, inv_PrivacyMode = privacy\<rparr>"

definition Collect :: "host_probes \<Rightarrow> time \<Rightarrow> string \<Rightarrow> string \<Rightarrow> bool \<Rightarrow> inventory_state" where
  "Collect hp now hostID configHash privacy =
     (let st = (new_host_inventory hp now hostID configHash privacy, []);
          st = probe ''inventory.host'' (hp_host hp) set_host st;
          st = probe ''inventory.cpuinfo'' (hp_cpu hp) (\<lambda>ms i. case ms of m # _ \<Rightarrow> i\<lparr>inv_CPUModel := m\<rparr> | [] \<Rightarrow> i) st;
          st = optional (hp_physical hp) (\<lambda>n i. i\<lparr>inv_PhysicalCores := n\<rparr>) st;
          st = probe ''inventory.cpucount'' (hp_logical hp) (\<lambda>n i. i\<lparr>inv_LogicalCPUs := n, inv_AllocatedVCPU := n\<rparr>) st;
          st = probe ''inventory.mem'' (hp_mem hp) (\<lambda>t i. i\<lparr>inv_TotalRAMBytes := t\<rparr>) st;
          st = optional (hp_swap hp) (\<lambda>t i. i\<lparr>inv_SwapTotalBytes := t\<rparr>) st;
          st = probe ''inventory.disk'' (hp_parts hp) (\<lambda>ps i. fst (foldl (add_partition (hp_usage hp)) (i, []) ps)) st
      in probe ''inventory.net'' (hp_interfaces hp) (\<lambda>ifs i. foldl (add_interface (hp_speed_file hp)) i ifs) st)"

section \<open>Degradation\<close>

definition note_of :: "string \<Rightarrow> string + 'b \<Rightarrow> string list" where
  "note_of label r = (case r of Inl e \<Rightarrow> [label @ '': '' @ e] | Inr v \<Rightarrow> [])"

lemma probe_notes [simp]: "snd (probe label r f st) = snd st @ note_of label r" "snd (optional x g st) = snd st"
  by (simp_all add: probe_def note_of_def optional_def split: sum.split prod.split option.split)

lemma probe_keeps: "P (fst st) \<Longrightarrow> (\<And>i. P i \<Longrightarrow> Q i) \<Longrightarrow> (\<And>v i. P i \<Longrightarrow> Q (f v i)) \<Longrightarrow> Q (fst (probe label r f st))"
  by (cases st) (simp add: probe_def split: sum.split)

lemma optional_keeps: "P (fst st) \<Longrightarrow> (\<And>v i. P i \<Longrightarrow> P (f v i)) \<Longrightarrow> P (fst (optional r f st))"
  by (simp add: optional_def split: option.split)

text \<open>The fields set at the start, and the lists that the last two probes fill.\<close>

definition base_ok :: "time \<Rightarrow> string \<Rightarrow> string \<Rightarrow> inventory \<Rightarrow> bool" where
  "base_ok now hostID hash i \<longleftrightarrow> inv_HostID i = hostID \<and> inv_ConfigHash i = hash \<and> inv_AgentVersion i = AgentVersion \<and> m_TS i = now"

definition parts_ok :: "inventory \<Rightarrow> bool" where
  "parts_ok i \<longleftrightarrow> distinct (map di_Device (inv_Disks i)) \<and> (\<forall>f \<in> set (inv_Filesystems i). \<not> isPseudoFS (fi_FSType f))"

lemma add_partition_ok:
  assumes "base_ok now h c i" "parts_ok i" "set seen = di_Device ` set (inv_Disks i)" "add_partition u (i, seen) p = (i', seen')"
  shows "base_ok now h c i' \<and> parts_ok i' \<and> set seen' = di_Device ` set (inv_Disks i') \<and> inv_NICs i' = inv_NICs i"
  using assms
  by (cases "u (pa_Mountpoint p)"; cases "pa_Device p \<in> set seen"; cases "isPseudoFS (pa_Fstype p)")
    (auto simp: add_partition_def base_ok_def parts_ok_def)

lemma add_partitions_ok:
  "base_ok now h c i \<Longrightarrow> parts_ok i \<Longrightarrow> set seen = di_Device ` set (inv_Disks i) \<Longrightarrow>
   base_ok now h c (fst (foldl (add_partition u) (i, seen) ps)) \<and> parts_ok (fst (foldl (add_partition u) (i, seen) ps)) \<and>
   inv_NICs (fst (foldl (add_partition u) (i, seen) ps)) = inv_NICs i"
proof (induction ps arbitrary: i seen)
  case (Cons p ps)
  obtain i' seen' where p: "add_partition u (i, seen) p = (i', seen')" by force
  show ?case using add_partition_ok [OF Cons.prems p] Cons.IH [of i' seen'] by (simp add: p)
qed simp

lemma add_interfaces_ok:
  "base_ok now h c i \<Longrightarrow> parts_ok i \<Longrightarrow> \<forall>n \<in> set (inv_NICs i). ni_Name n \<noteq> ''lo'' \<Longrightarrow>
   base_ok now h c (foldl (add_interface sp) i ifs) \<and> parts_ok (foldl (add_interface sp) i ifs) \<and>
   (\<forall>n \<in> set (inv_NICs (foldl (add_interface sp) i ifs)). ni_Name n \<noteq> ''lo'')"
proof (induction ifs arbitrary: i)
  case (Cons x ifs)
  have "base_ok now h c (add_interface sp i x)" "parts_ok (add_interface sp i x)"
    "\<forall>n \<in> set (inv_NICs (add_interface sp i x)). ni_Name n \<noteq> ''lo''"
    using Cons.prems by (auto simp: add_interface_def base_ok_def parts_ok_def isLoopback_def)
  from Cons.IH [OF this] show ?case by simp
qed simp

definition start_ok :: "time \<Rightarrow> string \<Rightarrow> string \<Rightarrow> inventory \<Rightarrow> bool" where
  "start_ok now hostID hash i \<longleftrightarrow> base_ok now hostID hash i \<and> inv_Disks i = [] \<and> inv_Filesystems i = [] \<and> inv_NICs i = []"

lemma start_ok_updates [simp]:
  "start_ok now h c (set_host hi i) = start_ok now h c i" "start_ok now h c (i\<lparr>inv_CPUModel := m\<rparr>) = start_ok now h c i"
  "start_ok now h c (i\<lparr>inv_PhysicalCores := n\<rparr>) = start_ok now h c i" "start_ok now h c (i\<lparr>inv_TotalRAMBytes := t\<rparr>) = start_ok now h c i"
  "start_ok now h c (i\<lparr>inv_LogicalCPUs := n, inv_AllocatedVCPU := n\<rparr>) = start_ok now h c i"
  "start_ok now h c (i\<lparr>inv_SwapTotalBytes := t\<rparr>) = start_ok now h c i"
  by (simp_all add: start_ok_def base_ok_def set_host_def)

text \<open>
  A failed probe never fails the inventory: the notes are exactly those of the failed probes with a
  note, in order; the identity of the host, the agent version and the hash of the configuration are
  there whatever fails; every listed disk is listed once; and no loopback interface and no pseudo file
  system is listed.
\<close>

theorem inventory_probes_degrade:
  assumes "Collect hp now hostID hash privacy = (i, notes)"
  shows "notes = note_of ''inventory.host'' (hp_host hp) @ note_of ''inventory.cpuinfo'' (hp_cpu hp) @
      note_of ''inventory.cpucount'' (hp_logical hp) @ note_of ''inventory.mem'' (hp_mem hp) @
      note_of ''inventory.disk'' (hp_parts hp) @ note_of ''inventory.net'' (hp_interfaces hp) \<and>
    inv_HostID i = hostID \<and> inv_ConfigHash i = hash \<and> inv_AgentVersion i = AgentVersion \<and> m_TS i = now \<and>
    distinct (map di_Device (inv_Disks i)) \<and>
    (\<forall>f \<in> set (inv_Filesystems i). \<not> isPseudoFS (fi_FSType f)) \<and>
    (\<forall>n \<in> set (inv_NICs i). ni_Name n \<noteq> ''lo'')"
proof -
  define st1 where "st1 = probe ''inventory.host'' (hp_host hp) set_host (new_host_inventory hp now hostID hash privacy, [])"
  define st2 where "st2 = probe ''inventory.cpuinfo'' (hp_cpu hp) (\<lambda>ms i. case ms of m # _ \<Rightarrow> i\<lparr>inv_CPUModel := m\<rparr> | [] \<Rightarrow> i) st1"
  define st3 where "st3 = optional (hp_physical hp) (\<lambda>n i. i\<lparr>inv_PhysicalCores := n\<rparr>) st2"
  define st4 where "st4 = probe ''inventory.cpucount'' (hp_logical hp) (\<lambda>n i. i\<lparr>inv_LogicalCPUs := n, inv_AllocatedVCPU := n\<rparr>) st3"
  define st5 where "st5 = probe ''inventory.mem'' (hp_mem hp) (\<lambda>t i. i\<lparr>inv_TotalRAMBytes := t\<rparr>) st4"
  define st6 where "st6 = optional (hp_swap hp) (\<lambda>t i. i\<lparr>inv_SwapTotalBytes := t\<rparr>) st5"
  define st7 where "st7 = probe ''inventory.disk'' (hp_parts hp) (\<lambda>ps i. fst (foldl (add_partition (hp_usage hp)) (i, []) ps)) st6"
  have st8: "(i, notes) = probe ''inventory.net'' (hp_interfaces hp) (\<lambda>ifs i. foldl (add_interface (hp_speed_file hp)) i ifs) st7"
    using assms unfolding Collect_def Let_def st1_def st2_def st3_def st4_def st5_def st6_def st7_def by simp
  let ?S = "start_ok now hostID hash" and ?M = "\<lambda>i. base_ok now hostID hash i \<and> parts_ok i \<and> inv_NICs i = []"
    and ?E = "\<lambda>i. base_ok now hostID hash i \<and> parts_ok i \<and> (\<forall>n \<in> set (inv_NICs i). ni_Name n \<noteq> ''lo'')"
  have "?S (new_host_inventory hp now hostID hash privacy)"
    by (simp add: start_ok_def base_ok_def new_host_inventory_def meta.defs NewMeta_def)
  then have "?S (fst st1)" unfolding st1_def by (intro probe_keeps [where P = ?S and Q = ?S]) simp_all
  then have "?S (fst st2)" unfolding st2_def by (rule probe_keeps [where P = ?S and Q = ?S]) (simp_all split: list.split)
  then have "?S (fst st3)" unfolding st3_def by (rule optional_keeps [where P = ?S]) simp_all
  then have "?S (fst st4)" unfolding st4_def by (rule probe_keeps [where P = ?S and Q = ?S]) simp_all
  then have "?S (fst st5)" unfolding st5_def by (rule probe_keeps [where P = ?S and Q = ?S]) simp_all
  then have "?S (fst st6)" unfolding st6_def by (rule optional_keeps [where P = ?S]) simp_all
  then have m: "?M (fst st7)"
    unfolding st7_def by (rule probe_keeps [where P = ?S and Q = ?M])
      (use add_partitions_ok [of now hostID hash _ "[]"] in \<open>auto simp: start_ok_def parts_ok_def\<close>)
  have "?E (fst (i, notes))"
    unfolding st8 using m by (rule probe_keeps [where P = ?M and Q = ?E]) (use add_interfaces_ok [of now hostID hash] in auto)
  then have e: "?E i" by simp
  have "notes = snd (i, notes)" by simp
  also have "\<dots> = note_of ''inventory.host'' (hp_host hp) @ note_of ''inventory.cpuinfo'' (hp_cpu hp) @
      note_of ''inventory.cpucount'' (hp_logical hp) @ note_of ''inventory.mem'' (hp_mem hp) @
      note_of ''inventory.disk'' (hp_parts hp) @ note_of ''inventory.net'' (hp_interfaces hp)"
    unfolding st8 by (simp add: st7_def st6_def st5_def st4_def st3_def st2_def st1_def)
  finally show ?thesis using e by (simp add: base_ok_def parts_ok_def)
qed

definition broken_host :: host_probes where
  "broken_host = \<lparr>hp_zone = (''UTC'', 0), hp_host = Inl ''no'', hp_cpu = Inr [], hp_physical = None, hp_logical = Inl ''no'',
     hp_mem = Inr 1024, hp_swap = None, hp_parts = Inr [\<lparr>pa_Device = ''sda1'', pa_Mountpoint = ''/'', pa_Fstype = ''ext4''\<rparr>,
       \<lparr>pa_Device = ''sda1'', pa_Mountpoint = ''/srv'', pa_Fstype = ''ext4''\<rparr>],
     hp_usage = (\<lambda>m. Some (100, 50)), hp_interfaces = Inl ''no'', hp_speed_file = (\<lambda>_. None)\<rparr>"

theorem inventory_probes_degrade_witness:
  "snd (Collect broken_host 5 ''h'' ''c'' True) = [''inventory.host: no'', ''inventory.cpucount: no'', ''inventory.net: no'']"
  using inventory_probes_degrade [OF prod.collapse [symmetric], of broken_host 5 "''h''" "''c''" True]
  by (simp add: note_of_def broken_host_def)

end
