(* ===== verification/SqlManager.thy ===== *)
theory SqlManager
  imports SqlCollect HealthTracker ProcTop AgentConfig
begin

text \<open>
  The manager of the SQL Server instances of a host (\<open>internal/agent/sqlmanager.go\<close>, \<open>util.go\<close>). The map of live
  connections is the list of the instance names it has; what a connection answers is part of the
  environment of an operation. The operations return the records they append, in order; the agent
  gives them to the spool.
\<close>

record sql_manager =
  ma_instances :: "sql_instance list"
  ma_queriers :: "string list"
  ma_states :: "(string, sample_counters) go_map"
  ma_invCache :: "(string, sql_inventory) go_map"
  ma_invDirty :: bool

definition newSQLManager :: sql_manager where
  "newSQLManager = \<lparr>ma_instances = [], ma_queriers = [], ma_states = [], ma_invCache = [], ma_invDirty = False\<rparr>"

text \<open>
  One operation: the clock, what detection finds, whether a connection opens (an error text when not),
  the answers of each instance, and the orders in which the maps are ranged over.
\<close>

record sql_env =
  me_now :: time
  me_detect :: "sql_instance list"
  me_connect :: "sql_instance \<Rightarrow> string option"
  me_query :: "string \<Rightarrow> querier"
  me_lib :: sql_lib
  me_ags :: ag_order
  me_names :: "string list \<Rightarrow> string list"
  me_cache :: "(string, sql_inventory) go_map \<Rightarrow> (string, sql_inventory) go_map"

type_synonym manager_state = "sql_manager \<times> health_tracker"

definition unavailable_note :: string where
  "unavailable_note = ''SQL Server detected; deep SQL telemetry unavailable.''"

definition report_issues :: "time \<Rightarrow> string \<Rightarrow> issues \<Rightarrow> health_tracker \<Rightarrow> health_tracker" where
  "report_issues now inst iss h = foldl (\<lambda>h (n, e). Issue now (''sql.'' @ inst @ ''.'' @ n) e h) h iss"

definition processOnlyInventory :: "time \<Rightarrow> string \<Rightarrow> sql_instance \<Rightarrow> sql_inventory" where
  "processOnlyInventory now hostID inst = (new_inventory now inst)
     \<lparr>si_InstanceKey := hostID @ ''|'' @ in_Name inst, si_InstanceName := in_Name inst,
      si_IsDefault := (in_Name inst = ''MSSQLSERVER''), si_PID := in_PID inst,
      si_LinuxMemoryLimitMB := in_LinuxMemoryLimitMB inst, si_CollectionLevel := SQLLevelProcessOnly,
      si_CollectionNote := unavailable_note, si_LockPagesInMemory := ''unknown'',
      si_HA := \<lparr>ha_Mode = ''standalone'', ha_AGs = []\<rparr>\<rparr>"

definition findInstance :: "string \<Rightarrow> sql_manager \<Rightarrow> sql_instance" where
  "findInstance name m = (case filter (\<lambda>i. in_Name i = name) (ma_instances m) of i # _ \<Rightarrow> i | [] \<Rightarrow> no_instance name)"

definition pidToInstance :: "sql_manager \<Rightarrow> (int, string) go_map" where
  "pidToInstance m = foldl (\<lambda>out i. if in_PID i \<noteq> 0 then AList.update (in_PID i) (in_Name i) out else out) [] (ma_instances m)"

section \<open>Detection and connections\<close>

definition cache_inventory :: "string \<Rightarrow> sql_inventory \<Rightarrow> sql_manager \<Rightarrow> sql_manager" where
  "cache_inventory name si m = m\<lparr>ma_invCache := AList.update name si (ma_invCache m), ma_invDirty := True\<rparr>"

definition rescan_one :: "sql_env \<Rightarrow> string \<Rightarrow> manager_state \<Rightarrow> sql_instance \<Rightarrow> manager_state" where
  "rescan_one env hostID st inst =
     (case st of (m, h) \<Rightarrow>
      let name = in_Name inst; now = me_now env in
      if name \<in> set (ma_queriers m) then (m, h)
      else
        case me_connect env inst of
          Some e \<Rightarrow>
            (cache_inventory name (processOnlyInventory now hostID inst) m,
             Issue now (''sql.'' @ name) (unavailable_note @ '' ('' @ e @ '')'') h)
        | None \<Rightarrow>
            let m = m\<lparr>ma_queriers := ma_queriers m @ [name]\<rparr>; h = MarkOK (''sql.'' @ name) h in
            (case CollectInventory (me_lib env) (me_ags env) now (me_query env name) inst hostID of
               (Inr si, iss) \<Rightarrow> (cache_inventory name si m, report_issues now name iss h)
             | (Inl e, iss) \<Rightarrow> (m, Issue now (''sql.'' @ name) e (report_issues now name iss h))))"

definition rescan :: "config \<Rightarrow> sql_env \<Rightarrow> string \<Rightarrow> manager_state \<Rightarrow> manager_state" where
  "rescan cfg env hostID st =
     (if \<not> sql_Enabled (c_SQL cfg) then st
      else case st of (m, h) \<Rightarrow> foldl (rescan_one env hostID) (m\<lparr>ma_instances := me_detect env\<rparr>, h) (me_detect env))"

section \<open>Records\<close>

definition refresh_one :: "sql_env \<Rightarrow> string \<Rightarrow> manager_state \<Rightarrow> string \<Rightarrow> manager_state" where
  "refresh_one env hostID st name =
     (case st of (m, h) \<Rightarrow>
      case CollectInventory (me_lib env) (me_ags env) (me_now env) (me_query env name) (findInstance name m) hostID of
        (Inr si, iss) \<Rightarrow> (m\<lparr>ma_invCache := AList.update name si (ma_invCache m)\<rparr>, report_issues (me_now env) name iss h)
      | (Inl e, iss) \<Rightarrow> (m, report_issues (me_now env) name iss h))"

definition writeInventories :: "sql_env \<Rightarrow> string \<Rightarrow> manager_state \<Rightarrow> manager_state \<times> sql_inventory list" where
  "writeInventories env hostID st =
     (case foldl (refresh_one env hostID) st (me_names env (ma_queriers (fst st))) of
        (m, h) \<Rightarrow> ((m\<lparr>ma_invDirty := False\<rparr>, h), map snd (me_cache env (ma_invCache m))))"

text \<open>
  The CPU share of a process: the first snapshot of the last three minutes that has it, and otherwise
  what a direct probe says.
\<close>

definition processCPUPct :: "time \<Rightarrow> (int \<Rightarrow> f64 option) \<Rightarrow> collector \<Rightarrow> int \<Rightarrow> f64" where
  "processCPUPct now direct procs pid =
     (case filter (\<lambda>p. ps_PID p = pid) (concat (map pt_Procs (History (now - minutes 3) now procs))) of
        p # _ \<Rightarrow> ps_CPUPct p
      | [] \<Rightarrow> (case direct pid of Some v \<Rightarrow> v | None \<Rightarrow> 0))"

definition sample_one :: "sql_env \<Rightarrow> (int \<Rightarrow> f64 option) \<Rightarrow> string \<Rightarrow> collector \<Rightarrow> manager_state \<times> sql_sample list \<Rightarrow> string
    \<Rightarrow> manager_state \<times> sql_sample list" where
  "sample_one env direct hostID procs acc name =
     (case acc of ((m, h), out) \<Rightarrow>
      let inst = findInstance name m; now = me_now env in
      case CollectSample (me_lib env) now (me_query env name) (hostID @ ''|'' @ name) (map_of (ma_states m) name) of
        ((s, c), iss) \<Rightarrow>
          ((m\<lparr>ma_states := AList.update name c (ma_states m)\<rparr>, report_issues now name iss h),
           out @ [if in_PID inst \<noteq> 0 then s\<lparr>sq_SQLProcessCPUPct := processCPUPct now direct procs (in_PID inst)\<rparr> else s]))"

definition sample_sql :: "sql_env \<Rightarrow> (int \<Rightarrow> f64 option) \<Rightarrow> string \<Rightarrow> collector \<Rightarrow> manager_state
    \<Rightarrow> manager_state \<times> sql_inventory list \<times> sql_sample list" where
  "sample_sql env direct hostID procs st =
     (case st of (m, h) \<Rightarrow>
      let invs = (if ma_invDirty m then map snd (me_cache env (ma_invCache m)) else []);
          m = m\<lparr>ma_invDirty := False\<rparr>
      in case foldl (sample_one env direct hostID procs) ((m, h), []) (me_names env (ma_queriers m)) of
           (st, out) \<Rightarrow> (st, invs, out))"

definition spikeContext :: "config \<Rightarrow> sql_env \<Rightarrow> string \<Rightarrow> spike_event \<Rightarrow> manager_state
    \<Rightarrow> manager_state \<times> sql_spike_context option" where
  "spikeContext cfg env hostID ev st =
     (case st of (m, h) \<Rightarrow>
      let name = (if ev_SQLInstance ev \<noteq> [] then ev_SQLInstance ev
                  else (case ma_queriers m of [n] \<Rightarrow> n | _ \<Rightarrow> []))
      in if name \<notin> set (ma_queriers m) then (st, None)
         else case CollectSpikeContext (me_lib env) (me_now env) (me_query env name) (hostID @ ''|'' @ name)
                (ev_EventID ev) (ag_PrivacyMode (c_Agent cfg)) of
           (x, iss) \<Rightarrow> ((m, report_issues (me_now env) name iss h), Some x))"

definition close_queriers :: "sql_manager \<Rightarrow> sql_manager" where
  "close_queriers m = m\<lparr>ma_queriers := []\<rparr>"

end
