(* ===== verification/Agent.thy ===== *)
theory Agent
  imports SqlManager HostInventory HostId Sched Attribution SpikeDetector Bundle
begin

text \<open>
  The agent (\<open>internal/agent/agent.go\<close>): its state, the tickers of \<open>Run\<close> as events, the handler of each, the
  daily export and the shutdown. The handlers call the modelled components; what the operating system,
  the databases and the clock answer during one event is the record \<open>agent_env\<close>. The clock is read once
  per event. Log output is left out.
\<close>

section \<open>State and environment\<close>

datatype telemetry =
    TInventory inventory
  | THostMinute host_minute
  | TProcTop proc_top
  | TSpike spike_event
  | TSched sched_snapshot
  | TSQLInventory sql_inventory
  | TSQLSample sql_sample
  | TSQLSpike sql_spike_context
  | THealth health

fun kind_of :: "telemetry \<Rightarrow> string" where
  "kind_of (TInventory x) = KindInventory"
| "kind_of (THostMinute x) = KindHostMinute"
| "kind_of (TProcTop x) = KindProcTop"
| "kind_of (TSpike x) = KindSpike"
| "kind_of (TSched x) = KindSched"
| "kind_of (TSQLInventory x) = KindSQLInventory"
| "kind_of (TSQLSample x) = KindSQLSample"
| "kind_of (TSQLSpike x) = KindSQLSpike"
| "kind_of (THealth x) = KindHealth"

record persisted_state =
  ps_FirstStart :: time
  ps_LastExportDay :: string

record agent =
  a_hostID :: string
  a_hostname :: string
  a_tz :: string
  a_numCPU :: int
  a_store :: store
  a_health :: health_tracker
  a_sampler :: sampler
  a_agg :: minute_agg
  a_detector :: detector
  a_procs :: collector
  a_sqlmgr :: sql_manager
  a_state :: persisted_state
  a_file :: "persisted_state option"
  a_lastSched :: sched_snapshot
  a_lastProcSnap :: time
  a_collectedMins :: int

text \<open>Fixed for a run: encoders, error texts and the configuration hash.\<close>

record agent_lib =
  al_encode :: "telemetry \<Rightarrow> string option"
  al_meta_ts :: "string \<Rightarrow> time option"
  al_meta_size :: "segment_info \<Rightarrow> int"
  al_store_error :: "spool_error \<Rightarrow> string"
  al_export_error :: "export_error \<Rightarrow> string"
  al_codec :: codec
  al_hash :: string

record agent_env =
  en_now :: time
  en_probes :: probes
  en_emit :: emit_orders
  en_parts :: "(string \<times> string) list option"
  en_usage :: "string \<Rightarrow> (u64 \<times> u64) option"
  en_procs :: "string + proc_info list"
  en_snap :: snap_orders
  en_service :: "int \<Rightarrow> string"
  en_exe :: "int \<Rightarrow> string option"
  en_direct :: "int \<Rightarrow> f64 option"
  en_ids :: "series_key \<Rightarrow> string"
  en_pids :: pid_order
  en_names :: name_order
  en_sched :: sched_env
  en_sql :: sql_env
  en_self :: self_stats
  en_host :: host_probes
  en_append :: "string \<Rightarrow> store \<Rightarrow> append_env"
  en_flush :: "string \<Rightarrow> flush_outcome"
  en_close :: "string \<Rightarrow> close_outcome"
  en_fails :: "export_stage \<Rightarrow> bool"
  en_bundle :: string
  en_listing :: "string option"
  en_save :: bool

section \<open>Records and issues\<close>

definition report_all :: "time \<Rightarrow> (string \<times> string) list \<Rightarrow> agent \<Rightarrow> agent" where
  "report_all now iss a = a\<lparr>a_health := foldl (\<lambda>h (c, e). Issue now c e h) (a_health a) iss\<rparr>"

definition mark_ok :: "string \<Rightarrow> agent \<Rightarrow> agent" where
  "mark_ok c a = a\<lparr>a_health := MarkOK c (a_health a)\<rparr>"

text \<open>\<open>store.Append\<close>, as the manager of the instances calls it: the error is ignored.\<close>

definition store_rec :: "agent_lib \<Rightarrow> agent_env \<Rightarrow> telemetry \<Rightarrow> agent \<Rightarrow> agent" where
  "store_rec lib env t a =
     a\<lparr>a_store := fst (Append (en_append env (kind_of t) (a_store a)) (al_meta_ts lib) (kind_of t) (al_encode lib t) (a_store a))\<rparr>"

text \<open>\<open>append\<close>: the error is an issue.\<close>

definition append_rec :: "agent_lib \<Rightarrow> agent_env \<Rightarrow> telemetry \<Rightarrow> agent \<Rightarrow> agent" where
  "append_rec lib env t a =
     (case Append (en_append env (kind_of t) (a_store a)) (al_meta_ts lib) (kind_of t) (al_encode lib t) (a_store a) of
        (s, None) \<Rightarrow> a\<lparr>a_store := s\<rparr>
      | (s, Some e) \<Rightarrow> report_all (en_now env) [(''store.'' @ kind_of t, al_store_error lib e)] (a\<lparr>a_store := s\<rparr>))"

definition store_all :: "agent_lib \<Rightarrow> agent_env \<Rightarrow> telemetry list \<Rightarrow> agent \<Rightarrow> agent" where
  "store_all lib env ts a = foldl (\<lambda>a t. store_rec lib env t a) a ts"

section \<open>Collectors\<close>

definition snap_procs :: "agent_env \<Rightarrow> agent \<Rightarrow> agent \<times> proc_top" where
  "snap_procs env a =
     (case TakeSnapshot (en_snap env) (en_service env) (en_exe env) (en_now env) (a_numCPU a) (en_procs env) (a_procs a) of
        (c, t, iss) \<Rightarrow> (report_all (en_now env) iss (a\<lparr>a_procs := c\<rparr>), t))"

definition writeInventory :: "agent_lib \<Rightarrow> config \<Rightarrow> agent_env \<Rightarrow> agent \<Rightarrow> agent" where
  "writeInventory lib cfg env a =
     (case Collect (en_host env) (en_now env) (a_hostID a) (al_hash lib) (ag_PrivacyMode (c_Agent cfg)) of
        (i, notes) \<Rightarrow>
          append_rec lib env (TInventory i)
            ((report_all (en_now env) (map (\<lambda>n. (''inventory'', n)) notes) a)\<lparr>a_hostname := inv_Hostname i, a_tz := inv_Timezone i\<rparr>))"

definition take_sched :: "agent_env \<Rightarrow> agent \<Rightarrow> agent" where
  "take_sched env a =
     (case Snapshot (en_sched env) (en_now env) of (s, iss) \<Rightarrow> (report_all (en_now env) iss a)\<lparr>a_lastSched := s\<rparr>)"

definition finishSpike :: "agent_lib \<Rightarrow> config \<Rightarrow> agent_env \<Rightarrow> agent \<Rightarrow> spike_event \<Rightarrow> agent" where
  "finishSpike lib cfg env a ev =
     (let snaps = History (ev_StartTS ev - minutes 2) (ev_EndTS ev + minutes 2) (a_procs a);
          ev = attribute (en_pids env) (en_names env) ev snaps (ss_Entries (a_lastSched a)) (map_of (pidToInstance (a_sqlmgr a)));
          a = append_rec lib env (TSpike ev) a
      in if ev_SQLCorrelated ev then
           (case spikeContext cfg (en_sql env) (a_hostID a) ev (a_sqlmgr a, a_health a) of
              ((m, h), sc) \<Rightarrow>
                let a = a\<lparr>a_sqlmgr := m, a_health := h\<rparr>
                in case sc of Some x \<Rightarrow> append_rec lib env (TSQLSpike x) a | None \<Rightarrow> a)
         else a)"

definition store_minute :: "agent_lib \<Rightarrow> agent_env \<Rightarrow> host_minute option \<Rightarrow> agent \<Rightarrow> agent" where
  "store_minute lib env hm a =
     (case hm of None \<Rightarrow> a
      | Some x \<Rightarrow>
          let a = append_rec lib env (THostMinute (AttachFS (en_parts env) (en_usage env) x)) a
          in a\<lparr>a_collectedMins := a_collectedMins a + 1\<rparr>)"

definition capture_procs :: "agent_env \<Rightarrow> agent \<Rightarrow> agent" where
  "capture_procs env a =
     (if CaptureActive (a_detector a) \<and> time_sub (en_now env) (a_lastProcSnap a) \<ge> seconds 15
      then (fst (snap_procs env a))\<lparr>a_lastProcSnap := en_now env\<rparr> else a)"

definition offer_sample :: "agent_lib \<Rightarrow> config \<Rightarrow> agent_env \<Rightarrow> high_res \<Rightarrow> agent \<Rightarrow> agent" where
  "offer_sample lib cfg env hr a =
     (case Offer (en_ids env) (a_detector a) (SpikePoint hr) of
        (d, evs) \<Rightarrow> foldl (finishSpike lib cfg env) (a\<lparr>a_detector := d\<rparr>) evs)"

definition onHostSample :: "agent_lib \<Rightarrow> config \<Rightarrow> agent_env \<Rightarrow> agent \<Rightarrow> agent" where
  "onHostSample lib cfg env a =
     (case Sample (en_now env) (en_probes env) (a_sampler a) of
        (s, hr, iss) \<Rightarrow>
          let a = report_all (en_now env) iss (a\<lparr>a_sampler := s\<rparr>) in
          (case hr of None \<Rightarrow> a
           | Some hr \<Rightarrow>
               let a = a\<lparr>a_health := AddSamples 1 (MarkOK ''host'' (a_health a))\<rparr> in
               (case AddSample (en_emit env) hr (a_agg a) of
                  (agg, hm) \<Rightarrow>
                    offer_sample lib cfg env hr (capture_procs env (store_minute lib env hm (a\<lparr>a_agg := agg\<rparr>))))))"

section \<open>Export\<close>

definition ExportBundle :: "agent_lib \<Rightarrow> config \<Rightarrow> agent_env \<Rightarrow> agent \<Rightarrow> agent \<times> (export_error + tar_item list)" where
  "ExportBundle lib cfg env a =
     (let expected = (if is_zero_time (ps_FirstStart (a_state a)) then 0
            else go_trunc (dur_minutes (time_sub (en_now env) (ps_FirstStart (a_state a)))));
          inp = \<lparr>in_Recipient = ag_Recipient (c_Agent cfg), in_HostID = a_hostID a, in_Hostname = a_hostname a,
            in_Timezone = a_tz a, in_ConfigHash = al_hash lib,
            in_Health = \<lparr>hs_ExpectedMinutes = expected, hs_CollectedMinutes = a_collectedMins a, hs_Gaps = [],
              hs_PermissionIssues = PermissionIssues (a_health a)\<rparr>,
            in_RemoveAfter = (\<not> re_KeepAfterExport (c_Retention cfg))\<rparr>
      in case Export (al_codec lib) (Rotate (en_flush env) (en_close env) (en_now env)) (en_fails env) (en_bundle env)
             (en_now env) inp (a_store a) of
           (s, r) \<Rightarrow> (a\<lparr>a_store := s\<rparr>, r))"

definition saveState :: "agent_env \<Rightarrow> agent \<Rightarrow> agent" where
  "saveState env a = (if en_save env then a\<lparr>a_file := Some (a_state a)\<rparr> else a)"

definition set_day :: "string \<Rightarrow> agent_env \<Rightarrow> agent \<Rightarrow> agent" where
  "set_day day env a = saveState env (a\<lparr>a_state := (a_state a)\<lparr>ps_LastExportDay := day\<rparr>\<rparr>)"

text \<open>The second component is the bundle that was written.\<close>

definition maybeAutoExport :: "agent_lib \<Rightarrow> config \<Rightarrow> agent_env \<Rightarrow> agent \<Rightarrow> agent \<times> tar_item list option" where
  "maybeAutoExport lib cfg env a =
     (let now = en_now env; day = fmt_date now; lastDay = ps_LastExportDay (a_state a) in
      if \<not> ex_AutoDaily (c_Export cfg) then (a, None)
      else if lastDay = day \<or> hour_of_day now = 0 \<and> minute_of_hour now < 10 then (a, None)
      else if lastDay = [] then (set_day day env a, None)
      else case ExportBundle lib cfg env a of
          (a, Inl e) \<Rightarrow> (report_all now [(''export'', al_export_error lib e)] a, None)
        | (a, Inr b) \<Rightarrow> (set_day day env a, Some b))"

section \<open>The main loop\<close>

datatype agent_event =
    HostTick | ProcTick | ProcPersistTick | SQLTick | SQLInvTick | SchedTick | HealthTick | FlushTick | RetentionTick | InventoryTick

definition health_record :: "agent_lib \<Rightarrow> agent_env \<Rightarrow> agent \<Rightarrow> agent \<times> health" where
  "health_record lib env a =
     (case HealthSnapshot (en_now env) (en_self env) (s_dropped (a_store a))
         (word_of_int (SpoolBytes (al_meta_size lib) (s_disk (a_store a)))) (a_health a) of
        (h, r) \<Rightarrow> (a\<lparr>a_health := h\<rparr>, r))"

definition on_health :: "agent_lib \<Rightarrow> agent_env \<Rightarrow> agent \<Rightarrow> agent" where
  "on_health lib env a = (case health_record lib env a of (a, r) \<Rightarrow> append_rec lib env (THealth r) a)"

definition on_sql :: "agent_lib \<Rightarrow> agent_env \<Rightarrow> agent \<Rightarrow> agent" where
  "on_sql lib env a =
     (case sample_sql (en_sql env) (en_direct env) (a_hostID a) (a_procs a) (a_sqlmgr a, a_health a) of
        ((m, h), invs, ss) \<Rightarrow>
          store_all lib env (map TSQLInventory invs @ map TSQLSample ss) (a\<lparr>a_sqlmgr := m, a_health := h\<rparr>))"

definition on_sql_inventory :: "agent_lib \<Rightarrow> config \<Rightarrow> agent_env \<Rightarrow> agent \<Rightarrow> agent" where
  "on_sql_inventory lib cfg env a =
     (case writeInventories (en_sql env) (a_hostID a) (rescan cfg (en_sql env) (a_hostID a) (a_sqlmgr a, a_health a)) of
        ((m, h), invs) \<Rightarrow> store_all lib env (map TSQLInventory invs) (a\<lparr>a_sqlmgr := m, a_health := h\<rparr>))"

definition on_flush :: "agent_lib \<Rightarrow> config \<Rightarrow> agent_env \<Rightarrow> agent \<Rightarrow> agent \<times> tar_item list option" where
  "on_flush lib cfg env a =
     (case Flush (en_flush env) (a_store a) of
        (s, e) \<Rightarrow>
          maybeAutoExport lib cfg env
            (report_all (en_now env) (case e of Some x \<Rightarrow> [(''store'', al_store_error lib x)] | None \<Rightarrow> []) (a\<lparr>a_store := s\<rparr>)))"

text \<open>Retention fails when the directory of the closed segments cannot be listed.\<close>

definition on_retention :: "agent_lib \<Rightarrow> config \<Rightarrow> agent_env \<Rightarrow> agent \<Rightarrow> agent" where
  "on_retention lib cfg env a =
     (case en_listing env of
        Some e \<Rightarrow> report_all (en_now env) [(''retention'', e)] a
      | None \<Rightarrow> a\<lparr>a_store := (a_store a)\<lparr>s_disk := fst (EnforceRetention (al_meta_size lib) (en_now env)
          (re_MaxSpoolMB (c_Retention cfg) * 2 ^ 20) (re_MaxAgeDays (c_Retention cfg)) (s_disk (a_store a)))\<rparr>\<rparr>)"

definition on_persist :: "agent_lib \<Rightarrow> agent_env \<Rightarrow> agent \<Rightarrow> agent" where
  "on_persist lib env a =
     (case snap_procs env a of (a, t) \<Rightarrow> if pt_Procs t \<noteq> [] then append_rec lib env (TProcTop t) a else a)"

definition on_sched :: "agent_lib \<Rightarrow> agent_env \<Rightarrow> agent \<Rightarrow> agent" where
  "on_sched lib env a = (let a = take_sched env a in append_rec lib env (TSched (a_lastSched a)) a)"

fun agent_step :: "agent_lib \<Rightarrow> config \<Rightarrow> agent_event \<Rightarrow> agent_env \<Rightarrow> agent \<Rightarrow> agent \<times> tar_item list option" where
  "agent_step lib cfg HostTick env a = (onHostSample lib cfg env a, None)"
| "agent_step lib cfg ProcTick env a = (mark_ok ''proc'' (fst (snap_procs env a)), None)"
| "agent_step lib cfg ProcPersistTick env a = (on_persist lib env a, None)"
| "agent_step lib cfg SQLTick env a = (on_sql lib env a, None)"
| "agent_step lib cfg SQLInvTick env a = (on_sql_inventory lib cfg env a, None)"
| "agent_step lib cfg SchedTick env a = (on_sched lib env a, None)"
| "agent_step lib cfg HealthTick env a = (on_health lib env a, None)"
| "agent_step lib cfg FlushTick env a = on_flush lib cfg env a"
| "agent_step lib cfg RetentionTick env a = (on_retention lib cfg env a, None)"
| "agent_step lib cfg InventoryTick env a = (writeInventory lib cfg env a, None)"

text \<open>What \<open>Run\<close> does before it makes its tickers, and before the loop; the loop over its events; and the shutdown with its error.\<close>

definition begin_run :: "agent_lib \<Rightarrow> config \<Rightarrow> agent_env \<Rightarrow> agent \<Rightarrow> agent" where
  "begin_run lib cfg env a =
     (let a = (if is_zero_time (ps_FirstStart (a_state a))
            then saveState env (a\<lparr>a_state := (a_state a)\<lparr>ps_FirstStart := en_now env\<rparr>\<rparr>) else a);
          a = take_sched env (writeInventory lib cfg env a);
          a = store_rec lib env (TSched (a_lastSched a)) a
      in case rescan cfg (en_sql env) (a_hostID a) (a_sqlmgr a, a_health a) of (m, h) \<Rightarrow> a\<lparr>a_sqlmgr := m, a_health := h\<rparr>)"

definition start_run :: "agent_lib \<Rightarrow> config \<Rightarrow> agent_env \<Rightarrow> agent \<Rightarrow> agent" where
  "start_run lib cfg env a =
     (let a = begin_run lib cfg env a;
          a = (case Sample (en_now env) (en_probes env) (a_sampler a) of
                 (s, hr, iss) \<Rightarrow> report_all (en_now env) iss (a\<lparr>a_sampler := s\<rparr>))
      in fst (snap_procs env a))"

fun run_events :: "agent_lib \<Rightarrow> config \<Rightarrow> (agent_event \<times> agent_env) list \<Rightarrow> agent \<Rightarrow> agent \<times> (time \<times> tar_item list) list" where
  "run_events lib cfg [] a = (a, [])"
| "run_events lib cfg ((ev, env) # rest) a =
     (case agent_step lib cfg ev env a of
        (a, b) \<Rightarrow> (case run_events lib cfg rest a of
           (a, bs) \<Rightarrow> (a, (case b of Some x \<Rightarrow> [(en_now env, x)] | None \<Rightarrow> []) @ bs)))"

definition shutdown :: "agent_lib \<Rightarrow> agent_env \<Rightarrow> agent \<Rightarrow> agent \<times> spool_error option" where
  "shutdown lib env a =
     (case FlushPartial (en_emit env) (a_agg a) of
        (agg, hm) \<Rightarrow>
          let a = a\<lparr>a_agg := agg\<rparr>;
              a = (case hm of Some x \<Rightarrow> append_rec lib env (THostMinute x) a | None \<Rightarrow> a);
              a = on_health lib env a;
              a = a\<lparr>a_sqlmgr := close_queriers (a_sqlmgr a)\<rparr>
          in case Flush (en_flush env) (a_store a) of
               (s, Some e) \<Rightarrow> (a\<lparr>a_store := s\<rparr>, Some e)
             | (s, None) \<Rightarrow>
                 (case Rotate (en_flush env) (en_close env) (en_now env) s of (s, e) \<Rightarrow> (a\<lparr>a_store := s\<rparr>, e)))"

section \<open>Construction\<close>

datatype new_error = DataDirFailed | HostIDFailed id_error | StoreFailed spool_error | RecipientMissing

definition zero_sched :: sched_snapshot where
  "zero_sched = meta.extend \<lparr>m_Kind = [], m_Schema = [], m_TS = 0\<rparr> \<lparr>ss_Entries = []\<rparr>"

text \<open>\<open>bundleRecipientCheck\<close>, and the state of a readable state file.\<close>

definition bundle_recipient_missing :: "string \<Rightarrow> bool" where
  "bundle_recipient_missing recipient \<longleftrightarrow> recipient = []"

definition loadState :: "persisted_state option \<Rightarrow> persisted_state" where
  "loadState saved = (case saved of Some p \<Rightarrow> p | None \<Rightarrow> \<lparr>ps_FirstStart = 0, ps_LastExportDay = []\<rparr>)"

text \<open>
  \<open>New\<close>: the data directory, the host identifier, the spool after recovery, the number of CPUs the host
  reports, the process mapper and the state file.
\<close>

definition NewAgent :: "config \<Rightarrow> time \<Rightarrow> bool \<Rightarrow> bool \<Rightarrow> id_error + string \<Rightarrow> store \<times> spool_error option \<Rightarrow> int
    \<Rightarrow> persisted_state option \<Rightarrow> new_error + agent" where
  "NewAgent cfg now mkdir_ok self ident opened cpus saved =
     (if \<not> mkdir_ok then Inl DataDirFailed
      else case ident of
        Inl e \<Rightarrow> Inl (HostIDFailed e)
      | Inr hid \<Rightarrow>
          (case opened of
             (s, Some e) \<Rightarrow> Inl (StoreFailed e)
           | (s, None) \<Rightarrow>
               if bundle_recipient_missing (ag_Recipient (c_Agent cfg)) then Inl RecipientMissing
               else Inr \<lparr>a_hostID = hid, a_hostname = [], a_tz = [], a_numCPU = (if cpus = 0 then 1 else cpus), a_store = s,
                 a_health = newHealthTracker now self, a_sampler = NewSampler, a_agg = \<lparr>ag_minute = 0, ag_samples = []\<rparr>,
                 a_detector = NewDetector cfg, a_procs = NewCollector (sa_ProcTopN (c_Sampling cfg)) True,
                 a_sqlmgr = newSQLManager,
                 a_state = loadState saved,
                 a_file = saved, a_lastSched = zero_sched, a_lastProcSnap = 0, a_collectedMins = 0\<rparr>))"

end
