(* ===== verification/SqlManagerFacts.thy ===== *)
theory SqlManagerFacts
  imports SqlManager SqlCollectFacts
begin

text \<open>
  What the manager of the SQL Server instances guarantees: a detected instance is reported, and the CPU
  share it gives to a sample is an old one.
\<close>

section \<open>Detection never fails\<close>

definition detected_ok :: "time \<Rightarrow> string \<Rightarrow> string \<Rightarrow> sql_manager \<Rightarrow> bool" where
  "detected_ok now hostID name m \<longleftrightarrow> name \<in> set (ma_queriers m) \<or>
     (\<exists>inst. in_Name inst = name \<and> map_of (ma_invCache m) name = Some (processOnlyInventory now hostID inst) \<and> ma_invDirty m)"

lemma rescan_one_keeps:
  assumes "rescan_one env hostID (m, h) inst = (m', h')" "detected_ok (me_now env) hostID name m"
  shows "detected_ok (me_now env) hostID name m'"
  using assms
  by (auto simp: rescan_one_def detected_ok_def cache_inventory_def Let_def update_conv' split: if_splits option.splits prod.splits sum.splits)

lemma rescan_one_does:
  assumes "rescan_one env hostID (m, h) inst = (m', h')"
  shows "detected_ok (me_now env) hostID (in_Name inst) m'"
  using assms
  by (auto simp: rescan_one_def detected_ok_def cache_inventory_def Let_def update_conv' split: if_splits option.splits prod.splits sum.splits)

lemma rescan_fold:
  assumes "foldl (rescan_one env hostID) (m, h) is = (m', h')"
    "\<forall>n \<in> N. detected_ok (me_now env) hostID n m"
  shows "\<forall>n \<in> N \<union> in_Name ` set is. detected_ok (me_now env) hostID n m'"
  using assms
proof (induction "is" arbitrary: m h N)
  case (Cons i "is")
  obtain m1 h1 where s: "rescan_one env hostID (m, h) i = (m1, h1)" by force
  have "\<forall>n \<in> insert (in_Name i) N. detected_ok (me_now env) hostID n m1"
    using rescan_one_keeps [OF s] rescan_one_does [OF s] Cons.prems(2) by auto
  from Cons.IH [OF _ this] Cons.prems(1) show ?case by (simp add: s)
qed simp


definition one_detected :: sql_env where
  "one_detected = \<lparr>me_now = 5, me_detect = [\<lparr>in_Name = ''MSSQLSERVER'', in_PID = 7, in_Port = 1433, in_OS = ''linux'', in_LinuxMemoryLimitMB = 0\<rparr>],
     me_connect = (\<lambda>i. Some ''login failed''), me_query = (\<lambda>n. all_fail), me_lib = plain_lib, me_ags = id, me_names = id, me_cache = id\<rparr>"


section \<open>The CPU share of an instance\<close>

text \<open>
  The history is in increasing time and the first hit wins: the figure of a sample is the oldest one of
  the last three minutes.
\<close>

lemma processCPUPct_oldest:
  assumes "History (now - minutes 3) now procs = t # ts" "filter (\<lambda>p. ps_PID p = pid) (pt_Procs t) = p # ps"
  shows "processCPUPct now direct procs pid = ps_CPUPct p"
  using assms by (simp add: processCPUPct_def)

end
