(* ===== verification/AgentFacts.thy ===== *)
theory AgentFacts
  imports Agent SqlManagerFacts MinuteFacts ProcTopFacts BundleFacts SpikeFacts
begin

text \<open>
  The agent over whole runs. What a handler may do beside its main job is the inductive relation
  \<open>effect\<close>; each invariant of the agent is proved once for its rules and holds for every handler.
\<close>

section \<open>Reports to the health tracker\<close>

inductive reports :: "health_tracker \<Rightarrow> health_tracker \<Rightarrow> bool" where
  reports_refl: "reports h h"
| reports_issue: "reports h h' \<Longrightarrow> reports h (Issue now c e h')"
| reports_ok: "reports h h' \<Longrightarrow> reports h (MarkOK c h')"

lemma reports_trans: "reports h' h'' \<Longrightarrow> reports h h' \<Longrightarrow> reports h h''"
  by (induction rule: reports.induct) (auto intro: reports.intros)

lemmas reports_steps = reports_refl reports_issue reports_ok

lemma reports_fold: "reports h h' \<Longrightarrow> reports h (foldl (\<lambda>h (c, e). Issue now (f c) e h) h' iss)"
  by (induction iss arbitrary: h') (auto intro: reports_issue)

lemma reports_report_issues: "reports h h' \<Longrightarrow> reports h (report_issues now inst iss h')"
  unfolding report_issues_def by (rule reports_fold)

lemmas reports_manager = reports_steps reports_report_issues

lemma rescan_one_reports:
  assumes "rescan_one env hid st i = st'" "reports h (snd st)"
  shows "reports h (snd st')"
  using assms
  by (auto simp: rescan_one_def Let_def intro!: reports_manager split: prod.splits if_splits option.splits sum.splits)

lemma refresh_one_reports:
  assumes "refresh_one env hid st i = st'" "reports h (snd st)"
  shows "reports h (snd st')"
  using assms by (auto simp: refresh_one_def intro!: reports_manager split: prod.splits sum.splits)

lemma sample_one_reports:
  assumes "sample_one env direct hid procs acc n = acc'" "reports h (snd (fst acc))"
  shows "reports h (snd (fst acc'))"
  using assms by (auto simp: sample_one_def Let_def intro!: reports_manager split: prod.splits)

lemma foldl_keeps: "P a \<Longrightarrow> (\<And>a x. P a \<Longrightarrow> P (f a x)) \<Longrightarrow> P (foldl f a xs)"
  by (induction xs arbitrary: a) auto

lemma rescan_reports:
  assumes "rescan cfg env hid (m, h) = (m', h')"
  shows "reports h h'"
proof -
  have "reports h (snd (foldl (rescan_one env hid) (m\<lparr>ma_instances := me_detect env\<rparr>, h) (me_detect env)))"
    by (rule foldl_keeps) (auto intro: reports_refl rescan_one_reports)
  then show ?thesis using assms by (auto simp: rescan_def reports_refl split: if_splits)
qed

lemma writeInventories_reports:
  assumes "writeInventories env hid (m, h) = ((m', h'), invs)"
  shows "reports h h'"
proof -
  have "reports h (snd (foldl (refresh_one env hid) (m, h) (me_names env (ma_queriers m))))"
    by (rule foldl_keeps) (auto intro: reports_refl refresh_one_reports)
  then show ?thesis using assms by (auto simp: writeInventories_def split: prod.splits)
qed

lemma sample_sql_reports:
  assumes "sample_sql env direct hid procs (m, h) = ((m', h'), invs, ss)"
  shows "reports h h'"
proof -
  have "reports h (snd (fst (foldl (sample_one env direct hid procs) ((m1, h), []) ns)))" for m1 ns
    by (rule foldl_keeps) (auto intro: reports_refl sample_one_reports)
  then show ?thesis using assms by (auto simp: sample_sql_def Let_def split: prod.splits) (metis fst_conv snd_conv)
qed

lemma spikeContext_reports:
  assumes "spikeContext cfg env hid ev (m, h) = ((m', h'), sc)"
  shows "reports h h'"
  using assms by (auto simp: spikeContext_def Let_def intro!: reports_manager split: if_splits prod.splits)

section \<open>Effects\<close>

text \<open>
  What the handlers do in one event: report to the health tracker, append a record that is no host minute,
  flush the spool, take a process snapshot, and set fields that no invariant below constrains.
\<close>

inductive effect :: "agent_lib \<Rightarrow> agent_env \<Rightarrow> agent \<Rightarrow> agent \<Rightarrow> bool" for lib env where
  effect_refl: "effect lib env a a"
| effect_health: "effect lib env a b \<Longrightarrow> reports (a_health b) h \<Longrightarrow> effect lib env a (b\<lparr>a_health := h\<rparr>)"
| effect_count: "effect lib env a b \<Longrightarrow> effect lib env a (b\<lparr>a_health := AddSamples n (a_health b)\<rparr>)"
| effect_snapshot: "effect lib env a b \<Longrightarrow> effect lib env a (b\<lparr>a_health := fst (HealthSnapshot now self d n (a_health b))\<rparr>)"
| effect_append: "effect lib env a b \<Longrightarrow> kind_of t \<noteq> KindHostMinute \<Longrightarrow>
    effect lib env a (b\<lparr>a_store := fst (Append (en_append env (kind_of t) (a_store b)) (al_meta_ts lib) (kind_of t) (al_encode lib t) (a_store b))\<rparr>)"
| effect_flush: "effect lib env a b \<Longrightarrow> effect lib env a (b\<lparr>a_store := fst (Flush (en_flush env) (a_store b))\<rparr>)"
| effect_procs: "effect lib env a b \<Longrightarrow>
    effect lib env a (b\<lparr>a_procs := fst (TakeSnapshot (en_snap env) (en_service env) (en_exe env) (en_now env) (a_numCPU b) (en_procs env) (a_procs b))\<rparr>)"
| effect_sql: "effect lib env a b \<Longrightarrow> effect lib env a (b\<lparr>a_sqlmgr := m\<rparr>)"
| effect_sched: "effect lib env a b \<Longrightarrow> effect lib env a (b\<lparr>a_lastSched := s\<rparr>)"
| effect_snap: "effect lib env a b \<Longrightarrow> effect lib env a (b\<lparr>a_lastProcSnap := t\<rparr>)"
| effect_host: "effect lib env a b \<Longrightarrow> effect lib env a (b\<lparr>a_hostname := s, a_tz := z\<rparr>)"
| effect_offer: "effect lib env a b \<Longrightarrow> effect lib env a (b\<lparr>a_detector := fst (Offer (en_ids env) (a_detector b) p)\<rparr>)"

lemma effect_trans: "effect lib env b c \<Longrightarrow> effect lib env a b \<Longrightarrow> effect lib env a c"
  by (induction rule: effect.induct) (auto intro: effect.intros)

lemma effect_report_all: "effect lib env a b \<Longrightarrow> effect lib env a (report_all now iss b)"
  unfolding report_all_def by (intro effect_health reports_fold [where f = id, simplified] reports_refl)

lemma effect_mark_ok: "effect lib env a b \<Longrightarrow> effect lib env a (mark_ok c b)"
  unfolding mark_ok_def by (intro effect_health reports_ok reports_refl)

lemma effect_store_rec: "effect lib env a b \<Longrightarrow> kind_of t \<noteq> KindHostMinute \<Longrightarrow> effect lib env a (store_rec lib env t b)"
  unfolding store_rec_def by (rule effect_append)

lemma append_rec_eq:
  "append_rec lib env t b = (case snd (Append (en_append env (kind_of t) (a_store b)) (al_meta_ts lib) (kind_of t) (al_encode lib t) (a_store b)) of
     None \<Rightarrow> store_rec lib env t b
   | Some e \<Rightarrow> report_all (en_now env) [(''store.'' @ kind_of t, al_store_error lib e)] (store_rec lib env t b))"
  by (simp add: append_rec_def store_rec_def split: prod.split option.split)

lemma effect_append_rec: "effect lib env a b \<Longrightarrow> kind_of t \<noteq> KindHostMinute \<Longrightarrow> effect lib env a (append_rec lib env t b)"
  by (auto simp: append_rec_eq intro!: effect_report_all effect_store_rec split: option.split)

lemma effect_store_all:
  "effect lib env a b \<Longrightarrow> \<forall>t \<in> set ts. kind_of t \<noteq> KindHostMinute \<Longrightarrow> effect lib env a (store_all lib env ts b)"
  unfolding store_all_def by (induction ts arbitrary: b) (auto intro: effect_store_rec)

lemma kinds_differ [simp]:
  "kind_of (TInventory x1) \<noteq> KindHostMinute" "kind_of (TProcTop x2) \<noteq> KindHostMinute" "kind_of (TSpike x3) \<noteq> KindHostMinute"
  "kind_of (TSched x4) \<noteq> KindHostMinute" "kind_of (TSQLInventory x5) \<noteq> KindHostMinute" "kind_of (TSQLSample x6) \<noteq> KindHostMinute"
  "kind_of (TSQLSpike x7) \<noteq> KindHostMinute" "kind_of (THealth x8) \<noteq> KindHostMinute"
  by (simp_all add: KindInventory_def KindHostMinute_def KindProcTop_def KindSpike_def KindSched_def KindSQLInventory_def
      KindSQLSample_def KindSQLSpike_def KindHealth_def)

declare kind_of.simps [simp del]

lemma effect_snap_procs: "effect lib env a b \<Longrightarrow> effect lib env a (fst (snap_procs env b))"
  using effect_procs [of lib env a b] by (auto simp: snap_procs_def intro!: effect_report_all split: prod.split)

lemma effect_writeInventory: "effect lib env a b \<Longrightarrow> effect lib env a (writeInventory lib cfg env b)"
  by (auto simp: writeInventory_def intro!: effect_append_rec effect_host effect_report_all split: prod.split)

lemma effect_take_sched: "effect lib env a b \<Longrightarrow> effect lib env a (take_sched env b)"
  by (auto simp: take_sched_def intro!: effect_sched effect_report_all split: prod.split)

lemma effect_manager: "effect lib env a b \<Longrightarrow> reports (a_health b) h \<Longrightarrow> effect lib env a (b\<lparr>a_sqlmgr := m, a_health := h\<rparr>)"
  using effect_health [OF effect_sql] by simp

lemma effect_finishSpike: "effect lib env a b \<Longrightarrow> effect lib env a (finishSpike lib cfg env b ev)"
  by (auto simp: finishSpike_def Let_def intro!: effect_append_rec effect_manager dest: spikeContext_reports split: prod.split option.split)

lemma effect_capture_procs: "effect lib env a b \<Longrightarrow> effect lib env a (capture_procs env b)"
  by (auto simp: capture_procs_def intro: effect_snap effect_snap_procs)

lemma effect_offer_sample: "effect lib env a b \<Longrightarrow> effect lib env a (offer_sample lib cfg env hr b)"
proof -
  assume e: "effect lib env a b"
  obtain d evs where o: "Offer (en_ids env) (a_detector b) (SpikePoint hr) = (d, evs)" by force
  have "effect lib env a (b\<lparr>a_detector := d\<rparr>)" using effect_offer [OF e, of "SpikePoint hr"] by (simp add: o)
  then have "effect lib env a (foldl (finishSpike lib cfg env) (b\<lparr>a_detector := d\<rparr>) evs)"
    by (rule foldl_keeps) (rule effect_finishSpike)
  then show ?thesis by (simp add: offer_sample_def o)
qed

lemma effect_on_persist: "effect lib env a b \<Longrightarrow> effect lib env a (on_persist lib env b)"
  using effect_snap_procs [of lib env a b] by (auto simp: on_persist_def intro: effect_append_rec split: prod.split)

lemma effect_on_sched: "effect lib env a b \<Longrightarrow> effect lib env a (on_sched lib env b)"
  by (simp add: on_sched_def Let_def effect_append_rec effect_take_sched)

lemma effect_on_health: "effect lib env a b \<Longrightarrow> effect lib env a (on_health lib env b)"
  using effect_snapshot [of lib env a b "en_now env" "en_self env" "s_dropped (a_store b)"
      "word_of_int (SpoolBytes (al_meta_size lib) (s_disk (a_store b)))"]
  by (auto simp: on_health_def health_record_def intro!: effect_append_rec split: prod.splits)

lemma effect_on_sql: "effect lib env a b \<Longrightarrow> effect lib env a (on_sql lib env b)"
  by (auto simp: on_sql_def intro!: effect_store_all effect_manager dest: sample_sql_reports split: prod.split)

lemma effect_on_sql_inventory: "effect lib env a b \<Longrightarrow> effect lib env a (on_sql_inventory lib cfg env b)"
proof -
  assume e: "effect lib env a b"
  obtain m1 h1 where r: "rescan cfg (en_sql env) (a_hostID b) (a_sqlmgr b, a_health b) = (m1, h1)" by force
  obtain m2 h2 invs where w: "writeInventories (en_sql env) (a_hostID b) (m1, h1) = ((m2, h2), invs)" by (metis prod.collapse)
  have "reports (a_health b) h2" using reports_trans [OF writeInventories_reports [OF w] rescan_reports [OF r]] .
  then show ?thesis using e by (auto simp: on_sql_inventory_def r w intro!: effect_store_all effect_manager)
qed

text \<open>What one event does beside the minutes, the export and the retention.\<close>

lemma effect_step:
  assumes "ev \<notin> {HostTick, FlushTick, RetentionTick}"
  shows "snd (agent_step lib cfg ev env a) = None \<and> effect lib env a (fst (agent_step lib cfg ev env a))"
  using assms effect_refl [of lib env a]
  by (cases ev) (simp_all add: effect_mark_ok effect_snap_procs effect_on_persist effect_on_sql effect_on_sql_inventory
      effect_on_sched effect_on_health effect_writeInventory)

section \<open>The memory of the agent\<close>

definition agent_bounded :: "agent \<Rightarrow> bool" where
  "agent_bounded a \<longleftrightarrow> length (ht_errs (a_health a)) \<le> maxRecentErrors \<and> co_histCap (a_procs a) = 30 \<and>
     length (co_history (a_procs a)) \<le> 30 \<and> buffers_bounded (a_store a)"

lemma reports_bounded: "reports h h' \<Longrightarrow> length (ht_errs h) \<le> maxRecentErrors \<Longrightarrow> length (ht_errs h') \<le> maxRecentErrors"
  by (induction rule: reports.induct) (auto simp: Issue_def MarkOK_def Let_def split: option.split)

lemma TakeSnapshot_bounded:
  "length (co_history c) \<le> co_histCap c \<Longrightarrow> length (co_history (fst (TakeSnapshot ord sf ex now n ps c))) \<le> co_histCap c"
  by (auto simp: TakeSnapshot_def push_history_def Let_def split: sum.split)

lemma TakeSnapshot_cap: "co_histCap (fst (TakeSnapshot ord sf ex now n ps c)) = co_histCap c"
  by (auto simp: TakeSnapshot_def push_history_def Let_def split: sum.split)

lemma effect_bounded: "effect lib env a b \<Longrightarrow> agent_bounded a \<Longrightarrow> agent_bounded b"
proof (induction rule: effect.induct)
  case (effect_health a b h)
  then show ?case using reports_bounded by (auto simp: agent_bounded_def)
next
  case (effect_procs a b)
  then show ?case
    using TakeSnapshot_bounded [of "a_procs b" "en_snap env" "en_service env" "en_exe env" "en_now env" "a_numCPU b" "en_procs env"]
    by (auto simp: agent_bounded_def TakeSnapshot_cap)
next
  case (effect_flush a b)
  then show ?case by (auto simp: agent_bounded_def Flush_def flush_kinds_bounded)
next
  case (effect_append a b t)
  then show ?case by (auto simp: agent_bounded_def Append_bounded)
qed (auto simp: agent_bounded_def AddSamples_def HealthSnapshot_def Let_def split: option.split)

lemma append_rec_bounded: "agent_bounded a \<Longrightarrow> agent_bounded (append_rec lib env t a)"
proof -
  assume b: "agent_bounded a"
  then have s: "agent_bounded (store_rec lib env t a)" by (auto simp: agent_bounded_def store_rec_def Append_bounded)
  then show ?thesis
    using effect_bounded [OF effect_report_all [OF effect_refl]] by (auto simp: append_rec_eq split: option.split)
qed

lemma store_minute_bounded: "agent_bounded a \<Longrightarrow> agent_bounded (store_minute lib env hm a)"
  using append_rec_bounded by (auto simp: store_minute_def Let_def agent_bounded_def split: option.split)

lemma report_all_bounded: "agent_bounded a \<Longrightarrow> agent_bounded (report_all now iss a)"
  by (rule effect_bounded [OF effect_report_all [OF effect_refl]])

lemma onHostSample_bounded: "agent_bounded a \<Longrightarrow> agent_bounded (onHostSample lib cfg env a)"
proof -
  assume b: "agent_bounded a"
  obtain s hr iss where sa: "Sample (en_now env) (en_probes env) (a_sampler a) = (s, hr, iss)" by (metis prod.collapse)
  define a1 where "a1 = report_all (en_now env) iss (a\<lparr>a_sampler := s\<rparr>)"
  have a1: "agent_bounded a1" unfolding a1_def by (rule report_all_bounded) (use b in \<open>simp add: agent_bounded_def\<close>)
  show ?thesis
  proof (cases hr)
    case None
    then show ?thesis using a1 by (simp add: onHostSample_def sa a1_def Let_def)
  next
    case (Some r)
    obtain agg hm where ad: "AddSample (en_emit env) r (a_agg a1) = (agg, hm)" by force
    define a2 where "a2 = a1\<lparr>a_health := AddSamples 1 (MarkOK ''host'' (a_health a1)), a_agg := agg\<rparr>"
    have "effect lib env a1 (a1\<lparr>a_health := AddSamples 1 (MarkOK ''host'' (a_health a1))\<rparr>)"
      using effect_count [OF effect_health [OF effect_refl [of lib env a1] reports_ok [OF reports_refl]]] by simp
    then have "agent_bounded (a1\<lparr>a_health := AddSamples 1 (MarkOK ''host'' (a_health a1))\<rparr>)" using effect_bounded a1 by blast
    then have "agent_bounded a2" by (simp add: a2_def agent_bounded_def)
    then have "agent_bounded (store_minute lib env hm a2)" by (rule store_minute_bounded)
    then have "agent_bounded (offer_sample lib cfg env r (capture_procs env (store_minute lib env hm a2)))"
      by (rule effect_bounded [OF effect_offer_sample [OF effect_capture_procs [OF effect_refl]]])
    moreover have "onHostSample lib cfg env a = offer_sample lib cfg env r (capture_procs env (store_minute lib env hm a2))"
      by (simp add: onHostSample_def sa Some Let_def a1_def [symmetric] ad a2_def)
    ultimately show ?thesis by simp
  qed
qed

lemma ExportBundle_frame:
  "ExportBundle lib cfg env a = (b, r) \<Longrightarrow> b = a\<lparr>a_store := a_store b\<rparr> \<and>
     (buffers_bounded (a_store a) \<longrightarrow> buffers_bounded (a_store b))"
proof -
  assume x: "ExportBundle lib cfg env a = (b, r)"
  have rot: "buffers_bounded s \<Longrightarrow> buffers_bounded (fst (Rotate f c n s))" for f c n s
    by (simp add: Rotate_def rotate_kinds_bounded)
  have rem: "buffers_bounded (remove_exported segs s) = buffers_bounded s" for segs s
    by (simp add: remove_exported_def buffers_bounded_def)
  have "buffers_bounded s \<Longrightarrow> buffers_bounded (fst (Export c (Rotate f cl n) fl bid now inp s))" for s f cl n c fl bid now inp
    using rot [of s f cl n] by (auto simp: Export_def Let_def rem split: prod.split option.split)
  then show ?thesis using x by (auto simp: ExportBundle_def Let_def split: prod.splits) (metis fst_conv)
qed

lemma maybeAutoExport_bounded: "agent_bounded a \<Longrightarrow> agent_bounded (fst (maybeAutoExport lib cfg env a))"
proof -
  assume b: "agent_bounded a"
  obtain a1 r where e: "ExportBundle lib cfg env a = (a1, r)" by force
  have a1: "agent_bounded a1" using b ExportBundle_frame [OF e] by (metis (no_types, lifting) agent.select_convs(5,6,10)
      agent.surjective agent.update_convs(5) agent_bounded_def)
  have set_day: "agent_bounded x \<Longrightarrow> agent_bounded (set_day d env x)" for x d
    by (simp add: set_day_def saveState_def agent_bounded_def)
  show ?thesis using b a1 report_all_bounded [OF a1] set_day
    by (auto simp: maybeAutoExport_def Let_def e split: sum.split)
qed

lemma agent_step_bounded: "agent_bounded a \<Longrightarrow> agent_bounded (fst (agent_step lib cfg ev env a))"
proof -
  assume b: "agent_bounded a"
  show ?thesis
  proof (cases "ev \<in> {HostTick, FlushTick, RetentionTick}")
    case False
    then show ?thesis using effect_step [of ev lib cfg env a] effect_bounded b by blast
  next
    case True
    have "agent_bounded (a\<lparr>a_store := fst (Flush (en_flush env) (a_store a))\<rparr>)"
      using effect_bounded [OF effect_flush [OF effect_refl]] b by blast
    then have "agent_bounded (fst (on_flush lib cfg env a))"
      by (auto simp: on_flush_def intro!: maybeAutoExport_bounded report_all_bounded split: prod.split)
    moreover have "agent_bounded (on_retention lib cfg env a)"
      using b report_all_bounded [OF b]
      by (simp add: on_retention_def split: option.split) (simp add: agent_bounded_def buffers_bounded_def)
    ultimately show ?thesis using True onHostSample_bounded [OF b] by auto
  qed
qed

lemma run_events_bounded: "agent_bounded a \<Longrightarrow> agent_bounded (fst (run_events lib cfg evs a))"
proof (induction evs arbitrary: a)
  case (Cons e evs)
  then show ?case using agent_step_bounded [of a lib cfg "fst e" "snd e"]
    by (cases e) (auto split: prod.split, metis fst_conv)
qed simp

text \<open>The start of \<open>Run\<close>: the state file, effects, the first sample and the first process snapshot.\<close>

definition noted_start :: "agent_env \<Rightarrow> agent \<Rightarrow> agent" where
  "noted_start env a = (if is_zero_time (ps_FirstStart (a_state a))
     then saveState env (a\<lparr>a_state := (a_state a)\<lparr>ps_FirstStart := en_now env\<rparr>\<rparr>) else a)"

lemma start_run_split:
  "\<exists>b s iss. effect lib env (noted_start env a) b \<and>
     (\<exists>hr. Sample (en_now env) (en_probes env) (a_sampler b) = (s, hr, iss)) \<and>
     start_run lib cfg env a = fst (snap_procs env (report_all (en_now env) iss (b\<lparr>a_sampler := s\<rparr>)))"
proof -
  define a1 where "a1 = noted_start env a"
  define a2 where "a2 = take_sched env (writeInventory lib cfg env a1)"
  obtain m h where r: "rescan cfg (en_sql env) (a_hostID (store_rec lib env (TSched (a_lastSched a2)) a2))
      (a_sqlmgr (store_rec lib env (TSched (a_lastSched a2)) a2), a_health (store_rec lib env (TSched (a_lastSched a2)) a2)) = (m, h)" by force
  define a3 where "a3 = (store_rec lib env (TSched (a_lastSched a2)) a2)\<lparr>a_sqlmgr := m, a_health := h\<rparr>"
  obtain s hr iss where sa: "Sample (en_now env) (en_probes env) (a_sampler a3) = (s, hr, iss)" by (metis prod.collapse)
  have "effect lib env a1 a3"
    unfolding a3_def using rescan_reports [OF r]
    by (intro effect_manager effect_store_rec) (simp_all add: a2_def effect_take_sched effect_writeInventory effect_refl)
  moreover have "start_run lib cfg env a = fst (snap_procs env (report_all (en_now env) iss (a3\<lparr>a_sampler := s\<rparr>)))"
    unfolding start_run_def begin_run_def Let_def noted_start_def [symmetric] a1_def [symmetric] a2_def [symmetric] r
    by (simp add: a3_def [symmetric] sa)
  ultimately show ?thesis using sa a1_def by blast
qed

lemma start_run_bounded:
  assumes "agent_bounded a"
  shows "agent_bounded (start_run lib cfg env a)"
proof -
  obtain b s iss where b: "effect lib env (noted_start env a) b"
    "start_run lib cfg env a = fst (snap_procs env (report_all (en_now env) iss (b\<lparr>a_sampler := s\<rparr>)))"
    using start_run_split [of lib env a cfg] by blast
  have "agent_bounded (noted_start env a)" using assms by (simp add: noted_start_def saveState_def agent_bounded_def)
  then have "agent_bounded b" by (rule effect_bounded [OF b(1)])
  then have "agent_bounded (report_all (en_now env) iss (b\<lparr>a_sampler := s\<rparr>))"
    by (intro report_all_bounded) (simp add: agent_bounded_def)
  then show ?thesis unfolding b(2) by (rule effect_bounded [OF effect_snap_procs [OF effect_refl]])
qed

text \<open>
  C11. The memory of the agent does not grow with the time it runs: from its construction on, whatever the
  operating system, the databases, the disk and the clock answer, after any sequence of events the
  health tracker holds at most 50 errors, the process history at most 30 snapshots and every spool
  buffer fewer than 512 records.
\<close>

theorem agent_memory_bounded:
  assumes "NewAgent cfg now mk self ident (s, None) cpus saved = Inr a" "s_active s = []"
    "b = fst (run_events lib cfg evs (start_run lib cfg env a))"
  shows "length (ht_errs (a_health b)) \<le> 50 \<and> length (co_history (a_procs b)) \<le> 30 \<and>
    (\<forall>k x. map_of (s_active (a_store b)) k = Some x \<longrightarrow> length (as_buf x) < 512)"
proof -
  have "agent_bounded a" using assms(1,2)
    by (auto simp: NewAgent_def agent_bounded_def newHealthTracker_def NewCollector_def buffers_bounded_def
        split: if_splits sum.splits)
  then have "agent_bounded b" unfolding assms(3) by (intro run_events_bounded start_run_bounded)
  then show ?thesis by (simp add: agent_bounded_def maxRecentErrors_def buffers_bounded_def autoFlushRecords_def)
qed

section \<open>An agent and an environment\<close>

text \<open>A host on which every probe fails, no database connects and every system call of the spool succeeds.\<close>

definition silent_probes :: probes where
  "silent_probes = \<lparr>pr_cpu = Inl ''e'', pr_cores = None, pr_load = None, pr_vm = Inl ''e'', pr_swap = None, pr_counters = Unsupported,
     pr_disk = Inl ''e'', pr_net = Inl ''e'', pr_psi = Unsupported, pr_speed = (\<lambda>n. 0)\<rparr>"

definition silent_host :: host_probes where
  "silent_host = \<lparr>hp_zone = (''UTC'', 0), hp_host = Inl ''e'', hp_cpu = Inl ''e'', hp_physical = None, hp_logical = Inl ''e'',
     hp_mem = Inl ''e'', hp_swap = None, hp_parts = Inl ''e'', hp_usage = (\<lambda>m. None), hp_interfaces = Inl ''e'',
     hp_speed_file = (\<lambda>n. None)\<rparr>"

definition calm_event :: "time \<Rightarrow> agent_env" where
  "calm_event t = \<lparr>en_now = t, en_probes = silent_probes, en_emit = \<lparr>eo_disk = id, eo_net = id\<rparr>, en_parts = None,
     en_usage = (\<lambda>m. None), en_procs = Inl ''e'', en_snap = plain_orders, en_service = (\<lambda>p. []), en_exe = (\<lambda>p. None),
     en_direct = (\<lambda>p. None), en_ids = (\<lambda>k. ''id''), en_pids = id, en_names = id,
     en_sched = \<lparr>sv_read = (\<lambda>p. None), sv_cron_d = [], sv_spool = SpoolAbsent, sv_systemctl = Inl ''e'', sv_parse = (\<lambda>s. None)\<rparr>,
     en_sql = one_detected, en_self = \<lparr>ss_RSS = None, ss_CPU = None\<rparr>, en_host = silent_host,
     en_append = (\<lambda>k s. o_append calm), en_flush = o_flush calm, en_close = o_close calm, en_fails = (\<lambda>st. False),
     en_bundle = ''b'', en_listing = None, en_save = True\<rparr>"

definition toy_lib :: agent_lib where
  "toy_lib = \<lparr>al_encode = (\<lambda>t. Some ''{a}''), al_meta_ts = small_ts, al_meta_size = (\<lambda>i. 10), al_store_error = (\<lambda>e. ''store''),
     al_export_error = (\<lambda>e. ''export''), al_codec = toy_codec, al_hash = []\<rparr>"

definition toy_config :: config where
  "toy_config = with_recipient ''age1'' (Default Unix)"

definition fresh_agent :: agent where
  "fresh_agent = projr (NewAgent toy_config 1 True True (Inr ''ura-1'') (empty_store, None) 2 None)"

lemma fresh_agent: "NewAgent toy_config 1 True True (Inr ''ura-1'') (empty_store, None) 2 None = Inr fresh_agent"
  by (simp add: fresh_agent_def NewAgent_def bundle_recipient_missing_def toy_config_def with_recipient_def)

theorem agent_memory_bounded_witness:
  "length (ht_errs (a_health (fst (run_events toy_lib toy_config [(HostTick, calm_event 5), (FlushTick, calm_event 9)]
     (start_run toy_lib toy_config (calm_event 2) fresh_agent))))) \<le> 50"
  using agent_memory_bounded [OF fresh_agent _ refl, of toy_lib "[(HostTick, calm_event 5), (FlushTick, calm_event 9)]" "calm_event 2"]
  by (simp add: empty_store_def)

end
