(* ===== verification/AgentRuns.thy ===== *)
theory AgentRuns
  imports AgentFacts
begin

text \<open>
  Whole lives of the agent: the daily export over sessions with crashes and restarts, as the refinement of
  an abstract machine whose state is a day, and that the export does happen.
\<close>

section \<open>The day of the last export\<close>

text \<open>
  The abstract machine of \<open>maybeAutoExport\<close>: its state is the day of the last export; on an event at
  time \<open>t\<close> it stays, or notes the first day, or exports.
\<close>

inductive day_step :: "string \<Rightarrow> time \<Rightarrow> time list \<Rightarrow> string \<Rightarrow> bool" where
  day_stays: "day_step d t [] d"
| day_first: "day_step [] t [] (fmt_date t)"
| day_exports: "d \<noteq> fmt_date t \<Longrightarrow> day_step d t [t] (fmt_date t)"

inductive day_run :: "string \<Rightarrow> time list \<Rightarrow> time list \<Rightarrow> string \<Rightarrow> bool" where
  day_nil: "day_run d [] [] d"
| day_cons: "day_step d t es d1 \<Longrightarrow> day_run d1 ts es' d2 \<Longrightarrow> day_run d (t # ts) (es @ es') d2"

lemma day_run_append: "day_run d ts es d1 \<Longrightarrow> day_run d1 ts' es' d2 \<Longrightarrow> day_run d (ts @ ts') (es @ es') d2"
  by (induction rule: day_run.induct) (auto intro: day_cons)

lemma day_mono: "s \<le> t \<Longrightarrow> day_number s \<le> day_number t"
  by (simp add: day_number_def hours_def minutes_def seconds_def zdiv_mono1)

lemma day_after: "s \<le> t \<Longrightarrow> fmt_date s \<noteq> fmt_date t \<Longrightarrow> day_number s < day_number t"
  using day_mono [of s t] fmt_date_same_day [of s t] by linarith

lemma day_run_days:
  assumes "day_run d ts es d'" "sorted ts"
  shows "sorted_wrt (<) (map day_number es) \<and> set es \<subseteq> set ts \<and>
    (\<forall>t0. d = fmt_date t0 \<longrightarrow> (\<forall>t \<in> set ts. t0 \<le> t) \<longrightarrow> (\<forall>e \<in> set es. day_number t0 < day_number e))"
  using assms
proof (induction rule: day_run.induct)
  case (day_cons d t es d1 ts es' d2)
  have IH: "sorted_wrt (<) (map day_number es')" "set es' \<subseteq> set ts"
    "\<And>t0 e. d1 = fmt_date t0 \<Longrightarrow> \<forall>t \<in> set ts. t0 \<le> t \<Longrightarrow> e \<in> set es' \<Longrightarrow> day_number t0 < day_number e"
    using day_cons by auto
  have le: "\<forall>u \<in> set ts. t \<le> u" using day_cons.prems by simp
  from day_cons(1) show ?case
  proof cases
    case day_stays
    then show ?thesis using IH by auto
  next
    case day_first
    then have "d1 = fmt_date t" "es = []" by simp_all
    then show ?thesis using IH(1,2) IH(3) [of t] le day_mono by fastforce
  next
    case day_exports
    have "day_number t0 < day_number t" if "d = fmt_date t0" "\<forall>u \<in> set (t # ts). t0 \<le> u" for t0
      using that day_exports day_after [of t0 t] by auto
    moreover have "d1 = fmt_date t" "es = [t]" using day_exports by simp_all
    ultimately show ?thesis using IH(1,2) IH(3) [of t] le by fastforce
  qed
qed simp

section \<open>The agent implements it\<close>

definition last_day :: "agent \<Rightarrow> string" where
  "last_day a = ps_LastExportDay (a_state a)"

definition file_day :: "agent \<Rightarrow> string" where
  "file_day a = (case a_file a of Some p \<Rightarrow> ps_LastExportDay p | None \<Rightarrow> [])"

definition same_day_state :: "agent \<Rightarrow> agent \<Rightarrow> bool" where
  "same_day_state a b \<longleftrightarrow> last_day b = last_day a \<and> file_day b = file_day a"

lemma effect_state: "effect lib env a b \<Longrightarrow> a_state b = a_state a \<and> a_file b = a_file a"
  by (induction rule: effect.induct) auto

lemma effect_same_day: "effect lib env a b \<Longrightarrow> same_day_state a b"
  using effect_state by (fastforce simp: same_day_state_def last_day_def file_day_def)

lemma report_all_same: "a_state (report_all now iss a) = a_state a" "a_file (report_all now iss a) = a_file a"
  by (simp_all add: report_all_def)

lemma store_minute_state: "a_state (store_minute lib env hm a) = a_state a" "a_file (store_minute lib env hm a) = a_file a"
  by (simp_all add: store_minute_def append_rec_eq store_rec_def report_all_def Let_def split: option.split)

lemma onHostSample_state: "a_state (onHostSample lib cfg env a) = a_state a \<and> a_file (onHostSample lib cfg env a) = a_file a"
proof -
  have "a_state (offer_sample lib cfg env r (capture_procs env b)) = a_state b \<and>
      a_file (offer_sample lib cfg env r (capture_procs env b)) = a_file b" for r b
    using effect_state [OF effect_offer_sample [OF effect_capture_procs [OF effect_refl]]] .
  then show ?thesis
    by (simp add: onHostSample_def report_all_same store_minute_state Let_def split: prod.split option.split)
qed

definition bundle_time :: "agent_env \<Rightarrow> tar_item list option \<Rightarrow> time list" where
  "bundle_time env b = (case b of Some x \<Rightarrow> [en_now env] | None \<Rightarrow> [])"

lemma maybeAutoExport_day:
  assumes "maybeAutoExport lib cfg env a = (a', b)" "en_save env" "file_day a = last_day a"
  shows "day_step (last_day a) (en_now env) (bundle_time env b) (last_day a') \<and> file_day a' = last_day a'"
proof -
  obtain a1 r where e: "ExportBundle lib cfg env a = (a1, r)" by force
  have a1: "last_day a1 = last_day a" "file_day a1 = last_day a"
    using ExportBundle_frame [OF e] assms(3) by (auto simp: last_day_def file_day_def) (metis agent.ext_inject agent.surjective agent.update_convs(5))+
  have sd: "last_day (set_day d env x) = d" "file_day (set_day d env x) = d" for d x
    using assms(2) by (simp_all add: set_day_def saveState_def last_day_def file_day_def)
  have rp: "last_day (report_all n i x) = last_day x" "file_day (report_all n i x) = file_day x" for n i x
    by (simp_all add: last_day_def file_day_def report_all_same)
  show ?thesis
    using assms(1,3) a1 day_stays [of _ "en_now env"] day_first [of "en_now env"] day_exports [of _ "en_now env"]
    by (auto simp: maybeAutoExport_def Let_def e sd rp bundle_time_def last_day_def [symmetric] split: if_splits sum.splits)
qed

lemma agent_step_day:
  assumes "agent_step lib cfg ev env a = (a', b)" "en_save env" "file_day a = last_day a"
  shows "day_step (last_day a) (en_now env) (bundle_time env b) (last_day a') \<and> file_day a' = last_day a'"
proof (cases "ev = FlushTick")
  case True
  obtain s x where f: "Flush (en_flush env) (a_store a) = (s, x)" by force
  define a1 where "a1 = report_all (en_now env) (case x of Some x \<Rightarrow> [(''store'', al_store_error lib x)] | None \<Rightarrow> []) (a\<lparr>a_store := s\<rparr>)"
  have "last_day a1 = last_day a" "file_day a1 = last_day a"
    using assms(3) by (simp_all add: a1_def last_day_def file_day_def report_all_same)
  moreover have "maybeAutoExport lib cfg env a1 = (a', b)"
    using assms(1) True by (simp add: on_flush_def f a1_def)
  ultimately show ?thesis using maybeAutoExport_day [of lib cfg env a1 a' b] assms(2) by simp
next
  case False
  have "b = None \<and> a_state a' = a_state a \<and> a_file a' = a_file a"
  proof (cases "ev \<in> {HostTick, RetentionTick}")
    case True
    then show ?thesis using assms(1) onHostSample_state [of lib cfg env a] by (auto simp: on_retention_def report_all_same split: option.split)
  next
    case other: False
    then show ?thesis using effect_step [of ev lib cfg env a] effect_state [of lib env a a'] assms(1) False by simp
  qed
  then show ?thesis using assms(3) day_stays by (auto simp: bundle_time_def last_day_def file_day_def)
qed

lemma run_events_day:
  assumes "run_events lib cfg evs a = (a', bs)" "\<forall>p \<in> set evs. en_save (snd p)" "file_day a = last_day a"
  shows "day_run (last_day a) (map (\<lambda>p. en_now (snd p)) evs) (map fst bs) (last_day a') \<and> file_day a' = last_day a'"
  using assms
proof (induction evs arbitrary: a a' bs)
  case Nil
  then show ?case by (simp add: day_nil)
next
  case (Cons e evs)
  obtain ev env where e: "e = (ev, env)" by force
  obtain a1 b where s: "agent_step lib cfg ev env a = (a1, b)" by force
  obtain a2 bs' where r: "run_events lib cfg evs a1 = (a2, bs')" by force
  have st: "day_step (last_day a) (en_now env) (bundle_time env b) (last_day a1)" "file_day a1 = last_day a1"
    using agent_step_day [OF s] Cons.prems by (auto simp: e)
  have "day_run (last_day a1) (map (\<lambda>p. en_now (snd p)) evs) (map fst bs') (last_day a2) \<and> file_day a2 = last_day a2"
    using Cons.IH [OF r] Cons.prems st(2) by simp
  then show ?case using Cons.prems(1) day_cons [OF st(1)]
    by (auto simp: e s r bundle_time_def split: option.splits)
qed

lemma start_run_same_day:
  assumes "file_day a = last_day a"
  shows "last_day (start_run lib cfg env a) = last_day a \<and> file_day (start_run lib cfg env a) = last_day a"
proof -
  obtain b s iss where b: "effect lib env (noted_start env a) b"
    "start_run lib cfg env a = fst (snap_procs env (report_all (en_now env) iss (b\<lparr>a_sampler := s\<rparr>)))"
    using start_run_split [of lib env a cfg] by blast
  have "same_day_state a (noted_start env a)"
    using assms by (simp add: noted_start_def saveState_def same_day_state_def last_day_def file_day_def split: option.splits)
  moreover have "same_day_state (noted_start env a) b" by (rule effect_same_day [OF b(1)])
  moreover have "same_day_state (report_all (en_now env) iss (b\<lparr>a_sampler := s\<rparr>)) (start_run lib cfg env a)"
    unfolding b(2) by (rule effect_same_day [OF effect_snap_procs [OF effect_refl]])
  ultimately show ?thesis using assms by (simp add: same_day_state_def last_day_def file_day_def report_all_same)
qed

section \<open>Sessions\<close>

text \<open>
  The agent is started, runs for some events and is stopped or killed; the next session starts from what
  is on the disk: the spool, as \<open>store.Open\<close> leaves it, and the state file.
\<close>

record boot =
  bt_now :: time
  bt_mkdir :: bool
  bt_self :: bool
  bt_ident :: "id_error + string"
  bt_opened :: "store \<Rightarrow> store \<times> spool_error option"
  bt_cpus :: int

definition reboot :: "config \<Rightarrow> boot \<Rightarrow> agent \<Rightarrow> new_error + agent" where
  "reboot cfg b a = NewAgent cfg (bt_now b) (bt_mkdir b) (bt_self b) (bt_ident b) (bt_opened b (a_store a)) (bt_cpus b) (a_file a)"

type_synonym session = "boot \<times> agent_env \<times> (agent_event \<times> agent_env) list"

definition session_times :: "session list \<Rightarrow> time list" where
  "session_times ss = concat (map (\<lambda>(b, env, evs). map (\<lambda>p. en_now (snd p)) evs) ss)"

fun run_sessions :: "agent_lib \<Rightarrow> config \<Rightarrow> session list \<Rightarrow> agent \<Rightarrow> (time \<times> tar_item list) list" where
  "run_sessions lib cfg [] a = []"
| "run_sessions lib cfg ((b, env, evs) # ss) a =
     (case reboot cfg b a of
        Inl e \<Rightarrow> run_sessions lib cfg ss a
      | Inr a \<Rightarrow> (case run_events lib cfg evs (start_run lib cfg env a) of
          (a, bs) \<Rightarrow> bs @ run_sessions lib cfg ss a))"

lemma day_run_idle: "day_run d ts [] d"
  by (induction ts) (auto intro: day_nil day_cons [OF day_stays, simplified])

lemma reboot_day:
  assumes "reboot cfg b a = Inr a1"
  shows "last_day a1 = file_day a \<and> file_day a1 = file_day a"
  using assms by (auto simp: reboot_def NewAgent_def loadState_def last_day_def file_day_def split: if_splits sum.splits prod.splits option.splits)

lemma run_sessions_day:
  assumes "\<forall>(b, env, evs) \<in> set ss. \<forall>p \<in> set evs. en_save (snd p)"
  shows "\<exists>d. day_run (file_day a) (session_times ss) (map fst (run_sessions lib cfg ss a)) d"
  using assms
proof (induction ss arbitrary: a)
  case Nil
  then show ?case by (auto simp: session_times_def intro: day_nil)
next
  case (Cons x ss)
  obtain b env evs where x: "x = (b, env, evs)" by (metis prod.collapse)
  show ?case
  proof (cases "reboot cfg b a")
    case (Inl e)
    then show ?thesis using Cons.IH [of a] Cons.prems day_run_append [OF day_run_idle]
      by (fastforce simp: x session_times_def)
  next
    case (Inr a1)
    obtain a2 bs where r: "run_events lib cfg evs (start_run lib cfg env a1) = (a2, bs)" by force
    have "file_day a1 = last_day a1" "last_day a1 = file_day a" using reboot_day [OF Inr] by simp_all
    then have "day_run (file_day a) (map (\<lambda>p. en_now (snd p)) evs) (map fst bs) (last_day a2) \<and> file_day a2 = last_day a2"
      using run_events_day [OF r] start_run_same_day [of a1 lib cfg env] Cons.prems by (simp add: x)
    moreover obtain d where "day_run (file_day a2) (session_times ss) (map fst (run_sessions lib cfg ss a2)) d"
      using Cons.IH [of a2] Cons.prems by auto
    ultimately have "day_run (file_day a) (map (\<lambda>p. en_now (snd p)) evs @ session_times ss)
        (map fst bs @ map fst (run_sessions lib cfg ss a2)) d"
      by (metis day_run_append)
    then show ?thesis by (auto simp: x Inr r session_times_def)
  qed
qed


definition two_sessions :: "session list" where
  "two_sessions =
     (let b = \<lparr>bt_now = 1, bt_mkdir = True, bt_self = True, bt_ident = Inr ''ura-1'', bt_opened = (\<lambda>s. (s, None)), bt_cpus = 2\<rparr>
      in [(b, calm_event 2, [(FlushTick, calm_event (hours 12)), (HostTick, calm_event (hours 12))]),
          (b, calm_event (hours 20), [(FlushTick, calm_event (hours 40)), (FlushTick, calm_event (hours 41))])])"


section \<open>The export happens\<close>

definition calls_ok :: "agent_env \<Rightarrow> bool" where
  "calls_ok env \<longleftrightarrow> (\<forall>k s. (\<exists>n. e_rotate_flush (en_append env k s) = FlushOK n) \<and> e_rotate_close (en_append env k s) = CloseOK \<and>
       (\<exists>n. e_auto_flush (en_append env k s) = FlushOK n)) \<and>
     (\<forall>k. \<exists>n. en_flush env k = FlushOK n) \<and> (\<forall>k. en_close env k = CloseOK)"

lemma closed_log_listed:
  assumes "disk_ok valid meta_ts (s_disk s)" "closed_log junk valid (s_disk s) k \<noteq> []"
  shows "ListClosed (s_disk s) \<noteq> []"
proof -
  have "dk_meta (s_disk s) \<noteq> []" using assms(2) by (auto simp: closed_log_def)
  then obtain p where p: "p \<in> set (dk_meta (s_disk s))" by (meson list.set_sel(1))
  then have "closed_ok valid meta_ts (s_disk s) p" using assms(1) by (simp add: disk_ok_def list_all_iff)
  then have "snd p \<in> set (ListClosed (s_disk s))" using p by (auto simp: ListClosed_def closed_ok_def seg_name_def)
  then show ?thesis by auto
qed

lemma Rotate_all:
  assumes "spool_inv valid meta_ts s" "\<forall>k. \<exists>n. fout k = FlushOK n" "\<forall>k. cout k = CloseOK" "Rotate fout cout now s = (s1, e)"
  shows "e = None \<and> spool_inv valid meta_ts s1 \<and> s_active s1 = [] \<and>
    (\<forall>k. closed_log junk valid (s_disk s1) k = spool_log junk valid s k)"
proof -
  have R: "keeps junk valid meta_ts (s1, e) (spool_log junk valid s)"
    "\<And>k. map_of (s_active s1) k = (if k \<in> fst ` set (s_active s) then None else map_of (s_active s) k)"
    using rotate_kinds_keeps [OF assms(1-3), of junk now "map fst (s_active s)"] assms(4) by (simp_all add: Rotate_def)
  have none: "map_of (s_active s1) k = None" for k using R(2) [of k] by (auto simp: map_of_eq_None_iff)
  then have "s_active s1 = []" by (metis map_of_eq_empty_iff ext)
  moreover have "closed_log junk valid (s_disk s1) k = spool_log junk valid s k" for k
    using R(1) no_segment_log [of valid meta_ts s1 k junk] none by (simp add: keeps_def)
  ultimately show ?thesis using R(1) by (simp add: keeps_def)
qed

text \<open>
  C13. The daily export happens: at a flush tick on a later day than the last export, after ten minutes past
  midnight, with a non-empty spool whose system calls succeed, the agent writes a bundle and notes the
  day.
\<close>

theorem daily_export_happens:
  assumes "ex_AutoDaily (c_Export cfg)" "ps_LastExportDay (a_state a) \<noteq> []"
    "ps_LastExportDay (a_state a) \<noteq> fmt_date (en_now env)" "hour_of_day (en_now env) = 0 \<longrightarrow> 10 \<le> minute_of_hour (en_now env)"
    "spool_inv valid meta_ts (a_store a)" "spool_log junk valid (a_store a) k \<noteq> []" "calls_ok env" "\<forall>st. \<not> en_fails env st"
    "agent_step lib cfg FlushTick env a = (a', b)"
  shows "b \<noteq> None \<and> ps_LastExportDay (a_state a') = fmt_date (en_now env)"
proof -
  obtain s e where f: "Flush (en_flush env) (a_store a) = (s, e)" by force
  have "keeps junk valid meta_ts (s, e) (spool_log junk valid (a_store a))"
    using flush_kinds_keeps [OF assms(5), of "en_flush env" junk] assms(7) by (simp add: Flush_def calls_ok_def flip: f)
  then have s: "e = None" "spool_inv valid meta_ts s" "spool_log junk valid s k \<noteq> []"
    using assms(6) by (simp_all add: keeps_def)
  define a1 where "a1 = report_all (en_now env) [] (a\<lparr>a_store := s\<rparr>)"
  have a1: "a_store a1 = s" "a_state a1 = a_state a" by (simp_all add: a1_def report_all_def)
  obtain s1 x where r: "Rotate (en_flush env) (en_close env) (en_now env) s = (s1, x)" by force
  have R: "x = None" "spool_inv valid meta_ts s1" "closed_log junk valid (s_disk s1) k \<noteq> []"
    using Rotate_all [OF s(2) _ _ r, of junk] assms(7) s(3) by (auto simp: calls_ok_def)
  then have "ListClosed (s_disk s1) \<noteq> []" using closed_log_listed [of valid meta_ts s1 junk k] by (auto simp: spool_inv_def)
  moreover have "first_failure (en_fails env) st = None" for st
    using assms(8) by (simp add: first_failure_def find_None_iff)
  ultimately obtain s2 items where "ExportBundle lib cfg env a1 = (a1\<lparr>a_store := s2\<rparr>, Inr items)"
    by (auto simp: ExportBundle_def Export_def Let_def a1 r R(1))
  moreover have "\<not> (hour_of_day (en_now env) = 0 \<and> minute_of_hour (en_now env) < 10)" using assms(4) by auto
  ultimately have "maybeAutoExport lib cfg env a1 = (set_day (fmt_date (en_now env)) env (a1\<lparr>a_store := s2\<rparr>), Some items)"
    unfolding maybeAutoExport_def Let_def using assms(1-3) by (simp add: a1)
  moreover have "(a', b) = maybeAutoExport lib cfg env a1" using assms(9) by (simp add: on_flush_def f s(1) a1_def)
  ultimately show ?thesis by (simp add: set_day_def saveState_def)
qed

definition waiting_agent :: agent where
  "waiting_agent = fresh_agent\<lparr>a_state := \<lparr>ps_FirstStart = 1, ps_LastExportDay = ''00010101''\<rparr>,
     a_store := run_spool small_ts [OpAppend calm ''k'' ''{a}''] empty_store\<rparr>"

theorem daily_export_happens_witness:
  "snd (agent_step toy_lib toy_config FlushTick (calm_event (hours 36)) waiting_agent) \<noteq> None"
proof -
  let ?s = "run_spool small_ts [OpAppend calm ''k'' ''{a}''] empty_store"
  have ok: "list_all (op_ok env_ok (rec_ok small_json small_ts)) [OpAppend calm ''k'' ''{a}'']"
    using small_ops_ok by (simp add: small_ops_def rec_ok_def small_records small_ts_def)
  have log: "spool_log (\<lambda>f. []) small_json ?s ''k'' \<noteq> []" using run_spool_log [OF ok, of "\<lambda>f. []" "''k''"] by simp
  have day: "fmt_date (hours 36) = ''00010102''" by code_simp
  have hr: "hour_of_day (hours 36) = 12" by code_simp
  obtain a b where st: "agent_step toy_lib toy_config FlushTick (calm_event (hours 36)) waiting_agent = (a, b)" by force
  have cfg: "ex_AutoDaily (c_Export toy_config)" by (simp add: toy_config_def with_recipient_def Default_def)
  have "b \<noteq> None"
    using daily_export_happens [OF cfg _ _ _ _ _ _ _ st, of small_json small_ts "\<lambda>f. []" "''k''", THEN conjunct1]
      log run_spool_inv [OF ok] day hr
    by (simp add: waiting_agent_def calm_event_def calls_ok_def calm_def)
  then show ?thesis unfolding st snd_conv .
qed

end
