(* ===== verification/AgentMinutes.thy ===== *)
theory AgentMinutes
  imports AgentRuns
begin

text \<open>
  The way of a host sample: from the probes through the sampler and the minute aggregation into the closed
  segments of the spool, over a whole session of the agent.
\<close>

section \<open>The encoder and the spool\<close>

text \<open>
  What the JSON encoder is relied on for: a record it encodes is one line of JSON that fits the scanner of the
  reader, and its time is missing, zero or after year one.
\<close>

definition encodes :: "agent_lib \<Rightarrow> (string \<Rightarrow> bool) \<Rightarrow> bool" where
  "encodes lib valid \<longleftrightarrow>
     (\<forall>t b. al_encode lib t = Some b \<longrightarrow> al_meta_ts lib b = None \<or> al_meta_ts lib b = Some 0 \<or> rec_ok valid (al_meta_ts lib) b)"

text \<open>A minute that is encoded with its time.\<close>

definition encoded :: "agent_lib \<Rightarrow> (string \<Rightarrow> bool) \<Rightarrow> host_minute \<Rightarrow> bool" where
  "encoded lib valid m \<longleftrightarrow> (\<exists>b. al_encode lib (THostMinute m) = Some b \<and> rec_ok valid (al_meta_ts lib) b)"

definition stored :: "agent_lib \<Rightarrow> host_minute \<Rightarrow> string" where
  "stored lib m = the (al_encode lib (THostMinute m))"

text \<open>A log that only gained encoded records of its kind.\<close>

definition written :: "agent_lib \<Rightarrow> string \<Rightarrow> string \<Rightarrow> bool" where
  "written lib k r \<longleftrightarrow> (\<exists>t. kind_of t = k \<and> al_encode lib t = Some r)"

definition gained :: "agent_lib \<Rightarrow> string \<Rightarrow> string list \<Rightarrow> string list \<Rightarrow> bool" where
  "gained lib k xs ys \<longleftrightarrow> (\<exists>rs. ys = xs @ rs \<and> list_all (written lib k) rs)"

lemma gained_refl [simp]: "gained lib k xs xs"
  by (simp add: gained_def)

lemma gained_trans: "gained lib k xs ys \<Longrightarrow> gained lib k ys zs \<Longrightarrow> gained lib k xs zs"
  by (auto simp: gained_def)

lemma gained_record: "al_encode lib t = Some r \<Longrightarrow> kind_of t = k' \<Longrightarrow> gained lib k xs (xs @ (if k' = k then [r] else []))"
  by (auto simp: gained_def written_def)

lemma calls_env_ok:
  "calls_ok env \<Longrightarrow> env_ok \<lparr>o_append = en_append env k s, o_flush = en_flush env, o_close = en_close env\<rparr>"
  by (simp add: calls_ok_def env_ok_def)

lemma Append_good:
  assumes "spool_inv valid meta_ts s" "calls_ok env" "rec_ok valid meta_ts b"
  shows "keeps junk valid meta_ts (Append (en_append env k' s') meta_ts kind (Some b) s)
    (\<lambda>k. spool_log junk valid s k @ (if kind = k then [b] else []))"
  using Append_keeps [OF assms(1) calls_env_ok [OF assms(2), of k' s'] assms(3)] by simp

text \<open>The logs of the spool and its invariant, before and after.\<close>

definition grows :: "agent_lib \<Rightarrow> (chunk list \<Rightarrow> string) \<Rightarrow> (string \<Rightarrow> bool) \<Rightarrow> agent \<Rightarrow> agent \<Rightarrow> host_minute list \<Rightarrow> bool" where
  "grows lib junk valid a b ms \<longleftrightarrow> spool_inv valid (al_meta_ts lib) (a_store b) \<and>
     spool_log junk valid (a_store b) KindHostMinute = spool_log junk valid (a_store a) KindHostMinute @ map (stored lib) ms \<and>
     (\<forall>k. gained lib k (spool_log junk valid (a_store a) k) (spool_log junk valid (a_store b) k))"

lemma grows_trans: "grows lib junk valid a b ms \<Longrightarrow> grows lib junk valid b c ms' \<Longrightarrow> grows lib junk valid a c (ms @ ms')"
  unfolding grows_def using gained_trans by fastforce

lemma grows_cong: "grows lib junk valid a b ms \<Longrightarrow> a_store a' = a_store a \<Longrightarrow> a_store b' = a_store b \<Longrightarrow> grows lib junk valid a' b' ms"
  by (simp add: grows_def)

lemma grows_same: "spool_inv valid (al_meta_ts lib) (a_store a) \<Longrightarrow> a_store b = a_store a \<Longrightarrow> grows lib junk valid a b []"
  by (simp add: grows_def)

lemma store_other:
  assumes "spool_inv valid (al_meta_ts lib) (a_store b)" "calls_ok env" "encodes lib valid" "kind_of t \<noteq> KindHostMinute"
    "s = fst (Append (en_append env k' s') (al_meta_ts lib) (kind_of t) (al_encode lib t) (a_store b))"
  shows "spool_inv valid (al_meta_ts lib) s \<and>
    spool_log junk valid s KindHostMinute = spool_log junk valid (a_store b) KindHostMinute \<and>
    (\<forall>k. gained lib k (spool_log junk valid (a_store b) k) (spool_log junk valid s k))"
proof (cases "\<exists>r. al_encode lib t = Some r \<and> rec_ok valid (al_meta_ts lib) r")
  case True
  then obtain r where r: "al_encode lib t = Some r" "rec_ok valid (al_meta_ts lib) r" by blast
  show ?thesis
    using Append_good [OF assms(1,2) r(2), of junk k' s' "kind_of t"] assms(4) gained_record [OF r(1) refl]
    by (auto simp: keeps_def r(1) assms(5))
next
  case False
  then have "al_encode lib t = None \<or> (\<exists>r. al_encode lib t = Some r \<and> (al_meta_ts lib r = None \<or> al_meta_ts lib r = Some 0))"
    using assms(3) unfolding encodes_def by (metis not_None_eq)
  then have "s = a_store b" by (auto simp: Append_def assms(5))
  then show ?thesis using assms(1) by simp
qed

lemma flush_other:
  assumes "spool_inv valid meta_ts s" "calls_ok env"
  shows "keeps junk valid meta_ts (Flush (en_flush env) s) (spool_log junk valid s)"
  using flush_kinds_keeps [OF assms(1)] assms(2) by (simp add: Flush_def calls_ok_def)

lemma effect_grows:
  assumes "effect lib env a b" "calls_ok env" "encodes lib valid" "spool_inv valid (al_meta_ts lib) (a_store a)"
  shows "grows lib junk valid a b []"
  using assms(1,4)
proof (induction rule: effect.induct)
  case (effect_append a b t)
  then show ?case using store_other [OF _ assms(2,3) effect_append(2) refl, of b] gained_trans by (fastforce simp: grows_def)
next
  case (effect_flush a b)
  then show ?case using flush_other [OF _ assms(2), of valid "al_meta_ts lib" "a_store b" junk] by (simp add: grows_def keeps_def)
qed (simp_all add: grows_def)

lemma effect_host: "effect lib env a b \<Longrightarrow> a_sampler b = a_sampler a \<and> a_agg b = a_agg a"
  by (induction rule: effect.induct) auto

section \<open>Minutes\<close>

definition strip_fs :: "host_minute \<Rightarrow> host_minute" where
  "strip_fs m = m\<lparr>hm_FS := []\<rparr>"

lemma strip_emit: "strip_fs (emit ord m) = emit ord m" "strip_fs (AttachFS p u m') = strip_fs m'" "m_TS (AttachFS p u m') = m_TS m'"
  by (simp_all add: strip_fs_def emit_def Let_def roundAggs_def meta.defs AttachFS_def split: option.split)

lemma append_minute_grows:
  assumes "spool_inv valid (al_meta_ts lib) (a_store a)" "calls_ok env" "encoded lib valid m"
  shows "grows lib junk valid a (append_rec lib env (THostMinute m) a) [m] \<and>
    a_sampler (append_rec lib env (THostMinute m) a) = a_sampler a \<and> a_agg (append_rec lib env (THostMinute m) a) = a_agg a"
proof -
  obtain b where b: "al_encode lib (THostMinute m) = Some b" "rec_ok valid (al_meta_ts lib) b"
    using assms(3) by (auto simp: encoded_def)
  then have st: "stored lib m = b" by (simp add: stored_def)
  obtain s e where ap: "Append (en_append env KindHostMinute (a_store a)) (al_meta_ts lib) KindHostMinute (Some b) (a_store a) = (s, e)"
    by force
  have "keeps junk valid (al_meta_ts lib) (s, e) (\<lambda>k. spool_log junk valid (a_store a) k @ (if KindHostMinute = k then [b] else []))"
    using Append_good [OF assms(1,2) b(2)] unfolding ap [symmetric] .
  then show ?thesis using gained_record [OF b(1) kind_of.simps(2)]
    by (simp add: append_rec_def kind_of.simps b(1) ap keeps_def grows_def st)
qed

definition attached :: "agent_env \<Rightarrow> host_minute option \<Rightarrow> host_minute list" where
  "attached env hm = (case hm of Some m \<Rightarrow> [AttachFS (en_parts env) (en_usage env) m] | None \<Rightarrow> [])"

lemma store_minute_grows:
  assumes "spool_inv valid (al_meta_ts lib) (a_store a)" "calls_ok env" "list_all (encoded lib valid) (attached env hm)"
  shows "grows lib junk valid a (store_minute lib env hm a) (attached env hm) \<and>
    a_sampler (store_minute lib env hm a) = a_sampler a \<and> a_agg (store_minute lib env hm a) = a_agg a"
proof (cases hm)
  case None
  then show ?thesis using assms(1) by (simp add: store_minute_def attached_def grows_same)
next
  case (Some m)
  with assms(3) have "encoded lib valid (AttachFS (en_parts env) (en_usage env) m)" by (simp add: attached_def)
  from append_minute_grows [OF assms(1,2) this, of junk] show ?thesis
    by (simp add: store_minute_def Some Let_def attached_def grows_def)
qed

section \<open>Samples\<close>

lemma Sample_TS: "Sample now p s = (s', Some hr, iss) \<Longrightarrow> hr_TS hr = now"
proof -
  have steps: "hr_TS (fst (snd (sample_cpu p f st))) = hr_TS (fst (snd st))" "hr_TS (fst (snd (sample_cores p f st))) = hr_TS (fst (snd st))"
    "hr_TS (fst (snd (sample_mem p st))) = hr_TS (fst (snd st))" "hr_TS (fst (snd (sample_vm p f el st))) = hr_TS (fst (snd st))"
    "hr_TS (fst (snd (sample_disk p f el st))) = hr_TS (fst (snd st))" "hr_TS (fst (snd (sample_net p f el st))) = hr_TS (fst (snd st))"
    "hr_TS (fst (snd (sample_psi p st))) = hr_TS (fst (snd st))" for f el st
    by (cases st, simp add: sample_cpu_def sample_cores_def sample_mem_def sample_vm_def sample_disk_def sample_net_def sample_psi_def Let_def
        split: sum.split list.split option.split prod.split probe.split)+
  define el where "el = dur_seconds (time_sub now (sm_prevTS s))"
  define first where "first = is_zero_time (sm_prevTS s)"
  have "hr_TS (fst (snd (sample_psi p (sample_net p first el (sample_disk p first el (sample_vm p first el
      (sample_mem p (sample_cores p first (sample_cpu p first (s, empty_hr now, [])))))))))) = now"
    by (simp only: steps fst_conv snd_conv) (simp add: empty_hr_def)
  moreover assume "Sample now p s = (s', Some hr, iss)"
  ultimately show ?thesis
    unfolding Sample_def Let_def el_def [symmetric] first_def [symmetric] by (auto split: prod.splits if_splits)
qed

text \<open>The samples that the host ticks of a run produce.\<close>

fun samples_taken :: "(agent_event \<times> agent_env) list \<Rightarrow> sampler \<Rightarrow> high_res list" where
  "samples_taken [] s = []"
| "samples_taken ((ev, env) # rest) s =
     (if ev = HostTick then (case Sample (en_now env) (en_probes env) s of
        (s, hr, iss) \<Rightarrow> (case hr of Some x \<Rightarrow> [x] | None \<Rightarrow> []) @ samples_taken rest s)
      else samples_taken rest s)"

definition event_ok :: "emit_orders \<Rightarrow> agent_event \<times> agent_env \<Rightarrow> bool" where
  "event_ok ord p \<longleftrightarrow> fst p \<noteq> RetentionTick \<and> calls_ok (snd p) \<and> en_emit (snd p) = ord \<and> minutes 1 \<le> en_now (snd p)"

lemma samples_late: "\<forall>p \<in> set evs. minutes 1 \<le> en_now (snd p) \<Longrightarrow> \<forall>x \<in> set (samples_taken evs s). minutes 1 \<le> hr_TS x"
  by (induction evs s rule: samples_taken.induct) (auto split: prod.splits option.splits dest!: Sample_TS [OF sym])

text \<open>What one host tick makes of the sampler and the aggregation, and the minutes of a session with the last, partial one.\<close>

definition host_tick :: "emit_orders \<Rightarrow> agent_env \<Rightarrow> sampler \<Rightarrow> minute_agg \<Rightarrow> sampler \<times> minute_agg \<times> host_minute list" where
  "host_tick ord env s m =
     (case Sample (en_now env) (en_probes env) s of
        (s, hr, iss) \<Rightarrow> (case hr of None \<Rightarrow> (s, m, [])
           | Some x \<Rightarrow> (case AddSample ord x m of (m, out) \<Rightarrow> (s, m, attached env out))))"

definition partial_minute :: "emit_orders \<Rightarrow> minute_agg \<Rightarrow> host_minute list" where
  "partial_minute ord m = (case snd (FlushPartial ord m) of Some hm \<Rightarrow> [hm] | None \<Rightarrow> [])"

fun session_minutes :: "emit_orders \<Rightarrow> (agent_event \<times> agent_env) list \<Rightarrow> sampler \<Rightarrow> minute_agg \<Rightarrow> host_minute list" where
  "session_minutes ord [] s m = partial_minute ord m"
| "session_minutes ord ((ev, env) # rest) s m =
     (if ev = HostTick then (case host_tick ord env s m of (s, m, ms) \<Rightarrow> ms @ session_minutes ord rest s m)
      else session_minutes ord rest s m)"

text \<open>But for the file systems they are the aggregates of the samples.\<close>

lemma AddSample_strip: "AddSample ord hr m = (m', Some x) \<Longrightarrow> strip_fs x = x"
  by (auto simp: AddSample_def Let_def strip_emit split: if_splits)

lemma session_minutes_strip:
  "map strip_fs (session_minutes ord evs s m) = all_minutes ord (samples_taken evs s) m"
proof (induction ord evs s m rule: session_minutes.induct)
  case (1 ord s m)
  then show ?case
    by (auto simp: all_minutes_def partial_minute_def FlushPartial_def strip_emit split: option.split)
next
  case (2 ord ev env rest s m)
  obtain s' hr iss where sa: "Sample (en_now env) (en_probes env) s = (s', hr, iss)" by (metis prod.collapse)
  show ?case
  proof (cases "ev = HostTick \<and> hr \<noteq> None")
    case True
    then obtain x where hr: "hr = Some x" "ev = HostTick" by auto
    obtain m' out where ad: "AddSample ord x m = (m', out)" by force
    have "map strip_fs (attached env out) = (case out of Some hm \<Rightarrow> [hm] | None \<Rightarrow> [])"
      using AddSample_strip ad by (auto simp: attached_def strip_emit split: option.split)
    moreover have "map strip_fs (session_minutes ord rest s' m') = all_minutes ord (samples_taken rest s') m'"
      using 2(1) [OF hr(2), of s' "(m', attached env out)" m' "attached env out"] by (simp add: host_tick_def sa hr ad)
    ultimately show ?thesis using hr sa ad by (auto simp: host_tick_def all_minutes_def split: prod.split option.split)
  next
    case False
    then show ?thesis using 2 sa by (auto simp: host_tick_def split: option.split)
  qed
qed

text \<open>One host tick: what the aggregation emits is stored.\<close>

lemma onHostSample_grows:
  assumes "spool_inv valid (al_meta_ts lib) (a_store a)" "encodes lib valid" "event_ok ord (HostTick, env)"
    "host_tick ord env (a_sampler a) (a_agg a) = (s, agg, ms)" "list_all (encoded lib valid) ms" "b = onHostSample lib cfg env a"
  shows "grows lib junk valid a b ms \<and> a_sampler b = s \<and> a_agg b = agg"
proof -
  have ok: "calls_ok env" "en_emit env = ord" using assms(3) by (simp_all add: event_ok_def)
  obtain s' hr iss where sa: "Sample (en_now env) (en_probes env) (a_sampler a) = (s', hr, iss)" by (metis prod.collapse)
  define a1 where "a1 = report_all (en_now env) iss (a\<lparr>a_sampler := s'\<rparr>)"
  have a1: "a_store a1 = a_store a" "a_sampler a1 = s'" "a_agg a1 = a_agg a" by (simp_all add: a1_def report_all_def)
  show ?thesis
  proof (cases hr)
    case None
    then have "b = a1" using assms(6) by (simp add: onHostSample_def sa a1_def Let_def)
    then show ?thesis using None assms(1,4) a1 by (simp add: host_tick_def sa grows_same)
  next
    case (Some r)
    obtain m' hm where ad: "AddSample ord r (a_agg a) = (m', hm)" by force
    then have eq: "s = s'" "agg = m'" "ms = attached env hm" using assms(4) by (simp_all add: host_tick_def sa Some)
    define a2 where "a2 = a1\<lparr>a_health := AddSamples 1 (MarkOK ''host'' (a_health a1)), a_agg := m'\<rparr>"
    have a2: "spool_inv valid (al_meta_ts lib) (a_store a2)" "a_store a2 = a_store a" "a_sampler a2 = s'" "a_agg a2 = m'"
      using assms(1) a1 by (simp_all add: a2_def)
    define a3 where "a3 = store_minute lib env hm a2"
    have ms: "grows lib junk valid a2 a3 ms" "a_sampler a3 = s" "a_agg a3 = agg"
      using store_minute_grows [OF a2(1) ok(1), of hm junk] assms(5) a2(3,4) unfolding a3_def eq by auto
    have b: "b = offer_sample lib cfg env r (capture_procs env a3)"
      unfolding assms(6) onHostSample_def sa prod.case Some option.case Let_def a1_def [symmetric] a1(3) ok(2)
      by (simp add: a1(3) ok(2) ad a3_def a2_def)
    have e: "effect lib env a3 b" unfolding b by (rule effect_offer_sample [OF effect_capture_procs [OF effect_refl]])
    have "grows lib junk valid a3 b []" using effect_grows [OF e ok(1) assms(2)] ms(1) by (simp add: grows_def)
    then have "grows lib junk valid a b ms" using grows_trans [OF ms(1)] a2(2) by (fastforce intro: grows_cong)
    then show ?thesis using ms effect_host [OF e] by auto
  qed
qed

text \<open>Every other event leaves the host minutes alone.\<close>

lemma other_event_grows:
  assumes "spool_inv valid (al_meta_ts lib) (a_store a)" "encodes lib valid" "event_ok ord (ev, env)" "ev \<noteq> HostTick"
    "\<not> ex_AutoDaily (c_Export cfg)" "b = fst (agent_step lib cfg ev env a)"
  shows "grows lib junk valid a b [] \<and> a_sampler b = a_sampler a \<and> a_agg b = a_agg a"
proof -
  have "effect lib env a b"
  proof (cases "ev = FlushTick")
    case True
    obtain s x where f: "Flush (en_flush env) (a_store a) = (s, x)" by force
    have "effect lib env a (a\<lparr>a_store := s\<rparr>)" using effect_flush [OF effect_refl [of lib env a]] by (simp add: f)
    then show ?thesis using assms(5) by (simp add: assms(6) True on_flush_def f maybeAutoExport_def Let_def effect_report_all)
  next
    case False
    then show ?thesis using effect_step [of ev lib cfg env a] assms(3,4) by (simp add: assms(6) event_ok_def)
  qed
  then show ?thesis using effect_grows assms(1-3) effect_host by (simp add: event_ok_def)
qed

lemma run_events_grows:
  assumes "spool_inv valid (al_meta_ts lib) (a_store a)" "encodes lib valid" "list_all (event_ok ord) evs"
    "\<not> ex_AutoDaily (c_Export cfg)" "list_all (encoded lib valid) (session_minutes ord evs (a_sampler a) (a_agg a))"
    "b = fst (run_events lib cfg evs a)"
  shows "\<exists>ms. grows lib junk valid a b ms \<and> session_minutes ord evs (a_sampler a) (a_agg a) = ms @ partial_minute ord (a_agg b)"
  using assms
proof (induction evs arbitrary: a)
  case Nil
  then show ?case by (intro exI [of _ "[]"]) (simp add: grows_same)
next
  case (Cons p evs)
  obtain ev env where p: "p = (ev, env)" by force
  define a1 where "a1 = fst (agent_step lib cfg ev env a)"
  obtain s1 m1 ms1 where one: "session_minutes ord (p # evs) (a_sampler a) (a_agg a) = ms1 @ session_minutes ord evs s1 m1"
    "grows lib junk valid a a1 ms1" "a_sampler a1 = s1" "a_agg a1 = m1"
  proof (cases "ev = HostTick")
    case True
    obtain s1 m1 ms1 where h: "host_tick ord env (a_sampler a) (a_agg a) = (s1, m1, ms1)" by (metis prod.collapse)
    with onHostSample_grows [OF Cons.prems(1,2) _ h, where b = a1 and cfg = cfg and junk = junk] Cons.prems(3,5)
    show ?thesis using that [of ms1 s1 m1] by (simp add: p True a1_def)
  next
    case False
    then show ?thesis
      using other_event_grows [OF Cons.prems(1,2) _ False Cons.prems(4) a1_def, where ord = ord and junk = junk] Cons.prems(3)
        that [of "[]"] by (simp add: p)
  qed
  have "b = fst (run_events lib cfg evs a1)" using Cons.prems(6) by (simp add: p a1_def split: prod.split)
  then obtain ms2 where ms2: "grows lib junk valid a1 b ms2" "session_minutes ord evs s1 m1 = ms2 @ partial_minute ord (a_agg b)"
    using Cons.IH [of a1] Cons.prems(2-5) one by (auto simp: grows_def)
  then show ?case using grows_trans [OF one(2) ms2(1)] one(1) by (intro exI [of _ "ms1 @ ms2"]) simp
qed

section \<open>A session\<close>

lemma start_run_grows:
  assumes "spool_inv valid (al_meta_ts lib) (a_store a)" "calls_ok env" "encodes lib valid"
  shows "grows lib junk valid a (start_run lib cfg env a) [] \<and> a_agg (start_run lib cfg env a) = a_agg a"
proof -
  obtain b s iss where b: "effect lib env (noted_start env a) b"
    "start_run lib cfg env a = fst (snap_procs env (report_all (en_now env) iss (b\<lparr>a_sampler := s\<rparr>)))"
    using start_run_split [of lib env a cfg] by blast
  define c where "c = report_all (en_now env) iss (b\<lparr>a_sampler := s\<rparr>)"
  have c: "a_store c = a_store b" "a_agg c = a_agg b" by (simp_all add: c_def report_all_def)
  have e: "effect lib env c (start_run lib cfg env a)" unfolding b(2) c_def by (rule effect_snap_procs [OF effect_refl])
  have n: "a_store (noted_start env a) = a_store a" "a_agg (noted_start env a) = a_agg a"
    by (simp_all add: noted_start_def saveState_def)
  have g: "grows lib junk valid a b []" using effect_grows [OF b(1) assms(2,3)] assms(1) n(1) by (simp add: grows_def)
  moreover have "grows lib junk valid b (start_run lib cfg env a) []"
    using effect_grows [OF e assms(2,3)] c(1) g by (simp add: grows_def)
  ultimately have "grows lib junk valid a (start_run lib cfg env a) []" using grows_trans by fastforce
  then show ?thesis using c n effect_host [OF e] effect_host [OF b(1)] by simp
qed

lemma shutdown_grows:
  assumes "spool_inv valid (al_meta_ts lib) (a_store a)" "calls_ok env" "encodes lib valid"
    "list_all (encoded lib valid) (partial_minute (en_emit env) (a_agg a))" "shutdown lib env a = (c, e)"
  shows "e = None \<and> s_active (a_store c) = [] \<and> grows lib junk valid a c (partial_minute (en_emit env) (a_agg a)) \<and>
    (\<forall>k. closed_log junk valid (s_disk (a_store c)) k = spool_log junk valid (a_store c) k)"
proof -
  obtain agg hm where p: "FlushPartial (en_emit env) (a_agg a) = (agg, hm)" by force
  define a1 where "a1 = (case hm of Some x \<Rightarrow> append_rec lib env (THostMinute x) (a\<lparr>a_agg := agg\<rparr>) | None \<Rightarrow> a\<lparr>a_agg := agg\<rparr>)"
  have inv: "spool_inv valid (al_meta_ts lib) (a_store (a\<lparr>a_agg := agg\<rparr>))" using assms(1) by simp
  have same: "grows lib junk valid (a\<lparr>a_agg := agg\<rparr>) b ms = grows lib junk valid a b ms" for b ms by (simp add: grows_def)
  have g1: "grows lib junk valid a a1 (partial_minute (en_emit env) (a_agg a))"
    using append_minute_grows [OF inv assms(2), where junk = junk] assms(1,4)
    by (auto simp: a1_def partial_minute_def p grows_same same split: option.split)
  define a2 where "a2 = on_health lib env a1"
  have g2: "grows lib junk valid a1 a2 []"
    using effect_grows [OF effect_on_health [OF effect_refl] assms(2,3)] g1 by (simp add: a2_def grows_def)
  obtain s x where f: "Flush (en_flush env) (a_store a2) = (s, x)" by force
  have fl: "x = None" "spool_inv valid (al_meta_ts lib) s" "\<And>k. spool_log junk valid s k = spool_log junk valid (a_store a2) k"
    using flush_other [OF _ assms(2), of valid "al_meta_ts lib" "a_store a2" junk] g2 by (simp_all add: f keeps_def grows_def)
  obtain s1 y where r: "Rotate (en_flush env) (en_close env) (en_now env) s = (s1, y)" by force
  have R: "y = None" "spool_inv valid (al_meta_ts lib) s1" "s_active s1 = []"
    "\<And>k. closed_log junk valid (s_disk s1) k = spool_log junk valid s k"
    using Rotate_all [OF fl(2) _ _ r, of junk] assms(2) by (simp_all add: calls_ok_def)
  have lg: "spool_log junk valid s1 k = spool_log junk valid s k" for k
    using no_segment_log [OF R(2), of k junk] R(3,4) by simp
  have "shutdown lib env a = (a2\<lparr>a_sqlmgr := close_queriers (a_sqlmgr a2), a_store := s1\<rparr>, None)"
    unfolding shutdown_def p Let_def by (simp add: a1_def [symmetric] a2_def [symmetric] f fl(1) r R(1))
  then have c: "a_store c = s1" "e = None" using assms(5) by auto
  have "grows lib junk valid a2 c []" using R(2) lg fl(3) by (simp add: grows_def c)
  then have "grows lib junk valid a c (partial_minute (en_emit env) (a_agg a))" using grows_trans [OF grows_trans [OF g1 g2]] by fastforce
  then show ?thesis using R(3,4) lg c by auto
qed

text \<open>A whole session, with everything its end needs.\<close>

lemma session_stored:
  assumes "NewAgent cfg now mk self ident (s, None) cpus saved = Inr a" "spool_inv valid (al_meta_ts lib) s"
    "encodes lib valid" "\<not> ex_AutoDaily (c_Export cfg)" "calls_ok env" "list_all (event_ok ord) evs"
    "calls_ok env'" "en_emit env' = ord" "a1 = start_run lib cfg env a"
    "ms = session_minutes ord evs (a_sampler a1) \<lparr>ag_minute = 0, ag_samples = []\<rparr>" "list_all (encoded lib valid) ms"
    "shutdown lib env' (fst (run_events lib cfg evs a1)) = (c, e)"
  shows "e = None \<and> s_active (a_store c) = [] \<and> spool_inv valid (al_meta_ts lib) (a_store c) \<and>
    closed_log junk valid (s_disk (a_store c)) KindHostMinute = spool_log junk valid s KindHostMinute @ map (stored lib) ms \<and>
    (\<forall>k. gained lib k (spool_log junk valid s k) (closed_log junk valid (s_disk (a_store c)) k)) \<and>
    map strip_fs ms = map (emit_run ord) (minute_runs (samples_taken evs (a_sampler a1)))"
proof -
  have a: "a_store a = s" "a_agg a = \<lparr>ag_minute = 0, ag_samples = []\<rparr>"
    using assms(1) by (auto simp: NewAgent_def split: if_splits sum.splits)
  have late: "\<forall>x \<in> set (samples_taken evs (a_sampler a1)). minutes 1 \<le> hr_TS x"
    using assms(6) by (intro samples_late) (auto simp: list_all_iff event_ok_def)
  have g1: "grows lib junk valid a a1 []" "a_agg a1 = a_agg a"
    using start_run_grows [of valid lib a env junk cfg] assms(2,3,5) by (simp_all add: assms(9) a)
  define b where "b = fst (run_events lib cfg evs a1)"
  obtain ms1 where ms1: "grows lib junk valid a1 b ms1" "ms = ms1 @ partial_minute ord (a_agg b)"
    using run_events_grows [OF _ assms(3,6,4) _ b_def, of junk] g1 a assms(10,11) by (auto simp: grows_def)
  have enc: "list_all (encoded lib valid) (partial_minute (en_emit env') (a_agg b))"
    using assms(8,11) by (simp add: ms1(2))
  have inv: "spool_inv valid (al_meta_ts lib) (a_store b)" using ms1(1) by (simp add: grows_def)
  note S = shutdown_grows [OF inv assms(7,3) enc assms(12) [folded b_def], of junk]
  have g: "grows lib junk valid a c ms" using grows_trans [OF grows_trans [OF g1(1) ms1(1)]] S assms(8) ms1(2) by auto
  show ?thesis using S g a(1) session_minutes_strip [of ord evs "a_sampler a1"] all_minutes_runs [OF late]
    by (simp add: grows_def assms(10))
qed


definition keep_config :: config where
  "keep_config = toy_config\<lparr>c_Export := (c_Export toy_config)\<lparr>ex_AutoDaily := False\<rparr>\<rparr>"

definition keep_agent :: agent where
  "keep_agent = projr (NewAgent keep_config 1 True True (Inr ''ura-1'') (empty_store, None) 2 None)"


end
