(* ===== verification/ReportRender.thy ===== *)
theory ReportRender
  imports FleetReport GoStrings
begin

text \<open>
  The rendering of the report (\<open>internal/analyzer/report.go\<close>): \<open>RenderMarkdown\<close> as the list of the lines it
  writes, and \<open>RenderHTML\<close>, which turns those lines into a page. The order in which the categories are
  ranged over is an argument. White space is that of ASCII.
\<close>

section \<open>Characters beyond ASCII\<close>

definition middle_dot :: string where "middle_dot = [CHR 0xC2, CHR 0xB7]"
definition approx_sign :: string where "approx_sign = [CHR 0xE2, CHR 0x89, CHR 0x88]"
definition repeat_sign :: string where "repeat_sign = [CHR 0xF0, CHR 0x9F, CHR 0x94, CHR 0x81]"
definition arrow_sign :: string where "arrow_sign = [CHR 0xE2, CHR 0x86, CHR 0x92]"
definition left_angle :: string where "left_angle = [CHR 0xE2, CHR 0x9F, CHR 0xA8]"
definition right_angle :: string where "right_angle = [CHR 0xE2, CHR 0x9F, CHR 0xA9]"
definition warning_sign :: string where "warning_sign = [CHR 0xE2, CHR 0x9A, CHR 0xA0, CHR 0xEF, CHR 0xB8, CHR 0x8F]"

section \<open>Helpers\<close>

definition orNone :: "string \<Rightarrow> string" where
  "orNone s = (if trim_space s = [] then em_dash else s)"

definition ternary :: "bool \<Rightarrow> string \<Rightarrow> string \<Rightarrow> string" where
  "ternary c a b = (if c then a else b)"

text \<open>\<open>Format("2006-01-02 15:04 UTC")\<close> and \<open>Format("01-02 15:04")\<close>.\<close>

definition fmt_hm :: "time \<Rightarrow> string" where
  "fmt_hm t = fmt_0d 2 (hour_of_day t) @ '':'' @ fmt_0d 2 (minute_of_hour t)"

definition fmt_generated :: "time \<Rightarrow> string" where
  "fmt_generated t = (case civil (day_number t) of (y, m, d) \<Rightarrow>
     fmt_0d 4 y @ ''-'' @ fmt_0d 2 m @ ''-'' @ fmt_0d 2 d @ '' '' @ fmt_hm t @ '' UTC'')"

definition fmt_start :: "time \<Rightarrow> string" where
  "fmt_start t = (case civil (day_number t) of (y, m, d) \<Rightarrow> fmt_0d 2 m @ ''-'' @ fmt_0d 2 d @ '' '' @ fmt_hm t)"

definition row2 :: "string \<Rightarrow> string \<Rightarrow> string" where
  "row2 a b = ''| '' @ a @ '' | '' @ b @ '' |''"

definition recommendation_line :: "string \<Rightarrow> f64 \<Rightarrow> bool \<Rightarrow> string" where
  "recommendation_line cat conf val = ''**Recommendation: `'' @ cat @ ''`** (confidence '' @ fmt_f 0 (conf * fl 100) @ ''%'' @
     ternary val '', validation required'' [] @ '')''"

section \<open>Markdown\<close>

definition md_overview :: "((string, int) go_map \<Rightarrow> (string, int) go_map) \<Rightarrow> report \<Rightarrow> string list" where
  "md_overview cats r =
     (let f = rp_Fleet r in
      [''# Infrastructure Utilization & Rightsizing Report'', [],
       ''Generated '' @ fmt_generated (rp_GeneratedAt r) @ '' '' @ middle_dot @ '' schema '' @ rp_SchemaVersion r @ '' '' @ middle_dot @
         '' analyzer '' @ rp_ToolVersion r @ '' '' @ middle_dot @ '' fully offline'', [],
       ''## Fleet overview'', [],
       ''| Hosts | SQL instances | Allocated vCPU | Allocated RAM | Spike events |'', ''|---|---|---|---|---|'',
       ''| '' @ fmt_d (fs_Hosts f) @ '' | '' @ fmt_d (fs_SQLInstances f) @ '' | '' @ fmt_d (fs_TotalAllocVCPU f) @ '' | '' @
         fmt_f 0 (fs_TotalAllocRAMGB f) @ '' GB | '' @ fmt_d (fs_SpikeEvents f) @ '' |'', [],
       ''Recommendation categories:'', []] @
      map (\<lambda>(cat, n). ''- `'' @ cat @ ''`: '' @ fmt_d n @ '' host(s)'') (cats (fs_Categories f)) @
      (if fs_PotentialVCPU f > 0 \<or> fs_PotentialRAMGB f > 0
       then [[], ''Indicative upper bound of reclaimable capacity (only candidates, before validation): **'' @ fmt_d (fs_PotentialVCPU f) @
              '' vCPU, '' @ fmt_f 0 (fs_PotentialRAMGB f) @ '' GB RAM**. This is a technical ceiling, not a commitment.'']
       else []) @ [[]])"

definition md_suggested :: "host_report \<Rightarrow> string list" where
  "md_suggested h =
     (case hr_Suggested h of None \<Rightarrow> []
      | Some c \<Rightarrow>
          [[]] @
          (if cr_MinVCPU c > 0 then [''- suggested vCPU range: **'' @ fmt_d (cr_MinVCPU c) @ en_dash @ fmt_d (cr_MaxVCPU c) @
             ''** (currently '' @ fmt_d (hr_AllocVCPU h) @ '')''] else []) @
          (if cr_MinRAMGB c > 0 then [''- suggested RAM range: **'' @ fmt_f 0 (cr_MinRAMGB c) @ en_dash @ fmt_f 0 (cr_MaxRAMGB c) @
             '' GB** (currently '' @ fmt_f 0 (hr_AllocRAMGB h) @ '' GB)''] else []) @
          [''- '' @ cr_Note c])"

definition md_host :: "host_report \<Rightarrow> string list" where
  "md_host h =
     [[], ''### '' @ hr_Hostname h @ '' (`'' @ hr_HostID h @ ''`, '' @ hr_OS h @ '')'', [], ''| | |'', ''|---|---|'',
      row2 ''OS'' (hr_OS h @ '' '' @ hr_OSVersion h),
      row2 ''Virtualization'' (hr_Virtualization h),
      row2 ''Allocated'' (fmt_d (hr_AllocVCPU h) @ '' vCPU, '' @ fmt_f 0 (hr_AllocRAMGB h) @ '' GB RAM''),
      row2 ''Observed'' (fmt_d (hr_ObservedDays h) @ '' days at '' @ fmt_f 0 (hr_CoveragePct h) @ ''% coverage''),
      row2 ''CPU % (P50/P95/P99/max)'' (fmt_f 0 (su_P50 (hr_CPU h)) @ '' / '' @ fmt_f 0 (su_P95 (hr_CPU h)) @ '' / '' @
        fmt_f 0 (su_P99 (hr_CPU h)) @ '' / '' @ fmt_f 0 (su_Max (hr_CPUPeak h))),
      row2 ''Longest sustained CPU >70%'' (fmt_d (run_Minutes (hr_SustainedCPU h)) @ '' min (peak '' @ fmt_f 0 (run_PeakV (hr_SustainedCPU h)) @ ''%)''),
      row2 ''Memory % (P50/P95/P99/max)'' (fmt_f 0 (su_P50 (hr_Mem h)) @ '' / '' @ fmt_f 0 (su_P95 (hr_Mem h)) @ '' / '' @
        fmt_f 0 (su_P99 (hr_Mem h)) @ '' / '' @ fmt_f 0 (su_Max (hr_Mem h)) @ '' (P95 '' @ approx_sign @ '' '' @ fmt_f 1 (hr_MemUsedP95GB h) @ '' GB)''),
      row2 ''Memory pressure'' (orNone (join ''; '' (hr_MemPressure h))),
      row2 ''Disk I/O'' (''latency P95 '' @ fmt_f 1 (hr_DiskLatencyP95MS h) @ '' ms, busy P95 '' @ fmt_f 0 (hr_DiskBusyP95Pct h) @ ''%''),
      row2 ''Network'' (''rx P95 '' @ fmt_f 1 (hr_NetRxP95MBs h) @ '' MB/s, tx P95 '' @ fmt_f 1 (hr_NetTxP95MBs h) @ '' MB/s''),
      row2 ''Spikes'' (fmt_d (hr_SpikeCount h) @ '' event(s), '' @ fmt_d (int (length (hr_Patterns h))) @ '' recurring pattern(s)'')] @
     (if hr_SQLInstances h \<noteq> [] then [row2 ''SQL instances'' (join '', '' (hr_SQLInstances h))] else []) @ [[]] @
     map (\<lambda>p. ''- '' @ repeat_sign @ '' '' @ pa_Description p) (hr_Patterns h) @
     map (\<lambda>c. ''- probable correlate: '' @ c) (hr_TopCorrelates h) @
     [[], recommendation_line (hr_Category h) (hr_Confidence h) (hr_ValidationRequired h), [], hr_Recommendation h] @
     md_suggested h @
     (if hr_Rationale h \<noteq> [] then [[], ''Rationale:''] @ map (\<lambda>ra. ''- '' @ ra) (hr_Rationale h) else [])"

definition md_sql :: "sql_report \<Rightarrow> string list" where
  "md_sql s =
     [[], ''### '' @ sqr_InstanceName s @ '' on '' @ sqr_Hostname s, [], ''| | |'', ''|---|---|'',
      row2 ''Version / edition'' (orNone (sqr_Version s) @ '' / '' @ orNone (sqr_Edition s)),
      row2 ''HA role'' (sqr_HARole s @ ternary (sqr_HAGroup s \<noteq> []) ('' ('' @ sqr_HAGroup s @ '')'') []),
      row2 ''Collection level'' (sqr_CollectionLevel s),
      row2 ''Host RAM'' (fmt_f 0 (sqr_HostRAMGB s) @ '' GB''),
      row2 ''min / max server memory'' (fmt_d (uint (sqr_MinServerMemMB s)) @ '' MB / '' @
        ternary (sqr_MaxIsUnlimited s) ''UNLIMITED DEFAULT (2147483647)'' (fmt_d (uint (sqr_MaxServerMemMB s)) @ '' MB'')),
      row2 ''SQL process memory'' (fmt_f 1 (sqr_SQLProcessMemGB s) @ '' GB ('' @ fmt_f 0 (sqr_SQLMemPctOfHost s) @ ''% of host)''),
      row2 ''Total / Target Server Memory'' (fmt_f 1 (sqr_TotalServerMemGB s) @ '' / '' @ fmt_f 1 (sqr_TargetServerMemGB s) @ '' GB'')] @
     (if sqr_NonBufferMemGB s > 0 then [row2 ''Memory outside memory manager'' (fmt_f 1 (sqr_NonBufferMemGB s) @ '' GB'')] else []) @
     [row2 ''OS memory headroom'' (fmt_f 1 (sqr_OSHeadroomGB s) @ '' GB''),
      row2 ''Engine uptime'' (fmt_f 1 (sqr_EngineUptimeDays s) @ '' days''),
      row2 ''PLE P5 / grants pending max'' (fmt_d (sqr_PLEP5 s) @ '' s / '' @ fmt_d (sqr_GrantsPendingMax s)),
      row2 ''Batch req P95 / SQL CPU P95'' (fmt_f 0 (sqr_BatchReqP95 s) @ ''/s / '' @ fmt_f 0 (sqr_SQLCPUP95 s) @ ''%''),
      row2 ''Data-file read latency P95'' (fmt_f 1 (sqr_FileIOReadP95MS s) @ '' ms'')] @
     (if sqr_TopWaits s \<noteq> [] then [row2 ''Top waits'' (join '', '' (sqr_TopWaits s))] else []) @
     (if sqr_PressureSignals s \<noteq> [] then [row2 ''Pressure indicators'' (join ''; '' (sqr_PressureSignals s))] else []) @
     (if sqr_SQLSpikes s > 0 then [row2 ''SQL-correlated spikes'' (fmt_d (sqr_SQLSpikes s))] else []) @
     map (\<lambda>j. ''- probable correlation: '' @ j) (sqr_JobCorrelates s) @
     [[], recommendation_line (sqr_Category s) (sqr_Confidence s) (sqr_ValidationRequired s), [], sqr_Recommendation s] @
     (if sqr_Rationale s \<noteq> [] then [] # map (\<lambda>ra. ''- '' @ ra) (sqr_Rationale s) else [])"

definition md_ha_group :: "ha_group \<Rightarrow> string list" where
  "md_ha_group g =
     [[], ''- **'' @ hg_AGName g @ ''**: '' @ join ''; '' (hg_Members g)] @
     (if hg_Replicas g \<noteq> [] then [''  - replica servers: '' @ join '', '' (hg_Replicas g)] else []) @ [''  - '' @ hg_Note g]"

definition spike_job :: "spike_report_entry \<Rightarrow> string" where
  "spike_job s = spe_Process s @ (if spe_ServiceOrJob s \<noteq> [] then '' / '' @ spe_ServiceOrJob s else []) @
     (if spe_SQLEvidence s \<noteq> [] then '' '' @ left_angle @ spe_SQLEvidence s @ right_angle else [])"

definition md_spike :: "spike_report_entry \<Rightarrow> string" where
  "md_spike s = ''| '' @ spe_Hostname s @ '' | '' @ fmt_start (spe_StartTS s) @ '' | '' @ spe_Resource s @
     ternary (spe_Device s \<noteq> []) ('':'' @ spe_Device s) [] @ '' | '' @ fmt_dur_s (go_trunc (spe_DurationS s)) @ '' | '' @
     fmt_f 0 (spe_Baseline s) @ arrow_sign @ fmt_f 0 (spe_Peak s) @ '' | '' @ orNone (spike_job s) @ '' | '' @
     (if spe_Recurrence s \<noteq> [] then ''recurring'' else []) @ '' | '' @ fmt_f 0 (spe_Confidence s * fl 100) @ ''% | '' @
     spe_NextValidationStep s @ '' |''"

definition md_impact :: "spike_report_entry \<Rightarrow> string list" where
  "md_impact s = (if spe_VCPUImpactNote s \<noteq> [] then [''- '' @ spe_Hostname s @ '' `'' @ spe_Resource s @ ''` '' @
     fmt_start (spe_StartTS s) @ '': '' @ spe_VCPUImpactNote s] else [])"

definition md_lines :: "((string, int) go_map \<Rightarrow> (string, int) go_map) \<Rightarrow> report \<Rightarrow> string list" where
  "md_lines cats r =
     md_overview cats r @ [''## Host summaries''] @ concat (map md_host (rp_Hosts r)) @
     (if rp_SQLInstances r \<noteq> [] then [[], ''## SQL Server instance summaries''] @ concat (map md_sql (rp_SQLInstances r)) else []) @
     (if rp_HAGroups r \<noteq> [] then [[], ''## HA replica groups''] @ concat (map md_ha_group (rp_HAGroups r)) else []) @
     (if rp_Spikes r \<noteq> [] then
        [[], ''## Spike report ('' @ fmt_d (int (length (rp_Spikes r))) @ '' events)'', [],
         ''| Host | Start (UTC) | Res | Dur | Baseline'' @ arrow_sign @ ''Peak | Process / job | Recurrence | Conf | Next validation step |'',
         ''|---|---|---|---|---|---|---|---|---|''] @
        map md_spike (rp_Spikes r) @ [[]] @ concat (map md_impact (rp_Spikes r)) else []) @
     (if rp_DataQuality r \<noteq> [] then [[], ''## Data quality'', []] @ map (\<lambda>d. ''- '' @ warning_sign @ '' '' @ d) (rp_DataQuality r) else []) @
     [[], ''---'', ''*Recommendations are technical capacity assessments based on the observed window only. Every downsizing action requires application-owner validation; peaks outside the monitoring window (month-end, quarterly, failover) must be considered separately.*'']"

definition nl :: string where
  "nl = [CHR 10]"

definition RenderMarkdown :: "((string, int) go_map \<Rightarrow> (string, int) go_map) \<Rightarrow> report \<Rightarrow> string" where
  "RenderMarkdown cats r = concat (map (\<lambda>l. l @ nl) (md_lines cats r))"

section \<open>Inline markup\<close>

text \<open>\<open>strings.Replace(s, old, new, 1)\<close> for a text \<open>old\<close> that is not empty.\<close>

fun replace_first :: "string \<Rightarrow> string \<Rightarrow> string \<Rightarrow> string" where
  "replace_first old new [] = []"
| "replace_first old new (c # s) = (if prefix old (c # s) then new @ drop (length old) (c # s) else c # replace_first old new s)"

definition star :: char where "star = CHR ''*''"
definition tick :: char where "tick = CHR 0x60"

lemma replace_first_absent: "\<not> sublist old s \<Longrightarrow> replace_first old new s = s"
  by (induction s) (auto simp: sublist_Cons_right)

lemma replace_first_split:
  assumes "old \<noteq> []" "sublist old s"
  shows "\<exists>a b. s = a @ old @ b \<and> replace_first old new s = a @ new @ b"
  using assms(2)
proof (induction s)
  case Nil
  then show ?case using assms(1) by simp
next
  case (Cons c s)
  show ?case
  proof (cases "prefix old (c # s)")
    case True
    then obtain b where b: "c # s = old @ b" by (auto simp: prefix_def)
    moreover have "replace_first old new (c # s) = new @ drop (length old) (c # s)" using True by simp
    ultimately have "replace_first old new (c # s) = new @ b" by (metis append_eq_conv_conj)
    then show ?thesis using b by (intro exI [of _ "[]"] exI [of _ b]) simp
  next
    case False
    then have "sublist old s" using Cons.prems by (auto simp: sublist_Cons_right)
    then obtain a b where "s = a @ old @ b" "replace_first old new s = a @ new @ b" using Cons.IH by blast
    then show ?thesis using False by (intro exI [of _ "c # a"] exI [of _ b]) simp
  qed
qed

lemma count_replace_le:
  assumes "old \<noteq> []" "count_list new x = 0"
  shows "count_list (replace_first old new s) x \<le> count_list s x"
proof (cases "sublist old s")
  case True
  obtain a b where "s = a @ old @ b" "replace_first old new s = a @ new @ b" using replace_first_split [OF assms(1) True] by blast
  then show ?thesis using assms(2) by simp
next
  case False
  then show ?thesis by (simp add: replace_first_absent)
qed

lemma count_replace_less:
  assumes "old \<noteq> []" "sublist old s" "count_list new x = 0" "0 < count_list old x"
  shows "count_list (replace_first old new s) x < count_list s x"
proof -
  obtain a b where "s = a @ old @ b" "replace_first old new s = a @ new @ b" using replace_first_split [OF assms(1,2)] by blast
  then show ?thesis using assms(3,4) by simp
qed

text \<open>Each round of the loops removes two marks, or the last one: they end.\<close>

function md_bold :: "string \<Rightarrow> string" where
  "md_bold s =
     (if sublist [star, star] s
      then md_bold (replace_first [star, star] ''</strong>'' (replace_first [star, star] ''<strong>'' s)) else s)"
  by pat_completeness auto
termination
proof (relation "measure (\<lambda>s. count_list s star)")
  fix s assume "sublist [star, star] s"
  then have "count_list (replace_first [star, star] ''<strong>'' s) star < count_list s star"
    by (intro count_replace_less) (simp_all add: star_def)
  moreover have "count_list (replace_first [star, star] ''</strong>'' t) star \<le> count_list t star" for t
    by (intro count_replace_le) (simp_all add: star_def)
  ultimately show "(replace_first [star, star] ''</strong>'' (replace_first [star, star] ''<strong>'' s), s) \<in> measure (\<lambda>s. count_list s star)"
    using le_less_trans by auto
qed simp

function md_code :: "string \<Rightarrow> string" where
  "md_code s =
     (if sublist [tick] s then md_code (replace_first [tick] ''</code>'' (replace_first [tick] ''<code>'' s)) else s)"
  by pat_completeness auto
termination
proof (relation "measure (\<lambda>s. count_list s tick)")
  fix s assume "sublist [tick] s"
  then have "count_list (replace_first [tick] ''<code>'' s) tick < count_list s tick"
    by (intro count_replace_less) (simp_all add: tick_def)
  moreover have "count_list (replace_first [tick] ''</code>'' t) tick \<le> count_list t tick" for t
    by (intro count_replace_le) (simp_all add: tick_def)
  ultimately show "(replace_first [tick] ''</code>'' (replace_first [tick] ''<code>'' s), s) \<in> measure (\<lambda>s. count_list s tick)"
    using le_less_trans by auto
qed simp

declare md_bold.simps [simp del] md_code.simps [simp del]

definition mdInline :: "string \<Rightarrow> string" where
  "mdInline s = md_code (md_bold s)"

section \<open>The page\<close>

text \<open>\<open>html.EscapeString\<close>.\<close>

definition escape_char :: "char \<Rightarrow> string" where
  "escape_char c =
     (if c = CHR ''&'' then ''&amp;'' else if c = CHR ''<'' then ''&lt;'' else if c = CHR ''>'' then ''&gt;''
      else if c = CHR 0x22 then ''&#34;'' else if c = CHR 0x27 then ''&#39;'' else [c])"

definition html_escape :: "string \<Rightarrow> string" where
  "html_escape s = concat (map escape_char s)"

definition trim_bars :: "string \<Rightarrow> string" where
  "trim_bars s = rev (dropWhile (\<lambda>c. c = CHR ''|'') (rev (dropWhile (\<lambda>c. c = CHR ''|'') s)))"

definition page_head :: string where
  \<open>page_head =
     ''<!DOCTYPE html><html><head><meta charset="utf-8">'' @ nl @
     ''<title>Utilization & Rightsizing Report</title>'' @ nl @
     ''<style>'' @ nl @
     ''body{font-family:-apple-system,Segoe UI,Roboto,sans-serif;max-width:1100px;margin:2rem auto;padding:0 1rem;color:#1a2233;line-height:1.5}'' @ nl @
     ''h1{border-bottom:3px solid #2b6cb0;padding-bottom:.4rem}'' @ nl @
     ''h2{color:#2b6cb0;margin-top:2.2rem}'' @ nl @
     ''h3{margin-top:1.6rem}'' @ nl @
     ''table{border-collapse:collapse;margin:.6rem 0;font-size:.92rem}'' @ nl @
     ''td,th{border:1px solid #cbd5e0;padding:.28rem .6rem;text-align:left}'' @ nl @
     ''th{background:#edf2f7}'' @ nl @
     ''code{background:#edf2f7;padding:.08rem .3rem;border-radius:3px}'' @ nl @
     ''li{margin:.15rem 0}'' @ nl @
     ''.small{color:#556;font-size:.85rem}'' @ nl @
     ''</style></head><body>'' @ nl\<close>

definition page_tail :: string where
  "page_tail = ''</body></html>'' @ nl"

definition html_cell :: "string \<Rightarrow> string" where
  "html_cell c = ''<td>'' @ mdInline (html_escape (trim_space c)) @ ''</td>''"

definition html_block :: "string \<Rightarrow> string" where
  "html_block line =
     (let esc = mdInline (html_escape line) in
      if prefix ''### '' line then ''<h3>'' @ drop 4 esc @ ''</h3>'' @ nl
      else if prefix ''## '' line then ''<h2>'' @ drop 3 esc @ ''</h2>'' @ nl
      else if prefix ''# '' line then ''<h1>'' @ drop 2 esc @ ''</h1>'' @ nl
      else if prefix ''---'' line then ''<hr>'' @ nl
      else if trim_space line = [] then []
      else ''<p>'' @ esc @ ''</p>'' @ nl)"

text \<open>One line of markdown; the state is whether a table and whether a list is open.\<close>

definition html_line :: "bool \<times> bool \<Rightarrow> string \<Rightarrow> (bool \<times> bool) \<times> string" where
  "html_line st line =
     (case st of (inTable, inList) \<Rightarrow>
      if prefix ''|'' line then
        let start = (if inTable then [] else ''<table>'' @ nl) in
        if prefix ''---'' (trim_space (trim_bars line)) then ((True, inList), start)
        else ((True, inList), start @ ''<tr>'' @ concat (map html_cell (split_on (CHR ''|'') (trim_bars line))) @ ''</tr>'' @ nl)
      else
        let close = (if inTable then ''</table>'' @ nl else []) in
        if prefix ''- '' line then
          ((False, True), close @ (if inList then [] else ''<ul>'' @ nl) @ ''<li>'' @ mdInline (html_escape (drop 2 line)) @ ''</li>'' @ nl)
        else ((False, False), close @ (if inList then ''</ul>'' @ nl else []) @ html_block line))"

fun html_lines :: "bool \<times> bool \<Rightarrow> string list \<Rightarrow> string" where
  "html_lines (inTable, inList) [] = (if inTable then ''</table>'' @ nl else []) @ (if inList then ''</ul>'' @ nl else [])"
| "html_lines st (l # ls) = (case html_line st l of (st, out) \<Rightarrow> out @ html_lines st ls)"

definition RenderHTML :: "((string, int) go_map \<Rightarrow> (string, int) go_map) \<Rightarrow> report \<Rightarrow> string" where
  "RenderHTML cats r = page_head @ html_lines (False, False) (split_on (CHR 10) (RenderMarkdown cats r)) @ page_tail"

end
