(* ===== verification/ReportFacts.thy ===== *)
theory ReportFacts
  imports ReportRender
begin

text \<open>
  The page is free of markup that the program did not write, whatever the names and texts in the report;
  and what a bar in a name does to a table.
\<close>

section \<open>Pages made of known tags\<close>

definition page_tags :: "string list" where
  "page_tags = [''<table>'', ''</table>'', ''<tr>'', ''</tr>'', ''<td>'', ''</td>'', ''<ul>'', ''</ul>'', ''<li>'', ''</li>'',
     ''<h1>'', ''</h1>'', ''<h2>'', ''</h2>'', ''<h3>'', ''</h3>'', ''<hr>'', ''<p>'', ''</p>'', ''<strong>'', ''</strong>'',
     ''<code>'', ''</code>'']"

definition markup_char :: "char \<Rightarrow> bool" where
  "markup_char c \<longleftrightarrow> c \<in> {CHR ''<'', CHR ''>'', CHR 0x22, CHR 0x27}"

inductive safe_html :: "string \<Rightarrow> bool" where
  safe_nil: "safe_html []"
| safe_char: "\<not> markup_char c \<Longrightarrow> safe_html s \<Longrightarrow> safe_html (c # s)"
| safe_tag: "t \<in> set page_tags \<Longrightarrow> safe_html s \<Longrightarrow> safe_html (t @ s)"

lemma safe_append: "safe_html s \<Longrightarrow> safe_html t \<Longrightarrow> safe_html (s @ t)"
  by (induction rule: safe_html.induct) (auto intro: safe_html.intros)

lemma safe_concat: "\<forall>s \<in> set ss. safe_html s \<Longrightarrow> safe_html (concat ss)"
  by (induction ss) (auto intro: safe_nil safe_append)

lemma safe_text: "list_all (\<lambda>c. \<not> markup_char c) s \<Longrightarrow> safe_html s"
  by (induction s) (auto intro: safe_html.intros)

lemma safe_one: "t \<in> set page_tags \<Longrightarrow> safe_html t"
  using safe_tag [OF _ safe_nil] by fastforce

lemma safe_nl: "safe_html nl"
  by (intro safe_text) (simp add: nl_def markup_char_def)

text \<open>The marks of the inline markup are in no tag, so a page splits at a mark.\<close>

lemma tag_no_mark: "t \<in> set page_tags \<Longrightarrow> star \<notin> set t \<and> tick \<notin> set t"
  by (auto simp: page_tags_def star_def tick_def)

lemma safe_split:
  assumes "safe_html s" "s = a @ m # b" "m = star \<or> m = tick"
  shows "safe_html a \<and> safe_html b"
  using assms(1,2)
proof (induction arbitrary: a rule: safe_html.induct)
  case safe_nil
  then show ?case by simp
next
  case (safe_char c s)
  then show ?case by (cases a) (auto intro: safe_html.intros)
next
  case (safe_tag t s)
  have "m \<notin> set t" using tag_no_mark [OF safe_tag(1)] assms(3) by blast
  then obtain a' where a: "a = t @ a'" "s = a' @ m # b"
    using safe_tag.prems by (auto simp: append_eq_append_conv2 Cons_eq_append_conv append_eq_Cons_conv)
  then show ?case using safe_tag.IH [OF a(2)] safe_tag(1) by (auto intro: safe_html.intros)
qed

lemma safe_split_marks:
  "safe_html (a @ ms @ b) \<Longrightarrow> \<forall>m \<in> set ms. m = star \<or> m = tick \<Longrightarrow> ms \<noteq> [] \<Longrightarrow> safe_html a \<and> safe_html b"
proof (induction ms arbitrary: a)
  case (Cons m ms)
  have s: "safe_html a \<and> safe_html (ms @ b)" using safe_split [of "a @ m # ms @ b" a m "ms @ b"] Cons.prems by simp
  then show ?case using Cons.IH [of "[]"] Cons.prems(2) by (cases "ms = []") auto
qed simp

lemma safe_replace:
  assumes "safe_html s" "\<forall>m \<in> set old. m = star \<or> m = tick" "old \<noteq> []" "t \<in> set page_tags"
  shows "safe_html (replace_first old t s)"
proof (cases "sublist old s")
  case True
  then obtain a b where ab: "s = a @ old @ b" "replace_first old t s = a @ t @ b" using replace_first_split [OF assms(3)] by blast
  then have "safe_html a" "safe_html b" using safe_split_marks [of a old b] assms(1-3) by auto
  then show ?thesis unfolding ab(2) by (intro safe_append safe_tag assms(4))
next
  case False
  then show ?thesis using assms(1) by (simp add: replace_first_absent)
qed

lemma safe_bold: "safe_html s \<Longrightarrow> safe_html (md_bold s)"
proof (induction s rule: md_bold.induct)
  case (1 s)
  have t: "''<strong>'' \<in> set page_tags" "''</strong>'' \<in> set page_tags" by (simp_all add: page_tags_def)
  show ?case
  proof (cases "sublist [star, star] s")
    case True
    have "safe_html (replace_first [star, star] ''</strong>'' (replace_first [star, star] ''<strong>'' s))"
      using 1(2) by (intro safe_replace t) auto
    then show ?thesis using 1(1) [OF True] True by (subst md_bold.simps) simp
  next
    case False
    then show ?thesis using 1(2) by (subst md_bold.simps) simp
  qed
qed

lemma safe_code: "safe_html s \<Longrightarrow> safe_html (md_code s)"
proof (induction s rule: md_code.induct)
  case (1 s)
  have t: "''<code>'' \<in> set page_tags" "''</code>'' \<in> set page_tags" by (simp_all add: page_tags_def)
  show ?case
  proof (cases "sublist [tick] s")
    case True
    have "safe_html (replace_first [tick] ''</code>'' (replace_first [tick] ''<code>'' s))"
      using 1(2) by (intro safe_replace t) auto
    then show ?thesis using 1(1) [OF True] True by (subst md_code.simps) simp
  next
    case False
    then show ?thesis using 1(2) by (subst md_code.simps) simp
  qed
qed

lemma safe_escape: "safe_html (html_escape s)"
  unfolding html_escape_def by (intro safe_concat) (auto simp: escape_char_def markup_char_def intro!: safe_text)

lemma safe_inline: "safe_html (mdInline (html_escape s))"
  unfolding mdInline_def by (intro safe_code safe_bold safe_escape)

text \<open>The inline markup leaves a text before the first mark alone.\<close>

lemma bold_Cons: "c \<noteq> star \<Longrightarrow> md_bold (c # s) = c # md_bold s"
proof (induction s rule: md_bold.induct)
  case (1 s)
  have rep: "replace_first [star, star] t (c # u) = c # replace_first [star, star] t u" for t u using 1(2) by simp
  have sub: "sublist [star, star] (c # s) \<longleftrightarrow> sublist [star, star] s" using 1(2) by (simp add: sublist_Cons_right)
  show ?case
  proof (cases "sublist [star, star] s")
    case True
    then show ?thesis
      unfolding md_bold.simps [of "c # s"] md_bold.simps [of s] sub rep if_P [OF True] using 1(1) [OF True 1(2)] by blast
  next
    case False
    show ?thesis unfolding md_bold.simps [of "c # s"] md_bold.simps [of s] sub if_not_P [OF False] ..
  qed
qed

lemma code_Cons: "c \<noteq> tick \<Longrightarrow> md_code (c # s) = c # md_code s"
proof (induction s rule: md_code.induct)
  case (1 s)
  have rep: "replace_first [tick] t (c # u) = c # replace_first [tick] t u" for t u using 1(2) by simp
  have sub: "sublist [tick] (c # s) \<longleftrightarrow> sublist [tick] s" using 1(2) by (simp add: sublist_Cons_right)
  show ?case
  proof (cases "sublist [tick] s")
    case True
    then show ?thesis
      unfolding md_code.simps [of "c # s"] md_code.simps [of s] sub rep if_P [OF True] using 1(1) [OF True 1(2)] by blast
  next
    case False
    show ?thesis unfolding md_code.simps [of "c # s"] md_code.simps [of s] sub if_not_P [OF False] ..
  qed
qed

lemma inline_prefix:
  "list_all (\<lambda>c. c \<notin> {star, tick, CHR ''&'', CHR ''<'', CHR ''>'', CHR 0x22, CHR 0x27}) p \<Longrightarrow>
   mdInline (html_escape (p @ s)) = p @ mdInline (html_escape s)"
  by (induction p) (simp_all add: mdInline_def html_escape_def escape_char_def bold_Cons code_Cons)

section \<open>The lines of the page\<close>

lemma safe_drop:
  assumes "prefix p line" "list_all (\<lambda>c. c \<notin> {star, tick, CHR ''&'', CHR ''<'', CHR ''>'', CHR 0x22, CHR 0x27}) p" "n = length p"
  shows "safe_html (drop n (mdInline (html_escape line)))"
proof -
  obtain s where "line = p @ s" using assms(1) by (auto simp: prefix_def)
  then show ?thesis using inline_prefix [OF assms(2)] assms(3) safe_inline by simp
qed

lemma safe_block: "safe_html (html_block line)"
proof -
  have tags: "''<h3>'' \<in> set page_tags" "''</h3>'' \<in> set page_tags" "''<h2>'' \<in> set page_tags" "''</h2>'' \<in> set page_tags"
    "''<h1>'' \<in> set page_tags" "''</h1>'' \<in> set page_tags" "''<hr>'' \<in> set page_tags" "''<p>'' \<in> set page_tags" "''</p>'' \<in> set page_tags"
    by (simp_all add: page_tags_def)
  have d: "prefix ''### '' line \<Longrightarrow> safe_html (drop 4 (mdInline (html_escape line)))"
    "prefix ''## '' line \<Longrightarrow> safe_html (drop 3 (mdInline (html_escape line)))"
    "prefix ''# '' line \<Longrightarrow> safe_html (drop 2 (mdInline (html_escape line)))"
    by (erule safe_drop, simp_all add: star_def tick_def)+
  consider "prefix ''### '' line" | "\<not> prefix ''### '' line" "prefix ''## '' line"
    | "\<not> prefix ''### '' line" "\<not> prefix ''## '' line" "prefix ''# '' line"
    | "\<not> prefix ''### '' line" "\<not> prefix ''## '' line" "\<not> prefix ''# '' line" by blast
  then show ?thesis
  proof cases
    case 1
    then have "html_block line = ''<h3>'' @ drop 4 (mdInline (html_escape line)) @ ''</h3>'' @ nl" unfolding html_block_def Let_def by (simp only: if_True)
    then show ?thesis using d(1) [OF 1] by (simp only: safe_tag safe_append safe_nl tags)
  next
    case 2
    then have "html_block line = ''<h2>'' @ drop 3 (mdInline (html_escape line)) @ ''</h2>'' @ nl"
      unfolding html_block_def Let_def by (simp only: if_True if_False)
    then show ?thesis using d(2) [OF 2(2)] by (simp only: safe_tag safe_append safe_nl tags)
  next
    case 3
    then have "html_block line = ''<h1>'' @ drop 2 (mdInline (html_escape line)) @ ''</h1>'' @ nl"
      unfolding html_block_def Let_def by (simp only: if_True if_False)
    then show ?thesis using d(3) [OF 3(3)] by (simp only: safe_tag safe_append safe_nl tags)
  next
    case 4
    have "safe_html (''<hr>'' @ nl)" "safe_html (''<p>'' @ mdInline (html_escape line) @ ''</p>'' @ nl)"
      by (simp_all only: safe_tag safe_append safe_nl safe_inline tags)
    with 4 show ?thesis unfolding html_block_def Let_def by (simp only: if_True if_False safe_nil split: if_split) blast
  qed
qed

lemma safe_cell: "safe_html (html_cell c)"
  unfolding html_cell_def by (intro safe_tag safe_append safe_inline safe_one) (simp_all add: page_tags_def)

lemma safe_line: "safe_html (snd (html_line st line))"
proof -
  have tags: "''<table>'' \<in> set page_tags" "''</table>'' \<in> set page_tags" "''<ul>'' \<in> set page_tags" "''</ul>'' \<in> set page_tags"
    "''<li>'' \<in> set page_tags" "''</li>'' \<in> set page_tags" "''<tr>'' \<in> set page_tags" "''</tr>'' \<in> set page_tags"
    by (simp_all add: page_tags_def)
  have parts: "safe_html (if b then [] else ''<table>'' @ nl)" "safe_html (if b then ''</table>'' @ nl else [])"
    "safe_html (if b then [] else ''<ul>'' @ nl)" "safe_html (if b then ''</ul>'' @ nl else [])" for b
    by (simp_all only: safe_tag safe_nl safe_nil tags simp_thms split: if_split)
  have row: "safe_html (''<tr>'' @ concat (map html_cell cs) @ ''</tr>'' @ nl)" for cs
    by (intro safe_tag tags safe_append safe_concat safe_nl) (auto intro: safe_cell)
  have item: "safe_html (''<li>'' @ mdInline (html_escape s) @ ''</li>'' @ nl)" for s
    by (intro safe_tag tags safe_append safe_inline safe_nl)
  obtain t l where st: "st = (t, l)" by force
  let ?start = "if t then [] else ''<table>'' @ nl" and ?close = "if t then ''</table>'' @ nl else []"
  have "snd (html_line st line) \<in> {?start, ?start @ ''<tr>'' @ concat (map html_cell (split_on (CHR ''|'') (trim_bars line))) @ ''</tr>'' @ nl,
      ?close @ (if l then [] else ''<ul>'' @ nl) @ ''<li>'' @ mdInline (html_escape (drop 2 line)) @ ''</li>'' @ nl,
      ?close @ (if l then ''</ul>'' @ nl else []) @ html_block line}"
    unfolding st html_line_def Let_def prod.case
    by (simp only: if_distrib [of snd] snd_conv insert_iff refl simp_thms split: if_split)
  then show ?thesis
    by (elim insertE emptyE) (simp_all only: safe_append parts row item safe_block)
qed

lemma safe_lines: "safe_html (html_lines st ls)"
proof (induction st ls rule: html_lines.induct)
  case (1 inTable inList)
  have "safe_html (if b then t @ nl else [])" if "t \<in> set page_tags" for b t
    using that by (simp add: safe_tag safe_nl safe_nil)
  then show ?case unfolding html_lines.simps by (intro safe_append) (simp_all add: page_tags_def)
next
  case (2 st l ls)
  then show ?case using safe_line [of st l] by (auto intro: safe_append split: prod.split)
qed

text \<open>
  C17. The HTML report is free of injected markup: for any report, whatever host names, process names, job
  names or SQL texts it holds, the page is the fixed head, a body in which every angle bracket and
  every quote belongs to one of the program's own 23 tags, which carry no attributes, and the fixed
  tail. The loops of the inline markup end.
\<close>

theorem report_injection_free:
  "\<exists>body. RenderHTML cats r = page_head @ body @ page_tail \<and> safe_html body"
  unfolding RenderHTML_def by (intro exI conjI, rule refl, rule safe_lines)

text \<open>
  Escaping does not cover the bar: a name with a bar has a cell too many in its row. Items of the second
  level of a list are paragraphs.
\<close>

lemma bar_in_a_name:
  "length (split_on (CHR ''|'') (trim_bars (row2 ''SQL instances'' ''a|b''))) = 3 \<and>
   length (split_on (CHR ''|'') (trim_bars (row2 ''SQL instances'' ''ab''))) = 2"
  by (simp add: row2_def trim_bars_def)

lemma second_level_is_paragraph:
  "\<not> prefix ''|'' l \<Longrightarrow> snd (html_line (False, True) (''  - '' @ l)) = ''</ul>'' @ nl @ html_block (''  - '' @ l)"
  by (simp add: html_line_def)

end
