(* ===== verification/AnalyzerRun.thy ===== *)
theory AnalyzerRun
  imports ReportFacts Dataset
begin

text \<open>
  \<open>Run\<close> of \<open>internal/analyzer/analyzer.go\<close>: the imported dataset, the report and the three files it writes.
  The result of the import, the JSON encoder and the outcome of each system call are arguments; the
  output directory is a map from file names.
\<close>

type_synonym out_files = "string \<Rightarrow> string option"

fun write_all :: "(string \<Rightarrow> string option) \<Rightarrow> (string \<times> string) list \<Rightarrow> out_files \<Rightarrow> out_files \<times> string option" where
  "write_all failing [] fs = (fs, None)"
| "write_all failing ((name, content) # rest) fs =
     (case failing name of Some e \<Rightarrow> (fs, Some e) | None \<Rightarrow> write_all failing rest (fs(name \<mapsto> content)))"

definition RunAnalyzer :: "group_order \<Rightarrow> wait_order \<Rightarrow> ((string, int) go_map \<Rightarrow> (string, int) go_map) \<Rightarrow> (report \<Rightarrow> string)
    \<Rightarrow> time \<Rightarrow> string + dataset \<Rightarrow> string option \<Rightarrow> (string \<Rightarrow> string option) \<Rightarrow> out_files \<Rightarrow> out_files \<times> (string + run_result)" where
  "RunAnalyzer ord word cats to_json now loaded mkdir failing fs =
     (case loaded of
        Inl e \<Rightarrow> (fs, Inl e)
      | Inr ds \<Rightarrow>
          let rep = Build ord word now ds in
          (case mkdir of
             Some e \<Rightarrow> (fs, Inl e)
           | None \<Rightarrow>
               (case write_all failing [(''report.json'', to_json rep), (''report.md'', RenderMarkdown cats rep),
                    (''report.html'', RenderHTML cats rep)] fs of
                  (fs, Some e) \<Rightarrow> (fs, Inl e)
                | (fs, None) \<Rightarrow> (fs, Inr (run_summary ds rep)))))"

text \<open>
  After a successful run the files hold the report of the imported data, the page among them is safe,
  and every imported host is in the result.
\<close>

lemma run_writes_reports:
  assumes "RunAnalyzer ord word cats to_json now (Inr ds) mkdir failing fs = (fs', Inr res)"
  shows "fs' ''report.json'' = Some (to_json (Build ord word now ds)) \<and>
    fs' ''report.md'' = Some (RenderMarkdown cats (Build ord word now ds)) \<and>
    (\<exists>body. fs' ''report.html'' = Some (page_head @ body @ page_tail) \<and> safe_html body) \<and>
    rr_Hosts res = int (length (ds_Hosts ds)) \<and> rr_Warnings res = ds_Warnings ds"
proof -
  have "length (rp_Hosts (Build ord word now ds)) = length (ds_Hosts ds)"
    by (simp add: Build_def build_hosts_fold Let_def hosts_in_order_def)
  then show ?thesis
    using assms safe_lines
    by (auto simp: RunAnalyzer_def Let_def run_summary_def RenderHTML_def split: option.splits)
qed

text \<open>A failure leaves the files behind that were written before it: the reports need not be of one run.\<close>

lemma failed_run_mixes_reports:
  assumes "failing ''report.json'' = None" "failing ''report.md'' = Some e"
  shows "RunAnalyzer ord word cats to_json now (Inr ds) None failing fs =
    (fs(''report.json'' \<mapsto> to_json (Build ord word now ds)), Inl e)"
  using assms by (simp add: RunAnalyzer_def Let_def)

end
