(* ===== verification/Crypt.thy ===== *)
theory Crypt
  imports GoStrings
begin

text \<open>
  The wrappers around age (\<open>internal/crypt/crypt.go\<close>) and the command that makes a key pair (\<open>cmdKeygen\<close> of
  \<open>cmd/ura-analyzer\<close>). Parsing of recipients and identities and the encryption are arguments; so are the
  outcomes of the system calls. Files are a map from their path, for \<open>cmdKeygen\<close> from the name in its directory.
\<close>

type_synonym files_map = "string \<Rightarrow> string option"

section \<open>Recipients and identities\<close>

definition ParseRecipient :: "(string \<Rightarrow> string + 'r) \<Rightarrow> string \<Rightarrow> string + 'r" where
  "ParseRecipient parse s =
     (case parse (trim_space s) of
        Inl e \<Rightarrow> Inl (''invalid age recipient (expected age1...): '' @ e)
      | Inr r \<Rightarrow> Inr r)"

definition GenerateIdentity :: "string + string \<times> string \<Rightarrow> string + string \<times> string" where
  "GenerateIdentity generated = (case generated of Inl e \<Rightarrow> Inl e | Inr (ident, recipient) \<Rightarrow> Inr (ident, recipient))"

fun load_lines :: "(string \<Rightarrow> string + 'i) \<Rightarrow> string \<Rightarrow> string list \<Rightarrow> 'i list \<Rightarrow> string + 'i list" where
  "load_lines parse path [] ids = (if ids = [] then Inl (''no identities found in '' @ path) else Inr ids)"
| "load_lines parse path (l # ls) ids =
     (let line = trim_space l in
      if line = [] \<or> prefix ''#'' line then load_lines parse path ls ids
      else (case parse line of
          Inl e \<Rightarrow> Inl (''invalid identity in '' @ path @ '': '' @ e)
        | Inr i \<Rightarrow> load_lines parse path ls (ids @ [i])))"

definition LoadIdentities :: "(string \<Rightarrow> string + 'i) \<Rightarrow> string \<Rightarrow> string + string \<Rightarrow> string + 'i list" where
  "LoadIdentities parse path content =
     (case content of Inl e \<Rightarrow> Inl e | Inr b \<Rightarrow> load_lines parse path (split_on (CHR 10) b) [])"

section \<open>Encryption of a file\<close>

datatype encrypt_stage = OpenSource | OpenTemp | StartEncryption | CopyData | FinishEncryption | SyncTemp | CloseTemp | RenameTemp

text \<open>
  The stage that fails, if any; \<open>partial\<close> is what the temporary file holds at that moment and \<open>removed\<close>
  whether it can be removed.
\<close>

definition EncryptFile :: "(string \<Rightarrow> string) \<Rightarrow> encrypt_stage option \<Rightarrow> string \<Rightarrow> bool \<Rightarrow> string \<Rightarrow> string \<Rightarrow> files_map
    \<Rightarrow> files_map \<times> encrypt_stage option" where
  "EncryptFile enc failing partial removed src dst fs =
     (let tmp = dst @ ''.tmp'';
          cleaned = (if removed then fs(tmp := None) else fs(tmp \<mapsto> partial))
      in case fs src of
           None \<Rightarrow> (fs, Some OpenSource)
         | Some plain \<Rightarrow>
             (case failing of
                Some OpenSource \<Rightarrow> (fs, Some OpenSource)
              | Some OpenTemp \<Rightarrow> (fs, Some OpenTemp)
              | Some RenameTemp \<Rightarrow> (fs(tmp \<mapsto> enc plain), Some RenameTemp)
              | Some st \<Rightarrow> (cleaned, Some st)
              | None \<Rightarrow> ((fs(tmp := None))(dst \<mapsto> enc plain), None)))"

section \<open>The key pair\<close>

definition identity_file :: string where "identity_file = ''identity.txt''"
definition recipient_file :: string where "recipient_file = ''recipient.txt''"

definition identity_comment :: string where
  "identity_comment = ''# ura decryption identity '' @ [CHR 0xE2, CHR 0x80, CHR 0x94] @ '' NEVER copy to monitored servers''"

text \<open>Writing a file: done, or failed with what it holds then, if it was created.\<close>

datatype write_outcome = Written | WriteFailed "string option"

fun write_file :: "write_outcome \<Rightarrow> string \<Rightarrow> string \<Rightarrow> files_map \<Rightarrow> files_map \<times> bool" where
  "write_file Written name b fs = (fs(name \<mapsto> b), True)"
| "write_file (WriteFailed None) name b fs = (fs, False)"
| "write_file (WriteFailed (Some p)) name b fs = (fs(name \<mapsto> p), False)"

datatype keygen_error = NoDirectory | KeyExists | NotGenerated string | IdentityNotWritten | RecipientNotWritten

definition cmdKeygen :: "bool \<Rightarrow> string + string \<times> string \<Rightarrow> write_outcome \<Rightarrow> write_outcome \<Rightarrow> files_map
    \<Rightarrow> files_map \<times> keygen_error option" where
  "cmdKeygen mkdir_ok generated w1 w2 fs =
     (if \<not> mkdir_ok then (fs, Some NoDirectory)
      else if fs identity_file \<noteq> None then (fs, Some KeyExists)
      else case GenerateIdentity generated of
          Inl e \<Rightarrow> (fs, Some (NotGenerated e))
        | Inr (ident, recipient) \<Rightarrow>
            (case write_file w1 identity_file (identity_comment @ [CHR 10] @ ident @ [CHR 10]) fs of
               (fs, False) \<Rightarrow> (fs, Some IdentityNotWritten)
             | (fs, True) \<Rightarrow>
                 (case write_file w2 recipient_file (recipient @ [CHR 10]) fs of
                    (fs, False) \<Rightarrow> (fs, Some RecipientNotWritten)
                  | (fs, True) \<Rightarrow> (fs, None))))"

section \<open>Which identities are loaded\<close>

definition key_lines :: "string \<Rightarrow> string list" where
  "key_lines b = filter (\<lambda>l. l \<noteq> [] \<and> \<not> prefix ''#'' l) (map trim_space (split_on (CHR 10) b))"

lemma load_lines_eq:
  "load_lines parse path ls acc = Inr ids \<longleftrightarrow>
   (\<exists>new. ids = acc @ new \<and> ids \<noteq> [] \<and> map parse (filter (\<lambda>l. l \<noteq> [] \<and> \<not> prefix ''#'' l) (map trim_space ls)) = map Inr new)"
proof (induction ls arbitrary: acc)
  case Nil
  then show ?case by auto
next
  case (Cons l ls)
  show ?case
  proof (cases "trim_space l = [] \<or> prefix ''#'' (trim_space l)")
    case True
    then show ?thesis using Cons by auto
  next
    case False
    show ?thesis
    proof (cases "parse (trim_space l)")
      case (Inl e)
      then show ?thesis using False by (auto simp: Let_def map_eq_Cons_conv Cons_eq_map_conv)
    next
      case (Inr i)
      then show ?thesis using False Cons [of "acc @ [i]"] by (auto simp: Let_def Cons_eq_map_conv)
    qed
  qed
qed

lemma LoadIdentities_iff:
  "LoadIdentities parse path (Inr b) = Inr ids \<longleftrightarrow> ids \<noteq> [] \<and> map parse (key_lines b) = map Inr ids"
  by (auto simp: LoadIdentities_def load_lines_eq key_lines_def)

lemma comment_facts: "CHR 10 \<notin> set identity_comment" "prefix ''#'' (trim_space identity_comment)"
  by (simp_all add: identity_comment_def) code_simp

lemma write_file_True: "write_file w name b fs = (fs', True) \<longleftrightarrow> w = Written \<and> fs' = fs(name \<mapsto> b)"
  by (cases "(w, name, b, fs)" rule: write_file.cases) auto



text \<open>The target of an encryption changes only when it succeeds, and then holds the whole ciphertext.\<close>

lemma EncryptFile_atomic:
  assumes "EncryptFile enc failing partial removed src dst fs = (fs', e)"
  shows "(e = None \<longrightarrow> fs' dst = map_option enc (fs src) \<and> fs src \<noteq> None) \<and> (e \<noteq> None \<longrightarrow> fs' dst = fs dst)"
  using assms by (auto simp: EncryptFile_def Let_def split: option.splits encrypt_stage.splits if_splits)

end
