(* ===== verification/WindowsProbes.thy ===== *)
theory WindowsProbes
  imports SqlManager Sched
begin

text \<open>
  The variants for Windows: the instances of SQL Server (\<open>detect_windows.go\<close>), the services of processes
  (\<open>servicemap_windows.go\<close>), the scheduled tasks (\<open>sched_windows.go\<close>); and \<open>Connect\<close> of \<open>querier.go\<close>. What
  the registry, the service manager and \<open>schtasks\<close> answer, the reading of CSV and the parsing of times are
  arguments.
\<close>

section \<open>Instances\<close>

text \<open>A service: its name, and its process identifier when the details could be read.\<close>

definition service_instance :: "string \<Rightarrow> string option" where
  "service_instance name =
     (if name = ''MSSQLSERVER'' then Some ''MSSQLSERVER''
      else if prefix ''MSSQL$'' name then Some (drop 6 name) else None)"

definition sqlServicePIDs :: "(string \<times> int option) list option \<Rightarrow> (int, string) go_map" where
  "sqlServicePIDs services =
     (case services of None \<Rightarrow> []
      | Some svcs \<Rightarrow> foldl (\<lambda>m (name, pid).
          case (service_instance name, pid) of
            (Some inst, Some p) \<Rightarrow> if p \<noteq> 0 then AList.update p inst m else m
          | _ \<Rightarrow> m) [] svcs)"

definition registryInstances :: "string list option \<Rightarrow> string list" where
  "registryInstances names = (case names of Some ns \<Rightarrow> ns | None \<Rightarrow> [])"

definition resolve_windows :: "string list \<Rightarrow> (int, string) go_map \<Rightarrow> int \<times> sql_instance \<Rightarrow> sql_instance" where
  "resolve_windows names svc p =
     (case p of (pid, inst) \<Rightarrow>
      let inst = inst\<lparr>in_OS := ''windows''\<rparr> in
      (case map_of svc (pid mod 2 ^ 32) of
         Some name \<Rightarrow> inst\<lparr>in_Name := name\<rparr>
       | None \<Rightarrow> (case names of [n] \<Rightarrow> inst\<lparr>in_Name := n\<rparr> | _ \<Rightarrow> inst)))"

definition add_registered :: "sql_instance list \<Rightarrow> string \<Rightarrow> sql_instance list" where
  "add_registered out name =
     (if list_ex (\<lambda>i. in_Name i = name) out then out else out @ [(no_instance name)\<lparr>in_OS := ''windows''\<rparr>])"

definition platformResolveWindows :: "instance_order \<Rightarrow> string list option \<Rightarrow> (string \<times> int option) list option
    \<Rightarrow> (int, sql_instance) go_map \<Rightarrow> sql_instance list" where
  "platformResolveWindows ord names services byPID =
     (let ns = registryInstances names
      in foldl add_registered (map (resolve_windows ns (sqlServicePIDs services)) (ord byPID)) ns)"

section \<open>Services of processes\<close>

record scm_mapper =
  sc_byPID :: "(int, string) go_map"
  sc_refreshed :: time

definition new_scm_mapper :: scm_mapper where
  "new_scm_mapper = \<lparr>sc_byPID = [], sc_refreshed = 0\<rparr>"

text \<open>The enumeration: the services with their process identifiers, when it succeeds.\<close>

definition scm_refresh :: "(int \<times> string) list option \<Rightarrow> scm_mapper \<Rightarrow> scm_mapper" where
  "scm_refresh services m =
     (case services of None \<Rightarrow> m
      | Some svcs \<Rightarrow> m\<lparr>sc_byPID := foldl (\<lambda>next (pid, name). if pid \<noteq> 0 then AList.update pid name next else next) [] svcs\<rparr>)"

definition ServiceForWindows :: "time \<Rightarrow> (int \<times> string) list option \<Rightarrow> int \<Rightarrow> scm_mapper \<Rightarrow> scm_mapper \<times> string" where
  "ServiceForWindows now services pid m =
     (let m = (if time_sub now (sc_refreshed m) > minutes 5 then (scm_refresh services m)\<lparr>sc_refreshed := now\<rparr> else m)
      in (m, case map_of (sc_byPID m) (pid mod 2 ^ 32) of Some s \<Rightarrow> s | None \<Rightarrow> []))"

section \<open>Scheduled tasks\<close>

definition win_separator :: "char \<Rightarrow> bool" where
  "win_separator c \<longleftrightarrow> c = CHR ''/'' \<or> c = CHR 0x5C"

text \<open>\<open>filepath.Base\<close> on Windows, for paths that are not UNC paths.\<close>

definition win_base :: "string \<Rightarrow> string" where
  "win_base p =
     (if p = [] then ''.''
      else
        let q = rev (dropWhile win_separator (rev p));
            q = (case q of v # d # r \<Rightarrow> if d = CHR '':'' then r else q | _ \<Rightarrow> q);
            b = rev (takeWhile (\<lambda>c. \<not> win_separator c) (rev q))
        in if b = [] then [CHR 0x5C] else b)"

definition microsoft_prefix :: string where
  "microsoft_prefix = [CHR 0x5C] @ ''Microsoft'' @ [CHR 0x5C]"

definition task_layouts :: "string list" where
  "task_layouts = [''1/2/2006 3:04:05 PM'', ''2006-01-02 15:04:05'']"

definition task_entry :: "(string \<Rightarrow> string \<Rightarrow> time option) \<Rightarrow> string list \<Rightarrow> sched_entry option" where
  "task_entry parse rec =
     (case rec of
        name # run # _ \<Rightarrow>
          if name = [] \<or> prefix microsoft_prefix name then None
          else Some \<lparr>se_Source = ''win_task'', se_Name = win_base name, se_Schedule = [], se_Unit = [], se_LastRun = 0,
            se_NextRun = (case List.map_filter (\<lambda>layout. parse layout run) task_layouts of ts # _ \<Rightarrow> ts | [] \<Rightarrow> 0)\<rparr>
      | _ \<Rightarrow> None)"

text \<open>\<open>csv\<close> gives the records of the output up to the first one that cannot be read.\<close>

definition platformEntriesWindows :: "(string \<Rightarrow> string list list) \<Rightarrow> (string \<Rightarrow> string \<Rightarrow> time option) \<Rightarrow> string + string
    \<Rightarrow> sched_entry list \<times> (string \<times> string) list" where
  "platformEntriesWindows csv parse output =
     (case output of
        Inl e \<Rightarrow> ([], [(''sched.tasks'', ''schtasks query failed: '' @ e)])
      | Inr b \<Rightarrow> (List.map_filter (task_entry parse) (csv b), []))"

section \<open>Connections\<close>

record connect_options =
  co_Instance :: sql_instance
  co_Auth :: string
  co_Username :: string
  co_PasswordFile :: string
  co_ConnectTimeout :: duration

text \<open>The URL before its encoding: host, path, credentials, and the query values by key.\<close>

record connect_target =
  ct_host :: string
  ct_path :: string
  ct_user :: "(string \<times> string) option"
  ct_query :: "(string \<times> string) list"

definition readSecretFile :: "(string \<Rightarrow> string + string) \<Rightarrow> string \<Rightarrow> string + string" where
  "readSecretFile read path =
     (if path = [] then Inl ''sql.password_file not configured''
      else case read path of Inl e \<Rightarrow> Inl e | Inr b \<Rightarrow> Inr (trim_space b))"

definition connect_target_of :: "(string \<Rightarrow> string + string) \<Rightarrow> connect_options \<Rightarrow> string + connect_target" where
  "connect_target_of read opts =
     (let inst = co_Instance opts;
          base = \<lparr>ct_host = ''localhost'', ct_path = [], ct_user = None,
            ct_query = [(''app name'', ''ura-agent''), (''database'', ''master''),
              (''dial timeout'', fmt_d (go_trunc (dur_seconds (co_ConnectTimeout opts)))), (''encrypt'', ''optional'')]\<rparr>;
          t = (if in_Name inst \<noteq> [] \<and> in_Name inst \<noteq> ''MSSQLSERVER'' then base\<lparr>ct_path := in_Name inst\<rparr>
               else if in_Port inst > 0 then base\<lparr>ct_host := ''localhost:'' @ fmt_d (in_Port inst)\<rparr> else base)
      in if co_Auth opts = ''sqllogin'' then
           (case readSecretFile read (co_PasswordFile opts) of
              Inl e \<Rightarrow> Inl (''sql password file: '' @ e)
            | Inr pw \<Rightarrow> Inr (t\<lparr>ct_user := Some (co_Username opts, pw)\<rparr>))
         else Inr t)"

text \<open>\<open>Connect\<close>: the error of the driver on opening and on the first ping, if any.\<close>

definition Connect :: "(string \<Rightarrow> string + string) \<Rightarrow> (connect_target \<Rightarrow> string option) \<Rightarrow> (connect_target \<Rightarrow> string option)
    \<Rightarrow> connect_options \<Rightarrow> string option" where
  "Connect read open_error ping_error opts =
     (case connect_target_of read opts of
        Inl e \<Rightarrow> Some e
      | Inr t \<Rightarrow> (case open_error t of Some e \<Rightarrow> Some e | None \<Rightarrow> ping_error t))"

text \<open>The options that \<open>rescan\<close> gives for an instance.\<close>

definition options_of :: "config \<Rightarrow> sql_instance \<Rightarrow> connect_options" where
  "options_of cfg inst = \<lparr>co_Instance = inst, co_Auth = sql_Auth (c_SQL cfg), co_Username = sql_Username (c_SQL cfg),
     co_PasswordFile = sql_PasswordFile (c_SQL cfg), co_ConnectTimeout = sql_ConnectTimeout (c_SQL cfg)\<rparr>"

section \<open>Guarantees\<close>

text \<open>The agent connects to its own host only, and without a password unless a login is configured.\<close>

lemma connects_locally:
  assumes "connect_target_of read opts = Inr t"
  shows "prefix ''localhost'' (ct_host t) \<and> (co_Auth opts \<noteq> ''sqllogin'' \<longrightarrow> ct_user t = None)"
  using assms by (auto simp: connect_target_of_def Let_def split: if_splits sum.splits)

text \<open>A service name is at most five minutes older than the request, when the enumeration succeeds.\<close>

lemma service_map_fresh:
  assumes "ServiceForWindows now services pid m = (m', s)"
  shows "time_sub now (sc_refreshed m') \<le> minutes 5 \<or> sc_refreshed m' = now"
  using assms by (auto simp: ServiceForWindows_def Let_def split: if_splits)

lemma add_registered_mono: "i \<in> set out \<Longrightarrow> i \<in> set (foldl add_registered out ns)"
  by (induction ns arbitrary: out) (simp_all add: add_registered_def)

lemma add_registered_all: "n \<in> set ns \<Longrightarrow> \<exists>i \<in> set (foldl add_registered out ns). in_Name i = n"
proof (induction ns arbitrary: out)
  case (Cons m ns)
  show ?case
  proof (cases "n = m")
    case True
    have "\<exists>i \<in> set (add_registered out m). in_Name i = m" by (auto simp: add_registered_def list_ex_iff no_instance_def)
    then show ?thesis using True add_registered_mono by fastforce
  next
    case False
    then show ?thesis using Cons by simp
  qed
qed simp

text \<open>
  C39. On Windows no instance is missed: every instance the registry lists is detected, also when its process
  cannot be read, every running \<open>sqlservr\<close> process is detected under its process identifier, and no
  other instance appears.
\<close>

theorem windows_instances_detected:
  assumes "mset (ord byPID) = mset byPID" "\<forall>p \<in> set byPID. in_PID (snd p) = fst p"
    "out = platformResolveWindows ord (Some names) services byPID"
  shows "(\<forall>n \<in> set names. \<exists>i \<in> set out. in_Name i = n) \<and> (\<forall>p \<in> set byPID. \<exists>i \<in> set out. in_PID i = fst p) \<and>
    (\<forall>i \<in> set out. in_PID i \<in> fst ` set byPID \<or> in_Name i \<in> set names)"
proof -
  let ?rs = "map (resolve_windows names (sqlServicePIDs services)) (ord byPID)"
  have out: "out = foldl add_registered ?rs names" by (simp add: assms(3) platformResolveWindows_def registryInstances_def)
  have pid: "in_PID (resolve_windows ns svc p) = in_PID (snd p)" for ns svc p
    by (simp add: resolve_windows_def Let_def split: prod.split option.split list.split)
  have set_ord: "set (ord byPID) = set byPID" using mset_eq_setD [OF assms(1)] .
  have sub: "i \<in> set (foldl add_registered xs ns) \<Longrightarrow> i \<in> set xs \<or> in_Name i \<in> set ns" for i xs ns
    by (induction ns arbitrary: xs) (fastforce simp: add_registered_def no_instance_def split: if_splits)+
  have "\<exists>i \<in> set out. in_PID i = fst p" if "p \<in> set byPID" for p
  proof
    show "in_PID (resolve_windows names (sqlServicePIDs services) p) = fst p" using that assms(2) pid by simp
    show "resolve_windows names (sqlServicePIDs services) p \<in> set out"
      using that set_ord unfolding out by (intro add_registered_mono) simp
  qed
  moreover have "in_PID i \<in> fst ` set byPID \<or> in_Name i \<in> set names" if "i \<in> set out" for i
  proof (cases "in_Name i \<in> set names")
    case False
    then have "i \<in> set ?rs" using sub that out by blast
    then obtain p where p: "p \<in> set byPID" "i = resolve_windows names (sqlServicePIDs services) p" using set_ord by auto
    then have "in_PID i = fst p" using assms(2) pid by simp
    then show ?thesis using p(1) by simp
  qed simp
  ultimately show ?thesis using add_registered_all unfolding out by blast
qed

theorem windows_instances_detected_witness:
  "''MSSQLSERVER'' \<in> in_Name ` set (platformResolveWindows rev (Some [''MSSQLSERVER'', ''SALES'']) (Some [(''MSSQL$SALES'', Some 8)])
     [(8, (no_instance ''MSSQLSERVER'')\<lparr>in_PID := 8\<rparr>)])"
  using windows_instances_detected [of rev "[(8, (no_instance ''MSSQLSERVER'')\<lparr>in_PID := 8\<rparr>)]" _ "[''MSSQLSERVER'', ''SALES'']"
      "Some [(''MSSQL$SALES'', Some 8)]", OF _ _ refl]
  by force

end
