(* ===== verification/Pipeline.thy ===== *)
theory Pipeline
  imports AgentMinutes DatasetFacts
begin

text \<open>
  From the probes of a host to the data of the analyzer: a session of the agent (\<open>AgentMinutes\<close>), the export
  command of a later process (\<open>New\<close> and \<open>ExportBundle\<close>), and \<open>LoadBundles\<close> on the bundle. The minutes the
  analyzer works on are the minutes of the session.
\<close>

section \<open>Decoding\<close>

text \<open>The minute a record stands for.\<close>

definition minute_in :: "decoders \<Rightarrow> string \<Rightarrow> host_minute option" where
  "minute_in dc r = (if dc_kind dc r = Some KindHostMinute then dc_minute dc r else None)"

lemma decodeInto_minutes:
  "hd_Minutes (decodeInto dc h r) = hd_Minutes h @ List.map_filter (minute_in dc) [r]"
proof (cases "dc_kind dc r")
  case None
  then show ?thesis by (simp add: decodeInto_def minute_in_def)
next
  case (Some k)
  then show ?thesis
    by (cases "k = KindHostMinute") (auto simp: decodeInto_def minute_in_def appended_to_def kind_defs split: option.split)
qed

lemma decode_all_minutes:
  "hd_Minutes (foldl (decodeInto dc) h rs) = hd_Minutes h @ List.map_filter (minute_in dc) rs"
  by (induction rs arbitrary: h) (simp_all add: decodeInto_minutes map_filter_simps split: option.split)

lemma segments_decoded:
  "list_all (\<lambda>s. sr_Status s = ''ok'') segs \<Longrightarrow>
   foldl (segment_step dc) (h, b) segs = (foldl (decodeInto dc) h (concat (map sr_Records segs)), b)"
  by (induction segs arbitrary: h) (simp_all add: segment_step_def)

text \<open>Loading one intact bundle.\<close>

definition bundle_host :: "decoders \<Rightarrow> manifest \<Rightarrow> string list \<Rightarrow> host_data" where
  "bundle_host dc m rs = foldl (decodeInto dc)
     ((new_host (mf_HostID m))\<lparr>hd_Manifests := hd_Manifests (new_host (mf_HostID m)) @ [m]\<rparr>) rs"

lemma bundle_host_minutes: "hd_Minutes (bundle_host dc m rs) = List.map_filter (minute_in dc) rs"
  by (simp add: bundle_host_def decode_all_minutes new_host_def)

lemma load_one_bundle:
  assumes "is_urab path" "ir_Fatal (imp path) = []" "ir_Manifest (imp path) = Some m"
    "list_all (\<lambda>s. sr_Status s = ''ok'') (ir_Segments (imp path))"
  shows "\<exists>ds. LoadBundles dc imp dir [path] = Inr ds \<and> ds_OKBundles ds = 1 \<and>
    ds_Hosts ds = [(mf_HostID m, normalizeHost (bundle_host dc m (concat (map sr_Records (ir_Segments (imp path))))))]"
  using assms segments_decoded [OF assms(4), of dc "(new_host (mf_HostID m))\<lparr>hd_Manifests := hd_Manifests (new_host (mf_HostID m)) @ [m]\<rparr>" False]
  by (simp add: LoadBundles_def load_step_def add_bundle_def bundle_host_def Let_def)

section \<open>Normalising what is in order\<close>

lemma normalize_strict:
  assumes "mset (hd_Minutes h) = mset ms" "sorted_wrt (<) (map m_TS ms)"
  shows "hd_Minutes (normalizeHost h) = ms"
proof -
  have "distinct (map m_TS ms)" "sorted (map m_TS ms)" using assms(2) by (simp_all add: strict_sorted_iff)
  then have "sort_key m_TS (hd_Minutes h) = ms"
    using mset_eq_setD [OF assms(1)] assms(1) by (intro sort_key_inj_key_eq) (auto simp: distinct_map)
  moreover have "runs None ms = ms" by (rule runs_id [OF assms(2)]) simp
  ultimately show ?thesis by (simp add: normalizeHost_def compact_minutes_eq_runs)
qed

section \<open>The closed segments and their records\<close>

lemma ListClosed_mset:
  assumes "disk_ok valid meta_ts d"
  shows "mset (ListClosed d) = mset (map snd (dk_meta d))"
proof -
  have "sg_Name (snd p) \<noteq> [] \<and> map_of (dk_closed d) (sg_Name (snd p)) \<noteq> None" if "p \<in> set (dk_meta d)" for p
  proof -
    have "closed_ok valid meta_ts d p" using that assms by (simp add: disk_ok_def list_all_iff)
    then obtain f n where "map_of (dk_closed d) (fst p) = Some f" "sg_Name (snd p) = fst p"
      "fst p = seg_name (sg_Kind (snd p)) (fmt_date (sg_MinTS (snd p))) n" unfolding closed_ok_def by blast
    then show ?thesis by (simp add: seg_name_def)
  qed
  then have "filter (\<lambda>i. sg_Name i \<noteq> [] \<and> map_of (dk_closed d) (sg_Name i) \<noteq> None) (map snd (dk_meta d)) = map snd (dk_meta d)"
    by (intro filter_True) auto
  then show ?thesis by (simp add: ListClosed_def)
qed

lemma closed_log_member:
  "p \<in> set (dk_meta d) \<Longrightarrow> r \<in> set (records_of junk valid (the (map_of (dk_closed d) (fst p)))) \<Longrightarrow>
   r \<in> set (closed_log junk valid d (sg_Kind (snd p)))"
  by (cases p) (force simp: closed_log_def)

definition segment_records :: "(chunk list \<Rightarrow> string) \<Rightarrow> (string \<Rightarrow> bool) \<Rightarrow> disk \<Rightarrow> segment_info \<Rightarrow> string list" where
  "segment_records junk valid d seg = records_of junk valid (the (map_of (dk_closed d) (sg_Name seg)))"

text \<open>When the records of a log are of its kind, what is read of one kind from all segments is what the log of the kind holds.\<close>

lemma listed_records:
  assumes "disk_ok valid meta_ts d" "\<forall>k. \<forall>r \<in> set (closed_log junk valid d k). dc_kind dc r = Some k"
    "\<And>r. f r \<noteq> None \<Longrightarrow> dc_kind dc r = Some kind"
  shows "mset (List.map_filter f (concat (map (segment_records junk valid d) (ListClosed d)))) =
    mset (List.map_filter f (closed_log junk valid d kind))"
proof -
  have mf: "mset (List.map_filter f xs) = mset (List.map_filter f ys)" if "mset xs = mset ys" for xs ys
    using that by (simp add: List.map_filter_def)
  have app: "List.map_filter f (xs @ ys) = List.map_filter f xs @ List.map_filter f ys" for xs ys
    by (simp add: List.map_filter_def)
  define fd where "fd = (\<lambda>p :: string \<times> segment_info. records_of junk valid (the (map_of (dk_closed d) (fst p))))"
  have name: "segment_records junk valid d (snd p) = fd p" if "p \<in> set (dk_meta d)" for p
  proof -
    have "closed_ok valid meta_ts d p" using that assms(1) by (simp add: disk_ok_def list_all_iff)
    then have "sg_Name (snd p) = fst p" unfolding closed_ok_def by blast
    then show ?thesis by (simp add: segment_records_def fd_def)
  qed
  have other: "List.map_filter f (fd p) = []" if "p \<in> set (dk_meta d)" "sg_Kind (snd p) \<noteq> kind" for p
  proof -
    have "r \<in> set (closed_log junk valid d (sg_Kind (snd p)))" if "r \<in> set (fd p)" for r
      using closed_log_member [OF \<open>p \<in> set (dk_meta d)\<close>] that by (simp add: fd_def)
    then have "dc_kind dc r = Some (sg_Kind (snd p))" if "r \<in> set (fd p)" for r using that assms(2) by blast
    then have "f r = None" if "r \<in> set (fd p)" for r
      using assms(3) [of r] that \<open>sg_Kind (snd p) \<noteq> kind\<close> by force
    then show ?thesis by (simp add: List.map_filter_def filter_empty_conv)
  qed
  have "map (segment_records junk valid d) (map snd (dk_meta d)) = map fd (dk_meta d)" using name by simp
  then have E1: "mset (concat (map (segment_records junk valid d) (ListClosed d))) = mset (concat (map fd (dk_meta d)))"
    using mset_concat_map_cong [OF ListClosed_mset [OF assms(1)], of "segment_records junk valid d"] by (simp only:)
  have E2: "List.map_filter f (concat (map fd ps)) =
      List.map_filter f (concat (map fd (filter (\<lambda>p. sg_Kind (snd p) = kind) ps)))"
    if "set ps \<subseteq> set (dk_meta d)" for ps
    using that
  proof (induction ps)
    case (Cons p ps)
    then show ?case using other [of p] by (simp add: app)
  qed simp
  have "closed_log junk valid d kind = concat (map fd (filter (\<lambda>p. sg_Kind (snd p) = kind) (dk_meta d)))"
    by (simp only: closed_log_def fd_def)
  then show ?thesis using mf [OF E1] E2 [OF subset_refl] by (simp only:)
qed

lemma minute_in_kind: "minute_in dc r \<noteq> None \<Longrightarrow> dc_kind dc r = Some KindHostMinute"
  by (simp add: minute_in_def split: if_splits)

section \<open>The export process\<close>

text \<open>What \<open>ExportBundle\<close> asks of \<open>Export\<close>.\<close>

definition export_request :: "agent_lib \<Rightarrow> config \<Rightarrow> agent_env \<Rightarrow> agent \<Rightarrow> export_input" where
  "export_request lib cfg env a =
     \<lparr>in_Recipient = ag_Recipient (c_Agent cfg), in_HostID = a_hostID a, in_Hostname = a_hostname a, in_Timezone = a_tz a,
      in_ConfigHash = al_hash lib,
      in_Health = \<lparr>hs_ExpectedMinutes = (if is_zero_time (ps_FirstStart (a_state a)) then 0
          else go_trunc (dur_minutes (time_sub (en_now env) (ps_FirstStart (a_state a))))),
        hs_CollectedMinutes = a_collectedMins a, hs_Gaps = [], hs_PermissionIssues = PermissionIssues (a_health a)\<rparr>,
      in_RemoveAfter = (\<not> re_KeepAfterExport (c_Retention cfg))\<rparr>"

lemma ExportBundle_request:
  "ExportBundle lib cfg env a = (case Export (al_codec lib) (Rotate (en_flush env) (en_close env) (en_now env)) (en_fails env)
     (en_bundle env) (en_now env) (export_request lib cfg env a) (a_store a) of (s, r) \<Rightarrow> (a\<lparr>a_store := s\<rparr>, r))"
  by (simp add: ExportBundle_def export_request_def Let_def)

text \<open>A shut down spool has no active file, so opening it recovers nothing.\<close>

lemma closed_spool_reopens:
  assumes "spool_inv valid meta_ts s" "s_active s = []"
  shows "Open junk valid meta_ts cout now (s_disk s) = (\<lparr>s_active = [], s_dropped = 0, s_disk = s_disk s\<rparr>, None)"
proof -
  have "map_of (dk_active (s_disk s)) k = None" for k
    using assms by (auto simp: spool_inv_def kind_ok_def dest: spec [of _ k])
  then have "dk_active (s_disk s) = []" by (metis map_of_eq_empty_iff ext)
  then show ?thesis by (simp add: Open_def)
qed

lemma closed_spool_inv:
  assumes "spool_inv valid meta_ts s" "s_active s = []"
  shows "spool_inv valid meta_ts \<lparr>s_active = [], s_dropped = 0, s_disk = s_disk s\<rparr>"
proof -
  have "kind_ok valid meta_ts \<lparr>s_active = [], s_dropped = 0, s_disk = s_disk s\<rparr> k \<longleftrightarrow> kind_ok valid meta_ts s k" for k
    using assms(2) by (simp add: kind_ok_def)
  then show ?thesis using assms by (simp add: spool_inv_def buffers_bounded_def active_keys_def)
qed

definition manifest_of_export :: "agent_lib \<Rightarrow> config \<Rightarrow> agent_env \<Rightarrow> agent \<Rightarrow> manifest" where
  "manifest_of_export lib cfg env a = build_manifest (al_codec lib) (export_request lib cfg env a) (en_bundle env) (en_now env)
     (s_disk (a_store a)) (ListClosed (s_disk (a_store a)))"

text \<open>A telemetry kind in a segment's name passes the importer.\<close>

lemma kinds_slug: "slug (kind_of t)"
  by (cases t) (simp_all add: kind_of.simps kind_defs slug_def)

lemma written_kind_slug:
  assumes "disk_ok valid meta_ts d" "\<forall>k. list_all (written lib k) (closed_log junk valid d k)" "p \<in> set (dk_meta d)"
  shows "slug (sg_Kind (snd p))"
proof -
  obtain f rs where p: "map_of (dk_closed d) (fst p) = Some f" "holds valid f rs" "rs \<noteq> []"
    using assms(1,3) unfolding disk_ok_def list_all_iff closed_ok_def by blast
  have "hd rs \<in> set (closed_log junk valid d (sg_Kind (snd p)))"
    using closed_log_member [OF assms(3)] p by simp
  then have "written lib (sg_Kind (snd p)) (hd rs)" using assms(2) by (simp add: list_all_iff)
  then obtain t where "kind_of t = sg_Kind (snd p)" by (auto simp: written_def)
  then show ?thesis using kinds_slug [of t] by simp
qed

lemma exported_fits:
  assumes "disk_ok valid meta_ts d" "\<forall>k. list_all (written lib k) (closed_log junk valid d k)"
    "\<forall>n b. Entry n b \<in> set (bundle_items c inp d m (ListClosed d)) \<longrightarrow> length b \<le> maxEntry"
  shows "fits (bundle_items c inp d m (ListClosed d))"
proof -
  have "plain_name (entry_name (sg_Name seg))" if seg: "seg \<in> set (ListClosed d)" for seg
  proof -
    obtain p where p: "p \<in> set (dk_meta d)" "seg = snd p" using seg by (auto simp: ListClosed_def)
    then have "closed_ok valid meta_ts d p" using assms(1) by (simp add: disk_ok_def list_all_iff)
    then obtain n where "sg_Name seg = seg_name (sg_Kind seg) (fmt_date (sg_MinTS seg)) n" unfolding closed_ok_def p(2) by metis
    then show ?thesis using segment_entry_plain [OF written_kind_slug [OF assms(1,2) p(1)]] p(2) by simp
  qed
  then show ?thesis using assms(3) manifest_name_plain by (auto simp: fits_def bundle_items_def)
qed

text \<open>The bundle of a spool of written records reads back, segment by segment.\<close>

lemma exported_spool:
  assumes "rot s = (s1, None)" "spool_inv (cd_valid (al_codec lib)) meta_ts s1"
    "\<forall>k. list_all (written lib k) (closed_log (cd_junk (al_codec lib)) (cd_valid (al_codec lib)) (s_disk s1) k)"
    "Export (al_codec lib) rot fails bid now inp s = (s', Inr items)"
    "m = build_manifest (al_codec lib) inp bid now (s_disk s1) (ListClosed (s_disk s1))"
    "codec_laws (al_codec lib) (in_Recipient inp) m (s_disk s1)"
    "\<forall>n b. Entry n b \<in> set items \<longrightarrow> length b \<le> maxEntry" "r = Import (al_codec lib) path (Inr items)"
  shows "ir_Fatal r = [] \<and> ir_Manifest r = Some m \<and> list_all (\<lambda>s. sr_Status s = ''ok'') (ir_Segments r) \<and>
    map sr_Records (ir_Segments r) =
      map (segment_records (cd_junk (al_codec lib)) (cd_valid (al_codec lib)) (s_disk s1)) (ListClosed (s_disk s1))"
proof -
  let ?c = "al_codec lib"
  have ok: "disk_ok (cd_valid ?c) meta_ts (s_disk s1)" using assms(2) by (simp add: spool_inv_def)
  have items: "items = bundle_items ?c inp (s_disk s1) m (ListClosed (s_disk s1))"
    using assms(1,4,5) by (auto simp: Export_def Let_def split: if_splits option.splits)
  have "fits items" using exported_fits [OF ok assms(3)] assms(7) unfolding items by blast
  then have "ir_Fatal r = [] \<and> ir_Manifest r = Some m \<and>
    ir_Segments r = map (\<lambda>seg. \<lparr>sr_Meta = meta_of ?c (in_Recipient inp) (s_disk s1) seg, sr_Status = ''ok'',
      sr_Records = segment_records (cd_junk ?c) (cd_valid ?c) (s_disk s1) seg, sr_Err = []\<rparr>) (ListClosed (s_disk s1))"
    using exported_reads_back [OF assms(1,4) ok _ assms(5,6), of path] assms(8)
    by (simp add: segment_records_def)
  then show ?thesis by (simp add: list.pred_map list.pred_True comp_def)
qed

lemma build_manifest_host: "mf_HostID (build_manifest c inp bid now d segs) = in_HostID inp"
proof -
  have "mf_HostID (foldl (add_segment c r d) m0 segs) = mf_HostID m0" for r m0
    by (induction segs arbitrary: m0) (simp_all add: add_segment_def Let_def)
  then show ?thesis by (simp add: build_manifest_def new_manifest_def)
qed

text \<open>In particular that of a later process on a shut down spool.\<close>

lemma exported_session:
  assumes "spool_inv (cd_valid (al_codec lib)) meta_ts s" "s_active s = []" "a_store a = \<lparr>s_active = [], s_dropped = 0, s_disk = s_disk s\<rparr>"
    "\<forall>k. list_all (written lib k) (closed_log (cd_junk (al_codec lib)) (cd_valid (al_codec lib)) (s_disk s) k)"
    "ExportBundle lib cfg env a = (a', Inr items)" "m = manifest_of_export lib cfg env a"
    "codec_laws (al_codec lib) (ag_Recipient (c_Agent cfg)) m (s_disk s)"
    "\<forall>n b. Entry n b \<in> set items \<longrightarrow> length b \<le> maxEntry" "r = Import (al_codec lib) path (Inr items)"
  shows "ir_Fatal r = [] \<and> ir_Manifest r = Some m \<and> list_all (\<lambda>s. sr_Status s = ''ok'') (ir_Segments r) \<and>
    map sr_Records (ir_Segments r) =
      map (segment_records (cd_junk (al_codec lib)) (cd_valid (al_codec lib)) (s_disk s)) (ListClosed (s_disk s))"
proof -
  have rot: "Rotate (en_flush env) (en_close env) (en_now env) (a_store a) = (a_store a, None)"
    by (simp add: Rotate_def assms(3))
  have d: "s_disk (a_store a) = s_disk s" by (simp add: assms(3))
  obtain s' where x: "Export (al_codec lib) (Rotate (en_flush env) (en_close env) (en_now env)) (en_fails env) (en_bundle env) (en_now env)
      (export_request lib cfg env a) (a_store a) = (s', Inr items)"
    using assms(5) by (auto simp: ExportBundle_request split: prod.splits)
  have inv: "spool_inv (cd_valid (al_codec lib)) meta_ts (a_store a)"
    using closed_spool_inv [OF assms(1,2)] by (simp add: assms(3))
  show ?thesis
    using exported_spool [OF rot inv _ x, of m r path] assms(4,6-9) by (simp add: d manifest_of_export_def export_request_def)
qed

section \<open>From the probes to the analyzer\<close>

text \<open>The decoders read what the encoder wrote: the kind of every record, and the given minutes.\<close>

definition decodes :: "agent_lib \<Rightarrow> decoders \<Rightarrow> host_minute list \<Rightarrow> bool" where
  "decodes lib dc ms \<longleftrightarrow> (\<forall>t b. al_encode lib t = Some b \<longrightarrow> dc_kind dc b = Some (kind_of t)) \<and>
     list_all (\<lambda>m. dc_minute dc (stored lib m) = Some m) ms"

lemma written_kind: "decodes lib dc ms \<Longrightarrow> written lib k r \<Longrightarrow> dc_kind dc r = Some k"
  by (auto simp: decodes_def written_def)

lemma samples_sorted:
  "sorted (map (en_now \<circ> snd) evs) \<Longrightarrow> sorted (map hr_TS (samples_taken evs s)) \<and>
   (\<forall>x \<in> set (samples_taken evs s). \<exists>p \<in> set evs. hr_TS x = en_now (snd p))"
proof (induction evs arbitrary: s)
  case (Cons e rest)
  obtain s' hr iss where sa: "Sample (en_now (snd e)) (en_probes (snd e)) s = (s', hr, iss)" by (metis prod.collapse)
  have IH: "sorted (map hr_TS (samples_taken rest x)) \<and> (\<forall>y \<in> set (samples_taken rest x). \<exists>p \<in> set rest. hr_TS y = en_now (snd p))" for x
    using Cons by simp
  moreover have "\<forall>p \<in> set rest. en_now (snd e) \<le> en_now (snd p)" using Cons.prems by auto
  ultimately have le: "\<forall>y \<in> set (samples_taken rest x). en_now (snd e) \<le> hr_TS y" for x by force
  have ts: "\<forall>y. hr = Some y \<longrightarrow> hr_TS y = en_now (snd e)" using sa Sample_TS by blast
  show ?case using IH le ts sa by (cases e) (auto split: option.split)
qed simp

text \<open>The minutes of a session are in strict order when the clock does not run backwards.\<close>

lemma session_minutes_sorted:
  assumes "sorted (map (en_now \<circ> snd) evs)" "map strip_fs ms = map (emit_run ord) (minute_runs (samples_taken evs s))"
  shows "sorted_wrt (<) (map m_TS ms)"
proof -
  have "map m_TS ms = map m_TS (map strip_fs ms)" by (simp add: strip_fs_def)
  also have "\<dots> = map (\<lambda>r. minute_of (hd r)) (minute_runs (samples_taken evs s))"
    unfolding assms(2) by (simp add: emit_run_def)
  finally show ?thesis using minute_runs_sorted samples_sorted [OF assms(1)] by metis
qed


section \<open>A small fleet of one\<close>

text \<open>The codec is used by the export only.\<close>

lemma codec_unused [simp]:
  "append_rec (lib\<lparr>al_codec := c\<rparr>) env t a = append_rec lib env t a"
  "store_rec (lib\<lparr>al_codec := c\<rparr>) env t a = store_rec lib env t a"
  by (simp_all add: append_rec_def store_rec_def)

lemma codec_unused_calls [simp]:
  "store_all (lib\<lparr>al_codec := c\<rparr>) env ts a = store_all lib env ts a"
  "writeInventory (lib\<lparr>al_codec := c\<rparr>) cfg env a = writeInventory lib cfg env a"
  "store_minute (lib\<lparr>al_codec := c\<rparr>) env hm a = store_minute lib env hm a"
  "finishSpike (lib\<lparr>al_codec := c\<rparr>) cfg env a ev = finishSpike lib cfg env a ev"
  "on_health (lib\<lparr>al_codec := c\<rparr>) env a = on_health lib env a"
  by (simp_all add: store_all_def writeInventory_def store_minute_def finishSpike_def on_health_def health_record_def Let_def
      split: prod.split option.split)

lemma codec_unused_step:
  assumes "\<not> ex_AutoDaily (c_Export cfg)"
  shows "agent_step (lib\<lparr>al_codec := c\<rparr>) cfg ev env a = agent_step lib cfg ev env a"
proof -
  have "finishSpike (lib\<lparr>al_codec := c\<rparr>) cfg env = finishSpike lib cfg env" by (intro ext) simp
  then show ?thesis using assms
    by (cases ev) (simp_all add: onHostSample_def offer_sample_def on_persist_def on_sql_def on_sql_inventory_def on_sched_def
        on_flush_def maybeAutoExport_def on_retention_def Let_def split: prod.split option.split)
qed

lemma codec_unused_run:
  "\<not> ex_AutoDaily (c_Export cfg) \<Longrightarrow> run_events (lib\<lparr>al_codec := c\<rparr>) cfg evs a = run_events lib cfg evs a"
  by (induction evs arbitrary: a) (auto simp: codec_unused_step split: prod.split)

lemma codec_unused_ends:
  "start_run (lib\<lparr>al_codec := c\<rparr>) cfg env a = start_run lib cfg env a" "shutdown (lib\<lparr>al_codec := c\<rparr>) env a = shutdown lib env a"
  by (simp_all add: start_run_def begin_run_def shutdown_def Let_def split: prod.split option.split)

text \<open>A session of two samples of one minute, a spool that encodes just that minute, and the export of its one segment.\<close>

definition pipe_events :: "(agent_event \<times> agent_env) list" where
  "pipe_events = [(HostTick, calm_event (minutes 2)), (HostTick, calm_event (minutes 2 + seconds 15)), (FlushTick, calm_event (minutes 3))]"

definition pipe_sampler :: sampler where
  "pipe_sampler = fst (Sample (minutes 1) silent_probes NewSampler)"

definition pipe_minutes :: "host_minute list" where
  "pipe_minutes = session_minutes \<lparr>eo_disk = id, eo_net = id\<rparr> pipe_events pipe_sampler \<lparr>ag_minute = 0, ag_samples = []\<rparr>"

definition pipe_lib :: "codec \<Rightarrow> agent_lib" where
  "pipe_lib c = toy_lib\<lparr>al_encode := (\<lambda>t. case t of THostMinute m \<Rightarrow> if pipe_minutes = [m] then Some ''{a}'' else None | _ \<Rightarrow> None),
     al_codec := c\<rparr>"

definition pipe_start :: agent where
  "pipe_start = start_run (pipe_lib toy_codec) keep_config (calm_event (minutes 1)) keep_agent"

definition pipe_end :: "agent \<times> spool_error option" where
  "pipe_end = shutdown (pipe_lib toy_codec) (calm_event (minutes 9)) (fst (run_events (pipe_lib toy_codec) keep_config pipe_events pipe_start))"

definition pipe_disk :: disk where
  "pipe_disk = s_disk (a_store (fst pipe_end))"

definition pipe_exporter :: agent where
  "pipe_exporter = keep_agent\<lparr>a_store := \<lparr>s_active = [], s_dropped = 0, s_disk = pipe_disk\<rparr>,
     a_health := newHealthTracker (minutes 10) True\<rparr>"

definition pipe_base :: codec where
  "pipe_base = toy_codec\<lparr>cd_ungz := (\<lambda>s. snd (hd (dk_closed pipe_disk)))\<rparr>"

definition pipe_manifest :: manifest where
  "pipe_manifest = manifest_of_export (pipe_lib pipe_base) keep_config (calm_event (minutes 20)) pipe_exporter"

definition pipe_codec :: codec where
  "pipe_codec = pipe_base\<lparr>cd_par := (\<lambda>p. Inr pipe_manifest)\<rparr>"

definition pipe_items :: "tar_item list" where
  "pipe_items = projr (snd (ExportBundle (pipe_lib pipe_codec) keep_config (calm_event (minutes 20)) pipe_exporter))"

definition pipe_decoders :: decoders where
  "pipe_decoders = \<lparr>dc_kind = (\<lambda>b. Some KindHostMinute), dc_inventory = (\<lambda>b. None), dc_minute = (\<lambda>b. Some (hd pipe_minutes)),
     dc_spike = (\<lambda>b. None), dc_proctop = (\<lambda>b. None), dc_sched = (\<lambda>b. None), dc_sqlinv = (\<lambda>b. None), dc_sqlsample = (\<lambda>b. None),
     dc_sqlspike = (\<lambda>b. None), dc_health = (\<lambda>b. None)\<rparr>"

lemma pipe_samples: "\<exists>x y. samples_taken pipe_events pipe_sampler = [x, y] \<and> hr_TS x = minutes 2 \<and> hr_TS y = minutes 2 + seconds 15"
proof -
  have prev: "sm_prevTS (fst (Sample now p s)) = now" for now p s
    by (simp add: Sample_def Let_def split: prod.split)
  have some: "\<exists>hr. fst (snd (Sample now p s)) = Some hr" if "sm_prevTS s \<noteq> 0" for now p s
    using that by (simp add: Sample_def Let_def split: prod.split)
  obtain s1 x i1 where 1: "Sample (minutes 2) silent_probes pipe_sampler = (s1, Some x, i1)"
    using some [of pipe_sampler "minutes 2" silent_probes] prev [of "minutes 1" silent_probes NewSampler]
    by (metis (no_types) pipe_sampler_def prod.collapse minutes_def seconds_def zero_neq_numeral mult_1 mult_eq_0_iff)
  then obtain s2 y i2 where 2: "Sample (minutes 2 + seconds 15) silent_probes s1 = (s2, Some y, i2)"
    using some [of s1 "minutes 2 + seconds 15" silent_probes] prev [of "minutes 2" silent_probes pipe_sampler]
    by (metis (no_types) fst_conv prod.collapse minutes_def seconds_def zero_neq_numeral mult_eq_0_iff)
  show ?thesis using 1 2 Sample_TS [OF 1] Sample_TS [OF 2] by (simp add: pipe_events_def calm_event_def)
qed

lemma pipe_one_minute: "\<exists>m. pipe_minutes = [m] \<and> hm_Samples m = 2"
proof -
  obtain x y where xy: "samples_taken pipe_events pipe_sampler = [x, y]" "hr_TS x = minutes 2" "hr_TS y = minutes 2 + seconds 15"
    using pipe_samples by blast
  let ?ord = "\<lparr>eo_disk = id, eo_net = id\<rparr> :: emit_orders"
  have "minute_of y = minute_of x" unfolding minute_of_def xy(2,3) by code_simp
  then have "minute_runs [x, y] = [[x, y]]" by simp
  moreover have "\<forall>z \<in> set [x, y]. minutes 1 \<le> hr_TS z" by (simp add: xy(2,3) minutes_def seconds_def)
  ultimately have "map strip_fs pipe_minutes = [emit_run ?ord [x, y]]"
    using session_minutes_strip [of ?ord pipe_events pipe_sampler "\<lparr>ag_minute = 0, ag_samples = []\<rparr>"] all_minutes_runs [of "[x, y]" ?ord]
    by (simp add: pipe_minutes_def xy(1))
  then obtain m where m: "pipe_minutes = [m]" "strip_fs m = emit_run ?ord [x, y]" by auto
  have "hm_Samples m = hm_Samples (strip_fs m)" by (simp add: strip_fs_def)
  then show ?thesis using m by (intro exI [of _ m]) (simp add: emit_run_def)
qed

lemma pipe_session_runs:
  "start_run (pipe_lib c) keep_config (calm_event (minutes 1)) keep_agent = pipe_start"
  "shutdown (pipe_lib c) (calm_event (minutes 9)) (fst (run_events (pipe_lib c) keep_config pipe_events pipe_start)) = pipe_end"
proof -
  have lib: "pipe_lib c = (pipe_lib toy_codec)\<lparr>al_codec := c\<rparr>" by (simp add: pipe_lib_def)
  have cfg: "\<not> ex_AutoDaily (c_Export keep_config)" by (simp add: keep_config_def)
  show "start_run (pipe_lib c) keep_config (calm_event (minutes 1)) keep_agent = pipe_start"
    unfolding lib codec_unused_ends by (simp add: pipe_start_def)
  show "shutdown (pipe_lib c) (calm_event (minutes 9)) (fst (run_events (pipe_lib c) keep_config pipe_events pipe_start)) = pipe_end"
    unfolding lib codec_unused_ends codec_unused_run [OF cfg] by (simp add: pipe_end_def)
qed

lemma pipe_start_sampler: "a_sampler pipe_start = pipe_sampler"
proof -
  obtain b s iss hr where b: "effect (pipe_lib toy_codec) (calm_event (minutes 1)) (noted_start (calm_event (minutes 1)) keep_agent) b"
    "Sample (en_now (calm_event (minutes 1))) (en_probes (calm_event (minutes 1))) (a_sampler b) = (s, hr, iss)"
    "pipe_start = fst (snap_procs (calm_event (minutes 1)) (report_all (en_now (calm_event (minutes 1))) iss (b\<lparr>a_sampler := s\<rparr>)))"
    using start_run_split [of "pipe_lib toy_codec" "calm_event (minutes 1)" keep_agent keep_config] unfolding pipe_start_def by blast
  have "a_sampler b = NewSampler"
    using effect_host [OF b(1)] by (simp add: noted_start_def saveState_def keep_agent_def NewAgent_def bundle_recipient_missing_def
        keep_config_def toy_config_def with_recipient_def)
  then have "s = pipe_sampler" using b(2) by (simp add: pipe_sampler_def calm_event_def)
  then show ?thesis
    using effect_host [OF effect_snap_procs [OF effect_refl], of "calm_event (minutes 1)" "report_all (en_now (calm_event (minutes 1))) iss (b\<lparr>a_sampler := s\<rparr>)"]
    by (simp add: b(3) report_all_def)
qed

text \<open>The hypotheses of a session, for any codec.\<close>

lemma pipe_session:
  "NewAgent keep_config 1 True True (Inr ''ura-1'') (empty_store, None) 2 None = Inr keep_agent"
  "encodes (pipe_lib c) small_json" "\<not> ex_AutoDaily (c_Export keep_config)" "calls_ok (calm_event t)"
  "list_all (event_ok \<lparr>eo_disk = id, eo_net = id\<rparr>) pipe_events" "en_emit (calm_event t) = \<lparr>eo_disk = id, eo_net = id\<rparr>"
  "pipe_minutes = session_minutes \<lparr>eo_disk = id, eo_net = id\<rparr> pipe_events (a_sampler pipe_start) \<lparr>ag_minute = 0, ag_samples = []\<rparr>"
  "list_all (encoded (pipe_lib c) small_json) pipe_minutes"
proof -
  show "NewAgent keep_config 1 True True (Inr ''ura-1'') (empty_store, None) 2 None = Inr keep_agent"
    by (simp add: keep_agent_def NewAgent_def bundle_recipient_missing_def keep_config_def toy_config_def with_recipient_def)
  have rec: "rec_ok small_json small_ts ''{a}''" by (simp add: rec_ok_def small_records small_ts_def)
  then show "encodes (pipe_lib c) small_json"
    by (auto simp: encodes_def pipe_lib_def toy_lib_def split: telemetry.splits if_splits)
  show "\<not> ex_AutoDaily (c_Export keep_config)" by (simp add: keep_config_def)
  show calls: "calls_ok (calm_event t)" for t by (simp add: calls_ok_def calm_event_def calm_def)
  show emit: "en_emit (calm_event t) = \<lparr>eo_disk = id, eo_net = id\<rparr>" for t by (simp add: calm_event_def)
  show "list_all (event_ok \<lparr>eo_disk = id, eo_net = id\<rparr>) pipe_events"
    by (simp add: pipe_events_def event_ok_def calls emit) (simp add: calm_event_def minutes_def seconds_def)
  show "pipe_minutes = session_minutes \<lparr>eo_disk = id, eo_net = id\<rparr> pipe_events (a_sampler pipe_start) \<lparr>ag_minute = 0, ag_samples = []\<rparr>"
    by (simp add: pipe_start_sampler pipe_minutes_def)
  show "list_all (encoded (pipe_lib c) small_json) pipe_minutes"
  proof -
    obtain m where m: "pipe_minutes = [m]" using pipe_one_minute by blast
    have "encoded (pipe_lib c) small_json m" unfolding encoded_def pipe_lib_def using rec by (simp add: m toy_lib_def)
    then show ?thesis unfolding m by simp
  qed
qed

lemma pipe_written: "written (pipe_lib c) k r \<Longrightarrow> k = KindHostMinute \<and> r = ''{a}''"
proof -
  assume "written (pipe_lib c) k r"
  then obtain t where "kind_of t = k" "al_encode (pipe_lib c) t = Some r" by (auto simp: written_def)
  then show ?thesis by (cases t) (auto simp: pipe_lib_def kind_of.simps split: if_splits)
qed

text \<open>There is one closed segment.\<close>

lemma pipe_closed:
  "spool_inv small_json small_ts (a_store (fst pipe_end)) \<and> s_active (a_store (fst pipe_end)) = [] \<and>
   length (closed_log (\<lambda>f. []) small_json pipe_disk KindHostMinute) = 1 \<and>
   (\<forall>k. list_all (written (pipe_lib toy_codec) k) (closed_log (\<lambda>f. []) small_json pipe_disk k))"
proof -
  have ts: "al_meta_ts (pipe_lib c) = small_ts" for c by (simp add: pipe_lib_def toy_lib_def)
  obtain m where m: "pipe_minutes = [m]" using pipe_one_minute by blast
  obtain c e where ce: "pipe_end = (c, e)" by force
  note S = session_stored [OF pipe_session(1) empty_spool(1) pipe_session(2) [of toy_codec] pipe_session(3,4,5,4,6)
      pipe_session_runs(1) [symmetric] pipe_session(7,8) pipe_session_runs(2) [unfolded ce], of "\<lambda>f. []", unfolded empty_spool(2) append_Nil]
  then show ?thesis by (auto simp: pipe_disk_def ce gained_def ts m)
qed

lemma pipe_one_segment:
  "\<exists>n f i. disk_ok small_json small_ts pipe_disk \<and> dk_closed pipe_disk = [(n, f)] \<and> dk_meta pipe_disk = [(n, i)]"
proof -
  have hm: "length (closed_log (\<lambda>f. []) small_json pipe_disk KindHostMinute) = 1"
    and ok: "disk_ok small_json small_ts pipe_disk"
    and wr: "\<And>k. list_all (written (pipe_lib toy_codec) k) (closed_log (\<lambda>f. []) small_json pipe_disk k)"
    using pipe_closed by (simp_all add: spool_inv_def pipe_disk_def)
  have ne: "sg_Kind (snd p) = KindHostMinute \<and> records_of (\<lambda>f. []) small_json (the (map_of (dk_closed pipe_disk) (fst p))) \<noteq> []"
    if p: "p \<in> set (dk_meta pipe_disk)" for p
  proof -
    obtain f rs where f: "map_of (dk_closed pipe_disk) (fst p) = Some f" "holds small_json f rs" "rs \<noteq> []"
      using ok p unfolding disk_ok_def list_all_iff closed_ok_def by blast
    then have "hd rs \<in> set (closed_log (\<lambda>f. []) small_json pipe_disk (sg_Kind (snd p)))" using closed_log_member [OF p] by simp
    then show ?thesis using f wr pipe_written by (fastforce simp: list_all_iff)
  qed
  then have "filter (\<lambda>p. sg_Kind (snd p) = KindHostMinute) (dk_meta pipe_disk) = dk_meta pipe_disk" by (simp add: filter_id_conv)
  then have len: "(\<Sum>p\<leftarrow>dk_meta pipe_disk. length (records_of (\<lambda>f. []) small_json (the (map_of (dk_closed pipe_disk) (fst p))))) = 1"
    using hm by (simp add: closed_log_def length_concat comp_def)
  have "length ps \<le> (\<Sum>p\<leftarrow>ps. g p)" if "\<forall>p \<in> set ps. g p \<noteq> 0" for ps :: "(string \<times> segment_info) list" and g :: "_ \<Rightarrow> nat"
    using that by (induction ps) auto
  from this [of "dk_meta pipe_disk" "\<lambda>p. length (records_of (\<lambda>f. []) small_json (the (map_of (dk_closed pipe_disk) (fst p))))"]
  have "length (dk_meta pipe_disk) = 1" using ne len by (cases "dk_meta pipe_disk") auto
  moreover have "map fst (dk_meta pipe_disk) = map fst (dk_closed pipe_disk)" using ok by (simp add: disk_ok_def)
  ultimately show ?thesis using ok by (cases "dk_meta pipe_disk"; cases "dk_closed pipe_disk") auto
qed

lemma pipe_manifest_codec: "pipe_manifest = manifest_of_export (pipe_lib pipe_codec) keep_config (calm_event (minutes 20)) pipe_exporter"
proof -
  have "add_segment pipe_codec = add_segment pipe_base"
    by (intro ext) (simp add: pipe_codec_def add_segment_def encrypted_segment_def Let_def)
  moreover have "export_request (pipe_lib pipe_codec) keep_config env a = export_request (pipe_lib pipe_base) keep_config env a" for env a
    by (simp add: export_request_def pipe_lib_def)
  ultimately show ?thesis unfolding pipe_manifest_def manifest_of_export_def build_manifest_def by (simp add: pipe_lib_def)
qed

lemma pipe_export:
  "\<exists>x' d inp segs. ExportBundle (pipe_lib pipe_codec) keep_config (calm_event (minutes 20)) pipe_exporter = (x', Inr pipe_items) \<and>
     pipe_items = bundle_items pipe_codec inp d pipe_manifest segs"
proof -
  obtain n f i where one: "disk_ok small_json small_ts pipe_disk" "dk_meta pipe_disk = [(n, i)]"
    using pipe_one_segment by blast
  have "ListClosed pipe_disk \<noteq> []" using ListClosed_mset [OF one(1)] one(2) by auto
  moreover have "first_failure (\<lambda>st. False) st = None" for st by (simp add: first_failure_def)
  ultimately obtain x' where "ExportBundle (pipe_lib pipe_codec) keep_config (calm_event (minutes 20)) pipe_exporter =
      (x', Inr (bundle_items pipe_codec (export_request (pipe_lib pipe_codec) keep_config (calm_event (minutes 20)) pipe_exporter) pipe_disk
        pipe_manifest (ListClosed pipe_disk)))"
    unfolding pipe_manifest_codec manifest_of_export_def
    by (simp add: ExportBundle_request Export_def Rotate_def pipe_exporter_def Let_def) (simp add: calm_event_def pipe_lib_def Let_def)
  then show ?thesis unfolding pipe_items_def by auto
qed


end
