(* ===== verification/Synth.thy ===== *)
theory Synth
  imports Agent "HOL-Library.State_Monad"
begin

text \<open>
  The demonstration fleet of \<open>internal/synth/synth.go\<close>: the specification of each host, the records made for
  it, and the bundle they are exported into. The pseudo random generator is an argument (the record \<open>rng\<close>):
  a function that draws from it is a state monad over its state, in the order in which the code draws. The
  sine function is an argument too, and so are the outcomes of all system calls.
\<close>

section \<open>The fleet\<close>

record sql_spec =
  sqs_instance :: string
  sqs_maxMemMB :: u64
  sqs_agRole :: string
  sqs_agName :: string
  sqs_partner :: string
  sqs_busy :: bool

record host_spec =
  sh_id :: string
  sh_name :: string
  sh_os :: string
  sh_vcpu :: int
  sh_ramGB :: f64
  sh_baseCPU :: f64
  sh_ampCPU :: f64
  sh_baseMemPct :: f64
  sh_nightlySpike :: bool
  sh_spikeProc :: string
  sh_spikeUnit :: string
  sh_memPressure :: bool
  sh_sql :: "sql_spec option"

text \<open>The fields a composite literal of the code leaves out are zero.\<close>

definition mk_host :: "string \<Rightarrow> string \<Rightarrow> string \<Rightarrow> int \<Rightarrow> int \<Rightarrow> int \<Rightarrow> int \<Rightarrow> int \<Rightarrow> host_spec" where
  "mk_host n name os vcpu ram base amp mem =
     \<lparr>sh_id = ''ura-aaaaaaaaaaaaaaaaaaaaaaaaaaaaaa'' @ n, sh_name = name, sh_os = os, sh_vcpu = vcpu,
      sh_ramGB = of_go_int ram, sh_baseCPU = of_go_int base, sh_ampCPU = of_go_int amp, sh_baseMemPct = of_go_int mem,
      sh_nightlySpike = False, sh_spikeProc = [], sh_spikeUnit = [], sh_memPressure = False, sh_sql = None\<rparr>"

definition web_linux_01 :: host_spec where
  "web_linux_01 = mk_host ''01'' ''web-linux-01'' ''linux'' 8 16 10 6 32"

definition batch_linux_02 :: host_spec where
  "batch_linux_02 = (mk_host ''02'' ''batch-linux-02'' ''linux'' 8 32 12 5 38)
     \<lparr>sh_nightlySpike := True, sh_spikeProc := ''python3'', sh_spikeUnit := ''etl-nightly.service''\<rparr>"

definition sql_win_01 :: host_spec where
  "sql_win_01 = (mk_host ''03'' ''sql-win-01'' ''windows'' 16 64 22 12 88)
     \<lparr>sh_nightlySpike := True, sh_spikeProc := ''sqlservr.exe'', sh_spikeUnit := ''MSSQLSERVER'',
      sh_sql := Some \<lparr>sqs_instance = ''MSSQLSERVER'', sqs_maxMemMB = 2147483647, sqs_agRole = [], sqs_agName = [],
        sqs_partner = [], sqs_busy = True\<rparr>\<rparr>"

definition sqlag_win_02 :: host_spec where
  "sqlag_win_02 = (mk_host ''04'' ''sqlag-win-02'' ''windows'' 16 64 45 18 80)
     \<lparr>sh_sql := Some \<lparr>sqs_instance = ''MSSQLSERVER'', sqs_maxMemMB = 51200, sqs_agRole = ''PRIMARY'',
        sqs_agName = ''AG-CORE'', sqs_partner = ''sqlag-win-03'', sqs_busy = True\<rparr>\<rparr>"

definition sqlag_win_03 :: host_spec where
  "sqlag_win_03 = (mk_host ''05'' ''sqlag-win-03'' ''windows'' 16 64 6 3 74)
     \<lparr>sh_sql := Some \<lparr>sqs_instance = ''MSSQLSERVER'', sqs_maxMemMB = 51200, sqs_agRole = ''SECONDARY'',
        sqs_agName = ''AG-CORE'', sqs_partner = ''sqlag-win-02'', sqs_busy = False\<rparr>\<rparr>"

definition mem_linux_03 :: host_spec where
  "mem_linux_03 = (mk_host ''06'' ''mem-linux-03'' ''linux'' 4 8 35 12 93)\<lparr>sh_memPressure := True\<rparr>"

definition fleet :: "host_spec list" where
  "fleet = [web_linux_01, batch_linux_02, sql_win_01, sqlag_win_02, sqlag_win_03, mem_linux_03]"

section \<open>Random draws\<close>

text \<open>\<open>rand.NewSource\<close>, \<open>Float64\<close> and \<open>Intn\<close>.\<close>

record 'g rng =
  rg_seed :: "int \<Rightarrow> 'g"
  rg_float :: "'g \<Rightarrow> f64 \<times> 'g"
  rg_intn :: "int \<Rightarrow> 'g \<Rightarrow> int \<times> 'g"

abbreviation ret :: "'a \<Rightarrow> ('s, 'a) state" where
  "ret \<equiv> State_Monad.return"

definition draw :: "'g rng \<Rightarrow> ('g, f64) state" where
  "draw R = State (rg_float R)"

definition draw_int :: "'g rng \<Rightarrow> int \<Rightarrow> ('g, int) state" where
  "draw_int R n = State (rg_intn R n)"

text \<open>\<open>r2(rng.Float64() * b)\<close> and \<open>a + rng.Float64() * b\<close>, rounded and not.\<close>

definition spread :: "'g rng \<Rightarrow> rat \<Rightarrow> rat \<Rightarrow> ('g, f64) state" where
  "spread R a b = do {u \<leftarrow> draw R; ret (fl a + u * fl b)}"

definition r2_upto :: "'g rng \<Rightarrow> rat \<Rightarrow> ('g, f64) state" where
  "r2_upto R b = do {u \<leftarrow> draw R; ret (round2 (u * fl b))}"

definition r2_spread :: "'g rng \<Rightarrow> rat \<Rightarrow> rat \<Rightarrow> ('g, f64) state" where
  "r2_spread R a b = do {x \<leftarrow> spread R a b; ret (round2 x)}"

definition u64_of :: "f64 \<Rightarrow> u64" where
  "u64_of x = word_of_int (go_trunc x)"

definition math_pi :: f64 where
  "math_pi = fl (884279719003555 / 281474976710656)"

section \<open>A minute of a host\<close>

definition hour_float :: "time \<Rightarrow> f64" where
  "hour_float ts = of_go_int (hour_of_day ts) + of_go_int (minute_of_hour ts) / fl 60"

definition diurnal :: "(f64 \<Rightarrow> f64) \<Rightarrow> host_spec \<Rightarrow> f64 \<Rightarrow> f64" where
  "diurnal sine hs hour = sh_baseCPU hs + sh_ampCPU hs * sine ((hour - fl 9) / fl 24 * fl 2 * math_pi)"

definition synth_disk :: "'g rng \<Rightarrow> ('g, disk_agg) state" where
  "synth_disk R = do {
     readIOPS \<leftarrow> r2_spread R 20 30;
     writeIOPS \<leftarrow> r2_spread R 40 40;
     readLat \<leftarrow> r2_spread R 1 2;
     writeLat \<leftarrow> r2_spread R (3 / 2) 2;
     depth \<leftarrow> do {u \<leftarrow> draw R; ret (round2 u)};
     busy \<leftarrow> r2_spread R 5 10;
     ret \<lparr>da_Device = ''sda'', da_ReadIOPS = readIOPS, da_WriteIOPS = writeIOPS, da_ReadBytesPS = 0,
       da_WriteBytesPS = 0, da_ReadLatMS = readLat, da_WriteLatMS = writeLat, da_QueueDepth = depth, da_BusyPct = busy\<rparr>}"

definition synth_net :: "'g rng \<Rightarrow> ('g, net_agg) state" where
  "synth_net R = do {
     rx \<leftarrow> r2_spread R 2000000 1000000;
     tx \<leftarrow> r2_spread R 1000000 500000;
     ret \<lparr>na_Name = ''eth0'', na_RxBytesPS = rx, na_TxBytesPS = tx, na_RxPktsPS = fl 1200,
       na_TxPktsPS = fl 900, na_ErrsPS = 0, na_DropsPS = 0, na_UtilPct = 0\<rparr>}"

definition synth_cpu :: "host_spec \<Rightarrow> f64 \<Rightarrow> f64 \<Rightarrow> cpu_agg" where
  "synth_cpu hs cpu iowait =
     \<lparr>ca_AvgPct = round2 cpu, ca_MaxPct = round2 (min (fl 100) (cpu + fl 5)), ca_UserPct = round2 (cpu * fl (7 / 10)),
      ca_SystemPct = round2 (cpu * fl (25 / 100)), ca_IOWaitPct = iowait, ca_StealPct = 0, ca_PerCoreMax = [],
      ca_Load1 = round2 (cpu / fl 100 * of_go_int (sh_vcpu hs)), ca_Load5 = 0, ca_RunQueue = 0, ca_CtxSwitchPS = 0\<rparr>"

definition gib_float :: f64 where
  "gib_float = fl 1073741824"

definition synth_mem :: "host_spec \<Rightarrow> f64 \<Rightarrow> mem_agg" where
  "synth_mem hs memPct =
     \<lparr>ma_UsedPctAvg = round2 memPct, ma_UsedPctMax = round2 (memPct + fl 2),
      ma_UsedBytesAvg = u64_of (memPct / fl 100 * sh_ramGB hs * gib_float),
      ma_AvailBytesMin = u64_of ((fl 100 - memPct - fl 2) / fl 100 * sh_ramGB hs * gib_float),
      ma_CommittedBytes = 0, ma_SwapUsedBytes = 0, ma_PageInPS = 0, ma_PageOutPS = 0, ma_MajorFaultPS = 0\<rparr>"

text \<open>Memory pressure, or the quiet pressure figures of Linux.\<close>

definition synth_pressure :: "'g rng \<Rightarrow> host_spec \<Rightarrow> mem_agg \<Rightarrow> ('g, mem_agg \<times> psi_agg option) state" where
  "synth_pressure R hs mem =
     (if sh_memPressure hs then do {
        faults \<leftarrow> r2_spread R 150 300;
        pageOut \<leftarrow> r2_spread R 600 400;
        let mem = mem\<lparr>ma_MajorFaultPS := faults, ma_PageOutPS := pageOut, ma_SwapUsedBytes := u64_of (fl (12 / 10) * gib_float)\<rparr>;
        (if sh_os hs = ''linux'' then do {
           memSome \<leftarrow> r2_spread R 8 6;
           memFull \<leftarrow> do {u \<leftarrow> draw R; ret (round2 (fl (3 / 2) + u))};
           ioSome \<leftarrow> r2_spread R 4 3;
           cpuSome \<leftarrow> do {u \<leftarrow> draw R; ret (round2 (fl 2 + u))};
           ret (mem, Some \<lparr>psi_CPUSomeAvg = cpuSome, psi_MemSomeAvg = memSome, psi_MemFullAvg = memFull,
             psi_IOSomeAvg = ioSome, psi_IOFullAvg = 0, psi_MemSomeMax = 0, psi_IOSomeMax = 0\<rparr>)}
         else ret (mem, None))}
      else if sh_os hs = ''linux'' then do {
        memSome \<leftarrow> r2_upto R (1 / 2);
        ioSome \<leftarrow> do {u \<leftarrow> draw R; ret (round2 u)};
        ret (mem, Some \<lparr>psi_CPUSomeAvg = 0, psi_MemSomeAvg = memSome, psi_MemFullAvg = 0, psi_IOSomeAvg = ioSome,
          psi_IOFullAvg = 0, psi_MemSomeMax = 0, psi_IOSomeMax = 0\<rparr>)}
      else ret (mem, None))"

definition is_spiking :: "host_spec \<Rightarrow> f64 \<Rightarrow> bool" where
  "is_spiking hs hour \<longleftrightarrow> sh_nightlySpike hs \<and> hour \<ge> fl 2 \<and> hour < fl (245 / 100)"

definition makeMinute :: "'g rng \<Rightarrow> (f64 \<Rightarrow> f64) \<Rightarrow> host_spec \<Rightarrow> time \<Rightarrow> ('g, host_minute \<times> bool) state" where
  "makeMinute R sine hs ts = do {
     let hour = hour_float ts;
     let spiking = is_spiking hs hour;
     cpu \<leftarrow> do {u \<leftarrow> draw R; ret (max (fl 1) (diurnal sine hs hour + u * fl 4))};
     cpu \<leftarrow> (if spiking then spread R 88 8 else ret cpu);
     memPct \<leftarrow> do {u \<leftarrow> draw R; ret (sh_baseMemPct hs + u * fl 3)};
     iowait \<leftarrow> r2_upto R 2;
     disk \<leftarrow> synth_disk R;
     net \<leftarrow> synth_net R;
     disk \<leftarrow> (if spiking \<and> sh_sql hs = None then do {b \<leftarrow> r2_spread R 60 20; ret (disk\<lparr>da_BusyPct := b\<rparr>)}
       else ret disk);
     (mem, psi) \<leftarrow> synth_pressure R hs (synth_mem hs memPct);
     ret (meta.extend (NewMeta KindHostMinute ts)
       \<lparr>hm_Samples = 4, hm_CPU = synth_cpu hs cpu iowait, hm_Mem = mem, hm_Disks = [disk],
        hm_FS = (if minute_of_hour ts = 0 then [\<lparr>fu_Mount = ''/'', fu_TotalBytes = 200 * 2 ^ 30, fu_AvailBytes = 120 * 2 ^ 30\<rparr>] else []),
        hm_Net = [net], hm_PSI = psi\<rparr>, spiking)}"

section \<open>Calendar\<close>

text \<open>\<open>AddDate\<close>: the date is taken apart, changed and normalised; the time of day is kept.\<close>

definition date_day :: "int \<Rightarrow> int \<Rightarrow> int \<Rightarrow> int" where
  "date_day y m d = 365 * (y - 1) + (y - 1) div 4 - (y - 1) div 100 + (y - 1) div 400 +
     sum_list (take (nat (m - 1)) (month_lengths y)) + (d - 1)"

definition AddDate :: "int \<Rightarrow> int \<Rightarrow> int \<Rightarrow> time \<Rightarrow> time" where
  "AddDate ys ms ds t =
     (case civil (day_number t) of
        (y, m, d) \<Rightarrow> date_day (y + ys + (m - 1 + ms) div 12) ((m - 1 + ms) mod 12 + 1) (d + ds) * hours 24 + t mod hours 24)"

text \<open>The loops \<open>for ts := start; ts.Before(end); ts = ts.Add(step)\<close>.\<close>

function ticks :: "time \<Rightarrow> time \<Rightarrow> duration \<Rightarrow> time list" where
  "ticks t stop dt = (if dt \<le> 0 \<or> stop \<le> t then [] else t # ticks (t + dt) stop dt)"
  by pat_completeness auto
termination
  by (relation "measure (\<lambda>(t, stop, dt). nat (stop - t))") auto

declare ticks.simps [simp del]

section \<open>Spike events\<close>

definition zero_proc :: proc_sample where
  "zero_proc = \<lparr>ps_PID = 0, ps_PPID = 0, ps_Name = [], ps_Exe = [], ps_ExeSHA256 = [], ps_ServiceUnit = [], ps_CPUPct = 0,
     ps_CPUTimeS = 0, ps_RSSBytes = 0, ps_PrivateBytes = 0, ps_ReadBytesPS = 0, ps_WriteBytesPS = 0, ps_StartTime = 0\<rparr>"

definition around :: "'g rng \<Rightarrow> f64 \<Rightarrow> rat \<Rightarrow> ('g, f64) state" where
  "around R a b = do {u \<leftarrow> draw R; ret (a + u * fl b)}"

definition synth_samples :: "'g rng \<Rightarrow> host_spec \<Rightarrow> time \<Rightarrow> time \<Rightarrow> int \<Rightarrow> ('g, metric_point \<times> metric_point \<times> metric_point) state" where
  "synth_samples R hs start stop i = do {
     pre \<leftarrow> around R (sh_baseCPU hs) 5;
     during \<leftarrow> spread R 90 8;
     post \<leftarrow> around R (sh_baseCPU hs) 5;
     ret (\<lparr>mp_TS = start + (i - 20) * seconds 15, mp_Value = pre\<rparr>,
       \<lparr>mp_TS = start + minutes i, mp_Value = during\<rparr>, \<lparr>mp_TS = stop + i * seconds 15, mp_Value = post\<rparr>)}"

definition makeSpike :: "'g rng \<Rightarrow> host_spec \<Rightarrow> time \<Rightarrow> duration \<Rightarrow> ('g, spike_event) state" where
  "makeSpike R hs start dur = do {
     let stop = start + dur;
     let proc = sh_spikeProc hs;
     let unit = sh_spikeUnit hs;
     peak \<leftarrow> spread R 94 4;
     samples \<leftarrow> traverse_list (synth_samples R hs start stop) [0..19];
     ret (meta.extend (NewMeta KindSpike stop)
       \<lparr>ev_EventID = sh_name hs @ ''-'' @ fmt_minute start, ev_Resource = ResCPU, ev_Device = [],
        ev_StartTS = start, ev_EndTS = stop, ev_DurationS = dur_seconds dur, ev_Baseline = sh_baseCPU hs,
        ev_Peak = peak, ev_Threshold = fl 85, ev_Trigger = ''static'',
        ev_PreSamples = map fst samples, ev_DuringSamples = map (fst \<circ> snd) samples, ev_PostSamples = map (snd \<circ> snd) samples,
        ev_TopProcs = [zero_proc\<lparr>ps_PID := 4242, ps_Name := proc, ps_ServiceUnit := unit, ps_CPUPct := fl 82,
          ps_CPUTimeS := fl 90000, ps_RSSBytes := 3 * 2 ^ 30\<rparr>],
        ev_CoreSecondsByProc = [(proc, dur_seconds dur * fl (65 / 10)), (''other'', dur_seconds dur * fl (1 / 2))],
        ev_ProbableCause = ''probably caused by '' @ proc @ '' via '' @ unit @ '' (temporal correlation; validate with owner)'',
        ev_CorrelatedProcess = proc, ev_CorrelatedServiceOrJob = unit, ev_AttributionConfidence = fl (75 / 100),
        ev_AttributionEvidence = [''top process during event: '' @ proc @ '' (86% of process CPU core-seconds)'',
          ''scheduled job matches event start time: '' @ unit],
        ev_ValidationRequired = True, ev_SQLCorrelated = (sh_sql hs \<noteq> None),
        ev_SQLInstance = (case sh_sql hs of Some s \<Rightarrow> sqs_instance s | None \<Rightarrow> [])\<rparr>)}"

definition makeMemSpike :: "host_spec \<Rightarrow> time \<Rightarrow> spike_event" where
  "makeMemSpike hs start =
     meta.extend (NewMeta KindSpike (start + minutes 10))
       \<lparr>ev_EventID = sh_name hs @ ''-mem-'' @ fmt_minute start, ev_Resource = ResMemory, ev_Device = [],
        ev_StartTS = start, ev_EndTS = start + minutes 10, ev_DurationS = fl 600, ev_Baseline = sh_baseMemPct hs,
        ev_Peak = fl (985 / 10), ev_Threshold = fl 90, ev_Trigger = ''static'',
        ev_PreSamples = [], ev_DuringSamples = [], ev_PostSamples = [],
        ev_TopProcs = [zero_proc\<lparr>ps_PID := 1801, ps_Name := ''java'', ps_CPUPct := fl 30, ps_RSSBytes := 6337748992\<rparr>],
        ev_CoreSecondsByProc = [],
        ev_ProbableCause = ''probably caused by java (temporal correlation; validate with owner)'',
        ev_CorrelatedProcess = ''java'', ev_CorrelatedServiceOrJob = [], ev_AttributionConfidence = fl (45 / 100),
        ev_AttributionEvidence = [''top process during event: java (5.9 GiB RSS)''],
        ev_ValidationRequired = True, ev_SQLCorrelated = False, ev_SQLInstance = []\<rparr>"

section \<open>SQL Server\<close>

definition instance_key :: "host_spec \<Rightarrow> sql_spec \<Rightarrow> string" where
  "instance_key hs s = sh_id hs @ ''|'' @ sqs_instance s"

definition makeSQLSpike :: "host_spec \<Rightarrow> sql_spec \<Rightarrow> spike_event \<Rightarrow> sql_spike_context" where
  "makeSQLSpike hs s ev =
     meta.extend (NewMeta KindSQLSpike (ev_StartTS ev + minutes 2))
       \<lparr>sx_EventID = ev_EventID ev, sx_InstanceKey = instance_key hs s,
        sx_ActiveRequests = [\<lparr>ar_SessionID = 71, ar_RequestID = 0, ar_Database = ''SalesDB'', ar_Command = ''INSERT'',
          ar_Status = ''running'', ar_CPUTimeMS = 840000, ar_ElapsedMS = 900000, ar_LogicalReads = 52000000,
          ar_PhysicalReads = 400000, ar_Writes = 900000, ar_WaitType = ''CXPACKET'', ar_BlockingSession = 0,
          ar_ProgramName = ''SQLAgent - TSQL JobStep'', ar_QueryHash = ''0x9F1B2C3D4E5F6071'', ar_PlanHash = ''0x1122334455667788''\<rparr>],
        sx_AgentJobs = [\<lparr>aj_JobName = ''Nightly ETL Load'', aj_StartTime = ev_StartTS ev - seconds 30, aj_DurationS = 0,
          aj_Outcome = ''running'', aj_Running = True\<rparr>],
        sx_CorrelationLevel = CorrAgentJob\<rparr>"

definition max_memory_default :: u64 where
  "max_memory_default = 2147483647"

text \<open>\<open>now\<close> is the clock that \<open>time.Since\<close> reads.\<close>

definition makeSQLInventory :: "time \<Rightarrow> host_spec \<Rightarrow> sql_spec \<Rightarrow> time \<Rightarrow> sql_inventory" where
  "makeSQLInventory now hs s start =
     meta.extend (NewMeta KindSQLInventory (start + hours 1))
       \<lparr>si_InstanceKey = instance_key hs s, si_MachineName = sh_name hs, si_InstanceName = sqs_instance s,
        si_IsDefault = (sqs_instance s = ''MSSQLSERVER''), si_Version = ''15.0.4360.2'', si_Build = ''15.0.4360.2'',
        si_ProductLevel = ''RTM'', si_Edition = ''Standard Edition (64-bit)'',
        si_StartTime = AddDate 0 (- 2) 0 start, si_UptimeS = u64_of (dur_seconds (time_sub now (AddDate 0 (- 2) 0 start))),
        si_CPUCountVisible = sh_vcpu hs, si_SchedulerCount = sh_vcpu hs,
        si_PhysMemVisibleKB = u64_of (sh_ramGB hs * fl 1048576), si_PID = 4242,
        si_ServiceAccount = ''NT Service'' @ [CHR 0x5C] @ ''MSSQLSERVER'', si_MaxDOP = 0, si_CostThreshold = 5,
        si_MinServerMemoryMB = 0, si_MaxServerMemoryMB = sqs_maxMemMB s,
        si_MaxMemoryUnlimitedDefault = (sqs_maxMemMB s \<ge> max_memory_default), si_LockPagesInMemory = ''not_detected'',
        si_LinuxMemoryLimitMB = 0,
        si_HA = (if sqs_agRole s \<noteq> [] then \<lparr>ha_Mode = ''alwayson_ag'', ha_AGs = [\<lparr>ag_AGName = sqs_agName s, ag_Role = sqs_agRole s,
            ag_SyncState = ''HEALTHY'', ag_ReadableSecondary = ''NO'', ag_PartnerReplicas = [sqs_partner s]\<rparr>]\<rparr>
          else \<lparr>ha_Mode = ''standalone'', ha_AGs = []\<rparr>),
        si_Databases = [\<lparr>sd_Name = ''SalesDB'', sd_SizeMB = fl 51200, sd_LogSizeMB = fl 8192, sd_State = []\<rparr>,
          \<lparr>sd_Name = ''master'', sd_SizeMB = fl 8, sd_LogSizeMB = fl 2, sd_State = []\<rparr>],
        si_CollectionLevel = SQLLevelDeep, si_CollectionNote = []\<rparr>"

definition total_memory_kb :: "host_spec \<Rightarrow> sql_spec \<Rightarrow> u64" where
  "total_memory_kb hs s =
     (if sqs_maxMemMB s \<ge> max_memory_default then u64_of (of_u64 (u64_of (sh_ramGB hs * fl 1048576)) * fl (86 / 100))
      else u64_of (of_u64 (sqs_maxMemMB s) * fl 1024 * fl (97 / 100)))"

definition synth_load :: "'g rng \<Rightarrow> sql_spec \<Rightarrow> ('g, f64 \<times> f64) state" where
  "synth_load R s = do {
     batch \<leftarrow> spread R 40 30;
     cpu \<leftarrow> spread R 8 6;
     (batch, cpu) \<leftarrow> (if sqs_busy s then do {b \<leftarrow> spread R 900 600; c \<leftarrow> spread R 30 25; ret (b, c)} else ret (batch, cpu));
     (if sqs_agRole s = ''SECONDARY'' then do {b \<leftarrow> spread R 2 3; c \<leftarrow> spread R 2 2; ret (b, c)} else ret (batch, cpu))}"

definition makeSQLSample :: "'g rng \<Rightarrow> host_spec \<Rightarrow> sql_spec \<Rightarrow> time \<Rightarrow> ('g, sql_sample) state" where
  "makeSQLSample R hs s ts = do {
     let total_kb = total_memory_kb hs s;
     (batch, cpu) \<leftarrow> synth_load R s;
     grants \<leftarrow> draw_int R 5;
     ple \<leftarrow> draw_int R 4000;
     pageReads \<leftarrow> r2_upto R 100;
     pageWrites \<leftarrow> r2_upto R 50;
     cxpacket \<leftarrow> r2_upto R 5000;
     pageiolatch \<leftarrow> r2_upto R 2000;
     readLat \<leftarrow> r2_spread R 2 4;
     writeLat \<leftarrow> r2_spread R 1 2;
     readPS \<leftarrow> r2_spread R 50 100;
     writePS \<leftarrow> r2_spread R 20 40;
     tempdb \<leftarrow> r2_spread R 512 512;
     ret (meta.extend (NewMeta KindSQLSample ts)
       \<lparr>sq_InstanceKey = instance_key hs s, sq_PhysicalMemoryInUseKB = total_kb + 2 * 2 ^ 20, sq_LockedPageAllocKB = 0,
        sq_LargePageAllocKB = 0, sq_MemoryUtilizationPct = 92, sq_ProcessPhysicalMemoryLow = False,
        sq_ProcessVirtualMemoryLow = False, sq_TotalServerMemoryKB = total_kb, sq_TargetServerMemoryKB = total_kb + 2 ^ 20,
        sq_DatabaseCacheKB = u64_of (of_u64 total_kb * fl (8 / 10)), sq_StolenServerMemoryKB = u64_of (of_u64 total_kb * fl (15 / 100)),
        sq_FreeMemoryKB = u64_of (of_u64 total_kb * fl (5 / 100)), sq_MemoryGrantsPending = 0, sq_MemoryGrantsActive = grants,
        sq_PLESeconds = 5000 + ple,
        sq_MemoryClerksTopKB = [(''MEMORYCLERK_SQLBUFFERPOOL'', u64_of (of_u64 total_kb * fl (8 / 10))),
          (''CACHESTORE_SQLCP'', u64_of (of_u64 total_kb * fl (8 / 100)))],
        sq_BatchRequestsPS = round2 batch, sq_CompilationsPS = round2 (batch * fl (5 / 100)), sq_RecompilationsPS = 0,
        sq_SQLProcessCPUPct = round2 cpu, sq_PageReadsPS = pageReads, sq_PageWritesPS = pageWrites, sq_LazyWritesPS = 0,
        sq_CheckpointPagesPS = 0,
        sq_WaitDeltas = [(''CXPACKET'', \<lparr>wd_WaitMS = cxpacket, wd_Count = fl 100\<rparr>),
          (''PAGEIOLATCH_SH'', \<lparr>wd_WaitMS = pageiolatch, wd_Count = fl 60\<rparr>)],
        sq_BlockedSessions = 0,
        sq_FileIO = [\<lparr>io_Database = ''SalesDB'', io_FileType = ''data'', io_ReadLatMS = readLat, io_WriteLatMS = writeLat,
          io_ReadPS = readPS, io_WritePS = writePS\<rparr>],
        sq_TempdbUsedMB = tempdb, sq_TempdbTotalMB = fl 8192\<rparr>)}"

section \<open>Inventory and schedule\<close>

definition makeInventory :: "host_spec \<Rightarrow> time \<Rightarrow> inventory" where
  "makeInventory hs start =
     (let (osVer, kernel) = (if sh_os hs = ''windows'' then (''Microsoft Windows Server 2022 Standard'', ''10.0.20348'')
            else (''Ubuntu 22.04'', ''5.15.0-g'' @ [CHR 0xC3, CHR 0xA9, CHR 0x6E, CHR 0xC3, CHR 0xA9] @ ''rique''))
      in meta.extend (NewMeta KindInventory start)
       \<lparr>inv_HostID = sh_id hs, inv_Hostname = sh_name hs, inv_OS = sh_os hs, inv_OSVersion = osVer, inv_KernelBuild = kernel,
        inv_BootTime = AddDate 0 (- 3) 0 start, inv_UptimeS = 7776000, inv_Timezone = ''UTC'', inv_TZOffsetSec = 0,
        inv_Virtualization = ''vm:vmware'', inv_CPUModel = ''Intel(R) Xeon(R) Gold 6348 CPU @ 2.60GHz'',
        inv_PhysicalCores = sh_vcpu hs sdiv 2, inv_LogicalCPUs = sh_vcpu hs, inv_AllocatedVCPU = sh_vcpu hs,
        inv_TotalRAMBytes = u64_of (sh_ramGB hs * gib_float), inv_SwapTotalBytes = 4 * 2 ^ 30,
        inv_Disks = [\<lparr>di_Device = ''sda'', di_Model = [], di_SizeBytes = 200 * 2 ^ 30\<rparr>],
        inv_Filesystems = [\<lparr>fi_Mount = ''/'', fi_Device = ''sda1'', fi_FSType = ''ext4'', fi_TotalBytes = 200 * 2 ^ 30,
          fi_AvailBytes = 120 * 2 ^ 30\<rparr>],
        inv_NICs = [\<lparr>ni_Name = ''eth0'', ni_MAC = ''00:50:56:ab:cd:ef'', ni_SpeedMbps = 10000, ni_Addrs = []\<rparr>],
        inv_AgentVersion = AgentVersion, inv_ConfigHash = ''synthetic-demo'', inv_PrivacyMode = False\<rparr>)"

definition synth_entry :: "string \<Rightarrow> string \<Rightarrow> string \<Rightarrow> string \<Rightarrow> sched_entry" where
  "synth_entry src name schedule unit =
     \<lparr>se_Source = src, se_Name = name, se_Schedule = schedule, se_Unit = unit, se_LastRun = 0, se_NextRun = 0\<rparr>"

definition makeSched :: "host_spec \<Rightarrow> time \<Rightarrow> sched_snapshot" where
  "makeSched hs start =
     (let (src, name) = (if sh_os hs = ''windows'' then (''sql_agent'', ''Nightly ETL Load'') else (''systemd_timer'', ''etl-nightly.timer''))
      in meta.extend (NewMeta KindSched start)
       \<lparr>ss_Entries = (if sh_nightlySpike hs then [synth_entry src name ''0 2 * * *'' (sh_spikeUnit hs)] else []) @
          [synth_entry ''cron'' ''logrotate'' ''0 3 * * *'' []]\<rparr>)"

section \<open>The records of a host\<close>

text \<open>The first twenty minutes after 04:00 of one host are left out, but drawn.\<close>

definition in_gap :: "host_spec \<Rightarrow> time \<Rightarrow> bool" where
  "in_gap hs ts \<longleftrightarrow> sh_name hs = ''web-linux-01'' \<and> hour_of_day ts = 4 \<and> minute_of_hour ts < 20"

fun minute_loop :: "'g rng \<Rightarrow> (f64 \<Rightarrow> f64) \<Rightarrow> host_spec \<Rightarrow> time list \<Rightarrow> ('g, host_minute list) state" where
  "minute_loop R sine hs [] = ret []"
| "minute_loop R sine hs (ts # tss) = do {
     (hm, spiking) \<leftarrow> makeMinute R sine hs ts;
     rest \<leftarrow> minute_loop R sine hs tss;
     ret (if in_gap hs ts then rest else hm # rest)}"

fun spike_loop :: "'g rng \<Rightarrow> host_spec \<Rightarrow> time list \<Rightarrow> ('g, telemetry list) state" where
  "spike_loop R hs [] = ret []"
| "spike_loop R hs (d # ds) = do {
     jitter \<leftarrow> draw_int R 6;
     ev \<leftarrow> makeSpike R hs (d + hours 2 + minutes (jitter - 3)) (minutes 25);
     rest \<leftarrow> spike_loop R hs ds;
     ret (TSpike ev # (case sh_sql hs of Some s \<Rightarrow> [TSQLSpike (makeSQLSpike hs s ev)] | None \<Rightarrow> []) @ rest)}"

definition synth_health :: "host_spec \<Rightarrow> time \<Rightarrow> time \<Rightarrow> int \<Rightarrow> health" where
  "synth_health hs start stop collected =
     meta.extend (NewMeta KindHealth (stop - hours 1))
       \<lparr>he_AgentVersion = AgentVersion, he_AgentUptimeS = u64_of (dur_seconds (time_sub stop start)),
        he_SamplesCollected = word_of_int collected * 4, he_SamplesDropped = 0,
        he_CollectorStatus = [(''host'', ''ok''), (''proc'', ''ok'')],
        he_PermissionIssues = (if sh_memPressure hs
          then [''proc.io: per-process I/O counters unavailable (insufficient privileges)''] else []),
        he_RecentErrors = [], he_SpoolBytes = 0, he_SelfRSSBytes = 48 * 2 ^ 20, he_SelfCPUPct = fl (4 / 10)\<rparr>"

text \<open>The records in the order in which they are appended.\<close>

definition host_records :: "'g rng \<Rightarrow> (f64 \<Rightarrow> f64) \<Rightarrow> time \<Rightarrow> host_spec \<Rightarrow> time \<Rightarrow> time \<Rightarrow> ('g, telemetry list) state" where
  "host_records R sine now hs start stop = do {
     ms \<leftarrow> minute_loop R sine hs (ticks start stop (minutes 1));
     spikes \<leftarrow> (if sh_nightlySpike hs then spike_loop R hs (ticks start stop (hours 24))
       else ret (if sh_memPressure hs then [TSpike (makeMemSpike hs (start + hours 50))] else []));
     sql \<leftarrow> (case sh_sql hs of None \<Rightarrow> ret []
       | Some s \<Rightarrow> do {
           samples \<leftarrow> traverse_list (makeSQLSample R hs s) (ticks start stop (minutes 5));
           ret (TSQLInventory (makeSQLInventory now hs s start) # map TSQLSample samples)});
     ret ([TInventory (makeInventory hs start), TSched (makeSched hs start)] @ map THostMinute ms @ spikes @ sql @
       [THealth (synth_health hs start stop (int (length ms)))])}"

definition minute_count :: "telemetry list \<Rightarrow> int" where
  "minute_count ts = int (length (filter (\<lambda>t. kind_of t = KindHostMinute) ts))"

section \<open>The bundle of a host and the fleet\<close>

text \<open>
  What the system answers while the bundle of one host is made: the temporary directory, the spool opened in it,
  the calls of \<open>Append\<close>, \<open>Rotate\<close> and \<open>Export\<close>, and the clock.
\<close>

record synth_env =
  sy_tmp :: "string option"
  sy_opened :: "store \<times> spool_error option"
  sy_append :: "string \<Rightarrow> store \<Rightarrow> append_env"
  sy_flush :: "string \<Rightarrow> flush_outcome"
  sy_close :: "string \<Rightarrow> close_outcome"
  sy_fails :: "export_stage \<Rightarrow> bool"
  sy_bundle :: string
  sy_now :: time

datatype synth_error = NoTempDir string | NoStore spool_error | NoExport export_error

definition append_telemetry :: "agent_lib \<Rightarrow> synth_env \<Rightarrow> store \<Rightarrow> telemetry \<Rightarrow> store" where
  "append_telemetry lib env s t =
     fst (Append (sy_append env (kind_of t) s) (al_meta_ts lib) (kind_of t) (al_encode lib t) s)"

definition synth_request :: "string \<Rightarrow> host_spec \<Rightarrow> time \<Rightarrow> time \<Rightarrow> telemetry list \<Rightarrow> export_input" where
  "synth_request recipient hs start stop recs =
     \<lparr>in_Recipient = recipient, in_HostID = sh_id hs, in_Hostname = sh_name hs, in_Timezone = ''UTC'',
      in_ConfigHash = ''synthetic-demo'',
      in_Health = \<lparr>hs_ExpectedMinutes = go_trunc (dur_minutes (time_sub stop start)), hs_CollectedMinutes = minute_count recs,
        hs_Gaps = [], hs_PermissionIssues = he_PermissionIssues (synth_health hs start stop (minute_count recs))\<rparr>,
      in_RemoveAfter = True\<rparr>"

definition generated_records :: "'g rng \<Rightarrow> (f64 \<Rightarrow> f64) \<Rightarrow> time \<Rightarrow> host_spec \<Rightarrow> time \<Rightarrow> time \<Rightarrow> telemetry list" where
  "generated_records R sine now hs start stop =
     fst (run_state (host_records R sine now hs start stop) (rg_seed R (int (length (sh_name hs)) * 7919)))"

definition generateHost :: "agent_lib \<Rightarrow> 'g rng \<Rightarrow> (f64 \<Rightarrow> f64) \<Rightarrow> synth_env \<Rightarrow> host_spec \<Rightarrow> string \<Rightarrow> string \<Rightarrow> time \<Rightarrow> time
    \<Rightarrow> synth_error + string \<times> tar_item list" where
  "generateHost lib R sine env hs recipient outDir start stop =
     (case sy_tmp env of
        Some e \<Rightarrow> Inl (NoTempDir e)
      | None \<Rightarrow>
          (case sy_opened env of
             (st, Some e) \<Rightarrow> Inl (NoStore e)
           | (st, None) \<Rightarrow>
               let recs = generated_records R sine (sy_now env) hs start stop;
                   st = foldl (append_telemetry lib env) st recs
               in (case Export (al_codec lib) (Rotate (sy_flush env) (sy_close env) (sy_now env)) (sy_fails env) (sy_bundle env)
                      (sy_now env) (synth_request recipient hs start stop recs) st of
                     (st, Inl e) \<Rightarrow> Inl (NoExport e)
                   | (st, Inr items) \<Rightarrow> Inr (bundle_path outDir (sh_id hs) (sy_now env), items))))"

fun fleet_loop :: "(host_spec \<Rightarrow> synth_error + string \<times> tar_item list) \<Rightarrow> host_spec list \<Rightarrow> (string \<times> tar_item list) list
    \<Rightarrow> (string \<times> synth_error) + (string \<times> tar_item list) list" where
  "fleet_loop gen [] acc = Inr acc"
| "fleet_loop gen (hs # rest) acc =
     (case gen hs of Inl e \<Rightarrow> Inl (sh_name hs, e) | Inr b \<Rightarrow> fleet_loop gen rest (acc @ [b]))"

text \<open>\<open>GenerateFleet\<close> at the time \<open>now\<close>: the last \<open>days\<close> whole days, at least three.\<close>

definition fleet_end :: "time \<Rightarrow> time" where
  "fleet_end now = now - now mod hours 24"

definition fleet_start :: "time \<Rightarrow> int \<Rightarrow> time" where
  "fleet_start now days = AddDate 0 0 (- (if days < 3 then 3 else days)) (fleet_end now)"

definition GenerateFleet :: "agent_lib \<Rightarrow> 'g rng \<Rightarrow> (f64 \<Rightarrow> f64) \<Rightarrow> (host_spec \<Rightarrow> synth_env) \<Rightarrow> time \<Rightarrow> string \<Rightarrow> string \<Rightarrow> int
    \<Rightarrow> (string \<times> synth_error) + (string \<times> tar_item list) list" where
  "GenerateFleet lib R sine env now recipient outDir days =
     fleet_loop (\<lambda>hs. generateHost lib R sine (env hs) hs recipient outDir (fleet_start now days) (fleet_end now)) fleet []"

end
