(* ===== verification/ConfigText.thy ===== *)
theory ConfigText
  imports AgentConfig HostId
begin

text \<open>
  The textual forms of the configuration (\<open>internal/config/config.go\<close>): a duration of the YAML file, read by
  \<open>UnmarshalYAML\<close> with \<open>time.ParseDuration\<close>, and the \<open>Hash\<close> of a configuration. The YAML decoder of a
  scalar, the JSON encoder and SHA-256 are arguments.
\<close>

section \<open>time.ParseDuration\<close>

datatype duration_fault = InvalidSyntax | MissingUnit | UnknownUnit string | OutOfRange

text \<open>
  \<open>leadingInt\<close>: the digits at the front as a number, an overflow beyond \<open>2 ^ 63\<close>. \<open>leadingFraction\<close>: the
  digits after the point and the power of ten they are divided by; digits that no longer fit are skipped.
\<close>

fun leading_int :: "int \<Rightarrow> string \<Rightarrow> (int \<times> string) option" where
  "leading_int x [] = Some (x, [])"
| "leading_int x (c # s) =
     (if \<not> is_digit c then Some (x, c # s)
      else if x > 2 ^ 63 div 10 then None
      else let y = x * 10 + digits_value [c] in if y > 2 ^ 63 then None else leading_int y s)"

fun leading_fraction :: "int \<Rightarrow> f64 \<Rightarrow> bool \<Rightarrow> string \<Rightarrow> int \<times> f64 \<times> string" where
  "leading_fraction x scale over [] = (x, scale, [])"
| "leading_fraction x scale over (c # s) =
     (if \<not> is_digit c then (x, scale, c # s)
      else if over \<or> x > (2 ^ 63 - 1) div 10 then leading_fraction x scale True s
      else let y = x * 10 + digits_value [c] in
        if y > 2 ^ 63 then leading_fraction x scale True s else leading_fraction y (scale * fl 10) False s)"

definition micro_signs :: "string list" where
  "micro_signs = [''us'', [CHR 0xC2, CHR 0xB5] @ ''s'', [CHR 0xCE, CHR 0xBC] @ ''s'']"

definition unit_of :: "string \<Rightarrow> duration option" where
  "unit_of u =
     (if u = ''ns'' then Some 1 else if u \<in> set micro_signs then Some 1000 else if u = ''ms'' then Some 1000000
      else if u = ''s'' then Some (seconds 1) else if u = ''m'' then Some (minutes 1) else if u = ''h'' then Some (hours 1)
      else None)"

definition in_number :: "char \<Rightarrow> bool" where
  "in_number c \<longleftrightarrow> c = CHR ''.'' \<or> is_digit c"

text \<open>One number with its unit: what it adds, and the rest.\<close>

definition duration_term :: "string \<Rightarrow> duration_fault + int \<times> string" where
  "duration_term s =
     (if s = [] \<or> \<not> in_number (hd s) then Inl InvalidSyntax
      else case leading_int 0 s of
        None \<Rightarrow> Inl OutOfRange
      | Some (v, s1) \<Rightarrow>
          let pre = s1 \<noteq> s;
              (f, scale, s2) = (if s1 \<noteq> [] \<and> hd s1 = CHR ''.'' then leading_fraction 0 1 False (tl s1) else (0, 1, s1));
              post = (s1 \<noteq> [] \<and> hd s1 = CHR ''.'' \<and> s2 \<noteq> tl s1);
              u = takeWhile (Not \<circ> in_number) s2; rest = dropWhile (Not \<circ> in_number) s2
          in if \<not> pre \<and> \<not> post then Inl InvalidSyntax
             else if u = [] then Inl MissingUnit
             else case unit_of u of
               None \<Rightarrow> Inl (UnknownUnit u)
             | Some n \<Rightarrow>
                 if v > 2 ^ 63 div n then Inl OutOfRange
                 else let w = v * n + (if f > 0 then go_trunc (of_go_int f * (of_go_int n / scale)) else 0) in
                   if w > 2 ^ 63 then Inl OutOfRange else Inr (w, rest))"

lemma leading_int_shorter: "leading_int x s = Some (v, r) \<Longrightarrow> length r \<le> length s"
  by (induction x s rule: leading_int.induct) (auto simp: Let_def split: if_splits)

lemma leading_fraction_shorter: "leading_fraction x sc ov s = (f, sc', r) \<Longrightarrow> length r \<le> length s"
  by (induction x sc ov s rule: leading_fraction.induct) (force simp: Let_def split: if_splits)+

lemma dropWhile_shorter: "takeWhile P s \<noteq> [] \<Longrightarrow> length (dropWhile P s) < length s"
  by (metis length_append takeWhile_dropWhile_id length_greater_0_conv less_add_same_cancel2)

lemma duration_term_shorter:
  assumes "duration_term s = Inr (w, r)"
  shows "length r < length s"
proof -
  obtain v s1 where l: "leading_int 0 s = Some (v, s1)"
    using assms by (auto simp: duration_term_def split: if_splits option.splits)
  define q where "q = (if s1 \<noteq> [] \<and> hd s1 = CHR ''.'' then leading_fraction 0 1 False (tl s1) else (0, 1, s1))"
  obtain f sc s2 where q: "q = (f, sc, s2)" by (metis prod.collapse)
  have "length s2 \<le> length s1"
  proof (cases "s1 \<noteq> [] \<and> hd s1 = CHR ''.''")
    case True
    then show ?thesis using q leading_fraction_shorter [of 0 1 False "tl s1" f sc s2] by (simp add: q_def)
  qed (use q in \<open>auto simp: q_def\<close>)
  moreover have "length s1 \<le> length s" by (rule leading_int_shorter [OF l])
  moreover have "r = dropWhile (Not \<circ> in_number) s2 \<and> takeWhile (Not \<circ> in_number) s2 \<noteq> []"
    using assms unfolding duration_term_def l option.case prod.case q_def [symmetric] q
    by (auto simp: Let_def split: if_splits option.splits)
  ultimately show ?thesis using dropWhile_shorter [of "Not \<circ> in_number" s2] by auto
qed

text \<open>The loop over the terms; \<open>d\<close> is the sum so far, a \<open>uint64\<close>.\<close>

function duration_terms :: "int \<Rightarrow> string \<Rightarrow> duration_fault + int" where
  "duration_terms d s =
     (if s = [] then Inr d
      else case duration_term s of
        Inl e \<Rightarrow> Inl e
      | Inr (w, rest) \<Rightarrow> let t = (d + w) mod 2 ^ 64 in if t > 2 ^ 63 then Inl OutOfRange else duration_terms t rest)"
  by pat_completeness auto
termination
  by (relation "measure (\<lambda>(d, s). length s)") (auto dest: duration_term_shorter)

declare duration_terms.simps [simp del]

definition ParseDuration :: "string \<Rightarrow> duration_fault + duration" where
  "ParseDuration s =
     (let signed = (s \<noteq> [] \<and> (hd s = CHR ''-'' \<or> hd s = CHR ''+''));
          neg = (s \<noteq> [] \<and> hd s = CHR ''-'');
          s = (if signed then tl s else s)
      in if s = ''0'' then Inr 0
         else if s = [] then Inl InvalidSyntax
         else case duration_terms 0 s of
           Inl e \<Rightarrow> Inl e
         | Inr d \<Rightarrow> if neg then Inr (- d) else if d > 2 ^ 63 - 1 then Inl OutOfRange else Inr d)"

section \<open>The methods of the configuration\<close>

datatype yaml_error = NotAScalar string | InvalidDuration string duration_fault

definition UnmarshalYAML :: "string + string \<Rightarrow> yaml_error + duration" where
  "UnmarshalYAML decoded =
     (case decoded of
        Inl e \<Rightarrow> Inl (NotAScalar e)
      | Inr s \<Rightarrow> (case ParseDuration s of Inl e \<Rightarrow> Inl (InvalidDuration s e) | Inr d \<Rightarrow> Inr d))"

definition Hash :: "(config \<Rightarrow> string) \<Rightarrow> (string \<Rightarrow> nat list) \<Rightarrow> config \<Rightarrow> string" where
  "Hash to_json sha256 c = hex_encode (sha256 (to_json c))"

section \<open>What a duration reads as\<close>

text \<open>The documented defaults as they are written in a file, and what is refused.\<close>

lemma duration_examples:
  "ParseDuration ''15s'' = Inr (seconds 15)" "ParseDuration ''6h'' = Inr (hours 6)" "ParseDuration ''1h30m'' = Inr (minutes 90)"
  "ParseDuration ''1.5s'' = Inr 1500000000" "ParseDuration ''-2m'' = Inr (- minutes 2)" "ParseDuration ''0'' = Inr 0"
  "ParseDuration ''15'' = Inl MissingUnit" "ParseDuration ''1d'' = Inl (UnknownUnit ''d'')" "ParseDuration [] = Inl InvalidSyntax"
  by code_simp+

text \<open>The sum wraps around before it is compared: two terms of \<open>2 ^ 63\<close> nanoseconds make a duration of zero.\<close>

lemma duration_wraps: "ParseDuration ''9223372036854775808ns9223372036854775808ns'' = Inr 0"
  by code_simp

lemma digit_char_digit: "0 \<le> d \<Longrightarrow> d < 10 \<Longrightarrow> is_digit (digit_char d) \<and> digits_value [digit_char d] = d"
  using digit_char_value [of d] by (simp add: is_digit_def digits_value_def dec_value_def Let_def)

lemma leading_int_digits: "0 \<le> n \<Longrightarrow> n \<le> 2 ^ 63 \<Longrightarrow> leading_int 0 (dec_digits n @ s) = leading_int n s"
proof (induction n arbitrary: s rule: dec_digits.induct)
  case (1 n)
  show ?case
  proof (cases "n < 10")
    case True
    then show ?thesis using "1.prems" digit_char_digit [of n] by (subst dec_digits.simps) simp
  next
    case False
    have d: "is_digit (digit_char (n mod 10)) \<and> digits_value [digit_char (n mod 10)] = n mod 10" by (rule digit_char_digit) simp_all
    have "leading_int 0 (dec_digits n @ s) = leading_int (n div 10) (digit_char (n mod 10) # s)"
      using "1.IH" [OF False, of "digit_char (n mod 10) # s"] "1.prems" False by (subst dec_digits.simps) simp
    moreover have "n div 10 \<le> 2 ^ 63 div 10" using "1.prems" by (intro zdiv_mono1) simp_all
    moreover have "n div 10 * 10 + n mod 10 = n" by simp
    ultimately show ?thesis using d "1.prems" by (simp add: Let_def)
  qed
qed

lemma dec_digits_front: "0 \<le> n \<Longrightarrow> \<exists>c cs. dec_digits n = c # cs \<and> is_digit c"
proof (induction n rule: dec_digits.induct)
  case (1 n)
  then show ?case
    using digit_char_digit [of n] by (cases "n < 10") (subst dec_digits.simps, force)+
qed

text \<open>A whole number of a unit reads as that many units: the printed form of a duration is read back.\<close>

lemma whole_units_read:
  assumes "unit_of u = Some k" "0 \<le> n" "n * k < 2 ^ 63"
  shows "ParseDuration (fmt_d n @ u) = Inr (n * k)"
proof -
  have u: "u \<noteq> []" "list_all (Not \<circ> in_number) u" "1 \<le> k" "hd u \<noteq> CHR ''.''" "\<not> is_digit (hd u)"
    using assms(1) by (auto simp: unit_of_def micro_signs_def seconds_def minutes_def hours_def in_number_def is_digit_def Let_def split: if_splits)
  have n: "n \<le> 2 ^ 63" using assms(2,3) u(3) mult_left_mono [of 1 k n] by linarith
  obtain c cs where c: "dec_digits n = c # cs" "is_digit c" using dec_digits_front [OF assms(2)] by blast
  have f: "fmt_d n = c # cs" using assms(2) c(1) by (simp add: fmt_d_def)
  have cc: "c \<noteq> CHR ''-''" "c \<noteq> CHR ''+''" using c(2) by (auto simp: is_digit_def Let_def)
  have "leading_int 0 ((c # cs) @ u) = leading_int n u" using leading_int_digits [OF assms(2) n, of u] c(1) by simp
  also have "\<dots> = Some (n, u)" using u(1,5) by (cases u) simp_all
  finally have l: "leading_int 0 ((c # cs) @ u) = Some (n, u)" .
  have ic: "in_number c" using c(2) by (simp add: in_number_def)
  have w: "takeWhile (Not \<circ> in_number) u = u" "dropWhile (Not \<circ> in_number) u = []"
    using u(2) by (simp_all add: list_all_iff)
  have ne: "(c # cs) @ u \<noteq> u" by simp
  have le: "n \<le> 2 ^ 63 div k" using assms(3) u(3) zdiv_mono1 [of "n * k" "2 ^ 63" k] by simp
  have "duration_term ((c # cs) @ u) = Inr (n * k, [])"
    unfolding duration_term_def l option.case prod.case using ne u(1,4) w ic le assms(1,3)
    by (simp add: Let_def del: takeWhile_eq_all_conv dropWhile_eq_Nil_conv)
  then have "duration_terms 0 ((c # cs) @ u) = Inr (n * k)"
    using assms(2,3) u(3) by (subst duration_terms.simps, subst duration_terms.simps) (simp add: Let_def)
  moreover have "(c # cs) @ u \<noteq> ''0''" using u(1) by (cases cs) simp_all
  ultimately show ?thesis using cc u(1) assms(3) by (simp add: ParseDuration_def f Let_def)
qed

end
