(* ===== verification/Commands.thy ===== *)
theory Commands
  imports AgentRuns AnalyzerRun Crypt Synth ConfigText
begin

text \<open>
  The two programs: \<open>cmd/ura-agent\<close> with its Windows service, and \<open>cmd/ura-analyzer\<close>. Command lines are
  parsed as package flag does it; what a program prints and its exit code are its result. The service handler
  \<open>Execute\<close> runs beside the goroutine of \<open>Run\<close>: a step relation over the requests of the service manager and
  the steps of the agent. Log output and the usage texts of package flag are left out.
\<close>

section \<open>Flags\<close>

datatype flag_kind = StringFlag | IntFlag

datatype flag_error = HelpRequested | BadFlagSyntax string | FlagNotDefined string | FlagNeedsArgument string
  | FlagInvalidValue string string

text \<open>\<open>flag.ExitOnError\<close>: a request for help is not a failure.\<close>

fun flag_exit :: "flag_error \<Rightarrow> int" where
  "flag_exit HelpRequested = 0"
| "flag_exit e = 2"

text \<open>\<open>strconv.ParseInt(s, 0, 64)\<close>: the base is that of the prefix, and underscores separate digits.\<close>

definition digit_of :: "char \<Rightarrow> int option" where
  "digit_of c =
     (let n = int (of_char (lower_char c) :: nat) in
      if is_digit c then Some (n - 48) else if 97 \<le> n \<and> n \<le> 122 then Some (n - 87) else None)"

fun based_value :: "int \<Rightarrow> int \<Rightarrow> string \<Rightarrow> int option" where
  "based_value base n [] = Some n"
| "based_value base n (c # s) =
     (if c = CHR ''_'' then based_value base n s
      else (case digit_of c of None \<Rightarrow> None | Some d \<Rightarrow> if d \<ge> base then None else based_value base (n * base + d) s))"

definition base_of :: "string \<Rightarrow> int \<times> string" where
  "base_of s =
     (if s \<noteq> [] \<and> hd s = CHR ''0'' then
        (let p = (if length s \<ge> 3 then lower_char (s ! 1) else CHR ''0'') in
         if p = CHR ''b'' then (2, drop 2 s) else if p = CHR ''o'' then (8, drop 2 s)
         else if p = CHR ''x'' then (16, drop 2 s) else (8, tl s))
      else (10, s))"

fun underscores_ok :: "bool \<Rightarrow> char \<Rightarrow> string \<Rightarrow> bool" where
  "underscores_ok hex prev [] = (prev \<noteq> CHR ''_'')"
| "underscores_ok hex prev (c # s) =
     (let l = of_char (lower_char c) :: nat in
      if is_digit c \<or> hex \<and> 97 \<le> l \<and> l \<le> 102 then underscores_ok hex (CHR ''0'') s
      else if c = CHR ''_'' then (if prev \<noteq> CHR ''0'' then False else underscores_ok hex (CHR ''_'') s)
      else if prev = CHR ''_'' then False else underscores_ok hex (CHR ''!'') s)"

definition underscoreOK :: "string \<Rightarrow> bool" where
  "underscoreOK s =
     (if length s \<ge> 2 \<and> hd s = CHR ''0'' \<and> lower_char (s ! 1) \<in> {CHR ''b'', CHR ''o'', CHR ''x''}
      then underscores_ok (lower_char (s ! 1) = CHR ''x'') (CHR ''0'') (drop 2 s)
      else underscores_ok False (CHR ''^'') s)"

definition parse_int :: "string \<Rightarrow> int option" where
  "parse_int s =
     (let neg = (s \<noteq> [] \<and> hd s = CHR ''-'');
          u = (if s \<noteq> [] \<and> (hd s = CHR ''-'' \<or> hd s = CHR ''+'') then tl s else s)
      in if u = [] then None
         else case based_value (fst (base_of u)) 0 (snd (base_of u)) of
           None \<Rightarrow> None
         | Some n \<Rightarrow>
             if CHR ''_'' \<in> set u \<and> \<not> underscoreOK u then None
             else if neg then (if n > 2 ^ 63 then None else Some (- n))
             else if n \<ge> 2 ^ 63 then None else Some n)"

text \<open>The values of the flags by name; an integer is kept in its text, which then parses.\<close>

type_synonym flag_values = "string \<Rightarrow> string"

definition set_flag :: "(string \<Rightarrow> flag_kind option) \<Rightarrow> string \<Rightarrow> string \<Rightarrow> flag_values \<Rightarrow> flag_error + flag_values" where
  "set_flag kinds name v vals =
     (if kinds name = Some IntFlag \<and> parse_int v = None then Inl (FlagInvalidValue v name) else Inr (vals(name := v)))"

text \<open>\<open>parseOne\<close> in a loop: it ends at the first argument that is no flag, or after \<open>--\<close>.\<close>

fun parse_flags :: "(string \<Rightarrow> flag_kind option) \<Rightarrow> string list \<Rightarrow> flag_values \<Rightarrow> flag_error + flag_values" where
  "parse_flags kinds [] vals = Inr vals"
| "parse_flags kinds (s # args) vals =
     (if length s < 2 \<or> hd s \<noteq> CHR ''-'' then Inr vals
      else if s = ''--'' then Inr vals
      else let name = (if s ! 1 = CHR ''-'' then drop 2 s else tl s) in
        if name = [] \<or> hd name = CHR ''-'' \<or> hd name = CHR ''='' then Inl (BadFlagSyntax s)
        else case cut (CHR ''='') name of (name, given) \<Rightarrow>
          if kinds name = None then (if name = ''help'' \<or> name = ''h'' then Inl HelpRequested else Inl (FlagNotDefined name))
          else case given of
            Some v \<Rightarrow> (case set_flag kinds name v vals of Inl e \<Rightarrow> Inl e | Inr vals \<Rightarrow> parse_flags kinds args vals)
          | None \<Rightarrow>
              (case args of
                 [] \<Rightarrow> Inl (FlagNeedsArgument name)
               | v # rest \<Rightarrow> (case set_flag kinds name v vals of Inl e \<Rightarrow> Inl e | Inr vals \<Rightarrow> parse_flags kinds rest vals)))"

section \<open>The end of a process\<close>

record process_end =
  pe_code :: int
  pe_out :: "string list"
  pe_err :: "string list"

definition exits :: "int \<Rightarrow> string list \<Rightarrow> string list \<Rightarrow> process_end" where
  "exits code out err = \<lparr>pe_code = code, pe_out = out, pe_err = err\<rparr>"

text \<open>\<open>fmt.Fprintln(os.Stderr, "error:", err); os.Exit(1)\<close>.\<close>

definition fatal :: "string \<Rightarrow> process_end" where
  "fatal e = exits 1 [] [''error: '' @ e]"

section \<open>The agent\<close>

fun defaultConfigPath :: "platform \<Rightarrow> string" where
  "defaultConfigPath Windows = ''C:'' @ [CHR 0x5C] @ ''ProgramData'' @ [CHR 0x5C] @ ''ura-agent'' @ [CHR 0x5C] @ ''agent.yaml''"
| "defaultConfigPath Unix = ''/etc/ura-agent/agent.yaml''"

definition agent_usage :: "string list" where
  "agent_usage =
     [''usage: ura-agent <command> [--config path]'', [], ''commands:'',
      ''  run           start collection (foreground; service-aware)'',
      ''  export        export an encrypted bundle now'',
      ''  inventory     print the host inventory snapshot (diagnostics)'',
      ''  check-config  validate the configuration file'',
      ''  version       print version'']"

text \<open>
  What a process meets: the reading and the decoding of the configuration, the texts of errors, the agent that
  \<open>New\<close> gives for a configuration, the environment of its start, its events and its end, the probes, and whether
  the service manager started it.
\<close>

record agent_world =
  wo_platform :: platform
  wo_read :: "string \<Rightarrow> string + string"
  wo_yaml :: "string \<Rightarrow> config \<Rightarrow> string + config"
  wo_json :: "config \<Rightarrow> string"
  wo_sha :: "string \<Rightarrow> nat list"
  wo_load_text :: "load_error \<Rightarrow> string"
  wo_new_text :: "new_error \<Rightarrow> string"
  wo_new :: "config \<Rightarrow> new_error + agent"
  wo_lib :: agent_lib
  wo_start :: agent_env
  wo_events :: "(agent_event \<times> agent_env) list"
  wo_stop :: agent_env
  wo_inventory_json :: "inventory \<Rightarrow> string"
  wo_service :: bool
  wo_svc_run :: "string option"

definition config_hash :: "agent_world \<Rightarrow> config \<Rightarrow> string" where
  "config_hash w cfg = Hash (wo_json w) (wo_sha w) cfg"

definition agent_lib_of :: "agent_world \<Rightarrow> config \<Rightarrow> agent_lib" where
  "agent_lib_of w cfg = (wo_lib w)\<lparr>al_hash := config_hash w cfg\<rparr>"

definition mustConfig :: "agent_world \<Rightarrow> string \<Rightarrow> process_end + config" where
  "mustConfig w path =
     (case Load (wo_platform w) (wo_read w) (wo_yaml w) path of Inl e \<Rightarrow> Inl (fatal (wo_load_text w e)) | Inr cfg \<Rightarrow> Inr cfg)"

definition withAgent :: "agent_world \<Rightarrow> string \<Rightarrow> (config \<Rightarrow> agent \<Rightarrow> process_end) \<Rightarrow> process_end" where
  "withAgent w path fn =
     (case mustConfig w path of
        Inl p \<Rightarrow> p
      | Inr cfg \<Rightarrow> (case wo_new w cfg of Inl e \<Rightarrow> fatal (wo_new_text w e) | Inr a \<Rightarrow> fn cfg a))"

text \<open>
  \<open>Run\<close> as a whole. \<open>NewTicker\<close> panics when its interval is not positive; \<open>Validate\<close> checks one of them.
\<close>

definition tickers_ok :: "config \<Rightarrow> bool" where
  "tickers_ok cfg \<longleftrightarrow> list_all (\<lambda>d. 0 < d)
     [sa_HostInterval (c_Sampling cfg), sa_ProcInterval (c_Sampling cfg), sa_ProcPersistInterval (c_Sampling cfg),
      sa_SQLSampleInterval (c_Sampling cfg), sa_SQLInventoryInterval (c_Sampling cfg), sa_HealthInterval (c_Sampling cfg),
      sa_SchedInterval (c_Sampling cfg)]"

datatype run_end = Panicked | Stopped "spool_error option"

definition RunAgent :: "agent_lib \<Rightarrow> config \<Rightarrow> agent_env \<Rightarrow> (agent_event \<times> agent_env) list \<Rightarrow> agent_env \<Rightarrow> agent \<Rightarrow> agent \<times> run_end" where
  "RunAgent lib cfg env evs env' a =
     (if \<not> tickers_ok cfg then (begin_run lib cfg env a, Panicked)
      else case shutdown lib env' (fst (run_events lib cfg evs (start_run lib cfg env a))) of (a, e) \<Rightarrow> (a, Stopped e))"

text \<open>A panic ends the process with code 2.\<close>

definition runForeground :: "agent_world \<Rightarrow> string \<Rightarrow> process_end" where
  "runForeground w path = withAgent w path (\<lambda>cfg a.
     case snd (RunAgent (agent_lib_of w cfg) cfg (wo_start w) (wo_events w) (wo_stop w) a) of
       Panicked \<Rightarrow> exits 2 [] [''panic: non-positive interval for NewTicker'']
     | Stopped (Some e) \<Rightarrow> fatal (al_store_error (wo_lib w) e)
     | Stopped None \<Rightarrow> exits 0 [] [])"

definition runService :: "agent_world \<Rightarrow> string \<Rightarrow> process_end" where
  "runService w path =
     (if wo_platform w = Windows \<and> wo_service w
      then (case wo_svc_run w of Some e \<Rightarrow> exits 1 [] [''service error: '' @ e] | None \<Rightarrow> exits 0 [] [])
      else runForeground w path)"

definition cmdExport :: "agent_world \<Rightarrow> string \<Rightarrow> process_end" where
  "cmdExport w path = withAgent w path (\<lambda>cfg a.
     case snd (ExportBundle (agent_lib_of w cfg) cfg (wo_start w) a) of
       Inl e \<Rightarrow> fatal (al_export_error (wo_lib w) e)
     | Inr items \<Rightarrow> exits 0 [bundle_path (ex_ExportDir (c_Export cfg)) (a_hostID a) (en_now (wo_start w))] [])"

definition cmdInventory :: "agent_world \<Rightarrow> string \<Rightarrow> process_end" where
  "cmdInventory w path =
     (case mustConfig w path of
        Inl p \<Rightarrow> p
      | Inr cfg \<Rightarrow>
          (case Collect (en_host (wo_start w)) (en_now (wo_start w)) ''(preview)'' (config_hash w cfg) (ag_PrivacyMode (c_Agent cfg)) of
             (iv, issues) \<Rightarrow> exits 0 [wo_inventory_json w iv] (map (\<lambda>i. ''warn: '' @ i) issues)))"

definition cmdCheckConfig :: "agent_world \<Rightarrow> string \<Rightarrow> process_end" where
  "cmdCheckConfig w path =
     (case mustConfig w path of
        Inl p \<Rightarrow> p | Inr cfg \<Rightarrow> exits 0 [''config OK (hash '' @ take 16 (config_hash w cfg) @ '')''] [])"

definition version_line :: "string \<Rightarrow> string" where
  "version_line name = name @ '' '' @ AgentVersion @ '' (schema '' @ SchemaVersion @ '')''"

text \<open>\<open>main\<close> on the arguments after the name of the program.\<close>

definition agent_main :: "agent_world \<Rightarrow> string list \<Rightarrow> process_end" where
  "agent_main w args =
     (case args of
        [] \<Rightarrow> exits 2 [] agent_usage
      | cmd # rest \<Rightarrow>
          (case parse_flags (\<lambda>n. if n = ''config'' then Some StringFlag else None) rest (\<lambda>n. defaultConfigPath (wo_platform w)) of
             Inl e \<Rightarrow> exits (flag_exit e) [] []
           | Inr vals \<Rightarrow>
               let path = vals ''config'' in
               if cmd = ''version'' then exits 0 [version_line ''ura-agent''] []
               else if cmd = ''run'' then runService w path
               else if cmd = ''export'' then cmdExport w path
               else if cmd = ''inventory'' then cmdInventory w path
               else if cmd = ''check-config'' then cmdCheckConfig w path
               else exits 2 [] agent_usage))"

section \<open>The Windows service\<close>

datatype svc_cmd = Interrogate | SvcStop | SvcShutdown | OtherCmd
datatype svc_state = StartPending | SvcRunning | StopPending

text \<open>
  Where the handler is: in its select, waiting for \<open>Run\<close> after a stop, returned with an exit code, or gone with
  the process. The goroutine of \<open>Run\<close>: not yet in its loop, in it, or ended with a result in the channel.
\<close>

datatype handler_phase = Serving | AwaitingRun | Returned int | ProcessGone int
datatype run_phase = RunStarting | RunLooping | RunEnded "spool_error option"

record service =
  sv_handler :: handler_phase
  sv_run :: run_phase
  sv_statuses :: "svc_state list"
  sv_cancelled :: bool
  sv_agent :: agent

text \<open>\<open>Execute\<close> up to its loop: \<open>mustConfig\<close> ends the process, a failing \<open>New\<close> is the service's exit code 1.\<close>

definition Execute_start :: "process_end + config \<Rightarrow> (config \<Rightarrow> new_error + agent) \<Rightarrow> (handler_phase \<times> svc_state list) + config \<times> service" where
  "Execute_start loaded new =
     (case loaded of
        Inl p \<Rightarrow> Inl (ProcessGone (pe_code p), [StartPending])
      | Inr cfg \<Rightarrow>
          (case new cfg of
             Inl e \<Rightarrow> Inl (Returned 1, [StartPending])
           | Inr a \<Rightarrow> Inr (cfg, \<lparr>sv_handler = Serving, sv_run = RunStarting, sv_statuses = [StartPending, SvcRunning],
               sv_cancelled = False, sv_agent = a\<rparr>)))"

text \<open>A request in the select; \<open>current\<close> is the status that comes with it.\<close>

definition on_request :: "svc_cmd \<Rightarrow> svc_state \<Rightarrow> service \<Rightarrow> service" where
  "on_request c current s =
     (case c of
        Interrogate \<Rightarrow> s\<lparr>sv_statuses := sv_statuses s @ [current]\<rparr>
      | SvcStop \<Rightarrow> s\<lparr>sv_statuses := sv_statuses s @ [StopPending], sv_cancelled := True, sv_handler := AwaitingRun\<rparr>
      | SvcShutdown \<Rightarrow> s\<lparr>sv_statuses := sv_statuses s @ [StopPending], sv_cancelled := True, sv_handler := AwaitingRun\<rparr>
      | OtherCmd \<Rightarrow> s)"

definition alive :: "service \<Rightarrow> bool" where
  "alive s \<longleftrightarrow> sv_handler s = Serving \<or> sv_handler s = AwaitingRun"

text \<open>The handler and the goroutine in any interleaving.\<close>

inductive svc_step :: "agent_lib \<Rightarrow> config \<Rightarrow> service \<Rightarrow> service \<Rightarrow> bool" for lib cfg where
  request: "sv_handler s = Serving \<Longrightarrow> svc_step lib cfg s (on_request c current s)"
| done_serving: "sv_handler s = Serving \<Longrightarrow> sv_run s = RunEnded e \<Longrightarrow>
    svc_step lib cfg s (s\<lparr>sv_cancelled := True, sv_handler := Returned 0\<rparr>)"
| done_waiting: "sv_handler s = AwaitingRun \<Longrightarrow> sv_run s = RunEnded e \<Longrightarrow> svc_step lib cfg s (s\<lparr>sv_handler := Returned 0\<rparr>)"
| run_starts: "alive s \<Longrightarrow> sv_run s = RunStarting \<Longrightarrow> tickers_ok cfg \<Longrightarrow>
    svc_step lib cfg s (s\<lparr>sv_run := RunLooping, sv_agent := start_run lib cfg env (sv_agent s)\<rparr>)"
| run_panics: "alive s \<Longrightarrow> sv_run s = RunStarting \<Longrightarrow> \<not> tickers_ok cfg \<Longrightarrow>
    svc_step lib cfg s (s\<lparr>sv_handler := ProcessGone 2, sv_agent := begin_run lib cfg env (sv_agent s)\<rparr>)"
| run_event: "alive s \<Longrightarrow> sv_run s = RunLooping \<Longrightarrow>
    svc_step lib cfg s (s\<lparr>sv_agent := fst (agent_step lib cfg ev env (sv_agent s))\<rparr>)"
| run_stops: "alive s \<Longrightarrow> sv_run s = RunLooping \<Longrightarrow> sv_cancelled s \<Longrightarrow> shutdown lib env (sv_agent s) = (a, e) \<Longrightarrow>
    svc_step lib cfg s (s\<lparr>sv_run := RunEnded e, sv_agent := a\<rparr>)"

inductive_cases svc_step_cases: "svc_step lib cfg s s'"

section \<open>The analyzer\<close>

definition analyzer_usage :: "string list" where
  "analyzer_usage =
     [''usage: ura-analyzer <command> [flags]'', [], ''commands:'',
      ''  keygen   --out DIR                        generate the offline keypair'',
      ''  analyze  --key FILE --in DIR --out DIR    import bundles and write reports'',
      ''  synth    --recipient KEY --out DIR [...]  generate a synthetic demo fleet'',
      ''  version                                   print version'']"

text \<open>
  What the analyzer meets: for \<open>keygen\<close> the key pair and the outcomes of \<open>cmdKeygen\<close>, for \<open>analyze\<close> the key
  file, age, the bundles and the arguments of \<open>RunAnalyzer\<close>, for \<open>synth\<close> the generator of the fleet. Files are
  by directory and name.
\<close>

record 'i analyzer_world =
  az_mkdir :: "string \<Rightarrow> bool"
  az_keypair :: "string + string \<times> string"
  az_writes :: "write_outcome \<times> write_outcome"
  az_keygen_text :: "keygen_error \<Rightarrow> string"
  az_read :: "string \<Rightarrow> string + string"
  az_identity :: "string \<Rightarrow> string + 'i"
  az_found :: "string \<Rightarrow> string list"
  az_open :: "string \<Rightarrow> string + tar_item list"
  az_codec :: "'i list \<Rightarrow> codec"
  az_decoders :: decoders
  az_groups :: group_order
  az_waits :: wait_order
  az_cats :: "(string, int) go_map \<Rightarrow> (string, int) go_map"
  az_json :: "report \<Rightarrow> string"
  az_now :: time
  az_mkdir_out :: "string option"
  az_write :: "string \<Rightarrow> string option"
  az_synth :: "string \<Rightarrow> string \<Rightarrow> int \<Rightarrow> (string \<times> synth_error) + (string \<times> tar_item list) list"
  az_synth_text :: "synth_error \<Rightarrow> string"

type_synonym file_system = "string \<Rightarrow> files_map"

definition keygen_lines :: "string \<Rightarrow> string \<Rightarrow> string list" where
  "keygen_lines out rec =
     [''keypair written to '' @ out, ''  identity.txt   PRIVATE '' @ em_dash @ '' keep on the analyzer machine only'',
      ''  recipient.txt  public  '' @ em_dash @ '' set as agent.recipient in agent.yaml'', ''recipient: '' @ rec]"

definition run_keygen :: "'i analyzer_world \<Rightarrow> string list \<Rightarrow> file_system \<Rightarrow> file_system \<times> process_end" where
  "run_keygen w args fs =
     (case parse_flags (\<lambda>n. if n = ''out'' then Some StringFlag else None) args (\<lambda>n. ''ura-keys'') of
        Inl e \<Rightarrow> (fs, exits (flag_exit e) [] [])
      | Inr vals \<Rightarrow>
          let out = vals ''out'' in
          (case cmdKeygen (az_mkdir w out) (az_keypair w) (fst (az_writes w)) (snd (az_writes w)) (fs out) of
             (d, Some e) \<Rightarrow> (fs(out := d), fatal (az_keygen_text w e))
           | (d, None) \<Rightarrow> (fs(out := d), exits 0 (keygen_lines out (case az_keypair w of Inr (i, r) \<Rightarrow> r | Inl e \<Rightarrow> [])) [])))"

definition analyze_lines :: "string \<Rightarrow> run_result \<Rightarrow> string list" where
  "analyze_lines out r =
     [''imported '' @ fmt_d (rr_Bundles r) @ '' bundle(s): '' @ fmt_d (rr_OKBundles r) @ '' ok, '' @ fmt_d (rr_PartialBundles r) @
        '' partial, '' @ fmt_d (rr_RejectedBundles r) @ '' rejected''] @
     map (\<lambda>w. ''  warning: '' @ w) (rr_Warnings r) @
     [''hosts analyzed: '' @ fmt_d (rr_Hosts r) @ '', SQL instances: '' @ fmt_d (rr_SQLInstances r) @ '', spikes: '' @ fmt_d (rr_Spikes r),
      ''reports written to '' @ out]"

definition load_all :: "'i analyzer_world \<Rightarrow> string \<Rightarrow> 'i list \<Rightarrow> string + dataset" where
  "load_all w dir ids =
     LoadBundles (az_decoders w) (\<lambda>p. Import (az_codec w ids) p (az_open w p)) dir (az_found w dir)"

definition cmdAnalyze :: "'i analyzer_world \<Rightarrow> string list \<Rightarrow> file_system \<Rightarrow> file_system \<times> process_end" where
  "cmdAnalyze w args fs =
     (case parse_flags (\<lambda>n. if n \<in> {''key'', ''in'', ''out''} then Some StringFlag else None) args
         (\<lambda>n. if n = ''out'' then ''ura-reports'' else []) of
        Inl e \<Rightarrow> (fs, exits (flag_exit e) [] [])
      | Inr vals \<Rightarrow>
          let key = vals ''key''; dir = vals ''in''; out = vals ''out'' in
          if key = [] \<or> dir = [] then (fs, exits 2 [] [])
          else (case LoadIdentities (az_identity w) key (az_read w key) of
             Inl e \<Rightarrow> (fs, fatal e)
           | Inr ids \<Rightarrow>
               (case RunAnalyzer (az_groups w) (az_waits w) (az_cats w) (az_json w) (az_now w) (load_all w dir ids)
                   (az_mkdir_out w) (az_write w) (fs out) of
                  (d, Inl e) \<Rightarrow> (fs(out := d), fatal e)
                | (d, Inr r) \<Rightarrow> (fs(out := d), exits 0 (analyze_lines out r) []))))"

text \<open>A recipient that starts with an at sign names a file; its whole content is taken.\<close>

definition cmdSynth :: "'i analyzer_world \<Rightarrow> string list \<Rightarrow> process_end" where
  "cmdSynth w args =
     (case parse_flags (\<lambda>n. if n \<in> {''recipient'', ''out''} then Some StringFlag else if n = ''days'' then Some IntFlag else None) args
         (\<lambda>n. if n = ''out'' then ''ura-demo-bundles'' else if n = ''days'' then ''14'' else []) of
        Inl e \<Rightarrow> exits (flag_exit e) [] []
      | Inr vals \<Rightarrow>
          let recipient = vals ''recipient''; out = vals ''out'' in
          if recipient = [] then exits 2 [] []
          else case (if hd recipient = CHR ''@'' then az_read w (tl recipient) else Inr recipient) of
            Inl e \<Rightarrow> fatal e
          | Inr rec \<Rightarrow>
              (case az_synth w rec out (the (parse_int (vals ''days''))) of
                 Inl (name, e) \<Rightarrow> fatal (name @ '': '' @ az_synth_text w e)
               | Inr bundles \<Rightarrow>
                   exits 0 ((''generated '' @ fmt_d (int (length bundles)) @ '' synthetic encrypted bundles in '' @ out) #
                     map (\<lambda>(p, items). ''   '' @ file_base p) bundles) []))"

definition analyzer_main :: "'i analyzer_world \<Rightarrow> string list \<Rightarrow> file_system \<Rightarrow> file_system \<times> process_end" where
  "analyzer_main w args fs =
     (case args of
        [] \<Rightarrow> (fs, exits 2 [] analyzer_usage)
      | cmd # rest \<Rightarrow>
          if cmd = ''version'' then (fs, exits 0 [version_line ''ura-analyzer''] [])
          else if cmd = ''keygen'' then run_keygen w rest fs
          else if cmd = ''analyze'' then cmdAnalyze w rest fs
          else if cmd = ''synth'' then (fs, cmdSynth w rest)
          else (fs, exits 2 [] analyzer_usage))"

end
