(* ===== verification/ServiceFacts.thy ===== *)
theory ServiceFacts
  imports Commands AgentFacts
begin

text \<open>
  The Windows service: whatever the interleaving of its requests with the steps of the agent, it reports its
  end only after the shutdown of the agent, and it can always be stopped.
\<close>

lemma run_events_fst: "fst (run_events lib cfg evs a) = foldl (\<lambda>a (ev, env). fst (agent_step lib cfg ev env a)) a evs"
  by (induction evs arbitrary: a) (auto split: prod.split, metis fst_conv)

lemma run_events_snoc:
  "fst (run_events lib cfg (evs @ [(ev, env)]) a) = fst (agent_step lib cfg ev env (fst (run_events lib cfg evs a)))"
  by (simp add: run_events_fst)

text \<open>What is known of a reachable state of a service that was started with the agent \<open>a\<close>.\<close>

definition agent_inv :: "agent_lib \<Rightarrow> config \<Rightarrow> agent \<Rightarrow> service \<Rightarrow> bool" where
  "agent_inv lib cfg a s \<longleftrightarrow>
     (case sv_run s of
        RunStarting \<Rightarrow> alive s \<and> sv_agent s = a \<or> \<not> tickers_ok cfg \<and> sv_handler s = ProcessGone 2
      | RunLooping \<Rightarrow> tickers_ok cfg \<and> alive s \<and> (\<exists>env evs. sv_agent s = fst (run_events lib cfg evs (start_run lib cfg env a)))
      | RunEnded e \<Rightarrow> tickers_ok cfg \<and> sv_handler s \<in> {AwaitingRun, Returned 0} \<and>
          (\<exists>env evs env'. shutdown lib env' (fst (run_events lib cfg evs (start_run lib cfg env a))) = (sv_agent s, e)))"

definition handler_inv :: "service \<Rightarrow> bool" where
  "handler_inv s \<longleftrightarrow> (sv_handler s = Serving \<longrightarrow> \<not> sv_cancelled s) \<and>
     (sv_handler s = AwaitingRun \<or> (\<exists>c. sv_handler s = Returned c) \<longrightarrow> sv_cancelled s) \<and>
     (sv_cancelled s \<longrightarrow> StopPending \<in> set (sv_statuses s))"

lemmas service_inv_defs = agent_inv_def handler_inv_def alive_def

lemma svc_step_inv:
  "svc_step lib cfg s s' \<Longrightarrow> agent_inv lib cfg a s \<Longrightarrow> handler_inv s \<Longrightarrow> agent_inv lib cfg a s' \<and> handler_inv s'"
proof (induction rule: svc_step.induct)
  case (request s c current)
  then show ?case by (cases c) (auto simp: service_inv_defs on_request_def split: run_phase.splits)
next
  case (done_serving s e)
  then show ?case by (auto simp: service_inv_defs)
next
  case (done_waiting s e)
  then show ?case by (auto simp: service_inv_defs)
next
  case (run_starts s env)
  have "\<exists>env' evs. start_run lib cfg env a = fst (run_events lib cfg evs (start_run lib cfg env' a))"
    by (intro exI [of _ env] exI [of _ "[]"]) simp
  then show ?case using run_starts by (auto simp: service_inv_defs)
next
  case (run_panics s env)
  then show ?case by (auto simp: service_inv_defs)
next
  case (run_event s ev env)
  then obtain env0 evs where "sv_agent s = fst (run_events lib cfg evs (start_run lib cfg env0 a))" by (auto simp: agent_inv_def)
  then have "fst (agent_step lib cfg ev env (sv_agent s)) = fst (run_events lib cfg (evs @ [(ev, env)]) (start_run lib cfg env0 a))"
    by (simp add: run_events_snoc)
  then have "\<exists>env' evs'. fst (agent_step lib cfg ev env (sv_agent s)) = fst (run_events lib cfg evs' (start_run lib cfg env' a))" by blast
  then show ?case using run_event by (simp add: agent_inv_def handler_inv_def alive_def)
next
  case (run_stops s env b e)
  then obtain env0 evs where "sv_agent s = fst (run_events lib cfg evs (start_run lib cfg env0 a))" by (auto simp: agent_inv_def)
  then have "\<exists>env evs env'. shutdown lib env' (fst (run_events lib cfg evs (start_run lib cfg env a))) = (b, e)" using run_stops(4) by metis
  then show ?case using run_stops by (auto simp: service_inv_defs)
qed

lemma service_reachable_inv:
  assumes "(svc_step lib cfg)\<^sup>*\<^sup>* s0 s" "Execute_start (Inr cfg) new = Inr (cfg, s0)"
  shows "\<exists>a. new cfg = Inr a \<and> agent_inv lib cfg a s \<and> handler_inv s"
proof -
  obtain a where a: "new cfg = Inr a" "sv_handler s0 = Serving" "sv_run s0 = RunStarting" "\<not> sv_cancelled s0" "sv_agent s0 = a"
    using assms(2) by (auto simp: Execute_start_def split: sum.splits)
  have "agent_inv lib cfg a s0 \<and> handler_inv s0" using a by (simp add: service_inv_defs)
  with assms(1) have "agent_inv lib cfg a s \<and> handler_inv s"
    by (induction rule: rtranclp_induct) (use svc_step_inv in blast)+
  then show ?thesis using a(1) by blast
qed

text \<open>From any state that is alive the service can be brought to its end.\<close>

lemma svc_can_end:
  assumes "agent_inv lib cfg a s" "handler_inv s" "alive s" "tickers_ok cfg"
  shows "\<exists>s'. (svc_step lib cfg)\<^sup>*\<^sup>* s s' \<and> sv_handler s' = Returned 0"
proof -
  have finish: "\<exists>s'. (svc_step lib cfg)\<^sup>*\<^sup>* s s' \<and> sv_handler s' = Returned 0" if "sv_handler s = AwaitingRun" "sv_run s = RunEnded e" for s e
    using svc_step.done_waiting [OF that] by (intro exI [of _ "s\<lparr>sv_handler := Returned 0\<rparr>"]) auto
  have loop: "\<exists>s'. (svc_step lib cfg)\<^sup>*\<^sup>* s s' \<and> sv_handler s' = Returned 0"
    if s: "sv_handler s = AwaitingRun" "sv_run s = RunLooping" "sv_cancelled s" for s
  proof -
    obtain b e where sh: "shutdown lib undefined (sv_agent s) = (b, e)" by force
    have "svc_step lib cfg s (s\<lparr>sv_run := RunEnded e, sv_agent := b\<rparr>)"
      using s sh by (intro svc_step.run_stops) (simp_all add: alive_def)
    then show ?thesis using finish [of "s\<lparr>sv_run := RunEnded e, sv_agent := b\<rparr>" e] s by (auto intro: converse_rtranclp_into_rtranclp)
  qed
  have start: "\<exists>s'. (svc_step lib cfg)\<^sup>*\<^sup>* s s' \<and> sv_handler s' = Returned 0"
    if s: "sv_handler s = AwaitingRun" "sv_run s = RunStarting" "sv_cancelled s" for s
  proof -
    have "svc_step lib cfg s (s\<lparr>sv_run := RunLooping, sv_agent := start_run lib cfg undefined (sv_agent s)\<rparr>)"
      using s assms(4) by (intro svc_step.run_starts) (simp_all add: alive_def)
    then show ?thesis using loop [of "s\<lparr>sv_run := RunLooping, sv_agent := start_run lib cfg undefined (sv_agent s)\<rparr>"] s
      by (auto intro: converse_rtranclp_into_rtranclp)
  qed
  have waiting: "\<exists>s'. (svc_step lib cfg)\<^sup>*\<^sup>* s s' \<and> sv_handler s' = Returned 0" if "sv_handler s = AwaitingRun" "sv_cancelled s" for s
    using that start [of s] loop [of s] finish [of s] by (cases "sv_run s") blast+
  show ?thesis
  proof (cases "sv_handler s = AwaitingRun")
    case True
    then show ?thesis using waiting [of s] assms(2) by (simp add: handler_inv_def)
  next
    case False
    then have "svc_step lib cfg s (on_request SvcStop StopPending s)"
      using assms(3) by (intro svc_step.request) (simp add: alive_def)
    then show ?thesis using waiting [of "on_request SvcStop StopPending s"]
      by (auto simp: on_request_def intro: converse_rtranclp_into_rtranclp)
  qed
qed

text \<open>
  C40. The service of Windows, in every interleaving of the requests of the service manager with the steps of the
  agent: when its handler has returned, a stop was announced, the exit code is 0, and the agent is exactly the
  result of \<open>Run\<close>, that is of its start, some events and its shutdown (so what is shown of sessions holds of it);
  the process dies only when a ticker of the configuration is not positive; and while the handler has not
  returned, the service can be brought to its end.
\<close>

theorem service_ends_with_shutdown:
  assumes "Execute_start (Inr cfg) new = Inr (cfg, s0)" "(svc_step lib cfg)\<^sup>*\<^sup>* s0 s"
  shows "\<exists>a. new cfg = Inr a \<and>
    (\<forall>code. sv_handler s = Returned code \<longrightarrow> code = 0 \<and> StopPending \<in> set (sv_statuses s) \<and>
       (\<exists>env evs env' e. RunAgent lib cfg env evs env' a = (sv_agent s, Stopped e))) \<and>
    (\<forall>code. sv_handler s = ProcessGone code \<longrightarrow> \<not> tickers_ok cfg) \<and>
    (alive s \<and> tickers_ok cfg \<longrightarrow> (\<exists>s'. (svc_step lib cfg)\<^sup>*\<^sup>* s s' \<and> sv_handler s' = Returned 0))"
proof -
  obtain a where a: "new cfg = Inr a" "agent_inv lib cfg a s" "handler_inv s" using service_reachable_inv [OF assms(2,1)] by blast
  have "code = 0 \<and> StopPending \<in> set (sv_statuses s) \<and> (\<exists>env evs env' e. RunAgent lib cfg env evs env' a = (sv_agent s, Stopped e))"
    if r: "sv_handler s = Returned code" for code
  proof -
    obtain e where e: "sv_run s = RunEnded e" using r a(2) by (cases "sv_run s") (auto simp: agent_inv_def alive_def)
    then obtain env evs env' where "shutdown lib env' (fst (run_events lib cfg evs (start_run lib cfg env a))) = (sv_agent s, e)" "tickers_ok cfg"
      using a(2) by (auto simp: agent_inv_def)
    then have "RunAgent lib cfg env evs env' a = (sv_agent s, Stopped e)" by (simp add: RunAgent_def)
    moreover have "code = 0" using r e a(2) by (auto simp: agent_inv_def)
    ultimately show ?thesis using r a(3) by (auto simp: handler_inv_def)
  qed
  moreover have "\<not> tickers_ok cfg" if "sv_handler s = ProcessGone code" for code
    using that a(2) by (auto simp: agent_inv_def alive_def split: run_phase.splits)
  ultimately show ?thesis using a svc_can_end [OF a(2,3)] by blast
qed

theorem service_ends_with_shutdown_witness:
  "\<exists>s :: service. sv_handler s = Returned 0 \<and> StopPending \<in> set (sv_statuses s) \<and>
     (\<exists>env evs env' e. RunAgent toy_lib toy_config env evs env' fresh_agent = (sv_agent s, Stopped e))"
proof -
  define s0 where "s0 = \<lparr>sv_handler = Serving, sv_run = RunStarting, sv_statuses = [StartPending, SvcRunning],
     sv_cancelled = False, sv_agent = fresh_agent\<rparr>"
  have start: "Execute_start (Inr toy_config) (\<lambda>c. Inr fresh_agent) = Inr (toy_config, s0)" by (simp add: Execute_start_def s0_def)
  have ok: "tickers_ok toy_config"
    by (simp add: tickers_ok_def toy_config_def with_recipient_def Default_def seconds_def minutes_def hours_def)
  obtain s where s: "(svc_step toy_lib toy_config)\<^sup>*\<^sup>* s0 s" "sv_handler s = Returned 0"
    using service_ends_with_shutdown [OF start rtranclp.rtrancl_refl, of toy_lib] ok by (auto simp: s0_def alive_def)
  then have "StopPending \<in> set (sv_statuses s) \<and> (\<exists>env evs env' e. RunAgent toy_lib toy_config env evs env' fresh_agent = (sv_agent s, Stopped e))"
    using service_ends_with_shutdown [OF start s(1)] by auto
  then show ?thesis using s(2) by blast
qed

end
