(* ===== verification/SynthCalendar.thy ===== *)
theory SynthCalendar
  imports Synth
begin

text \<open>
  The dates and the loops over time of the demonstration fleet: \<open>civil\<close> and \<open>date_day\<close> are inverse, so that
  \<open>AddDate\<close> of days adds days, and the loops make equidistant ticks.
\<close>

section \<open>Dates\<close>

lemma month_day_sum:
  "month_day m ls d = (m', dd) \<Longrightarrow> 0 \<le> d \<Longrightarrow> \<exists>k. m' = m + int k \<and> k \<le> length ls \<and> sum_list (take k ls) + dd - 1 = d \<and>
     (d < sum_list ls \<longrightarrow> k < length ls \<and> 1 \<le> dd \<and> dd \<le> ls ! k)"
proof (induction m ls d rule: month_day.induct)
  case (1 m d)
  then show ?case by auto
next
  case (2 m l ls d)
  show ?case
  proof (cases "d < l")
    case True
    then show ?thesis using "2.prems" by (intro exI [of _ 0]) auto
  next
    case False
    then obtain k where "m' = m + 1 + int k" "k \<le> length ls" "sum_list (take k ls) + dd - 1 = d - l"
      "d - l < sum_list ls \<longrightarrow> k < length ls \<and> 1 \<le> dd \<and> dd \<le> ls ! k" using "2.IH" "2.prems" by auto
    then show ?thesis by (intro exI [of _ "Suc k"]) auto
  qed
qed

lemma month_lengths_length: "length (month_lengths y) = 12"
  by (simp add: month_lengths_def)

lemma year_length: "sum_list (month_lengths y) = (if leap y then 366 else 365)"
  by (simp add: month_lengths_def)

lemma date_day_civil:
  assumes "0 \<le> d" "civil d = (y, m, dd)"
  shows "date_day y m dd = d \<and> 1 \<le> y \<and> 1 \<le> m \<and> m \<le> 12 \<and> 1 \<le> dd \<and> dd \<le> 31"
proof -
  define n400 where "n400 = d div 146097" define d1 where "d1 = d mod 146097"
  define n100 where "n100 = min 3 (d1 div 36524)" define d2 where "d2 = d1 - 36524 * n100"
  define n4 where "n4 = d2 div 1461" define d3 where "d3 = d2 mod 1461"
  define n1 where "n1 = min 3 (d3 div 365)" define r where "r = d3 - 365 * n1"
  have "civil d = (case month_day 1 (month_lengths (400 * n400 + 100 * n100 + 4 * n4 + n1 + 1)) r of
      (m, dd) \<Rightarrow> (400 * n400 + 100 * n100 + 4 * n4 + n1 + 1, m, dd))"
    by (simp only: civil_def Let_def n400_def d1_def n100_def d2_def n4_def d3_def n1_def r_def)
  then have y: "y = 400 * n400 + 100 * n100 + 4 * n4 + n1 + 1" and md: "month_day 1 (month_lengths y) r = (m, dd)"
    using assms(2) by (auto split: prod.splits)
  have d1: "0 \<le> d1" "d1 < 146097" "d = 146097 * n400 + d1" by (simp_all add: d1_def n400_def)
  have d2: "0 \<le> n100" "n100 \<le> 3" "0 \<le> d2" "d2 \<le> 36524" "n100 < 3 \<longrightarrow> d2 < 36524"
    using d1(1,2) unfolding d2_def n100_def by auto
  have d3: "0 \<le> n4" "n4 \<le> 24" "0 \<le> d3" "d3 < 1461" "d2 = 1461 * n4 + d3"
    using d2 unfolding n4_def d3_def by auto
  have d3': "n4 = 24 \<and> n100 < 3 \<longrightarrow> d3 < 1460" using d2(5) d3(5) by linarith
  have r: "0 \<le> n1" "n1 \<le> 3" "0 \<le> r" "r \<le> 365" "n1 < 3 \<longrightarrow> r < 365" "d3 = 365 * n1 + r"
    using d3(3,4) unfolding n1_def r_def by auto
  have r': "n4 = 24 \<and> n100 < 3 \<longrightarrow> r < 365" using r d3' by linarith
  have "r = 365 \<longrightarrow> leap y"
  proof
    assume "r = 365"
    then have n1: "n1 = 3" "\<not> (n4 = 24 \<and> n100 < 3)" using r(2,5) r' by auto
    have "y mod 4 = 0" using y n1(1) by (simp add: mod_eq_0_iff_dvd)
    moreover have "n4 = 24 \<longrightarrow> y mod 400 = 0"
    proof -
      have "n4 = 24 \<longrightarrow> y = 400 * (n400 + 1)" using y n1 d2(2) by simp
      then show ?thesis by auto
    qed
    moreover have "n4 \<noteq> 24 \<longrightarrow> y mod 100 \<noteq> 0"
    proof
      assume "n4 \<noteq> 24"
      then have "y mod 100 = 4 * n4 + 4"
        using y n1(1) d3(1,2) int_mod_pos_eq [of y 100 "4 * n400 + n100" "4 * n4 + 4"] by simp
      then show "y mod 100 \<noteq> 0" using d3(1) by simp
    qed
    ultimately show "leap y" by (cases "n4 = 24") (simp_all add: leap_def)
  qed
  then have "r < sum_list (month_lengths y)" using r(4) by (auto simp: year_length)
  then obtain k where k: "m = 1 + int k" "k < 12" "sum_list (take k (month_lengths y)) + dd - 1 = r" "1 \<le> dd" "dd \<le> month_lengths y ! k"
    using month_day_sum [OF md r(3)] by (auto simp: month_lengths_length)
  have "month_lengths y ! k \<in> set (month_lengths y)" using k(2) by (intro nth_mem) (simp add: month_lengths_length)
  moreover have "\<forall>l \<in> set (month_lengths y). l \<le> 31" by (simp add: month_lengths_def)
  ultimately have "dd \<le> 31" using k(5) by force
  have "365 * (y - 1) + (y - 1) div 4 - (y - 1) div 100 + (y - 1) div 400 + r = d"
  proof -
    have "(y - 1) div 4 = 100 * n400 + 25 * n100 + n4" using y r(1,2) by (intro int_div_pos_eq [where r = n1]) simp_all
    moreover have "(y - 1) div 100 = 4 * n400 + n100" using y r(1,2) d3(1,2) by (intro int_div_pos_eq [where r = "4 * n4 + n1"]) simp_all
    moreover have "(y - 1) div 400 = n400" using y r(1,2) d3(1,2) d2(1,2) by (intro int_div_pos_eq [where r = "100 * n100 + 4 * n4 + n1"]) simp_all
    moreover have "d2 = d1 - 36524 * n100" by (simp add: d2_def)
    ultimately show ?thesis using y d1(3) d3(5) r(6) by simp
  qed
  moreover have "0 \<le> n400" using assms(1) by (simp add: n400_def)
  then have "1 \<le> y" using y d2(1) d3(1) r(1) by linarith
  ultimately show ?thesis using k \<open>dd \<le> 31\<close> by (simp add: date_day_def)
qed

text \<open>Different days are printed differently.\<close>

lemma fmt_0d_two: "0 \<le> n \<Longrightarrow> n < 100 \<Longrightarrow> length (fmt_0d 2 n) = 2"
proof -
  assume n: "0 \<le> n" "n < 100"
  have one: "dec_digits m = [digit_char m]" if "m < 10" for m using that by (simp add: dec_digits.simps [of m])
  have "length (dec_digits n) \<le> 2" using n by (cases "n < 10") (simp_all add: one dec_digits.simps [of n])
  then show ?thesis using n by (simp add: fmt_0d_def fmt_d_def pad0_def)
qed

lemma fmt_date_inj:
  assumes "0 \<le> s" "0 \<le> t" "fmt_date s = fmt_date t"
  shows "day_number s = day_number t"
proof -
  obtain y m d y' m' d' where c: "civil (day_number s) = (y, m, d)" "civil (day_number t) = (y', m', d')" by (metis prod.collapse)
  have n: "0 \<le> day_number s" "0 \<le> day_number t" using assms(1,2) by (simp_all add: day_number_def hours_def)
  note C = date_day_civil [OF n(1) c(1)] date_day_civil [OF n(2) c(2)]
  have "length (fmt_0d 2 m) = 2" "length (fmt_0d 2 d) = 2" "length (fmt_0d 2 m') = 2" "length (fmt_0d 2 d') = 2"
    using C by (simp_all add: fmt_0d_two)
  then have "fmt_0d 4 y = fmt_0d 4 y'" "fmt_0d 2 m = fmt_0d 2 m'" "fmt_0d 2 d = fmt_0d 2 d'"
    using assms(3) by (auto simp: fmt_date_def c simp flip: append_assoc)
  then have "y = y'" "m = m'" "d = d'" using C by (auto intro: fmt_0d_inj)
  then show ?thesis using C by simp
qed

text \<open>Days are added as such.\<close>

lemma AddDate_days: "0 \<le> t \<Longrightarrow> AddDate 0 0 n t = t + n * hours 24"
proof -
  assume t: "0 \<le> t"
  obtain y m d where c: "civil (day_number t) = (y, m, d)" by (metis prod.collapse)
  have "0 \<le> day_number t" using t by (simp add: day_number_def hours_def)
  note C = date_day_civil [OF this c]
  have m: "(m - 1) div 12 = 0" "(m - 1) mod 12 + 1 = m" using C by auto
  have "date_day y m (d + n) = day_number t + n" using C by (simp add: date_day_def)
  then have "AddDate 0 0 n t = (day_number t + n) * hours 24 + t mod hours 24" using m by (simp add: AddDate_def c)
  also have "\<dots> = t + n * hours 24" by (simp add: day_number_def distrib_right)
  finally show ?thesis .
qed

section \<open>Ticks\<close>

lemma ticks_eq: "0 < dt \<Longrightarrow> ticks t (t + int n * dt) dt = map (\<lambda>i. t + int i * dt) [0..<n]"
proof (induction n arbitrary: t)
  case 0
  then show ?case by (subst ticks.simps) simp
next
  case (Suc n)
  have "t < t + int (Suc n) * dt" using Suc.prems by (simp add: add_pos_nonneg)
  then have "ticks t (t + int (Suc n) * dt) dt = t # ticks (t + dt) (t + dt + int n * dt) dt"
    using Suc.prems by (subst ticks.simps) (simp add: algebra_simps)
  also have "\<dots> = t # map (\<lambda>i. t + dt + int i * dt) [0..<n]" using Suc by simp
  also have "\<dots> = map (\<lambda>i. t + int i * dt) [0..<Suc n]"
    by (simp only: upt_conv_Cons [of 0 "Suc n"] map_Suc_upt [symmetric]) (simp add: algebra_simps)
  finally show ?case .
qed

section \<open>The minutes of whole days\<close>

lemma clock_of_tick:
  "hour_of_day (q * hours 24 + int i * minutes 1) = int (i div 60 mod 24)"
  "minute_of_hour (q * hours 24 + int i * minutes 1) = int (i mod 60)"
proof -
  have h: "hours 24 = 24 * hours 1" "hours 1 = 60 * minutes 1" "hours 24 = 1440 * minutes 1" "minutes 1 \<noteq> 0"
    by (simp_all add: hours_def minutes_def)
  have "(q * hours 24 + int i * minutes 1) div hours 1 = ((60 * (24 * q) + int i) * minutes 1) div (60 * minutes 1)"
    by (simp add: h(1,2) algebra_simps)
  also have "\<dots> = (60 * (24 * q) + int i) div 60" by (rule div_mult_mult2 [OF h(4)])
  also have "\<dots> = 24 * q + int i div 60" by simp
  finally show "hour_of_day (q * hours 24 + int i * minutes 1) = int (i div 60 mod 24)"
    by (simp add: hour_of_day_def zdiv_int zmod_int)
  have "(q * hours 24 + int i * minutes 1) div minutes 1 = 60 * (24 * q) + int i"
    using h(4) by (simp add: h(3) flip: distrib_right)
  then show "minute_of_hour (q * hours 24 + int i * minutes 1) = int (i mod 60)"
    by (simp only: minute_of_hour_def mod_mult_self4 zmod_int of_nat_numeral)
qed

definition day_minutes :: "int \<Rightarrow> nat \<Rightarrow> time list" where
  "day_minutes q n = map (\<lambda>i. q * hours 24 + int i * minutes 1) [0..<n]"

lemma ticks_days: "ticks (q * hours 24) (q * hours 24 + int D * hours 24) (minutes 1) = day_minutes q (1440 * D)"
proof -
  have "int D * hours 24 = int (1440 * D) * minutes 1" "0 < minutes 1" by (simp_all add: hours_def minutes_def)
  then show ?thesis using ticks_eq [of "minutes 1" "q * hours 24" "1440 * D"] by (simp only: day_minutes_def)
qed

definition gap_minute :: "nat \<Rightarrow> bool" where
  "gap_minute i \<longleftrightarrow> i div 60 mod 24 = 4 \<and> i mod 60 < 20"

lemma in_gap_tick: "in_gap hs (q * hours 24 + int i * minutes 1) \<longleftrightarrow> sh_name hs = ''web-linux-01'' \<and> gap_minute i"
  unfolding in_gap_def clock_of_tick gap_minute_def by auto

lemma gap_shift:
  assumes "gap_minute i" "i < 1440 * D"
  shows "i + 60 < 1440 * D \<and> \<not> gap_minute (i + 60)"
proof -
  define a where "a = i div 60" define b where "b = a div 24"
  have i: "i = a * 60 + i mod 60" "a = b * 24 + a mod 24" by (simp_all add: a_def b_def)
  have g: "a mod 24 = 4" "i mod 60 < 20" using assms(1) by (simp_all add: gap_minute_def a_def)
  have "b < D" using assms(2) i g by linarith
  then have "i + 60 < 1440 * D" using i g by linarith
  moreover have "(i + 60) div 60 mod 24 = 5" using g(1) i(2) by (simp add: a_def [symmetric] mod_Suc)
  ultimately show ?thesis by (simp add: gap_minute_def)
qed

lemma length_filter_upt: "length (filter P [0..<n]) = card {i. i < n \<and> P i}"
proof -
  have "length (filter P [0..<n]) = card (set (filter P [0..<n]))" by (intro distinct_card [symmetric]) simp
  also have "set (filter P [0..<n]) = {i. i < n \<and> P i}" by auto
  finally show ?thesis .
qed

lemma few_gaps:
  assumes "n = 1440 * D"
  shows "n \<le> 2 * length (filter (\<lambda>i. \<not> gap_minute i) [0..<n])"
proof -
  have "(\<lambda>i. i + 60) ` {i. i < n \<and> gap_minute i} \<subseteq> {i. i < n \<and> \<not> gap_minute i}"
    using gap_shift [of _ D] unfolding assms by blast
  then have "card {i. i < n \<and> gap_minute i} \<le> card {i. i < n \<and> \<not> gap_minute i}"
    by (intro card_inj_on_le [of "\<lambda>i. i + 60"]) (simp_all add: inj_on_def)
  then show ?thesis using sum_length_filter_compl [of gap_minute "[0..<n]"] by (simp add: length_filter_upt)
qed

lemma last_minute: "0 < D \<Longrightarrow> \<not> gap_minute (1440 * D - 1)"
proof -
  assume "0 < D"
  then obtain d where d: "1440 * D - 1 = (24 * d + 23) * 60 + 59" by (cases D) simp_all
  have "((24 * d + 23) * 60 + 59) div 60 = 24 * d + 23" by simp
  then have "(1440 * D - 1) div 60 mod 24 = 23" unfolding d by simp
  then show ?thesis by (simp add: gap_minute_def)
qed

lemma kept_minutes:
  assumes "map m_TS ms = filter (\<lambda>t. \<not> in_gap hs t) (day_minutes q n)" "n = 1440 * D" "0 < D"
  shows "ms \<noteq> [] \<and> m_TS (hd ms) = q * hours 24 \<and> m_TS (last ms) = q * hours 24 + minutes (int n - 1) \<and>
    length ms \<le> n \<and> n \<le> 2 * length ms"
proof -
  define P where "P = (\<lambda>i. \<not> (sh_name hs = ''web-linux-01'' \<and> gap_minute i))"
  define f where "f = (\<lambda>i. q * hours 24 + int i * minutes 1)"
  have "filter (\<lambda>t. \<not> in_gap hs t) (day_minutes q n) = map f (filter P [0..<n])"
    by (simp only: day_minutes_def filter_map comp_def in_gap_tick P_def f_def)
  then have ms: "map m_TS ms = map f (filter P [0..<n])" using assms(1) by simp
  then have len: "length ms = length (filter P [0..<n])" by (metis length_map)
  have half: "n \<le> 2 * length (filter P [0..<n])"
    using few_gaps [OF assms(2)] by (cases "sh_name hs = ''web-linux-01''") (simp_all add: P_def)
  have n: "0 < n" using assms(2,3) by simp
  have "P 0" "P (n - 1)" using last_minute [OF assms(3)] by (simp_all add: P_def gap_minute_def assms(2))
  then have "hd (filter P [0..<n]) = 0" "last (filter P [0..<n]) = n - 1"
    using n by (simp_all add: upt_conv_Cons, cases n, simp_all)
  moreover have ne: "filter P [0..<n] \<noteq> []" "ms \<noteq> []" using half n len by auto
  ultimately have "m_TS (hd ms) = f 0" "m_TS (last ms) = f (n - 1)"
    using ms by (metis hd_map last_map)+
  then show ?thesis using ne(2) half len n length_filter_le [of P "[0..<n]"]
    by (simp add: f_def minutes_def of_nat_diff left_diff_distrib)
qed

end
