(* ===== verification/SynthFacts.thy ===== *)
theory SynthFacts
  imports SynthCalendar HostFacts
begin

text \<open>
  The minutes of the demonstration fleet through the analyzer. Draws are bounded by rules for \<open>pred_state\<close> that
  follow the monad; from them come the bounds of every minute, of the percentiles of a host and of its coverage,
  and the branch of the decision ladder that these bounds select.
\<close>

section \<open>Draws\<close>

text \<open>The documented ranges of \<open>Float64\<close> and \<open>Intn\<close>.\<close>

definition rng_ok :: "'g rng \<Rightarrow> bool" where
  "rng_ok R \<longleftrightarrow> (\<forall>g. 0 \<le> fst (rg_float R g) \<and> fst (rg_float R g) < 1) \<and>
     (\<forall>n g. 0 < n \<longrightarrow> 0 \<le> fst (rg_intn R n g) \<and> fst (rg_intn R n g) < n)"

lemma pred_ret: "P x \<Longrightarrow> pred_state P (ret x)"
  by (rule pred_stateI) simp

lemma pred_bind: "pred_state Q m \<Longrightarrow> (\<And>x. Q x \<Longrightarrow> pred_state P (f x)) \<Longrightarrow> pred_state P (State_Monad.bind m f)"
  by (rule bind_predI) (auto simp: state.pred_set)

lemma pred_weaken: "pred_state Q m \<Longrightarrow> (\<And>x. Q x \<Longrightarrow> P x) \<Longrightarrow> pred_state P m"
  by (simp add: state.pred_set)

lemma pred_any: "pred_state (\<lambda>_. True) m"
  by (rule pred_stateI) simp

lemma pred_draw: "rng_ok R \<Longrightarrow> pred_state (\<lambda>u. 0 \<le> u \<and> u \<le> 1) (draw R)"
  by (rule pred_stateI) (force simp: draw_def rng_ok_def less_imp_le dest: arg_cong [where f = fst])

lemma pred_draw_int: "rng_ok R \<Longrightarrow> 0 < n \<Longrightarrow> pred_state (\<lambda>k. 0 \<le> k \<and> k < n) (draw_int R n)"
  by (rule pred_stateI) (force simp: draw_int_def rng_ok_def dest: arg_cong [where f = fst])

lemma unit_times:
  fixes u b :: f64
  assumes "0 \<le> u" "u \<le> 1" "0 \<le> b"
  shows "0 \<le> u * b \<and> u * b \<le> b"
proof -
  have "u * b \<le> 1 * b" by (rule f64_mult_mono [OF assms(2,3)])
  moreover have "1 * b = b" by (simp flip: fval_inject' add: fval_arith)
  ultimately show ?thesis using assms by (simp add: f64_nonneg_intros)
qed

lemma pred_spread:
  assumes "rng_ok R" "0 \<le> fl b"
  shows "pred_state (\<lambda>x. fl a \<le> x \<and> x \<le> fl a + fl b) (spread R a b)"
proof -
  have "fl a \<le> fl a + u * fl b \<and> fl a + u * fl b \<le> fl a + fl b" if "0 \<le> u \<and> u \<le> 1" for u
  proof -
    have u: "0 \<le> u * fl b" "u * fl b \<le> fl b" using that assms(2) unit_times by blast+
    have "fl a + 0 \<le> fl a + u * fl b" "fl a + u * fl b \<le> fl a + fl b"
      by (intro f64_add_mono order.refl u)+
    moreover have "fl a + 0 = fl a" by (simp flip: fval_inject' add: fval_arith)
    ultimately show ?thesis by simp
  qed
  then show ?thesis unfolding spread_def by (intro pred_bind [OF pred_draw [OF assms(1)]] pred_ret)
qed

lemmas draws = pred_bind [OF pred_any] pred_bind [OF pred_draw]

section \<open>A minute\<close>

text \<open>The bounds of a minute, in the nightly spike and outside; a host without memory pressure shows none.\<close>

definition cpu_limit :: "host_spec \<Rightarrow> f64" where
  "cpu_limit hs = max (fl 1) (sh_baseCPU hs + sh_ampCPU hs + fl 4)"

definition cpu_bounds :: "host_spec \<Rightarrow> bool \<Rightarrow> cpu_agg \<Rightarrow> bool" where
  "cpu_bounds hs spiking c \<longleftrightarrow> 0 \<le> ca_AvgPct c \<and> 0 \<le> ca_MaxPct c \<and> ca_StealPct c = 0 \<and>
     (if spiking then ca_AvgPct c \<le> fl 96 \<and> fl 88 \<le> ca_MaxPct c \<and> ca_MaxPct c \<le> fl 101
      else ca_AvgPct c \<le> round2 (cpu_limit hs) \<and> ca_MaxPct c \<le> round2 (cpu_limit hs + fl 5))"

definition minute_bounds :: "host_spec \<Rightarrow> host_minute \<Rightarrow> bool" where
  "minute_bounds hs m \<longleftrightarrow> cpu_bounds hs (is_spiking hs (hour_float (m_TS m))) (hm_CPU m) \<and>
     round2 (sh_baseMemPct hs) \<le> ma_UsedPctAvg (hm_Mem m) \<and> ma_UsedPctAvg (hm_Mem m) \<le> round2 (sh_baseMemPct hs + fl 3) \<and>
     (\<not> sh_memPressure hs \<longrightarrow> minute_pressure m = [])"

lemma diurnal_upper:
  assumes "\<forall>x. \<bar>sine x\<bar> \<le> 1" "0 \<le> sh_ampCPU hs"
  shows "diurnal sine hs hour \<le> sh_baseCPU hs + sh_ampCPU hs"
proof -
  define s where "s = sine ((hour - fl 9) / fl 24 * fl 2 * math_pi)"
  have "s \<le> 1" using assms(1) [rule_format, of "(hour - fl 9) / fl 24 * fl 2 * math_pi"] unfolding s_def [symmetric]
    by (simp add: f64_le_iff abs_le_iff)
  then have "s * sh_ampCPU hs \<le> 1 * sh_ampCPU hs" by (rule f64_mult_mono [OF _ assms(2)])
  moreover have "1 * sh_ampCPU hs = sh_ampCPU hs" by (simp flip: fval_inject' add: fval_arith)
  ultimately have "sh_ampCPU hs * s \<le> sh_ampCPU hs" by (simp add: f64_mult_commute)
  then show ?thesis unfolding diurnal_def s_def [symmetric] by (intro f64_add_mono order.refl)
qed

lemma pred_mem: "rng_ok R \<Longrightarrow> pred_state (\<lambda>x. b \<le> x \<and> x \<le> b + fl 3) (do {u \<leftarrow> draw R; ret (b + u * fl 3)})"
proof (intro pred_bind [OF pred_draw] pred_ret)
  fix u assume u: "0 \<le> u \<and> u \<le> (1 :: f64)"
  have t: "0 \<le> u * fl 3" "u * fl 3 \<le> fl 3" using u unit_times [of u "fl 3"] by (simp_all add: f64_le_iff rnd64_nonneg)
  have "b + 0 \<le> b + u * fl 3" "b + u * fl 3 \<le> b + fl 3" by (intro f64_add_mono order.refl t)+
  moreover have "b + 0 = b" by (simp flip: fval_inject' add: fval_arith)
  ultimately show "b \<le> b + u * fl 3 \<and> b + u * fl 3 \<le> b + fl 3" by simp
qed

lemma pred_cpu:
  assumes "rng_ok R" "\<forall>x. \<bar>sine x\<bar> \<le> 1" "0 \<le> sh_ampCPU hs"
  shows "pred_state (\<lambda>x. fl 1 \<le> x \<and> x \<le> cpu_limit hs) (do {u \<leftarrow> draw R; ret (max (fl 1) (diurnal sine hs hour + u * fl 4))})"
proof (intro pred_bind [OF pred_draw [OF assms(1)]] pred_ret)
  fix u assume u: "0 \<le> u \<and> u \<le> (1 :: f64)"
  have "u * fl 4 \<le> fl 4" using u unit_times [of u "fl 4"] by (simp add: f64_le_iff rnd64_nonneg)
  then have "diurnal sine hs hour + u * fl 4 \<le> sh_baseCPU hs + sh_ampCPU hs + fl 4"
    by (intro f64_add_mono diurnal_upper assms(2,3))
  then show "fl 1 \<le> max (fl 1) (diurnal sine hs hour + u * fl 4) \<and> max (fl 1) (diurnal sine hs hour + u * fl 4) \<le> cpu_limit hs"
    by (auto simp: cpu_limit_def le_max_iff_disj)
qed

lemma round2_upto: "0 \<le> u \<Longrightarrow> u \<le> 1 \<Longrightarrow> 0 \<le> round2 u \<and> round2 u \<le> fl 1"
proof -
  have "round2 1 = fl 1" by code_simp
  then show "0 \<le> u \<Longrightarrow> u \<le> 1 \<Longrightarrow> 0 \<le> round2 u \<and> round2 u \<le> fl 1" using round2_mono [of u 1] round2_nonneg [of u] by simp
qed

lemma pred_r2_half: "rng_ok R \<Longrightarrow> pred_state (\<lambda>x. 0 \<le> x \<and> x \<le> fl 1) (r2_upto R (1 / 2))"
  unfolding r2_upto_def
proof (intro pred_bind [OF pred_draw] pred_ret round2_upto)
  fix u assume u: "0 \<le> u \<and> u \<le> (1 :: f64)"
  have h: "0 \<le> fl (1 / 2)" "fl (1 / 2) \<le> 1" by code_simp+
  show "0 \<le> u * fl (1 / 2)" "u * fl (1 / 2) \<le> 1" using unit_times [of u "fl (1 / 2)"] u h by auto
qed

lemma pred_pressure:
  assumes "rng_ok R"
  shows "pred_state (\<lambda>(m, psi). ma_UsedPctAvg m = ma_UsedPctAvg mem \<and>
     (\<not> sh_memPressure hs \<longrightarrow> m = mem \<and>
        (\<forall>p. psi = Some p \<longrightarrow> psi_MemSomeAvg p \<le> fl 1 \<and> psi_MemFullAvg p = 0 \<and> psi_IOSomeAvg p \<le> fl 1)))
    (synth_pressure R hs mem)"
proof -
  consider "sh_memPressure hs" | "\<not> sh_memPressure hs" "sh_os hs = ''linux''" | "\<not> sh_memPressure hs" "sh_os hs \<noteq> ''linux''" by blast
  then show ?thesis
  proof cases
    case 1
    then show ?thesis unfolding synth_pressure_def if_P [OF 1] Let_def
      by (cases "sh_os hs = ''linux''") (simp_all only: if_True if_False, (intro pred_bind [OF pred_any] pred_ret, simp)+)
  next
    case 2
    then show ?thesis unfolding synth_pressure_def if_not_P [OF 2(1)] if_P [OF 2(2)]
      by (intro pred_bind [OF pred_r2_half [OF assms]] pred_bind [OF pred_bind [OF pred_draw [OF assms] pred_ret]] pred_ret)
        (auto dest: round2_upto)
  next
    case 3
    then show ?thesis by (simp add: synth_pressure_def pred_ret)
  qed
qed

lemma synth_cpu_bounds:
  assumes "fl 1 \<le> cpu" "cpu \<le> limit"
  shows "0 \<le> round2 cpu \<and> round2 cpu \<le> round2 limit \<and> 0 \<le> round2 (min (fl 100) (cpu + fl 5)) \<and>
    round2 (min (fl 100) (cpu + fl 5)) \<le> round2 (limit + fl 5)"
proof -
  have c: "0 \<le> cpu" "0 \<le> fl 5" "0 \<le> fl 100" using assms(1) by (simp_all add: f64_le_iff rnd64_of_int [of 1, simplified] rnd64_nonneg)
  have "cpu + fl 5 \<le> limit + fl 5" by (intro f64_add_mono assms order.refl)
  then have "min (fl 100) (cpu + fl 5) \<le> limit + fl 5" by (simp add: min_le_iff_disj)
  moreover have "0 \<le> min (fl 100) (cpu + fl 5)" using c by (simp add: f64_nonneg_intros)
  ultimately show ?thesis using c(1) assms(2) by (simp add: round2_nonneg round2_mono)
qed

lemma quiet_cpu: "fl 1 \<le> cpu \<Longrightarrow> cpu \<le> cpu_limit hs \<Longrightarrow> cpu_bounds hs False (synth_cpu hs cpu iowait)"
  using synth_cpu_bounds [of cpu "cpu_limit hs"] by (simp add: cpu_bounds_def synth_cpu_def)

lemma spiking_cpu:
  assumes "fl 88 \<le> cpu" "cpu \<le> fl 88 + fl 8"
  shows "cpu_bounds hs True (synth_cpu hs cpu iowait)"
proof -
  have c: "fl 88 + fl 8 = fl 96" "fl 96 + fl 5 = fl 101" "round2 (fl 96) = fl 96" "round2 (fl 101) = fl 101" "fl 1 \<le> fl 88"
    "round2 (fl 88) = fl 88" "fl 88 \<le> fl 100" "fl 88 + 0 = fl 88" "0 \<le> fl 5" by code_simp+
  have "fl 88 + 0 \<le> cpu + fl 5" by (intro f64_add_mono assms(1) c(9))
  then have "round2 (fl 88) \<le> round2 (min (fl 100) (cpu + fl 5))" using c(7,8) by (intro round2_mono) simp
  moreover have "fl 1 \<le> cpu" using assms(1) c(5) by (rule order.trans [rotated])
  ultimately show ?thesis using synth_cpu_bounds [of cpu "fl 96"] assms(2) c by (simp add: cpu_bounds_def synth_cpu_def)
qed

lemma no_pressure_minute:
  assumes "ma_MajorFaultPS (hm_Mem m) = 0" "ma_PageOutPS (hm_Mem m) = 0"
    "\<forall>p. hm_PSI m = Some p \<longrightarrow> psi_MemSomeAvg p \<le> fl 1 \<and> psi_MemFullAvg p = 0 \<and> psi_IOSomeAvg p \<le> fl 1"
  shows "minute_pressure m = []"
proof -
  have c: "fl 1 \<le> fl 5" "fl 1 \<le> fl 10" "0 \<le> fl 1" "0 \<le> fl 100" "0 \<le> fl 500" by code_simp+
  show ?thesis
  proof (cases "hm_PSI m")
    case None
    then show ?thesis using assms(1,2) c by (simp add: minute_pressure_def not_less)
  next
    case (Some p)
    then have "psi_MemSomeAvg p \<le> fl 5" "psi_IOSomeAvg p \<le> fl 10" "psi_MemFullAvg p = 0"
      using assms(3) c(1,2) order.trans by blast+
    then show ?thesis using assms(1,2) c Some by (simp add: minute_pressure_def not_less)
  qed
qed

lemma pred_makeMinute:
  assumes "rng_ok R" "\<forall>x. \<bar>sine x\<bar> \<le> 1" "0 \<le> sh_ampCPU hs"
  shows "pred_state (\<lambda>(m, sp). minute_bounds hs m \<and> m_TS m = ts) (makeMinute R sine hs ts)"
proof -
  let ?sp = "is_spiking hs (hour_float ts)"
  have cpu: "pred_state (\<lambda>x. cpu_bounds hs ?sp (synth_cpu hs x iowait)) (if ?sp then spread R 88 8 else ret cpu)"
    if "fl 1 \<le> cpu \<and> cpu \<le> cpu_limit hs" for cpu iowait
  proof (cases ?sp)
    case True
    have "0 \<le> fl 8" by (simp add: f64_le_iff rnd64_nonneg)
    then show ?thesis using True spiking_cpu by (auto intro: pred_weaken [OF pred_spread [OF assms(1)]])
  qed (use that quiet_cpu in \<open>auto intro: pred_ret\<close>)
  have all: "pred_state (\<lambda>x. \<forall>iowait. cpu_bounds hs ?sp (synth_cpu hs x iowait)) (if ?sp then spread R 88 8 else ret cpu)"
    if "fl 1 \<le> cpu \<and> cpu \<le> cpu_limit hs" for cpu
    using cpu [OF that] by (simp add: state.pred_set)
  show ?thesis
    unfolding makeMinute_def Let_def
  proof (rule pred_bind [OF pred_cpu [OF assms]], rule pred_bind [OF all], assumption, rule pred_bind [OF pred_mem [OF assms(1)]],
      rule draws(1), rule draws(1), rule draws(1), rule draws(1), rule pred_bind [OF pred_pressure [OF assms(1)]], clarify, rule pred_ret, clarify)
    fix cpu memPct iowait disk net and mem :: mem_agg and psi :: "psi_agg option"
    assume cpu: "\<forall>iowait. cpu_bounds hs ?sp (synth_cpu hs cpu iowait)"
      and pct: "sh_baseMemPct hs \<le> memPct" "memPct \<le> sh_baseMemPct hs + fl 3"
      and p: "ma_UsedPctAvg mem = ma_UsedPctAvg (synth_mem hs memPct)"
      "\<not> sh_memPressure hs \<longrightarrow> mem = synth_mem hs memPct \<and>
        (\<forall>p. psi = Some p \<longrightarrow> psi_MemSomeAvg p \<le> fl 1 \<and> psi_MemFullAvg p = 0 \<and> psi_IOSomeAvg p \<le> fl 1)"
    let ?m = "meta.extend (NewMeta KindHostMinute ts) \<lparr>hm_Samples = 4, hm_CPU = synth_cpu hs cpu iowait, hm_Mem = mem, hm_Disks = [disk],
        hm_FS = (if minute_of_hour ts = 0 then [\<lparr>fu_Mount = ''/'', fu_TotalBytes = 200 * 2 ^ 30, fu_AvailBytes = 120 * 2 ^ 30\<rparr>] else []),
        hm_Net = [net], hm_PSI = psi\<rparr>"
    have "minute_pressure ?m = []" if "\<not> sh_memPressure hs"
      using p(2) that by (intro no_pressure_minute) (simp_all add: meta.defs synth_mem_def)
    then show "minute_bounds hs ?m \<and> m_TS ?m = ts"
      using cpu pct p(1) by (simp add: minute_bounds_def meta.defs NewMeta_def synth_mem_def round2_mono)
  qed
qed

lemma pred_minute_loop:
  assumes "rng_ok R" "\<forall>x. \<bar>sine x\<bar> \<le> 1" "0 \<le> sh_ampCPU hs"
  shows "pred_state (\<lambda>ms. list_all (minute_bounds hs) ms \<and> map m_TS ms = filter (\<lambda>t. \<not> in_gap hs t) tss) (minute_loop R sine hs tss)"
proof (induction tss)
  case Nil
  show ?case by (simp add: pred_ret)
next
  case (Cons t tss)
  show ?case unfolding minute_loop.simps
    by (rule pred_bind [OF pred_makeMinute [OF assms]], clarify, rule pred_bind [OF Cons.IH], rule pred_ret) auto
qed

section \<open>Percentiles\<close>

lemma small_rounding: "800 * f64_ulp + 4 * f64_eta \<le> 1 / 1000"
proof -
  have "f64_eta \<le> 2 powi (- 60)" unfolding f64_eta_def by (intro power_int_increasing) simp_all
  then show ?thesis by (simp add: f64_ulp_def power_int_def power_divide)
qed

lemma sample_quantile:
  assumes "xs \<noteq> []" "int (length xs) \<le> 2 ^ 53" "\<forall>x \<in> set xs. fl a \<le> x \<and> x \<le> fl b" "0 \<le> a" "rnd64 a = a" "rnd64 b = b"
    "b \<le> 200" "0 \<le> fval q" "fval q \<le> 1"
  shows "a - 1 / 1000 \<le> fval (Quantile (sort xs) q) \<and> fval (Quantile (sort xs) q) \<le> b + 1 / 1000"
proof -
  let ?s = "sort xs"
  have ne: "?s \<noteq> []" using assms(1) by (simp add: sort_Nil_iff)
  then have e: "hd ?s \<in> set xs" "last ?s \<in> set xs" using hd_in_set [of ?s] last_in_set [of ?s] by simp_all
  have b: "a \<le> fval (hd ?s)" "fval (hd ?s) \<le> b" "a \<le> fval (last ?s)" "fval (last ?s) \<le> b"
    using e assms(3,5,6) by (auto simp: f64_le_iff)
  have "0 \<le> hd ?s" using b(1) assms(4) by (simp add: f64_le_iff)
  note Q = Quantile_between [OF ne _ assms(8,9) sorted_sort this]
  have u: "0 \<le> f64_ulp" "0 \<le> f64_eta" using f64_ulp_bounds f64_eta_pos by linarith+
  have "fval (last ?s) * (4 * f64_ulp) \<le> 200 * (4 * f64_ulp)" "fval (hd ?s) * (4 * f64_ulp) \<le> 200 * (4 * f64_ulp)"
    using b assms(4,7) u by (intro mult_right_mono; simp)+
  then show ?thesis using Q assms(2) b small_rounding by (simp add: algebra_simps)
qed

lemma sample_summary:
  assumes "xs \<noteq> []" "int (length xs) \<le> 2 ^ 53" "\<forall>x \<in> set xs. fl a \<le> x \<and> x \<le> fl b" "0 \<le> a" "rnd64 a = a" "rnd64 b = b" "b \<le> 200"
  shows "round2 (fl (a - 1 / 1000)) \<le> su_P95 (Summarize xs) \<and> su_P95 (Summarize xs) \<le> round2 (fl (b + 1 / 1000)) \<and>
    su_P99 (Summarize xs) \<le> round2 (fl (b + 1 / 1000)) \<and> su_Max (Summarize xs) \<le> round2 (fl b)"
proof -
  have q: "0 \<le> fval (fl (95 / 100))" "fval (fl (95 / 100)) \<le> 1" "0 \<le> fval (fl (99 / 100))" "fval (fl (99 / 100)) \<le> 1"
    using fval_fl_unit [of "95 / 100"] fval_fl_unit [of "99 / 100"] by simp_all
  note Q = sample_quantile [OF assms q(1,2)] and R = sample_quantile [OF assms q(3,4)]
  have "last (sort xs) \<in> set xs" using assms(1) last_in_set [of "sort xs"] by (simp add: sort_Nil_iff)
  then have "last (sort xs) \<le> fl b" using assms(3) by blast
  then show ?thesis using Q R assms(1)
    by (auto simp: Summarize_def Let_def intro!: round2_mono fl_le_iff_fval fl_ge_iff_fval)
qed

section \<open>Days, coverage and the ladder\<close>

lemma go_trunc_mono: "0 \<le> a \<Longrightarrow> a \<le> b \<Longrightarrow> go_trunc a \<le> go_trunc b"
  by (simp add: go_trunc_def f64_le_iff floor_mono)

lemma observed_week:
  assumes "hours 167 \<le> t1 - t0"
  shows "7 \<le> observed_days t0 t1"
proof -
  define d where "d = time_sub t1 t0"
  have d: "hours 167 \<le> d" using assms by (simp add: d_def time_sub_def hours_def)
  then have h: "167 \<le> d sdiv hours 1" by (simp add: signed_divide_int_def hours_def sgn_if)
  have "0 \<le> d smod hours 1" using d by (simp add: signed_modulo_int_def signed_divide_int_def hours_def sgn_if)
  then have m: "0 \<le> of_go_int (d smod hours 1) / of_go_int (hours 1)"
    by (intro f64_nonneg_intros of_go_int_nonneg) (simp_all add: hours_def)
  have "of_go_int 167 + 0 \<le> of_go_int (d sdiv hours 1) + of_go_int (d smod hours 1) / of_go_int (hours 1)"
    by (intro f64_add_mono m of_go_int_mono h)
  then have "(of_go_int 167 + 0) / fl 24 \<le> dur_hours d / fl 24"
    unfolding dur_hours_def dur_in_def by (intro f64_divide_mono) (simp_all add: f64_le_iff rnd64_nonneg)
  then have "go_trunc ((of_go_int 167 + 0) / fl 24) \<le> go_trunc (dur_hours d / fl 24)"
    by (intro go_trunc_mono) (simp_all add: f64_le_iff fval_arith rnd64_nonneg of_go_int_def)
  moreover have "go_trunc ((of_go_int 167 + 0) / fl 24) = 6" by code_simp
  ultimately show ?thesis by (simp add: observed_days_def d_def)
qed

lemma dur_minutes_exact:
  assumes "0 \<le> k"
  shows "dur_minutes (minutes k) = of_go_int k"
proof -
  have "minutes k sdiv minutes 1 = k" "minutes k smod minutes 1 = 0"
    using assms by (simp_all add: minutes_def signed_divide_int_def signed_modulo_int_def sgn_if)
  then show ?thesis unfolding dur_minutes_def dur_in_def by (simp flip: fval_inject' add: fval_arith of_go_int_def)
qed

lemma half_coverage:
  assumes "0 \<le> k" "k \<le> 100000000" "t1 - t0 = minutes k" "k + 1 \<le> 2 * n" "n \<le> k + 1"
  shows "fl 50 \<le> coverage_pct n t0 t1"
proof -
  have sub: "time_sub t1 t0 = minutes k" using assms(1-3) by (subst time_sub_exact) (simp_all add: minutes_def)
  have ex: "fval (of_go_int m) = of_int m" if "0 \<le> m" "m \<le> 100000001" for m using that by (intro fval_of_go_int) simp
  have "fval (of_go_int k + 1) = rnd64 (of_int (k + 1))" using assms(1,2) by (simp add: fval_arith ex)
  then have e: "of_go_int k + 1 = of_go_int (k + 1)" unfolding of_go_int_def by (simp flip: fval_inject')
  have "(1 / 2 :: rat) \<le> of_int n / of_int (k + 1)" using assms(1,4) by (simp add: field_simps)
  then have "rnd64 (1 / 2) \<le> rnd64 (of_int n / of_int (k + 1))" by (rule rnd64_mono)
  then have "fl (1 / 2) \<le> of_go_int n / (of_go_int k + 1)" using assms by (simp add: f64_le_iff fval_arith e ex)
  then have "fl (1 / 2) * fl 100 \<le> of_go_int n / (of_go_int k + 1) * fl 100"
    by (intro f64_mult_mono) (simp_all add: f64_le_iff rnd64_nonneg)
  moreover have "fl 50 \<le> fl 100" "fl (1 / 2) * fl 100 = fl 50" "round1 (fl 50) = fl 50" by code_simp+
  ultimately have "round1 (fl 50) \<le> round1 (min (fl 100) (of_go_int n / (of_go_int k + 1) * fl 100))"
    by (intro round1_mono) simp
  then show ?thesis using \<open>round1 (fl 50) = fl 50\<close> by (simp add: coverage_pct_def sub dur_minutes_exact [OF assms(1)])
qed

lemma ladder_verdicts:
  assumes "7 \<le> hr_ObservedDays r" "fl 50 \<le> hr_CoveragePct r" "hr_CPUSteal r \<le> fl 5"
  shows "localHARole h = ''SECONDARY'' \<Longrightarrow> hr_Category (classifyHost r h) = CatHADRConstraint"
    and "localHARole h \<noteq> ''SECONDARY'' \<Longrightarrow> fl 80 \<le> su_P95 (hr_Mem r) \<Longrightarrow>
      hr_Category (classifyHost r h) = (if fl 90 \<le> su_P95 (hr_Mem r) then CatInsufficientHeadroom else CatNoChange)"
    and "localHARole h \<noteq> ''SECONDARY'' \<Longrightarrow> su_P95 (hr_Mem r) < fl 60 \<Longrightarrow> hr_MemPressure r = [] \<Longrightarrow> \<not> hr_PagingEvidence r \<Longrightarrow>
      su_P95 (hr_CPU r) < fl 40 \<Longrightarrow> su_Max (hr_CPUPeak r) < fl 85 \<Longrightarrow> su_P99 (hr_CPU r) < fl 60 \<Longrightarrow> hr_MinutesOver85 r \<le> 30 \<Longrightarrow>
      hr_Category (classifyHost r h) = CatLikelyRightsizing"
    and "localHARole h \<noteq> ''SECONDARY'' \<Longrightarrow> su_P95 (hr_Mem r) < fl 80 \<Longrightarrow> hr_MemPressure r = [] \<Longrightarrow> dominatedByRecurringSpikes r \<Longrightarrow>
      hr_Category (classifyHost r h) = CatOptimizeWorkload"
proof -
  have c: "fl 60 \<le> fl 80" "fl 40 \<le> fl 75" by code_simp+
  have d: "\<not> hr_ObservedDays r < 3" "\<not> hr_ObservedDays r < 7" "\<not> hr_CoveragePct r < fl 50" and st: "\<not> fl 5 < hr_CPUSteal r"
    using assms by (simp_all add: not_less)
  show "localHARole h = ''SECONDARY'' \<Longrightarrow> hr_Category (classifyHost r h) = CatHADRConstraint"
    using d st by (simp add: classifyHost_eq(2) classify_ladder_def Let_def)
  show "localHARole h \<noteq> ''SECONDARY'' \<Longrightarrow> fl 80 \<le> su_P95 (hr_Mem r) \<Longrightarrow>
      hr_Category (classifyHost r h) = (if fl 90 \<le> su_P95 (hr_Mem r) then CatInsufficientHeadroom else CatNoChange)"
    using d st by (simp add: classifyHost_eq(2) classify_ladder_def Let_def)
  show "localHARole h \<noteq> ''SECONDARY'' \<Longrightarrow> su_P95 (hr_Mem r) < fl 80 \<Longrightarrow> hr_MemPressure r = [] \<Longrightarrow> dominatedByRecurringSpikes r \<Longrightarrow>
      hr_Category (classifyHost r h) = CatOptimizeWorkload"
    using d st by (simp add: classifyHost_eq(2) classify_ladder_def Let_def not_le)
  assume m: "localHARole h \<noteq> ''SECONDARY''" "su_P95 (hr_Mem r) < fl 60" "hr_MemPressure r = []" "\<not> hr_PagingEvidence r"
    "su_P95 (hr_CPU r) < fl 40" "su_Max (hr_CPUPeak r) < fl 85" "su_P99 (hr_CPU r) < fl 60" "hr_MinutesOver85 r \<le> 30"
  have "\<not> fl 80 \<le> su_P95 (hr_Mem r)" "\<not> fl 75 \<le> su_P95 (hr_CPU r)"
    using m(2,5) c by (simp_all add: not_le not_less)
  moreover have "\<not> dominatedByRecurringSpikes r" using m(6,7) by (simp add: dominatedByRecurringSpikes_def not_le)
  ultimately show "hr_Category (classifyHost r h) = CatLikelyRightsizing"
    using m d st unfolding classifyHost_eq(2) classify_ladder_def Let_def by simp
qed

section \<open>The report of a host\<close>

text \<open>The minutes of a host of the fleet over \<open>D\<close> days from day \<open>q\<close> on.\<close>

definition fleet_minutes :: "host_spec \<Rightarrow> int \<Rightarrow> nat \<Rightarrow> host_minute list \<Rightarrow> bool" where
  "fleet_minutes hs q D ms \<longleftrightarrow> list_all (minute_bounds hs) ms \<and>
     map m_TS ms = filter (\<lambda>t. \<not> in_gap hs t) (day_minutes q (1440 * D)) \<and> 7 \<le> D \<and> D \<le> 36500"

lemma fleet_minutes_size:
  assumes "fleet_minutes hs q D ms"
  shows "ms \<noteq> [] \<and> int (length ms) \<le> 2 ^ 53"
  using kept_minutes [of ms hs q "1440 * D" D] assms by (auto simp: fleet_minutes_def)

lemma measured_days:
  assumes "fleet_minutes hs q D (hd_Minutes h)"
  shows "7 \<le> hr_ObservedDays (measured_report ord h) \<and> fl 50 \<le> hr_CoveragePct (measured_report ord h)"
proof -
  have K: "hd_Minutes h \<noteq> [] \<and> m_TS (hd (hd_Minutes h)) = q * hours 24 \<and>
      m_TS (last (hd_Minutes h)) = q * hours 24 + minutes (int (1440 * D) - 1) \<and>
      length (hd_Minutes h) \<le> 1440 * D \<and> 1440 * D \<le> 2 * length (hd_Minutes h)"
    using kept_minutes [of "hd_Minutes h" hs q "1440 * D" D] assms by (simp add: fleet_minutes_def)
  have D: "7 \<le> D" "D \<le> 36500" using assms by (simp_all add: fleet_minutes_def)
  have "7 \<le> observed_days (m_TS (hd (hd_Minutes h))) (m_TS (last (hd_Minutes h)))"
    using K D by (intro observed_week) (simp add: hours_def minutes_def)
  moreover have "fl 50 \<le> coverage_pct (int (length (hd_Minutes h))) (m_TS (hd (hd_Minutes h))) (m_TS (last (hd_Minutes h)))"
    using K D by (intro half_coverage [of "int (1440 * D) - 1"]) simp_all
  ultimately show ?thesis by (simp add: measured_report_def Let_def)
qed

lemma measured_series:
  "hr_CPU (measured_report ord h) = Summarize (map (\<lambda>m. ca_AvgPct (hm_CPU m)) (hd_Minutes h))"
  "hr_CPUPeak (measured_report ord h) = Summarize (map (\<lambda>m. ca_MaxPct (hm_CPU m)) (hd_Minutes h))"
  "hr_CPUSteal (measured_report ord h) = su_P95 (Summarize (map (\<lambda>m. ca_StealPct (hm_CPU m)) (hd_Minutes h)))"
  "hr_Mem (measured_report ord h) = Summarize (map (\<lambda>m. ma_UsedPctAvg (hm_Mem m)) (hd_Minutes h))"
  "hr_MinutesOver85 (measured_report ord h) =
     snd (Sustained (map (\<lambda>m. \<lparr>tv_TS = m_TS m, tv_V = ca_AvgPct (hm_CPU m)\<rparr>) (hd_Minutes h)) cpuSustainedLimit (minutes 3))"
  by (simp_all add: measured_report_def Let_def)

lemma measured_steal:
  assumes "fleet_minutes hs q D (hd_Minutes h)"
  shows "hr_CPUSteal (measured_report ord h) \<le> fl 5"
proof -
  let ?xs = "map (\<lambda>m. ca_StealPct (hm_CPU m)) (hd_Minutes h)"
  have "\<forall>x \<in> set ?xs. fl 0 \<le> x \<and> x \<le> fl 0"
    using assms by (auto simp: fleet_minutes_def list_all_iff minute_bounds_def cpu_bounds_def)
  then have "su_P95 (Summarize ?xs) \<le> round2 (fl (0 + 1 / 1000))"
    using fleet_minutes_size [OF assms] sample_summary [of ?xs 0 0] by simp
  moreover have "round2 (fl (0 + 1 / 1000)) \<le> fl 5" by code_simp
  ultimately show ?thesis by (simp add: measured_series)
qed

lemma measured_mem:
  assumes "fleet_minutes hs q D (hd_Minutes h)" "round2 (sh_baseMemPct hs) = fl a" "round2 (sh_baseMemPct hs + fl 3) = fl b"
    "0 \<le> a" "b \<le> 200" "rnd64 a = a" "rnd64 b = b"
  shows "round2 (fl (a - 1 / 1000)) \<le> su_P95 (hr_Mem (measured_report ord h)) \<and>
    su_P95 (hr_Mem (measured_report ord h)) \<le> round2 (fl (b + 1 / 1000))"
proof -
  let ?xs = "map (\<lambda>m. ma_UsedPctAvg (hm_Mem m)) (hd_Minutes h)"
  have "\<forall>x \<in> set ?xs. fl a \<le> x \<and> x \<le> fl b"
    using assms(1-3) by (auto simp: fleet_minutes_def list_all_iff minute_bounds_def)
  then show ?thesis using fleet_minutes_size [OF assms(1)] sample_summary [of ?xs a b] assms(4-7) by (simp add: measured_series)
qed

text \<open>The hosts whose memory decides.\<close>

lemma memory_verdicts:
  assumes "fleet_minutes hs q D (hd_Minutes h)" "localHARole h \<noteq> ''SECONDARY''" "hs \<in> {sql_win_01, sqlag_win_02, mem_linux_03}"
  shows "hr_Category (analyzeHost ord h) =
    (if fl 90 \<le> su_P95 (hr_Mem (measured_report ord h)) then CatInsufficientHeadroom else CatNoChange) \<and>
    (hs = sqlag_win_02 \<longrightarrow> \<not> fl 90 \<le> su_P95 (hr_Mem (measured_report ord h))) \<and>
    (hs = mem_linux_03 \<longrightarrow> fl 90 \<le> su_P95 (hr_Mem (measured_report ord h)))"
proof -
  let ?m = "su_P95 (hr_Mem (measured_report ord h))"
  have i: "rnd64 (numeral k) = numeral k" if "numeral k \<le> (2 ^ 53 :: int)" for k
    using rnd64_of_int [of "numeral k"] that by simp
  have b: "fl 80 \<le> ?m \<and> (hs = sqlag_win_02 \<longrightarrow> \<not> fl 90 \<le> ?m) \<and> (hs = mem_linux_03 \<longrightarrow> fl 90 \<le> ?m)"
  proof -
    consider "hs = sql_win_01" | "hs = sqlag_win_02" | "hs = mem_linux_03" using assms(3) by blast
    then show ?thesis
    proof cases
      case 1
      have c: "round2 (sh_baseMemPct sql_win_01) = fl 88" "round2 (sh_baseMemPct sql_win_01 + fl 3) = fl 91"
        "fl 80 \<le> round2 (fl (88 - 1 / 1000))" "sql_win_01 \<noteq> sqlag_win_02" "sql_win_01 \<noteq> mem_linux_03" by code_simp+
      then show ?thesis using measured_mem [OF assms(1), of 88 91 ord] i 1 by auto
    next
      case 2
      have c: "round2 (sh_baseMemPct sqlag_win_02) = fl 80" "round2 (sh_baseMemPct sqlag_win_02 + fl 3) = fl 83"
        "fl 80 \<le> round2 (fl (80 - 1 / 1000))" "\<not> fl 90 \<le> round2 (fl (83 + 1 / 1000))" "sqlag_win_02 \<noteq> mem_linux_03" by code_simp+
      then show ?thesis using measured_mem [OF assms(1), of 80 83 ord] i 2 by auto
    next
      case 3
      have c: "round2 (sh_baseMemPct mem_linux_03) = fl 93" "round2 (sh_baseMemPct mem_linux_03 + fl 3) = fl 96"
        "fl 90 \<le> round2 (fl (93 - 1 / 1000))" "fl 80 \<le> fl 90" "mem_linux_03 \<noteq> sqlag_win_02" by code_simp+
      then show ?thesis using measured_mem [OF assms(1), of 93 96 ord] i 3 by auto
    qed
  qed
  have "hr_Category (analyzeHost ord h) = hr_Category (classifyHost (measured_report ord h) h)"
    using fleet_minutes_size [OF assms(1)] by (simp add: analyzeHost_def)
  then show ?thesis using ladder_verdicts(2) [of "measured_report ord h" h] measured_days [OF assms(1)] measured_steal [OF assms(1)] assms(2) b by simp
qed

lemma category_classify: "fleet_minutes hs q D (hd_Minutes h) \<Longrightarrow> hr_Category (analyzeHost ord h) = hr_Category (classifyHost (measured_report ord h) h)"
  using fleet_minutes_size by (auto simp: analyzeHost_def)

lemma no_minutes_over:
  assumes "\<forall>m \<in> set (hd_Minutes h). ca_AvgPct (hm_CPU m) < cpuSustainedLimit"
  shows "hr_MinutesOver85 (measured_report ord h) = 0"
proof -
  let ?vs = "map (\<lambda>m. \<lparr>tv_TS = m_TS m, tv_V = ca_AvgPct (hm_CPU m)\<rparr>) (hd_Minutes h)"
  obtain r n where s: "Sustained ?vs cpuSustainedLimit (minutes 3) = (r, n)" by force
  have "filter (\<lambda>tv. cpuSustainedLimit \<le> tv_V tv) ?vs = []" using assms by (auto simp: filter_empty_conv not_le)
  then have "n = 0" using Sustained_correct(1) [OF s] by simp
  then show ?thesis by (simp only: measured_series s snd_conv)
qed

text \<open>The host that is idle all day, and the idle secondary.\<close>

lemma idle_verdict:
  assumes "fleet_minutes web_linux_01 q D (hd_Minutes h)" "localHARole h \<noteq> ''SECONDARY''"
  shows "hr_Category (analyzeHost ord h) = CatLikelyRightsizing"
proof -
  let ?ms = "hd_Minutes h" and ?r = "measured_report ord h"
  let ?avg = "map (\<lambda>m. ca_AvgPct (hm_CPU m)) ?ms" and ?peak = "map (\<lambda>m. ca_MaxPct (hm_CPU m)) ?ms"
  have c: "round2 (cpu_limit web_linux_01) = fl 20" "round2 (cpu_limit web_linux_01 + fl 5) = fl 25" "\<not> sh_nightlySpike web_linux_01"
    "\<not> sh_memPressure web_linux_01" "round2 (sh_baseMemPct web_linux_01) = fl 32" "round2 (sh_baseMemPct web_linux_01 + fl 3) = fl 35" by code_simp+
  have n: "round2 (fl (20 + 1 / 1000)) < fl 40" "round2 (fl (20 + 1 / 1000)) < fl 60" "round2 (fl 25) < fl 85"
    "round2 (fl (35 + 1 / 1000)) < fl 60" "fl 20 < cpuSustainedLimit" by code_simp+
  have i: "rnd64 (numeral k) = numeral k" if "numeral k \<le> (2 ^ 53 :: int)" for k
    using rnd64_of_int [of "numeral k"] that by simp
  have b: "\<forall>m \<in> set ?ms. 0 \<le> ca_AvgPct (hm_CPU m) \<and> ca_AvgPct (hm_CPU m) \<le> fl 20 \<and> 0 \<le> ca_MaxPct (hm_CPU m) \<and>
      ca_MaxPct (hm_CPU m) \<le> fl 25 \<and> minute_pressure m = []"
    using assms(1) c by (auto simp: fleet_minutes_def list_all_iff minute_bounds_def cpu_bounds_def is_spiking_def)
  note size = fleet_minutes_size [OF assms(1)]
  have cpu: "su_P95 (hr_CPU ?r) < fl 40" "su_P99 (hr_CPU ?r) < fl 60" "su_Max (hr_CPUPeak ?r) < fl 85"
    using size b sample_summary [of ?avg 0 20] sample_summary [of ?peak 0 25] i n(1-3) unfolding measured_series
    by (auto intro: le_less_trans)
  have mem: "su_P95 (hr_Mem ?r) < fl 60"
    using measured_mem [OF assms(1) c(5,6)] i n(4) by (auto intro: le_less_trans)
  have "hr_MinutesOver85 ?r = 0" using b n(5) by (intro no_minutes_over) (auto intro: le_less_trans)
  moreover have "concat (map minute_pressure ?ms) = []" using b by simp
  then have "hr_MemPressure ?r = []" by (simp only: measured_simps remdups.simps sort_key_simps)
  moreover have "\<not> hr_PagingEvidence ?r" using b paging_pressure by (auto simp: list_ex_iff)
  ultimately show ?thesis
    using ladder_verdicts(3) [of ?r h] measured_days [OF assms(1)] measured_steal [OF assms(1)] assms(2) cpu mem
    by (simp add: category_classify [OF assms(1)])
qed

lemma secondary_verdict:
  assumes "fleet_minutes hs q D (hd_Minutes h)" "localHARole h = ''SECONDARY''"
  shows "hr_Category (analyzeHost ord h) = CatHADRConstraint"
  using ladder_verdicts(1) [of "measured_report ord h" h] measured_days [OF assms(1)] measured_steal [OF assms(1)] assms(2)
  by (simp add: category_classify [OF assms(1)])

end
