(* ===== verification/SynthBatch.thy ===== *)
theory SynthBatch
  imports SynthFacts AgentRuns
begin

text \<open>
  The host with the nightly job: its spikes recur at the same time of day, its median stays low and its peak high.
\<close>

section \<open>The median\<close>

lemma Quantile_low:
  assumes "xs \<noteq> []" "int (length xs) \<le> 2 ^ 53" "0 \<le> fval q" "fval q \<le> 1" "\<forall>x \<in> set xs. 0 \<le> x" "sorted xs"
    "go_ceil (quantile_pos (length xs) q) \<le> int k" "k < length xs" "fval (xs ! k) \<le> b"
  shows "fval (Quantile xs q) \<le> b * (1 + 4 * f64_ulp) + 4 * f64_eta"
proof -
  let ?n = "length xs"
  let ?lo = "nat (go_floor (quantile_pos ?n q))" and ?hi = "nat (go_ceil (quantile_pos ?n q))"
  have n: "0 < ?n" using assms(1) by simp
  note i = quantile_indices [OF n assms(2-4)] and f = quantile_frac_range [OF n assms(2-4)]
  have ix: "?lo \<le> k" "?hi \<le> k" using i assms(7) by linarith+
  have le: "fval (xs ! j) \<le> b" if "j \<le> k" for j
    using sorted_nth_mono [OF assms(6) that assms(8)] assms(9) by (simp add: f64_le_iff)
  have ge: "0 \<le> fval (xs ! j)" if "j \<le> k" for j
    using that assms(5,8) nth_mem [of j xs] by (simp add: f64_zero_le)
  have b: "0 \<le> b" using ge [of k] assms(9) by simp
  show ?thesis
  proof (cases "go_floor (quantile_pos ?n q) = go_ceil (quantile_pos ?n q)")
    case True
    have "b \<le> b * (1 + 4 * f64_ulp) + 4 * f64_eta"
      using b f64_ulp_bounds(1) f64_eta_pos by (simp add: algebra_simps add_nonneg_nonneg less_imp_le)
    then show ?thesis using le [OF ix(1)] True assms(1) by (auto simp: Quantile_cases Let_def intro: order_trans)
  next
    case False
    then show ?thesis using interp_range [OF ge [OF ix(1)] ge [OF ix(2)] le [OF ix(1)] le [OF ix(2)] order.refl f] assms(1)
      by (simp add: Quantile_cases Let_def)
  qed
qed

lemma median_position: "0 < n \<Longrightarrow> int n \<le> 2 ^ 53 \<Longrightarrow> go_ceil (quantile_pos n (fl (50 / 100))) \<le> int (n div 2)"
proof -
  assume n: "0 < n" "int n \<le> 2 ^ 53"
  have "fl (50 / 100) = fl (1 / 2)" "fval (fl (1 / 2)) = 1 / 2" by code_simp+
  then have h: "fval (fl (50 / 100)) = 1 / 2" by (simp only:)
  have e: "fval (of_go_int (int n - 1)) = of_int (int n - 1)" using n by (intro fval_of_go_int) simp
  have "fval (quantile_pos n (fl (50 / 100))) = rnd64 (of_int (int n - 1) / 2)"
    unfolding quantile_pos_def fval_arith h e by (simp only: times_divide_eq_left mult_1)
  also have "\<dots> \<le> rnd64 (of_int (int (n div 2)))"
  proof (rule rnd64_mono)
    have "int n - 1 \<le> 2 * int (n div 2)" by linarith
    then show "of_int (int n - 1) / 2 \<le> (of_int (int (n div 2)) :: rat)" by (simp add: field_simps of_int_le_iff [symmetric, where 'a = rat])
  qed
  also have "\<dots> = of_int (int (n div 2))" using n by (intro rnd64_of_int) simp
  finally show ?thesis by (simp add: go_ceil_def ceiling_le_iff)
qed

text \<open>A value that more than half of the sample does not exceed bounds the median.\<close>

lemma sorted_half:
  assumes "length xs < 2 * length (filter (\<lambda>x. x \<le> b) xs)"
  shows "sort xs ! (length xs div 2) \<le> (b :: f64)"
proof (rule ccontr)
  let ?s = "sort xs" and ?k = "length xs div 2"
  assume "\<not> ?s ! ?k \<le> b"
  then have "\<not> x \<le> b" if x: "x \<in> set (drop ?k ?s)" for x
  proof -
    obtain j where j: "x = ?s ! (?k + j)" "?k + j < length ?s" using x by (auto simp: in_set_conv_nth)
    then have "?s ! ?k \<le> x" using sorted_nth_mono [OF sorted_sort, of ?k "?k + j" xs] by simp
    then show ?thesis using \<open>\<not> ?s ! ?k \<le> b\<close> by auto
  qed
  then have "filter (\<lambda>x. x \<le> b) (drop ?k ?s) = []" by (simp add: filter_empty_conv)
  then have "filter (\<lambda>x. x \<le> b) ?s = filter (\<lambda>x. x \<le> b) (take ?k ?s)"
    using filter_append [of "\<lambda>x. x \<le> b" "take ?k ?s" "drop ?k ?s"] by simp
  then have "length (filter (\<lambda>x. x \<le> b) ?s) \<le> ?k" using length_filter_le [of "\<lambda>x. x \<le> b" "take ?k ?s"] by simp
  moreover have "length (filter (\<lambda>x. x \<le> b) ?s) = length (filter (\<lambda>x. x \<le> b) xs)"
    by (metis mset_filter mset_sort size_mset)
  ultimately show False using assms by linarith
qed

lemma median_upto:
  assumes "int (length xs) \<le> 2 ^ 53" "\<forall>x \<in> set xs. 0 \<le> x" "length xs < 2 * length (filter (\<lambda>x. x \<le> fl b) xs)" "rnd64 b = b" "b \<le> 200"
  shows "su_P50 (Summarize xs) \<le> round2 (fl (b + 1 / 1000))"
proof -
  have ne: "xs \<noteq> []" using assms(3) by auto
  then have "0 < length xs" by simp
  moreover have "0 \<le> fval (fl (50 / 100))" "fval (fl (50 / 100)) \<le> 1" by code_simp+
  moreover have "fval (sort xs ! (length xs div 2)) \<le> b" using sorted_half [OF assms(3)] assms(4) by (simp add: f64_le_iff)
  ultimately have Q: "fval (Quantile (sort xs) (fl (50 / 100))) \<le> b * (1 + 4 * f64_ulp) + 4 * f64_eta"
    using median_position [of "length xs"] ne assms(1,2) by (intro Quantile_low) (simp_all add: sort_Nil_iff)
  have u: "0 \<le> f64_ulp" "0 \<le> f64_eta" using f64_ulp_bounds f64_eta_pos by linarith+
  have "b * (4 * f64_ulp) \<le> 200 * (4 * f64_ulp)" using assms(5) u by (intro mult_right_mono) simp_all
  then have "fval (Quantile (sort xs) (fl (50 / 100))) \<le> b + 1 / 1000" using Q small_rounding by (simp add: algebra_simps)
  then show ?thesis using ne by (auto simp: Summarize_def Let_def intro!: round2_mono fl_ge_iff_fval fl_le_iff_fval)
qed

lemma summary_max_ge: "x \<in> set xs \<Longrightarrow> round2 x \<le> su_Max (Summarize xs)"
proof -
  assume x: "x \<in> set xs"
  have last: "sorted ys \<Longrightarrow> x \<in> set ys \<Longrightarrow> x \<le> last ys" for ys
    by (induction ys) auto
  have "x \<le> last (sort xs)" using x by (intro last) simp_all
  then show ?thesis using x by (auto simp: Summarize_def Let_def intro: round2_mono)
qed

section \<open>The nightly spikes\<close>

definition nightly :: "host_spec \<Rightarrow> int \<Rightarrow> nat \<Rightarrow> spike_event list \<Rightarrow> bool" where
  "nightly hs q D evs \<longleftrightarrow> list_all2 (\<lambda>i ev. (\<exists>j < 6. ev_StartTS ev = (q + int i) * hours 24 + int (117 + j) * minutes 1) \<and>
     group_key ev = (ResCPU, []) \<and> ev_EventID ev = sh_name hs @ ''-'' @ fmt_minute (ev_StartTS ev)) [0..<D] evs"

lemma nightly_nth:
  assumes "nightly hs q D evs" "i < D"
  shows "i < length evs \<and> day_number (ev_StartTS (evs ! i)) = q + int i \<and> 117 \<le> minuteOfDay (ev_StartTS (evs ! i)) \<and>
    minuteOfDay (ev_StartTS (evs ! i)) \<le> 122 \<and> group_key (evs ! i) = (ResCPU, []) \<and>
    ev_EventID (evs ! i) = sh_name hs @ ''-'' @ fmt_minute (ev_StartTS (evs ! i))"
proof -
  have n: "length evs = D" using assms(1) by (auto simp: nightly_def list_all2_lengthD [symmetric])
  from assms have ev: "\<exists>j < 6. ev_StartTS (evs ! i) = (q + int i) * hours 24 + int (117 + j) * minutes 1"
    "group_key (evs ! i) = (ResCPU, [])" "ev_EventID (evs ! i) = sh_name hs @ ''-'' @ fmt_minute (ev_StartTS (evs ! i))"
    unfolding nightly_def list_all2_conv_all_nth by auto
  then obtain j where j: "j < 6" "ev_StartTS (evs ! i) = (q + int i) * hours 24 + int (117 + j) * minutes 1" by blast
  have "0 \<le> int (117 + j) * minutes 1" "int (117 + j) * minutes 1 < hours 24" using j(1) by (simp_all add: hours_def minutes_def)
  then have "day_number (ev_StartTS (evs ! i)) = q + int i" unfolding j(2) day_number_def by (intro int_div_pos_eq [where r = "int (117 + j) * minutes 1"]) simp_all
  moreover have "minuteOfDay (ev_StartTS (evs ! i)) = int ((117 + j) div 60 mod 24) * 60 + int ((117 + j) mod 60)"
    unfolding minuteOfDay_def j(2) clock_of_tick by simp
  moreover have "j \<in> {0, 1, 2, 3, 4, 5}" using j(1) by auto
  then have "int ((117 + j) div 60 mod 24) * 60 + int ((117 + j) mod 60) = 117 + int j" by auto
  ultimately show ?thesis using ev(2,3) j(1) n assms(2) by simp
qed

lemma nightly_length: "nightly hs q D evs \<Longrightarrow> length evs = D"
  by (auto simp: nightly_def dest: list_all2_lengthD)

lemma nightly_sorted: "nightly hs q D evs \<Longrightarrow> sorted_wrt (<) (map ev_StartTS evs)"
proof -
  assume n: "nightly hs q D evs"
  have "ev_StartTS (evs ! i) < ev_StartTS (evs ! k)" if "i < k" "k < D" for i k
  proof -
    have "day_number (ev_StartTS (evs ! i)) < day_number (ev_StartTS (evs ! k))"
      using nightly_nth [OF n, of i] nightly_nth [OF n, of k] that by simp
    then show ?thesis using day_mono [of "ev_StartTS (evs ! k)" "ev_StartTS (evs ! i)"] by linarith
  qed
  then show ?thesis using nightly_length [OF n] by (simp add: sorted_wrt_iff_nth_less)
qed

lemma nightly_dates: "nightly hs q D evs \<Longrightarrow> 0 \<le> q \<Longrightarrow> distinct (map (fmt_date \<circ> ev_StartTS) evs)"
proof -
  assume n: "nightly hs q D evs" and q: "0 \<le> q"
  have pos: "0 \<le> ev_StartTS (evs ! i)" if "i < D" for i
  proof -
    have "0 \<le> day_number (ev_StartTS (evs ! i))" using nightly_nth [OF n that] q by simp
    then show ?thesis by (simp add: day_number_def hours_def pos_imp_zdiv_nonneg_iff)
  qed
  have "fmt_date (ev_StartTS (evs ! i)) \<noteq> fmt_date (ev_StartTS (evs ! k))" if "i < D" "k < D" "i \<noteq> k" for i k
    using fmt_date_inj [OF pos [OF that(1)] pos [OF that(2)]] nightly_nth [OF n that(1)] nightly_nth [OF n that(2)] that(3) by auto
  then show ?thesis using nightly_length [OF n] by (simp add: distinct_conv_nth)
qed


lemma one_group:
  assumes "evs \<noteq> []" "\<forall>e \<in> set evs. group_key e = k"
  shows "foldl group_step [] evs = [(k, evs)]"
  using assms
proof (induction evs rule: rev_induct)
  case (snoc e evs)
  then show ?case by (cases "evs = []") (simp_all add: group_step_def)
qed simp

lemma one_cluster: "evs \<noteq> [] \<Longrightarrow> \<forall>e \<in> set evs. near (hd evs) e \<Longrightarrow> clusters evs = [evs]"
  by (cases evs) (simp_all add: filter_id_conv filter_empty_conv)

lemma order_single: "order_ok ord \<Longrightarrow> ord [g] = [g]"
  unfolding order_ok_def by (metis mset_single_iff mset.simps)

lemma nightly_patterns:
  assumes "nightly hs q D evs" "0 \<le> q" "3 \<le> D" "order_ok ord"
  shows "DetectPatterns ord evs n \<noteq> []"
proof -
  have len: "length evs = D" and ne: "evs \<noteq> []" using nightly_length [OF assms(1)] assms(3) by auto
  have nth: "\<exists>i < D. e = evs ! i" if "e \<in> set evs" for e using that len by (metis in_set_conv_nth)
  have key: "\<forall>e \<in> set evs. group_key e = (ResCPU, [])" using nth nightly_nth [OF assms(1)] by blast
  have "hd evs = evs ! 0" using ne by (simp add: hd_conv_nth)
  then have "near (hd evs) e" if "e \<in> set evs" for e
    using nth [OF that] nightly_nth [OF assms(1)] assms(3) unfolding near_def minuteDist_def recurrenceTolMin_def Let_def
    by (smt (verit) less_le_trans zero_less_numeral)
  then have cl: "clusters evs = [evs]" using one_cluster [OF ne] by blast
  have "sorted (map ev_StartTS evs)" using nightly_sorted [OF assms(1)] by (simp add: strict_sorted_iff)
  then have st: "sort_key ev_StartTS evs = evs" by (rule sort_key_id_if_sorted)
  have "distinct_days evs = int D" using nightly_dates [OF assms(1,2)] len by (simp add: distinct_days_def distinct_remdups_id)
  then obtain p where "pattern_of (ResCPU, []) n evs = Some p" using assms(3) len by (simp add: pattern_of_def Let_def)
  then have "group_patterns n ((ResCPU, []), evs) = [p]" by (simp add: group_patterns_def cluster_loop_eq st cl map_filter_simps)
  then have "concat (map (group_patterns n) (ord (foldl group_step [] evs))) = [p]"
    by (simp add: one_group [OF ne key] order_single [OF assms(4)])
  then show ?thesis by (simp add: DetectPatterns_def)
qed

section \<open>The minutes of the nightly job\<close>

definition busy_minute :: "host_spec \<Rightarrow> nat \<Rightarrow> bool" where
  "busy_minute hs i \<longleftrightarrow> is_spiking hs (of_go_int (int (i div 60 mod 24)) + of_go_int (int (i mod 60)) / fl 60)"

lemma busy_tick: "is_spiking hs (hour_float (q * hours 24 + int i * minutes 1)) \<longleftrightarrow> busy_minute hs i"
  by (simp only: hour_float_def clock_of_tick busy_minute_def)

lemma busy_early: "busy_minute hs i \<Longrightarrow> i div 60 mod 24 < 3"
proof (rule ccontr)
  assume b: "busy_minute hs i" "\<not> i div 60 mod 24 < 3"
  let ?h = "int (i div 60 mod 24)" and ?m = "of_go_int (int (i mod 60)) / fl 60"
  have c: "fl (245 / 100) \<le> of_go_int 3 + 0" by code_simp
  have "0 \<le> ?m" by (intro f64_nonneg_intros of_go_int_nonneg) (simp_all add: fl_nonneg)
  moreover have "of_go_int 3 \<le> of_go_int ?h" using b(2) by (intro of_go_int_mono) simp
  ultimately have "of_go_int 3 + 0 \<le> of_go_int ?h + ?m" by (intro f64_add_mono)
  with c have "fl (245 / 100) \<le> of_go_int ?h + ?m" by (rule order.trans)
  then show False using b(1) by (auto simp: busy_minute_def is_spiking_def)
qed

lemma busy_shift:
  assumes "busy_minute hs i" "i < 1440 * D"
  shows "i + 180 < 1440 * D \<and> \<not> busy_minute hs (i + 180)"
proof -
  define a where "a = i div 60" define b where "b = a div 24"
  have i: "i = a * 60 + i mod 60" "a = b * 24 + a mod 24" by (simp_all add: a_def b_def)
  have g: "a mod 24 < 3" "i mod 60 < 60" using busy_early [OF assms(1)] by (simp_all add: a_def)
  have "b < D" using assms(2) i g by linarith
  then have "i + 180 < 1440 * D" using i g by linarith
  moreover have "(i + 180) div 60 = a + 3" by (simp add: a_def)
  moreover have "(a + 3) mod 24 = a mod 24 + 3" using g(1) by (simp add: mod_add_left_eq [of a 24 3, symmetric])
  ultimately show ?thesis using busy_early [of hs "i + 180"] by auto
qed

lemma few_busy:
  assumes "n = 1440 * D" "0 < D" "\<not> busy_minute hs 0"
  shows "n < 2 * length (filter (\<lambda>i. \<not> busy_minute hs i) [0..<n])"
proof -
  have "(\<lambda>i. i + 180) ` {i. i < n \<and> busy_minute hs i} \<subseteq> {i. i < n \<and> \<not> busy_minute hs i} - {0}"
    using busy_shift [of hs _ D] unfolding assms(1) by auto
  then have "card {i. i < n \<and> busy_minute hs i} \<le> card ({i. i < n \<and> \<not> busy_minute hs i} - {0})"
    by (intro card_inj_on_le [of "\<lambda>i. i + 180"]) (simp_all add: inj_on_def)
  moreover have "0 \<in> {i. i < n \<and> \<not> busy_minute hs i}" using assms by simp
  then have "card ({i. i < n \<and> \<not> busy_minute hs i} - {0}) < card {i. i < n \<and> \<not> busy_minute hs i}"
    by (intro card_Diff1_less) simp_all
  ultimately show ?thesis using sum_length_filter_compl [of "busy_minute hs" "[0..<n]"] by (simp add: length_filter_upt)
qed

text \<open>The minutes, one for every tick.\<close>

lemma fleet_minutes_nth:
  assumes "fleet_minutes hs q D ms" "sh_name hs \<noteq> ''web-linux-01''"
  shows "length ms = 1440 * D \<and> (\<forall>i < 1440 * D. cpu_bounds hs (busy_minute hs i) (hm_CPU (ms ! i)))"
proof -
  have "filter (\<lambda>t. \<not> in_gap hs t) (day_minutes q (1440 * D)) = day_minutes q (1440 * D)"
    using assms(2) by (intro filter_True) (simp add: in_gap_def)
  then have ts: "map m_TS ms = day_minutes q (1440 * D)" using assms(1) by (simp add: fleet_minutes_def)
  then have len: "length ms = 1440 * D" by (metis day_minutes_def length_map length_upt minus_nat.diff_0)
  have "cpu_bounds hs (busy_minute hs i) (hm_CPU (ms ! i))" if i: "i < 1440 * D" for i
  proof -
    have "m_TS (ms ! i) = map m_TS ms ! i" using i len by simp
    then have "m_TS (ms ! i) = q * hours 24 + int i * minutes 1" using i by (simp add: ts day_minutes_def)
    moreover have "minute_bounds hs (ms ! i)" using assms(1) i len by (simp add: fleet_minutes_def list_all_length)
    ultimately show ?thesis by (simp add: minute_bounds_def busy_tick)
  qed
  then show ?thesis using len by blast
qed

lemma busy_median:
  assumes "fleet_minutes hs q D ms" "sh_name hs \<noteq> ''web-linux-01''" "\<not> busy_minute hs 0" "round2 (cpu_limit hs) = fl b" "rnd64 b = b" "b \<le> 200"
  shows "su_P50 (Summarize (map (\<lambda>m. ca_AvgPct (hm_CPU m)) ms)) \<le> round2 (fl (b + 1 / 1000))"
proof -
  let ?xs = "map (\<lambda>m. ca_AvgPct (hm_CPU m)) ms" and ?n = "1440 * D"
  have N: "length ms = ?n" "\<And>i. i < ?n \<Longrightarrow> cpu_bounds hs (busy_minute hs i) (hm_CPU (ms ! i))" "0 < D"
    using fleet_minutes_nth [OF assms(1,2)] assms(1) by (auto simp: fleet_minutes_def)
  have low: "?xs ! i \<le> fl b" if "i < ?n" "\<not> busy_minute hs i" for i
    using N(2) [OF that(1)] that N(1) assms(4) by (simp add: cpu_bounds_def)
  have "length (filter (\<lambda>i. \<not> busy_minute hs i) [0..<?n]) \<le> length (filter (\<lambda>i. ?xs ! i \<le> fl b) [0..<?n])"
    unfolding length_filter_upt using low by (intro card_mono) auto
  moreover have "length (filter (\<lambda>i. ?xs ! i \<le> fl b) [0..<?n]) = length (filter (\<lambda>x. x \<le> fl b) ?xs)"
    using N(1) by (simp add: length_filter_conv_card length_filter_upt) (intro arg_cong [of _ _ card]; auto)
  ultimately have "length ?xs < 2 * length (filter (\<lambda>x. x \<le> fl b) ?xs)"
    using few_busy [OF refl N(3) assms(3)] N(1) by simp
  moreover have "\<forall>x \<in> set ?xs. 0 \<le> x"
    using assms(1) by (auto simp: fleet_minutes_def list_all_iff minute_bounds_def cpu_bounds_def)
  ultimately show ?thesis using fleet_minutes_size [OF assms(1)] assms(5,6) by (intro median_upto) simp_all
qed

lemma batch_verdict:
  assumes "fleet_minutes batch_linux_02 q D (hd_Minutes h)" "localHARole h \<noteq> ''SECONDARY''" "nightly batch_linux_02 q D (hd_Spikes h)"
    "0 \<le> q" "order_ok ord"
  shows "hr_Category (analyzeHost ord h) = CatOptimizeWorkload"
proof -
  let ?ms = "hd_Minutes h" and ?r = "measured_report ord h" and ?hs = batch_linux_02
  have c: "round2 (cpu_limit ?hs) = fl 21" "\<not> sh_memPressure ?hs" "round2 (sh_baseMemPct ?hs) = fl 38" "round2 (sh_baseMemPct ?hs + fl 3) = fl 41"
    "\<not> busy_minute ?hs 0" "busy_minute ?hs 120" "sh_name ?hs \<noteq> ''web-linux-01''" by code_simp+
  have n: "round2 (fl (21 + 1 / 1000)) < fl 35" "round2 (fl 88) = fl 88" "fl 85 \<le> fl 88" "round2 (fl (41 + 1 / 1000)) < fl 80" by code_simp+
  have i: "rnd64 (numeral k) = numeral k" if "numeral k \<le> (2 ^ 53 :: int)" for k
    using rnd64_of_int [of "numeral k"] that by simp
  have "3 \<le> D" "120 < 1440 * D" using assms(1) by (simp_all add: fleet_minutes_def)
  then have "hr_Patterns ?r \<noteq> []" using nightly_patterns [OF assms(3,4) _ assms(5)] by (simp add: measured_report_def Let_def)
  moreover have "su_P50 (hr_CPU ?r) < fl 35"
    using busy_median [OF assms(1) c(7,5,1)] i n(1) unfolding measured_series by (auto intro: le_less_trans)
  moreover have "fl 85 \<le> su_Max (hr_CPUPeak ?r)"
  proof -
    have N: "length ?ms = 1440 * D" "fl 88 \<le> ca_MaxPct (hm_CPU (?ms ! 120))"
      using fleet_minutes_nth [OF assms(1) c(7)] \<open>120 < 1440 * D\<close> c(6) by (auto simp: cpu_bounds_def)
    then have "ca_MaxPct (hm_CPU (?ms ! 120)) \<in> set (map (\<lambda>m. ca_MaxPct (hm_CPU m)) ?ms)"
      using \<open>120 < 1440 * D\<close> by (metis length_map nth_map nth_mem)
    from summary_max_ge [OF this] have "round2 (ca_MaxPct (hm_CPU (?ms ! 120))) \<le> su_Max (hr_CPUPeak ?r)" by (simp only: measured_series)
    moreover have "round2 (fl 88) \<le> round2 (ca_MaxPct (hm_CPU (?ms ! 120)))" by (rule round2_mono [OF N(2)])
    ultimately show ?thesis using n(2,3) by simp
  qed
  ultimately have dom: "dominatedByRecurringSpikes ?r" by (simp add: dominatedByRecurringSpikes_def)
  have mem: "su_P95 (hr_Mem ?r) < fl 80" using measured_mem [OF assms(1) c(3,4)] i n(4) by (auto intro: le_less_trans)
  have "minute_pressure m = []" if "m \<in> set ?ms" for m
    using assms(1) c(2) that by (auto simp: fleet_minutes_def list_all_iff minute_bounds_def)
  then have "concat (map minute_pressure ?ms) = []" by simp
  then have "hr_MemPressure ?r = []" by (simp only: measured_simps remdups.simps sort_key_simps)
  then show ?thesis
    using ladder_verdicts(4) [of ?r h] measured_days [OF assms(1)] measured_steal [OF assms(1)] assms(2) mem dom
    by (simp add: category_classify [OF assms(1)])
qed

end
