(* ===== verification/SynthFleet.thy ===== *)
theory SynthFleet
  imports SynthBatch Pipeline
begin

text \<open>
  The demonstration fleet through the whole program: the records of a host into the spool, the bundle, the data of
  the analyzer and the verdict on the host.
\<close>

section \<open>The records of a host\<close>

definition minutes_of :: "telemetry list \<Rightarrow> host_minute list" where
  "minutes_of ts = List.map_filter (\<lambda>t. case t of THostMinute m \<Rightarrow> Some m | _ \<Rightarrow> None) ts"

definition spikes_of :: "telemetry list \<Rightarrow> spike_event list" where
  "spikes_of ts = List.map_filter (\<lambda>t. case t of TSpike e \<Rightarrow> Some e | _ \<Rightarrow> None) ts"

definition instances_of :: "telemetry list \<Rightarrow> sql_inventory list" where
  "instances_of ts = List.map_filter (\<lambda>t. case t of TSQLInventory v \<Rightarrow> Some v | _ \<Rightarrow> None) ts"

lemmas parts_of = minutes_of_def spikes_of_def instances_of_def

lemma parts_append:
  "minutes_of (xs @ ys) = minutes_of xs @ minutes_of ys" "spikes_of (xs @ ys) = spikes_of xs @ spikes_of ys"
  "instances_of (xs @ ys) = instances_of xs @ instances_of ys"
  by (simp_all add: parts_of List.map_filter_def)

lemma parts_map:
  "minutes_of (map THostMinute ms) = ms" "spikes_of (map THostMinute ms) = []" "instances_of (map THostMinute ms) = []"
  "minutes_of (map TSQLSample ss) = []" "spikes_of (map TSQLSample ss) = []" "instances_of (map TSQLSample ss) = []"
  by (simp_all add: parts_of List.map_filter_def comp_def)

lemma parts_Cons:
  "minutes_of (t # ts) = (case t of THostMinute m \<Rightarrow> [m] | _ \<Rightarrow> []) @ minutes_of ts"
  "spikes_of (t # ts) = (case t of TSpike e \<Rightarrow> [e] | _ \<Rightarrow> []) @ spikes_of ts"
  "instances_of (t # ts) = (case t of TSQLInventory v \<Rightarrow> [v] | _ \<Rightarrow> []) @ instances_of ts"
  "minutes_of [] = []" "spikes_of [] = []" "instances_of [] = []"
  by (cases t; simp add: parts_of map_filter_simps)+

text \<open>The spikes: one a night, around two.\<close>

lemma pred_makeSpike:
  "pred_state (\<lambda>ev. ev_StartTS ev = t \<and> group_key ev = (ResCPU, []) \<and> ev_EventID ev = sh_name hs @ ''-'' @ fmt_minute t) (makeSpike R hs t dur)"
  unfolding makeSpike_def Let_def
  by (intro pred_bind [OF pred_any] pred_ret) (simp add: meta.defs group_key_def)

lemma pred_spike_loop:
  assumes "rng_ok R"
  shows "pred_state (\<lambda>ts. minutes_of ts = [] \<and> instances_of ts = [] \<and> nightly hs q n (spikes_of ts))
    (spike_loop R hs (map (\<lambda>i. q * hours 24 + int i * hours 24) [0..<n]))"
proof -
  let ?Q = "\<lambda>i ev. (\<exists>j < 6. ev_StartTS ev = (q + int i) * hours 24 + int (117 + j) * minutes 1) \<and>
     group_key ev = (ResCPU, []) \<and> ev_EventID ev = sh_name hs @ ''-'' @ fmt_minute (ev_StartTS ev)"
  have "pred_state (\<lambda>ts. minutes_of ts = [] \<and> instances_of ts = [] \<and> list_all2 ?Q is (spikes_of ts))
    (spike_loop R hs (map (\<lambda>i. q * hours 24 + int i * hours 24) is))" for "is"
  proof (induction "is")
    case Nil
    then show ?case by (simp add: pred_ret parts_Cons)
  next
    case (Cons i "is")
    show ?case unfolding list.map spike_loop.simps
    proof (rule pred_bind [OF pred_draw_int [OF assms]], simp, rule pred_bind [OF pred_makeSpike], rule pred_bind [OF Cons.IH], rule pred_ret)
      fix jitter ev ts
      let ?t = "q * hours 24 + int i * hours 24 + hours 2 + minutes (jitter - 3)"
      assume j: "0 \<le> jitter \<and> jitter < 6"
        and ev: "ev_StartTS ev = ?t \<and> group_key ev = (ResCPU, []) \<and> ev_EventID ev = sh_name hs @ ''-'' @ fmt_minute ?t"
        and ts: "minutes_of ts = [] \<and> instances_of ts = [] \<and> list_all2 ?Q is (spikes_of ts)"
      have "?t = (q + int i) * hours 24 + int (117 + nat jitter) * minutes 1" using j by (simp add: hours_def minutes_def algebra_simps)
      moreover have "nat jitter < 6" using j by linarith
      ultimately have "?Q i ev" using ev by (intro conjI exI [of _ "nat jitter"]) simp_all
      then show "minutes_of (TSpike ev # (case sh_sql hs of None \<Rightarrow> [] | Some s \<Rightarrow> [TSQLSpike (makeSQLSpike hs s ev)]) @ ts) = [] \<and>
          instances_of (TSpike ev # (case sh_sql hs of None \<Rightarrow> [] | Some s \<Rightarrow> [TSQLSpike (makeSQLSpike hs s ev)]) @ ts) = [] \<and>
          list_all2 ?Q (i # is) (spikes_of (TSpike ev # (case sh_sql hs of None \<Rightarrow> [] | Some s \<Rightarrow> [TSQLSpike (makeSQLSpike hs s ev)]) @ ts))"
        using ts by (cases "sh_sql hs") (simp_all add: parts_Cons)
    qed
  qed
  then show ?thesis by (simp add: nightly_def)
qed

text \<open>What the analyzer's verdict rests on.\<close>

definition fleet_records :: "host_spec \<Rightarrow> time \<Rightarrow> int \<Rightarrow> nat \<Rightarrow> telemetry list \<Rightarrow> bool" where
  "fleet_records hs now q D ts \<longleftrightarrow> fleet_minutes hs q D (minutes_of ts) \<and>
     (sh_nightlySpike hs \<longrightarrow> nightly hs q D (spikes_of ts)) \<and>
     instances_of ts = (case sh_sql hs of None \<Rightarrow> [] | Some s \<Rightarrow> [makeSQLInventory now hs s (q * hours 24)])"

lemma pred_host_records:
  assumes "rng_ok R" "\<forall>x. \<bar>sine x\<bar> \<le> 1" "0 \<le> sh_ampCPU hs" "7 \<le> D" "D \<le> 36500"
  shows "pred_state (fleet_records hs now q D) (host_records R sine now hs (q * hours 24) (q * hours 24 + int D * hours 24))"
proof -
  have "ticks (q * hours 24) (q * hours 24 + int D * hours 24) (hours 24) = map (\<lambda>i. q * hours 24 + int i * hours 24) [0..<D]"
    by (rule ticks_eq) (simp add: hours_def)
  then have sp: "pred_state (\<lambda>ts. minutes_of ts = [] \<and> instances_of ts = [] \<and> (sh_nightlySpike hs \<longrightarrow> nightly hs q D (spikes_of ts)))
    (if sh_nightlySpike hs then spike_loop R hs (ticks (q * hours 24) (q * hours 24 + int D * hours 24) (hours 24))
     else ret (if sh_memPressure hs then [TSpike (makeMemSpike hs (q * hours 24 + hours 50))] else []))"
    using pred_spike_loop [OF assms(1), of hs q D] by (auto intro: pred_weaken pred_ret simp: parts_Cons)
  let ?inv = "case sh_sql hs of None \<Rightarrow> [] | Some s \<Rightarrow> [makeSQLInventory now hs s (q * hours 24)]"
  have sq: "pred_state (\<lambda>ts. minutes_of ts = [] \<and> spikes_of ts = [] \<and> instances_of ts = ?inv)
    (case sh_sql hs of None \<Rightarrow> ret [] | Some s \<Rightarrow> do {
       samples \<leftarrow> traverse_list (makeSQLSample R hs s) (ticks (q * hours 24) (q * hours 24 + int D * hours 24) (minutes 5));
       ret (TSQLInventory (makeSQLInventory now hs s (q * hours 24)) # map TSQLSample samples)})"
    by (cases "sh_sql hs") (auto intro!: pred_ret pred_bind [OF pred_any] simp: parts_Cons parts_map)
  show ?thesis
    unfolding host_records_def ticks_days
    by (rule pred_bind [OF pred_minute_loop [OF assms(1-3)]], rule pred_bind [OF sp [unfolded ticks_days]], rule pred_bind [OF sq], rule pred_ret)
      (use assms(4,5) in \<open>simp add: fleet_records_def fleet_minutes_def parts_append parts_map parts_Cons\<close>)
qed

section \<open>The records in the spool\<close>

text \<open>A record that is encoded and decoded; the three kinds that the verdict rests on are read as they were.\<close>

definition record_decodes :: "agent_lib \<Rightarrow> decoders \<Rightarrow> telemetry \<Rightarrow> bool" where
  "record_decodes lib dc t \<longleftrightarrow> (case al_encode lib t of None \<Rightarrow> False
     | Some b \<Rightarrow> rec_ok (cd_valid (al_codec lib)) (al_meta_ts lib) b \<and> dc_kind dc b = Some (kind_of t) \<and>
         (case t of THostMinute m \<Rightarrow> dc_minute dc b = Some m | TSpike e \<Rightarrow> dc_spike dc b = Some e
          | TSQLInventory v \<Rightarrow> dc_sqlinv dc b = Some v | _ \<Rightarrow> True))"

definition record_line :: "agent_lib \<Rightarrow> telemetry \<Rightarrow> string" where
  "record_line lib t = the (al_encode lib t)"

lemma record_decodesD:
  assumes "record_decodes lib dc t"
  shows "al_encode lib t = Some (record_line lib t)" "rec_ok (cd_valid (al_codec lib)) (al_meta_ts lib) (record_line lib t)"
    "dc_kind dc (record_line lib t) = Some (kind_of t)"
    "t = THostMinute m \<Longrightarrow> dc_minute dc (record_line lib t) = Some m" "t = TSpike e \<Longrightarrow> dc_spike dc (record_line lib t) = Some e"
    "t = TSQLInventory v \<Longrightarrow> dc_sqlinv dc (record_line lib t) = Some v"
  using assms by (auto simp: record_decodes_def record_line_def split: option.splits)

text \<open>The system calls on the spool of a host succeed.\<close>

definition synth_calls_ok :: "synth_env \<Rightarrow> bool" where
  "synth_calls_ok env \<longleftrightarrow> (\<forall>k s. env_ok \<lparr>o_append = sy_append env k s, o_flush = sy_flush env, o_close = sy_close env\<rparr>)"

lemma telemetry_appended:
  assumes "synth_calls_ok env" "list_all (record_decodes lib dc) ts" "spool_inv (cd_valid (al_codec lib)) (al_meta_ts lib) s"
  shows "spool_inv (cd_valid (al_codec lib)) (al_meta_ts lib) (foldl (append_telemetry lib env) s ts) \<and>
    spool_log junk (cd_valid (al_codec lib)) (foldl (append_telemetry lib env) s ts) k =
      spool_log junk (cd_valid (al_codec lib)) s k @ map (record_line lib) (filter (\<lambda>t. kind_of t = k) ts)"
  using assms(2,3)
proof (induction ts arbitrary: s)
  case (Cons t ts)
  have t: "record_decodes lib dc t" using Cons.prems(1) by simp
  define e where "e = \<lparr>o_append = sy_append env (kind_of t) s, o_flush = sy_flush env, o_close = sy_close env\<rparr>"
  have "env_ok e" using assms(1) by (simp add: synth_calls_ok_def e_def)
  from Append_keeps [OF Cons.prems(2) this record_decodesD(2) [OF t], of junk "kind_of t"]
  have K: "spool_inv (cd_valid (al_codec lib)) (al_meta_ts lib) (append_telemetry lib env s t)"
    "\<And>k. spool_log junk (cd_valid (al_codec lib)) (append_telemetry lib env s t) k =
      spool_log junk (cd_valid (al_codec lib)) s k @ (if kind_of t = k then [record_line lib t] else [])"
    by (simp_all add: keeps_def append_telemetry_def record_decodesD(1) [OF t] e_def)
  show ?case using Cons.IH [OF _ K(1)] Cons.prems(1) K(2) by simp
qed simp

section \<open>The data of the analyzer\<close>

definition spike_in :: "decoders \<Rightarrow> string \<Rightarrow> spike_event option" where
  "spike_in dc r = (if dc_kind dc r = Some KindSpike then dc_spike dc r else None)"

definition instance_in :: "decoders \<Rightarrow> string \<Rightarrow> sql_inventory option" where
  "instance_in dc r = (if dc_kind dc r = Some KindSQLInventory then dc_sqlinv dc r else None)"

lemma decodeInto_parts:
  "hd_Spikes (decodeInto dc h r) = hd_Spikes h @ List.map_filter (spike_in dc) [r]"
  "hd_SQLInv (decodeInto dc h r) = foldl (\<lambda>m v. put_sql_inventory m (Some v)) (hd_SQLInv h) (List.map_filter (instance_in dc) [r])"
proof -
  show "hd_Spikes (decodeInto dc h r) = hd_Spikes h @ List.map_filter (spike_in dc) [r]"
    by (cases "dc_kind dc r") (auto simp: decodeInto_def spike_in_def appended_to_def kind_defs map_filter_simps split: option.split)
  show "hd_SQLInv (decodeInto dc h r) = foldl (\<lambda>m v. put_sql_inventory m (Some v)) (hd_SQLInv h) (List.map_filter (instance_in dc) [r])"
    by (cases "dc_kind dc r")
      (auto simp: decodeInto_def instance_in_def put_sql_inventory_def kind_defs map_filter_simps split: option.split)
qed

lemma decode_all_parts:
  "hd_Spikes (foldl (decodeInto dc) h rs) = hd_Spikes h @ List.map_filter (spike_in dc) rs"
  "hd_SQLInv (foldl (decodeInto dc) h rs) =
     foldl (\<lambda>m v. put_sql_inventory m (Some v)) (hd_SQLInv h) (List.map_filter (instance_in dc) rs)"
  by (induction rs arbitrary: h) (simp_all add: decodeInto_parts map_filter_simps split: option.split)

lemma bundle_host_parts:
  "hd_Spikes (bundle_host dc m rs) = List.map_filter (spike_in dc) rs"
  "hd_SQLInv (bundle_host dc m rs) = foldl (\<lambda>m v. put_sql_inventory m (Some v)) [] (List.map_filter (instance_in dc) rs)"
  by (simp_all add: bundle_host_def decode_all_parts new_host_def)

text \<open>What is read of the lines of one kind.\<close>

lemma read_lines:
  assumes "list_all (record_decodes lib dc) ts"
  shows "List.map_filter (minute_in dc) (map (record_line lib) (filter (\<lambda>t. kind_of t = KindHostMinute) ts)) = minutes_of ts"
    "List.map_filter (spike_in dc) (map (record_line lib) (filter (\<lambda>t. kind_of t = KindSpike) ts)) = spikes_of ts"
    "List.map_filter (instance_in dc) (map (record_line lib) (filter (\<lambda>t. kind_of t = KindSQLInventory) ts)) = instances_of ts"
proof -
  have "List.map_filter (minute_in dc) (map (record_line lib) (filter (\<lambda>t. kind_of t = KindHostMinute) ts)) = minutes_of ts \<and>
    List.map_filter (spike_in dc) (map (record_line lib) (filter (\<lambda>t. kind_of t = KindSpike) ts)) = spikes_of ts \<and>
    List.map_filter (instance_in dc) (map (record_line lib) (filter (\<lambda>t. kind_of t = KindSQLInventory) ts)) = instances_of ts"
    using assms
  proof (induction ts)
    case (Cons t ts)
    then have "record_decodes lib dc t" by simp
    note D = record_decodesD [OF this]
    show ?case using Cons D
      by (cases t) (auto simp: parts_Cons map_filter_simps minute_in_def spike_in_def instance_in_def kind_of.simps kind_defs)
  qed (simp add: parts_Cons map_filter_simps)
  then show "List.map_filter (minute_in dc) (map (record_line lib) (filter (\<lambda>t. kind_of t = KindHostMinute) ts)) = minutes_of ts"
    "List.map_filter (spike_in dc) (map (record_line lib) (filter (\<lambda>t. kind_of t = KindSpike) ts)) = spikes_of ts"
    "List.map_filter (instance_in dc) (map (record_line lib) (filter (\<lambda>t. kind_of t = KindSQLInventory) ts)) = instances_of ts"
    by blast+
qed

lemma spikes_normalized:
  assumes "mset (hd_Spikes h) = mset evs" "sorted_wrt (<) (map ev_StartTS evs)" "distinct (map ev_EventID evs)"
  shows "hd_Spikes (normalizeHost h) = evs"
proof -
  have "distinct (map ev_StartTS evs)" "sorted (map ev_StartTS evs)" using assms(2) by (simp_all add: strict_sorted_iff)
  then have "sort_key ev_StartTS (hd_Spikes h) = evs"
    using mset_eq_setD [OF assms(1)] assms(1) by (intro sort_key_inj_key_eq) (auto simp: distinct_map)
  moreover have "dedup_spikes [] evs = evs" using assms(3) by (intro dedup_spikes_id) (auto simp: distinct_filter)
  ultimately show ?thesis by (simp add: normalizeHost_def)
qed

lemma nightly_ids: "nightly hs q D evs \<Longrightarrow> 0 \<le> q \<Longrightarrow> distinct (map ev_EventID evs)"
proof -
  assume n: "nightly hs q D evs" "0 \<le> q"
  have pos: "0 \<le> ev_StartTS (evs ! i)" if "i < D" for i
  proof -
    have "0 \<le> day_number (ev_StartTS (evs ! i))" using nightly_nth [OF n(1) that] n(2) by simp
    then show ?thesis by (simp add: day_number_def hours_def pos_imp_zdiv_nonneg_iff)
  qed
  have "ev_EventID (evs ! i) \<noteq> ev_EventID (evs ! k)" if "i < D" "k < D" "i \<noteq> k" for i k
  proof
    assume "ev_EventID (evs ! i) = ev_EventID (evs ! k)"
    then have "fmt_minute (ev_StartTS (evs ! i)) = fmt_minute (ev_StartTS (evs ! k))"
      using nightly_nth [OF n(1) that(1)] nightly_nth [OF n(1) that(2)] by simp
    moreover have len: "length (fmt_0d 2 (hour_of_day t)) = 2" "length (fmt_0d 2 (minute_of_hour t)) = 2" for t
      by (intro fmt_0d_two; simp add: hour_of_day_def minute_of_hour_def)+
    ultimately have "fmt_date (ev_StartTS (evs ! i)) = fmt_date (ev_StartTS (evs ! k))"
      by (simp add: fmt_minute_def append_eq_append_conv [of _ _ "fmt_0d 2 a @ fmt_0d 2 b" "fmt_0d 2 c @ fmt_0d 2 d" for a b c d])
    then show False
      using fmt_date_inj [OF pos [OF that(1)] pos [OF that(2)]] nightly_nth [OF n(1) that(1)] nightly_nth [OF n(1) that(2)] that(3) by simp
  qed
  then show ?thesis using nightly_length [OF n(1)] by (simp add: distinct_conv_nth)
qed

section \<open>The verdicts\<close>

text \<open>The categories that the head of the package documents for its hosts; for \<open>sql-win-01\<close>, where it names none, those that memory leaves.\<close>

definition demo_verdicts :: "(string \<times> string list) list" where
  "demo_verdicts = [(''web-linux-01'', [CatLikelyRightsizing]), (''batch-linux-02'', [CatOptimizeWorkload]),
     (''sql-win-01'', [CatInsufficientHeadroom, CatNoChange]), (''sqlag-win-02'', [CatNoChange]),
     (''sqlag-win-03'', [CatHADRConstraint]), (''mem-linux-03'', [CatInsufficientHeadroom])]"

lemma fleet_facts:
  assumes "hs \<in> set fleet"
  shows "0 \<le> sh_ampCPU hs" "slug (sh_id hs)" "sh_sql hs = Some s \<Longrightarrow> sqs_agRole s \<in> {[], ''PRIMARY'', ''SECONDARY''}"
  using assms by (auto simp: fleet_def web_linux_01_def batch_linux_02_def sql_win_01_def sqlag_win_02_def sqlag_win_03_def
      mem_linux_03_def mk_host_def slug_def of_go_int_nonneg)

definition demo_role :: "host_spec \<Rightarrow> string" where
  "demo_role hs = (case sh_sql hs of None \<Rightarrow> [] | Some s \<Rightarrow> sqs_agRole s)"

lemma local_role:
  assumes "hs \<in> set fleet"
    "hd_SQLInv h = foldl (\<lambda>m v. put_sql_inventory m (Some v)) [] (case sh_sql hs of None \<Rightarrow> [] | Some s \<Rightarrow> [makeSQLInventory now hs s start])"
  shows "localHARole h = demo_role hs"
  using assms(2) fleet_facts(3) [OF assms(1)]
  by (cases "sh_sql hs") (auto simp: localHARole_def demo_role_def put_sql_inventory_def makeSQLInventory_def meta.defs)

lemma fleet_verdicts:
  assumes "hs \<in> set fleet" "fleet_minutes hs q D (hd_Minutes h)" "sh_nightlySpike hs \<longrightarrow> nightly hs q D (hd_Spikes h)"
    "localHARole h = demo_role hs" "0 \<le> q" "order_ok ord"
  shows "hr_Category (analyzeHost ord h) \<in> set (the (map_of demo_verdicts (sh_name hs)))"
proof -
  consider "hs = web_linux_01" | "hs = batch_linux_02" | "hs = sqlag_win_03" | "hs = sql_win_01" | "hs = sqlag_win_02" | "hs = mem_linux_03"
    using assms(1) by (auto simp: fleet_def)
  then show ?thesis
  proof cases
    case 1
    have "demo_role web_linux_01 \<noteq> ''SECONDARY''" "the (map_of demo_verdicts (sh_name web_linux_01)) = [CatLikelyRightsizing]" by code_simp+
    then show ?thesis using idle_verdict [of q D h ord] assms(2,4) by (simp add: 1)
  next
    case 2
    have "demo_role batch_linux_02 \<noteq> ''SECONDARY''" "sh_nightlySpike batch_linux_02"
      "the (map_of demo_verdicts (sh_name batch_linux_02)) = [CatOptimizeWorkload]" by code_simp+
    then show ?thesis using batch_verdict [of q D h ord] assms by (simp add: 2)
  next
    case 3
    have "demo_role sqlag_win_03 = ''SECONDARY''" "the (map_of demo_verdicts (sh_name sqlag_win_03)) = [CatHADRConstraint]" by code_simp+
    then show ?thesis using secondary_verdict [OF assms(2), of ord] assms(4) by (simp add: 3)
  next
    case 4
    have "demo_role sql_win_01 \<noteq> ''SECONDARY''"
      "the (map_of demo_verdicts (sh_name sql_win_01)) = [CatInsufficientHeadroom, CatNoChange]" by code_simp+
    then show ?thesis using memory_verdicts [OF assms(2), of ord] assms(4) by (simp add: 4)
  next
    case 5
    have "demo_role sqlag_win_02 \<noteq> ''SECONDARY''" "the (map_of demo_verdicts (sh_name sqlag_win_02)) = [CatNoChange]" by code_simp+
    then show ?thesis using memory_verdicts [OF assms(2), of ord] assms(4) by (simp add: 5)
  next
    case 6
    have "demo_role mem_linux_03 \<noteq> ''SECONDARY''" "the (map_of demo_verdicts (sh_name mem_linux_03)) = [CatInsufficientHeadroom]" by code_simp+
    then show ?thesis using memory_verdicts [OF assms(2), of ord] assms(4) by (simp add: 6)
  qed
qed

section \<open>The bundle of a host\<close>

definition demo_spool :: "agent_lib \<Rightarrow> synth_env \<Rightarrow> telemetry list \<Rightarrow> store" where
  "demo_spool lib env recs = fst (Rotate (sy_flush env) (sy_close env) (sy_now env) (foldl (append_telemetry lib env) empty_store recs))"

definition demo_manifest :: "agent_lib \<Rightarrow> synth_env \<Rightarrow> export_input \<Rightarrow> telemetry list \<Rightarrow> manifest" where
  "demo_manifest lib env inp recs = build_manifest (al_codec lib) inp (sy_bundle env) (sy_now env) (s_disk (demo_spool lib env recs))
     (ListClosed (s_disk (demo_spool lib env recs)))"

lemma demo_spool_holds:
  assumes "synth_calls_ok env" "list_all (record_decodes lib dc) recs"
  shows "Rotate (sy_flush env) (sy_close env) (sy_now env) (foldl (append_telemetry lib env) empty_store recs) = (demo_spool lib env recs, None)"
    "spool_inv (cd_valid (al_codec lib)) (al_meta_ts lib) (demo_spool lib env recs)"
    "closed_log junk (cd_valid (al_codec lib)) (s_disk (demo_spool lib env recs)) k =
      map (record_line lib) (filter (\<lambda>t. kind_of t = k) recs)"
proof -
  obtain s1 e where r: "Rotate (sy_flush env) (sy_close env) (sy_now env) (foldl (append_telemetry lib env) empty_store recs) = (s1, e)" by force
  note T = telemetry_appended [OF assms empty_spool(1), of junk]
  have "\<forall>k. \<exists>n. sy_flush env k = FlushOK n" "\<forall>k. sy_close env k = CloseOK" using assms(1) by (simp_all add: synth_calls_ok_def env_ok_def)
  from Rotate_all [OF conjunct1 [OF T] this r, of junk]
  have "e = None" "spool_inv (cd_valid (al_codec lib)) (al_meta_ts lib) s1"
    "closed_log junk (cd_valid (al_codec lib)) (s_disk s1) k = map (record_line lib) (filter (\<lambda>t. kind_of t = k) recs)"
    using T by (simp_all add: empty_spool(2))
  then show "Rotate (sy_flush env) (sy_close env) (sy_now env) (foldl (append_telemetry lib env) empty_store recs) = (demo_spool lib env recs, None)"
    "spool_inv (cd_valid (al_codec lib)) (al_meta_ts lib) (demo_spool lib env recs)"
    "closed_log junk (cd_valid (al_codec lib)) (s_disk (demo_spool lib env recs)) k =
      map (record_line lib) (filter (\<lambda>t. kind_of t = k) recs)"
    by (simp_all add: demo_spool_def r)
qed

lemma demo_spool_written:
  assumes "synth_calls_ok env" "list_all (record_decodes lib dc) recs"
  shows "list_all (\<lambda>r. written lib k r \<and> dc_kind dc r = Some k) (closed_log junk (cd_valid (al_codec lib)) (s_disk (demo_spool lib env recs)) k)"
proof -
  have "written lib (kind_of t) (record_line lib t) \<and> dc_kind dc (record_line lib t) = Some (kind_of t)" if "t \<in> set recs" for t
    using record_decodesD(1,3) [of lib dc t] that assms(2) by (auto simp: list_all_iff written_def)
  then show ?thesis unfolding demo_spool_holds(3) [OF assms] by (auto simp: list_all_iff)
qed

text \<open>The data of the host that the analyzer reads from the bundle.\<close>

lemma demo_host_data:
  assumes "synth_calls_ok env" "list_all (record_decodes lib dc) recs"
    "rs = concat (map (segment_records (cd_junk (al_codec lib)) (cd_valid (al_codec lib)) (s_disk (demo_spool lib env recs)))
      (ListClosed (s_disk (demo_spool lib env recs))))"
  shows "mset (hd_Minutes (bundle_host dc m rs)) = mset (minutes_of recs)" "mset (hd_Spikes (bundle_host dc m rs)) = mset (spikes_of recs)"
    "instances_of recs = vs \<Longrightarrow> length vs \<le> 1 \<Longrightarrow> hd_SQLInv (bundle_host dc m rs) = foldl (\<lambda>m v. put_sql_inventory m (Some v)) [] vs"
proof -
  let ?j = "cd_junk (al_codec lib)" and ?v = "cd_valid (al_codec lib)" and ?d = "s_disk (demo_spool lib env recs)"
  have ok: "disk_ok ?v (al_meta_ts lib) ?d" using demo_spool_holds(2) [OF assms(1,2)] by (simp add: spool_inv_def)
  have kinds: "\<forall>k. \<forall>r \<in> set (closed_log ?j ?v ?d k). dc_kind dc r = Some k"
    using demo_spool_written [OF assms(1,2), of _ ?j] by (auto simp: list_all_iff)
  note L = listed_records [OF ok kinds, unfolded assms(3) [symmetric] demo_spool_holds(3) [OF assms(1,2)]]
  have in_kind: "spike_in dc r \<noteq> None \<Longrightarrow> dc_kind dc r = Some KindSpike"
    "instance_in dc r \<noteq> None \<Longrightarrow> dc_kind dc r = Some KindSQLInventory" for r
    by (simp_all add: spike_in_def instance_in_def split: if_splits)
  note K = L [where f = "minute_in dc", OF minute_in_kind, unfolded read_lines [OF assms(2)]]
    L [where f = "spike_in dc", OF in_kind(1), unfolded read_lines [OF assms(2)]]
    L [where f = "instance_in dc", OF in_kind(2), unfolded read_lines [OF assms(2)]]
  show "mset (hd_Minutes (bundle_host dc m rs)) = mset (minutes_of recs)" "mset (hd_Spikes (bundle_host dc m rs)) = mset (spikes_of recs)"
    using K(1,2) by (simp_all add: bundle_host_minutes bundle_host_parts)
  assume vs: "instances_of recs = vs" "length vs \<le> 1"
  then have "List.map_filter (instance_in dc) rs = vs"
    using K(3) by (cases vs) auto
  then show "hd_SQLInv (bundle_host dc m rs) = foldl (\<lambda>m v. put_sql_inventory m (Some v)) [] vs"
    by (simp add: bundle_host_parts)
qed

lemma day_minutes_sorted: "sorted_wrt (<) (day_minutes q n)"
  by (simp add: day_minutes_def sorted_wrt_map sorted_wrt_iff_nth_less minutes_def)

section \<open>The path\<close>

lemma split_on_final: "c \<notin> set b \<Longrightarrow> split_on c (a @ c # b) = split_on c a @ [b]"
proof -
  assume c: "c \<notin> set b"
  then have "split_on c b = [b]" by (induction b) auto
  then show ?thesis by (induction a) (auto split: list.split)
qed

lemma join_last: "\<exists>pre. concat (map (\<lambda>i. if i = 0 then (out @ [b]) ! i else CHR ''/'' # (out @ [b]) ! i) [0..<length (out @ [b])]) = pre @ b"
  by (cases "out = []") simp_all

lemma clean_path_ends:
  assumes "CHR ''/'' \<notin> set b" "b \<notin> {[], ''.'', ''..''}"
  shows "\<exists>pre. clean_path (if a = [] then b else a @ ''/'' @ b) = pre @ b"
proof -
  define nm where "nm = (if a = [] then b else a @ ''/'' @ b)"
  have b1: "split_on (CHR ''/'') b = [b]" using assms(1) by (induction b) auto
  have "\<exists>ps. split_on (CHR ''/'') nm = ps @ [b]"
    by (cases "a = []") (simp_all add: nm_def b1 split_on_final [OF assms(1)])
  then obtain ps where ps: "split_on (CHR ''/'') nm = ps @ [b]" by blast
  define out where "out = (\<lambda>rooted. foldl (clean_step rooted) [] ps)"
  have f: "foldl (clean_step rooted) [] (split_on (CHR ''/'') nm) = out rooted @ [b]" for rooted
    using assms(2) by (simp add: ps clean_step_def out_def)
  define rooted where "rooted = (nm \<noteq> [] \<and> hd nm = CHR ''/'')"
  have c: "clean_path nm = (if rooted then CHR ''/'' # concat (map (\<lambda>i. if i = 0 then (out rooted @ [b]) ! i else CHR ''/'' # (out rooted @ [b]) ! i) [0..<length (out rooted @ [b])])
      else if out rooted @ [b] = [] then ''.''
      else concat (map (\<lambda>i. if i = 0 then (out rooted @ [b]) ! i else CHR ''/'' # (out rooted @ [b]) ! i) [0..<length (out rooted @ [b])]))"
    by (simp only: clean_path_def Let_def rooted_def [symmetric] f)
  obtain pre where pre: "concat (map (\<lambda>i. if i = 0 then (out rooted @ [b]) ! i else CHR ''/'' # (out rooted @ [b]) ! i) [0..<length (out rooted @ [b])]) = pre @ b"
    using join_last by blast
  have "clean_path nm = (if rooted then CHR ''/'' # pre @ b else pre @ b)"
    unfolding c pre by simp
  then show ?thesis unfolding nm_def [symmetric] by (metis append_Cons)
qed

lemma bundle_path_urab: "slug hid \<Longrightarrow> is_urab (bundle_path outDir hid now)"
proof -
  assume h: "slug hid"
  define b where "b = hid @ ''-'' @ fmt_minute now @ fmt_0d 2 ((now div seconds 1) mod 60) @ ''Z.urab''"
  have "slug (fmt_minute now)" by (simp add: fmt_minute_def slug_def [of "[c]" for c])
  then have "CHR ''/'' \<notin> set b" using h slug_fmt(1) [of 2 "(now div seconds 1) mod 60"] by (auto simp: b_def slug_def)
  moreover have "b \<notin> {[], ''.'', ''..''}" by (auto simp: b_def append_eq_Cons_conv)
  ultimately obtain pre where "bundle_path outDir hid now = pre @ b"
    using clean_path_ends [of b outDir] unfolding bundle_path_def Let_def b_def [symmetric] by blast
  then show ?thesis by (simp add: is_urab_def b_def)
qed

end
