(* ===== verification/SynthDemo.thy ===== *)
theory SynthDemo
  imports SynthFleet
begin

text \<open>
  The verdicts on the demonstration fleet, and the run of one of its hosts for which every hypothesis holds.
\<close>

section \<open>From the generator to the verdict\<close>


section \<open>A run for one host\<close>

text \<open>
  A source that draws zeros, an encoder that writes the index of a record, decoders that look it up, and a
  compressor that does the same with the files of the spool.
\<close>

definition zero_rng :: "unit rng" where
  "zero_rng = \<lparr>rg_seed = (\<lambda>s. ()), rg_float = (\<lambda>g. (0, g)), rg_intn = (\<lambda>n g. (0, g))\<rparr>"

definition case_records :: "telemetry list" where
  "case_records = generated_records zero_rng (\<lambda>x. 0) (hours 240) web_linux_01 (fleet_start (hours 240) 7) (fleet_end (hours 240))"

definition index_of :: "'a list \<Rightarrow> 'a \<Rightarrow> nat" where
  "index_of xs x = length (takeWhile (\<lambda>y. y \<noteq> x) xs)"

definition case_line :: "telemetry \<Rightarrow> string" where
  "case_line t = CHR ''{'' # replicate (index_of case_records t) (CHR ''a'') @ ''}''"

definition case_record :: "string \<Rightarrow> telemetry" where
  "case_record b = case_records ! (length b - 2)"

definition closing :: "string \<Rightarrow> bool" where
  "closing s \<longleftrightarrow> CHR ''}'' \<in> set s"

definition case_lib :: "codec \<Rightarrow> agent_lib" where
  "case_lib c = toy_lib\<lparr>al_encode := (\<lambda>t. Some (case_line t)), al_meta_ts := (\<lambda>b. Some 1), al_codec := c\<rparr>"

definition case_decoders :: decoders where
  "case_decoders = \<lparr>dc_kind = (\<lambda>b. Some (kind_of (case_record b))), dc_inventory = (\<lambda>b. None),
     dc_minute = (\<lambda>b. case case_record b of THostMinute m \<Rightarrow> Some m | _ \<Rightarrow> None),
     dc_spike = (\<lambda>b. case case_record b of TSpike e \<Rightarrow> Some e | _ \<Rightarrow> None), dc_proctop = (\<lambda>b. None), dc_sched = (\<lambda>b. None),
     dc_sqlinv = (\<lambda>b. case case_record b of TSQLInventory v \<Rightarrow> Some v | _ \<Rightarrow> None), dc_sqlsample = (\<lambda>b. None),
     dc_sqlspike = (\<lambda>b. None), dc_health = (\<lambda>b. None)\<rparr>"

definition case_env :: synth_env where
  "case_env = \<lparr>sy_tmp = None, sy_opened = (empty_store, None), sy_append = (\<lambda>k s. o_append calm), sy_flush = o_flush calm,
     sy_close = o_close calm, sy_fails = (\<lambda>st. False), sy_bundle = ''b'', sy_now = hours 240\<rparr>"

definition case_spool :: store where
  "case_spool = demo_spool (case_lib toy_codec) case_env case_records"

definition case_base :: codec where
  "case_base = toy_codec\<lparr>cd_valid := closing,
     cd_gz := (\<lambda>f. replicate (index_of (map snd (dk_closed (s_disk case_spool))) f) (CHR ''g'')),
     cd_ungz := (\<lambda>s. map snd (dk_closed (s_disk case_spool)) ! length s)\<rparr>"

definition case_input :: export_input where
  "case_input = synth_request ''age1'' web_linux_01 (fleet_start (hours 240) 7) (fleet_end (hours 240)) case_records"

definition case_manifest :: manifest where
  "case_manifest = demo_manifest (case_lib case_base) case_env case_input case_records"

definition case_codec :: codec where
  "case_codec = case_base\<lparr>cd_par := (\<lambda>p. Inr case_manifest)\<rparr>"

lemma index_of_nth: "x \<in> set xs \<Longrightarrow> index_of xs x < length xs \<and> xs ! index_of xs x = x"
  by (induction xs) (auto simp: index_of_def)

lemma index_of_le: "index_of xs x \<le> length xs"
  by (simp add: index_of_def length_takeWhile_le)

lemma zero_rng_ok: "rng_ok zero_rng"
proof -
  have "(0 :: f64) < 1" by code_simp
  then show ?thesis by (simp add: rng_ok_def zero_rng_def)
qed

lemma zero_sine: "\<bar>0 :: f64\<bar> \<le> 1"
  by code_simp

lemma case_times: "fleet_start (hours 240) 7 = 3 * hours 24" "fleet_end (hours 240) = 3 * hours 24 + int 7 * hours 24"
  by code_simp+

lemma pred_length:
  assumes "\<not> sh_nightlySpike hs" "\<not> sh_memPressure hs" "sh_sql hs = None"
  shows "pred_state (\<lambda>ts. length ts = length (minutes_of ts) + 3) (host_records R sine now hs start stop)"
  unfolding host_records_def using assms
  by (simp, intro pred_bind [OF pred_any] pred_ret) (simp add: parts_append parts_map parts_Cons)

lemma case_records_length: "length case_records \<le> 10083"
proof -
  have c: "\<not> sh_nightlySpike web_linux_01" "\<not> sh_memPressure web_linux_01" "sh_sql web_linux_01 = None" "0 \<le> sh_ampCPU web_linux_01" by code_simp+
  have "length case_records = length (minutes_of case_records) + 3"
    unfolding case_records_def generated_records_def by (rule pred_state_run_state [OF pred_length [OF c(1-3)]])
  moreover have "fleet_records web_linux_01 (hours 240) 3 7 case_records"
    unfolding case_records_def generated_records_def case_times
    by (rule pred_state_run_state [OF pred_host_records [OF zero_rng_ok _ c(4)]]) (simp_all add: zero_sine)
  then have "length (minutes_of case_records) \<le> 1440 * 7"
    using kept_minutes [of "minutes_of case_records" web_linux_01 3 "1440 * 7" 7] by (simp add: fleet_records_def fleet_minutes_def)
  ultimately show ?thesis by simp
qed

lemma case_line_ok: "t \<in> set case_records \<Longrightarrow> json_record closing (case_line t)"
proof -
  assume t: "t \<in> set case_records"
  let ?r = "case_line t" and ?b = "CHR ''{'' # replicate (index_of case_records t) (CHR ''a'')"
  have r: "?r = ?b @ ''}''" by (simp add: case_line_def)
  have "length ?r < maxToken" using index_of_nth [OF t] case_records_length by (simp add: r maxToken_def)
  moreover have "newline \<notin> set ?r" by (simp add: r newline_def)
  moreover have "trim_space ?r = ?r" by (simp add: r trim_space_def spaces_def)
  moreover have "\<not> closing (trim_space p)" if p: "strict_prefix p ?r" for p
  proof -
    have "prefix p ?r" "p \<noteq> ?r" using p by (simp_all add: strict_prefix_def)
    then have "prefix p ?b" unfolding r using prefix_snoc [of p ?b "CHR ''}''"] by blast
    then have "CHR ''}'' \<notin> set p" using set_mono_prefix [of p ?b] by auto
    moreover have "set (trim_space p) \<subseteq> set p" unfolding trim_space_def by (auto dest!: set_dropWhileD)
    ultimately show ?thesis by (auto simp: closing_def)
  qed
  ultimately show ?thesis by (simp add: json_record_def r closing_def)
qed

lemma case_decodes: "cd_valid c = closing \<Longrightarrow> list_all (record_decodes (case_lib c) case_decoders) case_records"
proof -
  assume c: "cd_valid c = closing"
  have "record_decodes (case_lib c) case_decoders t" if t: "t \<in> set case_records" for t
  proof -
    have "case_record (case_line t) = t" using index_of_nth [OF t] by (simp add: case_record_def case_line_def)
    then show ?thesis using case_line_ok [OF t] c
      by (cases t) (simp_all add: record_decodes_def case_lib_def case_decoders_def rec_ok_def)
  qed
  then show ?thesis by (simp add: list_all_iff)
qed

lemma case_calls: "synth_calls_ok case_env"
  by (simp add: synth_calls_ok_def case_env_def env_ok_def calm_def)

lemma case_spool_any: "demo_spool (case_lib c) case_env case_records = case_spool"
proof -
  have "append_telemetry (case_lib c) = append_telemetry (case_lib toy_codec)"
    by (intro ext) (simp add: append_telemetry_def case_lib_def)
  then show ?thesis by (simp add: case_spool_def demo_spool_def)
qed

text \<open>There are at most as many segments as records.\<close>

lemma length_by_kind:
  "finite K \<Longrightarrow> \<forall>p \<in> set ps. f p \<in> K \<Longrightarrow> length ps = (\<Sum>k\<in>K. length (filter (\<lambda>p. f p = k) ps))"
proof (induction ps)
  case (Cons p ps)
  have "(\<Sum>k\<in>K. length (filter (\<lambda>p. f p = k) (p # ps))) = (\<Sum>k\<in>K. (if f p = k then 1 else 0) + length (filter (\<lambda>p. f p = k) ps))"
    by (intro sum.cong) auto
  then show ?case using Cons by (simp add: sum.distrib)
qed simp

lemma case_segments: "length (dk_closed (s_disk case_spool)) \<le> 10083"
proof -
  let ?lib = "case_lib case_base" and ?d = "s_disk case_spool"
  let ?lg = "closed_log (cd_junk case_base) closing ?d" and ?K = "kind_of ` set case_records"
  have v: "cd_valid case_base = closing" "al_codec ?lib = case_base" by (simp_all add: case_base_def case_lib_def)
  note S = demo_spool_holds [OF case_calls case_decodes [OF v(1)], unfolded case_spool_any v]
  have ok: "disk_ok closing (al_meta_ts ?lib) ?d" using S(2) by (simp add: spool_inv_def)
  have ne: "records_of (cd_junk case_base) closing (the (map_of (dk_closed ?d) (fst p))) \<noteq> []" if "p \<in> set (dk_meta ?d)" for p
    using that ok unfolding disk_ok_def list_all_iff closed_ok_def by force
  have K: "sg_Kind (snd p) \<in> ?K" if p: "p \<in> set (dk_meta ?d)" for p
  proof -
    have "?lg (sg_Kind (snd p)) \<noteq> []" using closed_log_member [OF p] ne [OF p] by (metis hd_in_set empty_iff list.set(1))
    then have "filter (\<lambda>t. kind_of t = sg_Kind (snd p)) case_records \<noteq> []" by (simp add: S(3))
    then show ?thesis by (force simp: filter_empty_conv)
  qed
  have long: "length ps \<le> length (concat (map g ps))" if "\<forall>p \<in> set ps. g p \<noteq> []" for ps :: "(string \<times> segment_info) list" and g :: "_ \<Rightarrow> string list"
    using that
  proof (induction ps)
    case (Cons p ps)
    then have "1 \<le> length (g p)" "length ps \<le> length (concat (map g ps))" by (simp_all add: Suc_le_eq)
    then show ?case by (simp only: list.map concat.simps length_append list.size)
  qed simp
  have "length (dk_meta ?d) = (\<Sum>k\<in>?K. length (filter (\<lambda>p. sg_Kind (snd p) = k) (dk_meta ?d)))"
    using K by (intro length_by_kind) auto
  also have "\<dots> \<le> (\<Sum>k\<in>?K. length (?lg k))"
    using ne by (intro sum_mono) (simp only: closed_log_def, intro long, auto)
  also have "\<dots> = (\<Sum>k\<in>?K. length (filter (\<lambda>t. kind_of t = k) case_records))" by (simp add: S(3))
  also have "\<dots> = length case_records" by (intro length_by_kind [symmetric]) auto
  finally have "length (dk_meta ?d) \<le> 10083" using case_records_length by simp
  moreover have "length (dk_meta ?d) = length (dk_closed ?d)" using ok unfolding disk_ok_def by (metis length_map)
  ultimately show ?thesis by simp
qed

lemma case_manifest_codec: "case_manifest = demo_manifest (case_lib case_codec) case_env case_input case_records"
proof -
  have "add_segment case_codec = add_segment case_base"
    by (intro ext) (simp add: case_codec_def add_segment_def encrypted_segment_def Let_def)
  then show ?thesis unfolding case_manifest_def demo_manifest_def case_spool_any build_manifest_def by (simp add: case_lib_def)
qed

lemma case_export:
  "\<exists>segs. generateHost (case_lib case_codec) zero_rng (\<lambda>x. 0) case_env web_linux_01 ''age1'' ''out'' (fleet_start (hours 240) 7)
     (fleet_end (hours 240)) = Inr (bundle_path ''out'' (sh_id web_linux_01) (hours 240),
       bundle_items case_codec case_input (s_disk case_spool) case_manifest segs)"
proof -
  let ?lib = "case_lib case_codec" and ?s = "foldl (append_telemetry (case_lib case_codec) case_env) empty_store case_records"
  have v: "cd_valid case_codec = closing" "al_codec ?lib = case_codec" by (simp_all add: case_codec_def case_base_def case_lib_def)
  note S = demo_spool_holds [OF case_calls case_decodes [OF v(1)], unfolded case_spool_any v]
  have inv: "TInventory (makeInventory web_linux_01 (fleet_start (hours 240) 7)) \<in> set case_records"
  proof -
    have "pred_state (\<lambda>ts. TInventory (makeInventory hs start) \<in> set ts) (host_records R sine now hs start stop)" for R :: "unit rng" and sine now hs start stop
      unfolding host_records_def by (intro pred_bind [OF pred_any] pred_ret) simp
    from pred_state_run_state [OF this] show ?thesis unfolding case_records_def generated_records_def .
  qed
  then have "filter (\<lambda>t. kind_of t = KindInventory) case_records \<noteq> []" unfolding filter_empty_conv using kind_of.simps(1) by metis
  then have "closed_log (cd_junk case_codec) closing (s_disk case_spool) KindInventory \<noteq> []" by (simp add: S(3))
  from closed_log_listed [OF _ this] have "ListClosed (s_disk case_spool) \<noteq> []" using S(2) unfolding spool_inv_def by blast
  moreover have "first_failure (\<lambda>st. False) st = None" for st by (simp add: first_failure_def)
  ultimately obtain s' where "Export case_codec (Rotate (sy_flush case_env) (sy_close case_env) (sy_now case_env)) (sy_fails case_env) (sy_bundle case_env)
      (sy_now case_env) case_input ?s = (s', Inr (bundle_items case_codec case_input (s_disk case_spool) case_manifest (ListClosed (s_disk case_spool))))"
    unfolding case_manifest_codec demo_manifest_def case_spool_any v
    by (simp add: Export_def S(1) Let_def) (simp add: case_env_def)
  moreover have "generated_records zero_rng (\<lambda>x. 0) (sy_now case_env) web_linux_01 (fleet_start (hours 240) 7) (fleet_end (hours 240)) = case_records"
    by (simp add: case_records_def case_env_def)
  moreover have "sy_tmp case_env = None" "sy_opened case_env = (empty_store, None)" "sy_now case_env = hours 240" by (simp_all add: case_env_def)
  ultimately show ?thesis unfolding generateHost_def v by (simp add: Let_def flip: case_input_def) blast
qed


end
